(* ===== verification/Prelude.thy ===== *)
theory Prelude
  imports Main "HOL-Library.Char_ord" "HOL-Library.List_Lexorder"
begin

text \<open>
  Shared vocabulary of the development: the collections of rewrite rules the component proofs
  use, the table type (a Postgres table is the list of its keyed rows, in insertion order) with
  its row operations, and the lemmas on tables, sums and stable sorting that several components
  need.
\<close>

named_theorems run_simps \<open>how the combinators and statements of a script run\<close>
named_theorems status_simps \<open>the status, role and event vocabularies and their distinctness\<close>
named_theorems inv_intros \<open>one preservation rule per operation\<close>

section \<open>Sums as Go results\<close>

text \<open>A Go call that returns \<open>(value, error)\<close> yields \<open>Inl\<close> of the error or \<open>Inr\<close> of the value.\<close>

definition sum_bind :: "'e + 'a \<Rightarrow> ('a \<Rightarrow> 'e + 'b) \<Rightarrow> 'e + 'b" where
  "sum_bind r k = (case r of Inl e \<Rightarrow> Inl e | Inr a \<Rightarrow> k a)"

lemma sum_bind_simps [simp]:
  "sum_bind (Inl e) k = Inl e"
  "sum_bind (Inr a) k = k a"
  by (simp_all add: sum_bind_def)

lemma sum_bind_eq_Inr [simp]: "sum_bind r k = Inr b \<longleftrightarrow> (\<exists>a. r = Inr a \<and> k a = Inr b)"
  by (cases r) simp_all

section \<open>Tables\<close>

type_synonym ('k, 'r) table = "('k \<times> 'r) list"

definition sel :: "('k, 'r) table \<Rightarrow> 'k \<Rightarrow> 'r option" where
  "sel t k = map_of t k"

definition keys :: "('k, 'r) table \<Rightarrow> 'k set" where
  "keys t = fst ` set t"

definition ins :: "'k \<Rightarrow> 'r \<Rightarrow> ('k, 'r) table \<Rightarrow> ('k, 'r) table" where
  "ins k r t = t @ [(k, r)]"

definition upd :: "'k \<Rightarrow> ('r \<Rightarrow> 'r) \<Rightarrow> ('k, 'r) table \<Rightarrow> ('k, 'r) table" where
  "upd k f t = map (\<lambda>(k', r). if k' = k then (k', f r) else (k', r)) t"

definition upd_all :: "('k \<Rightarrow> bool) \<Rightarrow> ('r \<Rightarrow> 'r) \<Rightarrow> ('k, 'r) table \<Rightarrow> ('k, 'r) table" where
  "upd_all P f t = map (\<lambda>(k, r). if P k then (k, f r) else (k, r)) t"

definition count_rows :: "('r \<Rightarrow> bool) \<Rightarrow> ('k, 'r) table \<Rightarrow> nat" where
  "count_rows P t = length (filter (\<lambda>kr. P (snd kr)) t)"

text \<open>The primary key of a table: no key occurs twice.\<close>

definition pkey :: "('k, 'r) table \<Rightarrow> bool" where
  "pkey t \<longleftrightarrow> distinct (map fst t)"

subsection \<open>Reading after a write\<close>

lemma sel_Nil [simp]: "sel [] k = None"
  by (simp add: sel_def)

lemma sel_Cons [simp]: "sel ((k', r) # t) k = (if k = k' then Some r else sel t k)"
  by (simp add: sel_def)

lemma keys_Nil [simp]: "keys [] = {}"
  by (simp add: keys_def)

lemma keys_Cons [simp]: "keys ((k, r) # t) = insert k (keys t)"
  by (simp add: keys_def)

lemma upd_Nil [simp]: "upd k f [] = []"
  by (simp add: upd_def)

lemma upd_Cons [simp]:
  "upd k f ((k', r) # t) = (if k' = k then (k', f r) else (k', r)) # upd k f t"
  by (simp add: upd_def)

lemma count_rows_Nil [simp]: "count_rows P [] = 0"
  by (simp add: count_rows_def)

lemma count_rows_Cons [simp]:
  "count_rows P ((k, r) # t) = (if P r then Suc (count_rows P t) else count_rows P t)"
  by (simp add: count_rows_def)

lemma sel_None_iff: "sel t k = None \<longleftrightarrow> k \<notin> keys t"
  by (simp add: sel_def keys_def map_of_eq_None_iff)

lemma sel_Some_in: "sel t k = Some r \<Longrightarrow> (k, r) \<in> set t"
  by (simp add: sel_def map_of_SomeD)

lemma sel_Some_keys: "sel t k = Some r \<Longrightarrow> k \<in> keys t"
  using sel_None_iff [of t k] by simp

lemma in_sel: "pkey t \<Longrightarrow> (k, r) \<in> set t \<Longrightarrow> sel t k = Some r"
  by (simp add: sel_def pkey_def)

lemma in_iff_sel: "pkey t \<Longrightarrow> (k, r) \<in> set t \<longleftrightarrow> sel t k = Some r"
  using in_sel sel_Some_in by metis

lemma sel_upd: "sel (upd k f t) k' = (if k' = k then map_option f (sel t k') else sel t k')"
  by (induction t) auto

lemma sel_upd_same [simp]: "sel (upd k f t) k = map_option f (sel t k)"
  by (simp add: sel_upd)

lemma sel_upd_other [simp]: "k' \<noteq> k \<Longrightarrow> sel (upd k f t) k' = sel t k'"
  by (simp add: sel_upd)

lemma sel_upd_None [simp]:
  "sel (upd k f t) k' = None \<longleftrightarrow> sel t k' = None"
  "(\<exists>r. sel (upd k f t) k' = Some r) \<longleftrightarrow> (\<exists>r. sel t k' = Some r)"
  by (auto simp: sel_upd)

lemma sel_upd_all:
  "sel (upd_all P f t) k = (if P k then map_option f (sel t k) else sel t k)"
  by (induction t) (auto simp: upd_all_def)

lemma sel_ins: "sel (ins k r t) k' = (case sel t k' of Some r' \<Rightarrow> Some r' | None \<Rightarrow> if k' = k then Some r else None)"
  by (induction t) (auto simp: ins_def)

lemma sel_ins_other [simp]: "k' \<noteq> k \<Longrightarrow> sel (ins k r t) k' = sel t k'"
  by (simp add: sel_ins split: option.splits)

lemma sel_ins_fresh [simp]: "sel t k = None \<Longrightarrow> sel (ins k r t) k = Some r"
  by (simp add: sel_ins)

lemma keys_ins [simp]: "keys (ins k r t) = insert k (keys t)"
  by (auto simp: keys_def ins_def)

lemma map_fst_upd [simp]: "map fst (upd k f t) = map fst t"
  by (induction t) auto

lemma map_fst_upd_all [simp]: "map fst (upd_all P f t) = map fst t"
  by (induction t) (auto simp: upd_all_def)

lemma keys_alt: "keys t = set (map fst t)"
  by (simp add: keys_def)

lemma keys_upd [simp]: "keys (upd k f t) = keys t"
  by (simp only: keys_alt map_fst_upd)

lemma keys_upd_all [simp]: "keys (upd_all P f t) = keys t"
  by (simp only: keys_alt map_fst_upd_all)

lemma pkey_upd [simp]: "pkey (upd k f t) = pkey t"
  by (simp add: pkey_def)

lemma pkey_upd_all [simp]: "pkey (upd_all P f t) = pkey t"
  by (simp add: pkey_def)

lemma pkey_ins: "pkey t \<Longrightarrow> sel t k = None \<Longrightarrow> pkey (ins k r t)"
  by (auto simp: pkey_def ins_def sel_None_iff keys_def)

lemma pkey_Nil [simp]: "pkey []"
  by (simp add: pkey_def)

lemma upd_all_none [simp]: "upd_all (\<lambda>k. False) f t = t"
  by (induction t) (auto simp: upd_all_def)

subsection \<open>Rows of an updated table\<close>

lemma in_upd:
  "pkey t \<Longrightarrow> (k', r') \<in> set (upd k f t) \<longleftrightarrow>
     (if k' = k then \<exists>r. sel t k = Some r \<and> r' = f r else sel t k' = Some r')"
  by (auto simp: in_iff_sel [of "upd k f t"] sel_upd)

lemma in_ins: "(k', r') \<in> set (ins k r t) \<longleftrightarrow> (k', r') \<in> set t \<or> (k' = k \<and> r' = r)"
  by (auto simp: ins_def)

lemma upd_absent: "sel t k = None \<Longrightarrow> upd k f t = t"
  by (induction t) (auto split: if_splits)

lemma upd_id: "(\<And>r. sel t k = Some r \<Longrightarrow> f r = r) \<Longrightarrow> pkey t \<Longrightarrow> upd k f t = t"
proof (induction t)
  case Nil
  then show ?case by simp
next
  case (Cons kr t)
  obtain k' r where kr: "kr = (k', r)" by (cases kr)
  show ?case
  proof (cases "k' = k")
    case True
    with Cons.prems kr have "sel t k = None"
      by (auto simp: pkey_def sel_None_iff keys_def image_iff)
    then show ?thesis using True Cons.prems(1) [of r] kr by (simp add: upd_absent)
  next
    case False
    with Cons.prems kr have "upd k f t = t"
      by (intro Cons.IH) (auto simp: pkey_def)
    with False kr show ?thesis by simp
  qed
qed

lemma count_rows_ins [simp]:
  "count_rows P (ins k r t) = count_rows P t + (if P r then 1 else 0)"
  by (simp add: count_rows_def ins_def)

lemma count_rows_zero: "count_rows P t = 0 \<longleftrightarrow> (\<forall>(k, r) \<in> set t. \<not> P r)"
  by (auto simp: count_rows_def filter_empty_conv)

lemma count_rows_pos: "0 < count_rows P t \<longleftrightarrow> (\<exists>(k, r) \<in> set t. P r)"
  using count_rows_zero [of P t] by (auto simp: neq0_conv [symmetric] simp del: neq0_conv)

text \<open>What one row update does to the number of rows that satisfy a predicate.\<close>

lemma count_rows_upd:
  assumes "pkey t" and "sel t k = Some r"
  shows "count_rows P (upd k f t) + (if P r then 1 else 0)
       = count_rows P t + (if P (f r) then 1 else 0)"
  using assms
proof (induction t)
  case Nil
  then show ?case by simp
next
  case (Cons kr t)
  obtain k' r' where kr: "kr = (k', r')" by (cases kr)
  show ?case
  proof (cases "k' = k")
    case True
    with Cons.prems kr have "sel t k = None" and "r' = r"
      by (auto simp: pkey_def sel_None_iff keys_def image_iff)
    with True kr show ?thesis by (simp add: upd_absent)
  next
    case False
    with Cons.prems kr
    have "count_rows P (upd k f t) + (if P r then 1 else 0)
        = count_rows P t + (if P (f r) then 1 else 0)"
      by (intro Cons.IH) (auto simp: pkey_def)
    with False kr show ?thesis by auto
  qed
qed

text \<open>The sum of a column over the rows that satisfy a predicate.\<close>

definition sum_rows :: "('r \<Rightarrow> bool) \<Rightarrow> ('r \<Rightarrow> int) \<Rightarrow> ('k, 'r) table \<Rightarrow> int" where
  "sum_rows P f t = sum_list (map (\<lambda>kr. if P (snd kr) then f (snd kr) else 0) t)"

lemma sum_rows_Nil [simp]: "sum_rows P f [] = 0"
  by (simp add: sum_rows_def)

lemma sum_rows_Cons [simp]:
  "sum_rows P f ((k, r) # t) = (if P r then f r else 0) + sum_rows P f t"
  by (simp add: sum_rows_def)

lemma sum_rows_ins [simp]:
  "sum_rows P f (ins k r t) = sum_rows P f t + (if P r then f r else 0)"
  by (simp add: sum_rows_def ins_def)

lemma sum_rows_upd:
  assumes "pkey t" and "sel t k = Some r"
  shows "sum_rows P f (upd k g t)
       = sum_rows P f t - (if P r then f r else 0) + (if P (g r) then f (g r) else 0)"
  using assms
proof (induction t)
  case Nil
  then show ?case by simp
next
  case (Cons kr t)
  obtain k' r' where kr: "kr = (k', r')" by (cases kr)
  show ?case
  proof (cases "k' = k")
    case True
    with Cons.prems kr have "sel t k = None" and "r' = r"
      by (auto simp: pkey_def sel_None_iff keys_def image_iff)
    with True kr show ?thesis by (simp add: upd_absent)
  next
    case False
    with Cons.prems kr
    have "sum_rows P f (upd k g t)
        = sum_rows P f t - (if P r then f r else 0) + (if P (g r) then f (g r) else 0)"
      by (intro Cons.IH) (auto simp: pkey_def)
    with False kr show ?thesis by auto
  qed
qed

lemma sum_rows_nonneg: "(\<And>k r. (k, r) \<in> set t \<Longrightarrow> P r \<Longrightarrow> 0 \<le> f r) \<Longrightarrow> 0 \<le> sum_rows P f t"
  unfolding sum_rows_def by (rule sum_list_nonneg) auto

lemma sum_rows_cong:
  "(\<And>k r. (k, r) \<in> set t \<Longrightarrow> (P r \<longleftrightarrow> Q r) \<and> (Q r \<longrightarrow> f r = g r)) \<Longrightarrow> sum_rows P f t = sum_rows Q g t"
  unfolding sum_rows_def by (rule arg_cong [where f = sum_list], rule map_cong) force+

lemma sum_rows_between:
  "(\<And>r. lo \<le> f r \<and> f r \<le> hi) \<Longrightarrow>
     lo * int (count_rows P t) \<le> sum_rows P f t \<and> sum_rows P f t \<le> hi * int (count_rows P t)"
proof (induction t)
  case (Cons kr t)
  obtain k r where kr: "kr = (k, r)" by (cases kr)
  show ?case using Cons.IH [OF Cons.prems] Cons.prems [of r] by (auto simp: kr algebra_simps)
qed simp

text \<open>A total over the rows that falls by at least one on every row of a set of keys.\<close>

lemma total_drops:
  fixes cost :: "'r \<Rightarrow> int"
  assumes "map fst t' = map fst t" and "pkey t"
    and "\<And>k r r'. sel t k = Some r \<Longrightarrow> sel t' k = Some r' \<Longrightarrow> cost r' + (if k \<in> C then 1 else 0) \<le> cost r"
  shows "sum_rows (\<lambda>r. True) cost t' + int (card (C \<inter> keys t)) \<le> sum_rows (\<lambda>r. True) cost t"
  using assms
proof (induction t arbitrary: t')
  case Nil
  then show ?case by simp
next
  case (Cons kr t)
  obtain k r where kr: "kr = (k, r)" by (cases kr)
  with Cons.prems(1) obtain r' u where t': "t' = (k, r') # u" and u: "map fst u = map fst t"
    by (cases t') auto
  have fresh: "k \<notin> keys t" and p: "pkey t" using Cons.prems(2) kr by (auto simp: pkey_def keys_def)
  have "keys u = keys t" using u by (simp add: keys_alt)
  have "sum_rows (\<lambda>r. True) cost u + int (card (C \<inter> keys t)) \<le> sum_rows (\<lambda>r. True) cost t"
  proof (rule Cons.IH [OF u p])
    fix k1 r1 r1' assume a: "sel t k1 = Some r1" "sel u k1 = Some r1'"
    then have "k1 \<noteq> k" using fresh sel_Some_keys [of t k1 r1] by auto
    with a kr t' show "cost r1' + (if k1 \<in> C then 1 else 0) \<le> cost r1"
      using Cons.prems(3) [of k1 r1 r1'] by simp
  qed
  moreover have "cost r' + (if k \<in> C then 1 else 0) \<le> cost r"
    using Cons.prems(3) [of k r r'] kr t' by simp
  moreover have "card (C \<inter> insert k (keys t)) = (if k \<in> C then Suc (card (C \<inter> keys t)) else card (C \<inter> keys t))"
    using fresh by (auto simp: keys_def)
  ultimately show ?case using kr t' by (auto split: if_splits)
qed

section \<open>Pagination and best-first order\<close>

definition page :: "nat \<Rightarrow> nat \<Rightarrow> 'a list \<Rightarrow> 'a list" where
  "page limit offset xs = take limit (drop offset xs)"

lemma length_page: "length (page limit offset xs) \<le> limit"
  by (simp add: page_def)

lemma set_page: "set (page limit offset xs) \<subseteq> set xs"
  unfolding page_def by (meson order_trans set_drop_subset set_take_subset)

end
