(* ===== verification/Go_Float.thy ===== *)
theory Go_Float
  imports Prelude Complex_Main
begin

text \<open>
  Go's \<open>float64\<close>: IEEE 754 binary64 with its not-a-number and infinities, comparisons that are
  false on a NaN, and arithmetic that rounds the exact result to 53 significant bits, ties to
  even. The one thing left out is the sign of zero: the code never divides by a computed zero.
  Results are those of separately rounded operations (no fused multiply-add).
\<close>

datatype float64 = NaN | NegInf | PosInf | Fin real

section \<open>Comparisons\<close>

fun f_lt :: "float64 \<Rightarrow> float64 \<Rightarrow> bool" where
  "f_lt (Fin x) (Fin y) = (x < y)"
| "f_lt NegInf PosInf = True"
| "f_lt NegInf (Fin y) = True"
| "f_lt (Fin x) PosInf = True"
| "f_lt _ _ = False"

fun f_eq :: "float64 \<Rightarrow> float64 \<Rightarrow> bool" where
  "f_eq (Fin x) (Fin y) = (x = y)"
| "f_eq NegInf NegInf = True"
| "f_eq PosInf PosInf = True"
| "f_eq _ _ = False"

definition f_gt :: "float64 \<Rightarrow> float64 \<Rightarrow> bool" where
  "f_gt x y = f_lt y x"

definition f_le :: "float64 \<Rightarrow> float64 \<Rightarrow> bool" where
  "f_le x y = (f_lt x y \<or> f_eq x y)"

lemma f_lt_NaN [simp]: "\<not> f_lt NaN x" "\<not> f_lt x NaN"
  by (cases x; simp)+

lemma f_gt_simps [simp]:
  "f_gt (Fin x) (Fin y) = (x > y)"
  "\<not> f_gt NaN z" "\<not> f_gt z NaN"
  "f_gt PosInf (Fin y)" "\<not> f_gt NegInf (Fin y)"
  by (simp_all add: f_gt_def)

lemma f_le_Fin [simp]: "f_le (Fin x) (Fin y) = (x \<le> y)"
  by (auto simp: f_le_def)

lemma f_lt_irrefl [simp]: "\<not> f_lt x x"
  by (cases x) auto

lemma f_lt_trans: "f_lt x y \<Longrightarrow> f_lt y z \<Longrightarrow> f_lt x z"
  by (cases x; cases y; cases z) auto

definition finite64 :: "float64 \<Rightarrow> bool" where
  "finite64 x = (case x of Fin _ \<Rightarrow> True | _ \<Rightarrow> False)"

section \<open>Rounding\<close>

text \<open>Round to the nearest integer, a tie to the even one.\<close>

definition rne :: "real \<Rightarrow> int" where
  "rne x = (let d = x - real_of_int \<lfloor>x\<rfloor> in
     if d < 1/2 then \<lfloor>x\<rfloor> else if 1/2 < d then \<lfloor>x\<rfloor> + 1
     else if even \<lfloor>x\<rfloor> then \<lfloor>x\<rfloor> else \<lfloor>x\<rfloor> + 1)"

text \<open>The exponent of the last significant bit of a number of this size.\<close>

definition ulp_exp :: "real \<Rightarrow> int" where
  "ulp_exp x = (if x = 0 then -1074 else max (\<lfloor>log 2 \<bar>x\<bar>\<rfloor> - 52) (-1074))"

definition rnd :: "real \<Rightarrow> real" where
  "rnd x = real_of_int (rne (x / 2 powi ulp_exp x)) * 2 powi ulp_exp x"

definition round64 :: "real \<Rightarrow> float64" where
  "round64 x = (let r = rnd x in
     if 2 ^ 1024 \<le> r then PosInf else if r \<le> - (2 ^ 1024) then NegInf else Fin r)"

lemma rne_of_int [simp]: "rne (real_of_int n) = n"
  by (simp add: rne_def)

lemma rne_near: "\<bar>real_of_int (rne x) - x\<bar> \<le> 1/2"
  unfolding rne_def Let_def by (auto split: if_splits)

lemma rne_mono: "x \<le> y \<Longrightarrow> rne x \<le> rne y"
proof -
  assume le: "x \<le> y"
  then have fl: "\<lfloor>x\<rfloor> \<le> \<lfloor>y\<rfloor>" by (rule floor_mono)
  have up: "rne z \<le> \<lfloor>z\<rfloor> + 1" "\<lfloor>z\<rfloor> \<le> rne z" for z
    by (simp_all add: rne_def Let_def)
  show ?thesis
  proof (cases "\<lfloor>x\<rfloor> = \<lfloor>y\<rfloor>")
    case True
    with le show ?thesis by (auto simp: rne_def Let_def)
  next
    case False
    with fl up [of x] up [of y] show ?thesis by linarith
  qed
qed

lemma rne_minus: "rne (- x) = - rne x"
proof -
  let ?f = "\<lfloor>x\<rfloor>"
  have fx: "real_of_int ?f \<le> x" "x < real_of_int ?f + 1" by linarith+
  show ?thesis
  proof (cases "x = real_of_int ?f")
    case True
    then have "rne x = ?f" "rne (- x) = - ?f"
      by (metis rne_of_int) (metis True of_int_minus rne_of_int)
    then show ?thesis by simp
  next
    case False
    with fx have "\<lfloor>- x\<rfloor> = - ?f - 1" by linarith
    then show ?thesis using fx False by (auto simp: rne_def Let_def)
  qed
qed

lemma ulp_exp_minus [simp]: "ulp_exp (- x) = ulp_exp x"
  by (simp add: ulp_exp_def)

lemma rnd_minus: "rnd (- x) = - rnd x"
  by (simp add: rnd_def rne_minus)

lemma rnd_0 [simp]: "rnd 0 = 0"
proof -
  have "rne (0::real) = 0" using rne_of_int [of 0] by simp
  then show ?thesis by (simp add: rnd_def)
qed

lemma powi_pos [simp]: "0 < (2::real) powi n"
  by simp

lemma powi_log: "0 < x \<Longrightarrow> \<lfloor>log 2 x\<rfloor> = k \<longleftrightarrow> 2 powi k \<le> x \<and> x < 2 powi (k + 1)"
proof -
  assume x: "0 < x"
  have p: "2 powr real_of_int n = (2::real) powi n" for n
    by (simp add: powr_real_of_int')
  have "\<lfloor>log 2 x\<rfloor> = k \<longleftrightarrow> real_of_int k \<le> log 2 x \<and> log 2 x < real_of_int (k + 1)"
    by (simp add: floor_eq_iff)
  also have "\<dots> \<longleftrightarrow> 2 powr real_of_int k \<le> x \<and> x < 2 powr real_of_int (k + 1)"
    using x by (simp add: le_log_iff log_less_iff)
  finally show ?thesis by (simp only: p)
qed

lemma powi_mono: "m \<le> n \<Longrightarrow> (2::real) powi m \<le> 2 powi n"
  by (simp add: power_int_increasing)

lemma powi_less: "(2::real) powi m < 2 powi n \<Longrightarrow> m < n"
  using powi_mono [of n m] by (cases "n \<le> m") auto

lemma powi_split: "m \<le> n \<Longrightarrow> (2::real) powi n = real_of_int (2 ^ nat (n - m)) * 2 powi m"
  by (simp add: power_int_add [symmetric] flip: power_int_of_nat)

lemma ulp_exp_mono: "0 < x \<Longrightarrow> x \<le> y \<Longrightarrow> ulp_exp x \<le> ulp_exp y"
proof -
  assume "0 < x" "x \<le> y"
  then have "\<lfloor>log 2 x\<rfloor> \<le> \<lfloor>log 2 y\<rfloor>" by (intro floor_mono) simp
  with \<open>0 < x\<close> \<open>x \<le> y\<close> show ?thesis by (simp add: ulp_exp_def)
qed

text \<open>A multiple of the last bit's weight is not changed by rounding.\<close>

lemma rnd_exact: "x = real_of_int m * 2 powi ulp_exp x \<Longrightarrow> rnd x = x"
proof -
  assume x: "x = real_of_int m * 2 powi ulp_exp x"
  have nz: "(2::real) powi ulp_exp x \<noteq> 0" by simp
  have "x / 2 powi ulp_exp x = real_of_int m"
    by (metis nz nonzero_mult_div_cancel_right x)
  then have "rnd x = real_of_int m * 2 powi ulp_exp x" by (simp add: rnd_def)
  with x show ?thesis by simp
qed

lemma rnd_near: "\<bar>rnd x - x\<bar> \<le> 2 powi ulp_exp x / 2"
proof -
  let ?u = "(2::real) powi ulp_exp x"
  have "rnd x - x = (real_of_int (rne (x / ?u)) - x / ?u) * ?u"
    by (simp add: rnd_def field_simps)
  then have "\<bar>rnd x - x\<bar> = \<bar>real_of_int (rne (x / ?u)) - x / ?u\<bar> * ?u"
    by (simp add: abs_mult)
  also have "\<dots> \<le> 1/2 * ?u"
    by (rule mult_right_mono [OF rne_near]) simp
  finally show ?thesis by simp
qed

lemma rnd_nonneg: "0 \<le> x \<Longrightarrow> 0 \<le> rnd x"
proof -
  assume "0 \<le> x"
  then have "rne 0 \<le> rne (x / 2 powi ulp_exp x)" by (intro rne_mono) simp
  moreover have "rne (0::real) = 0" using rne_of_int [of 0] by simp
  ultimately show ?thesis by (simp add: rnd_def)
qed

text \<open>Powers of two are exact, and rounding never crosses one.\<close>

lemma ulp_exp_powi: "ulp_exp (2 powi k) = max (k - 52) (-1074)"
proof -
  have "\<lfloor>log 2 (2 powi k)\<rfloor> = k"
    using powi_log [of "2 powi k" k] by (simp add: power_int_strict_increasing)
  then show ?thesis by (simp add: ulp_exp_def)
qed

lemma rnd_powi: "-1074 \<le> k \<Longrightarrow> rnd (2 powi k) = 2 powi k"
proof -
  assume k: "-1074 \<le> k"
  have "ulp_exp (2 powi k) \<le> k" using k by (simp add: ulp_exp_powi)
  from powi_split [OF this] show ?thesis by (rule rnd_exact)
qed

lemma rnd_1 [simp]: "rnd 1 = 1"
  using rnd_powi [of 0] by simp

lemma rnd_le_powi:
  assumes "0 < x" and "x < 2 powi k" and "ulp_exp x \<le> k"
  shows "rnd x \<le> 2 powi k"
proof -
  let ?u = "(2::real) powi ulp_exp x"
  let ?m = "2 ^ nat (k - ulp_exp x) :: int"
  have k: "2 powi k = real_of_int ?m * ?u" using powi_split [OF assms(3)] .
  have "x / ?u \<le> real_of_int ?m" using assms(2) k by (simp add: divide_le_eq)
  then have "rne (x / ?u) \<le> ?m" using rne_mono rne_of_int by metis
  then have "real_of_int (rne (x / ?u)) * ?u \<le> real_of_int ?m * ?u"
    by (intro mult_right_mono) simp_all
  with k show ?thesis by (simp add: rnd_def)
qed

lemma rnd_ge_powi:
  assumes "2 powi k \<le> x" and "ulp_exp x \<le> k"
  shows "2 powi k \<le> rnd x"
proof -
  let ?u = "(2::real) powi ulp_exp x"
  let ?m = "2 ^ nat (k - ulp_exp x) :: int"
  have k: "2 powi k = real_of_int ?m * ?u" using powi_split [OF assms(2)] .
  have "real_of_int ?m \<le> x / ?u" using assms(1) k by (simp add: le_divide_eq)
  then have "?m \<le> rne (x / ?u)" using rne_mono rne_of_int by metis
  then have "real_of_int ?m * ?u \<le> real_of_int (rne (x / ?u)) * ?u"
    by (intro mult_right_mono) simp_all
  with k show ?thesis by (simp add: rnd_def)
qed

lemma rnd_mono_pos:
  assumes "0 < x" and "x \<le> y"
  shows "rnd x \<le> rnd y"
proof (cases "ulp_exp x = ulp_exp y")
  case True
  then show ?thesis using assms(2)
    by (simp add: rnd_def rne_mono divide_right_mono mult_right_mono)
next
  case False
  define k where "k = \<lfloor>log 2 y\<rfloor>"
  have y: "0 < y" using assms by simp
  have lt: "ulp_exp x < ulp_exp y" using False ulp_exp_mono [OF assms] by simp
  have uy: "ulp_exp y = max (k - 52) (-1074)" using y by (simp add: ulp_exp_def k_def)
  have ux: "ulp_exp x = max (\<lfloor>log 2 x\<rfloor> - 52) (-1074)" using assms by (simp add: ulp_exp_def)
  have k: "2 powi k \<le> y" using powi_log [OF y, of k] by (simp add: k_def)
  have "\<lfloor>log 2 x\<rfloor> < k" using lt ux uy by linarith
  then have "(2::real) powi (\<lfloor>log 2 x\<rfloor> + 1) \<le> 2 powi k" by (intro powi_mono) simp
  then have "x < 2 powi k" using powi_log [OF assms(1), of "\<lfloor>log 2 x\<rfloor>"] by simp
  moreover have "ulp_exp x \<le> k" "ulp_exp y \<le> k" using lt uy ux by linarith+
  ultimately have "rnd x \<le> 2 powi k" "2 powi k \<le> rnd y"
    using rnd_le_powi [OF assms(1)] rnd_ge_powi [OF k] by blast+
  then show ?thesis by simp
qed

lemma rnd_mono: "x \<le> y \<Longrightarrow> rnd x \<le> rnd y"
proof -
  assume le: "x \<le> y"
  consider "0 < x" | "x \<le> 0" "0 \<le> y" | "y < 0" by linarith
  then show ?thesis
  proof cases
    case 1
    then show ?thesis using rnd_mono_pos le by blast
  next
    case 2
    then have "0 \<le> rnd y" "0 \<le> rnd (- x)" by (auto intro: rnd_nonneg)
    then show ?thesis by (simp add: rnd_minus)
  next
    case 3
    then have "rnd (- y) \<le> rnd (- x)" using le by (intro rnd_mono_pos) auto
    then show ?thesis by (simp add: rnd_minus)
  qed
qed

text \<open>Just above one: half a unit in the last place still rounds down to one.\<close>

lemma rnd_le_1: "x \<le> 1 + 2 powi (-53) \<Longrightarrow> rnd x \<le> 1"
proof -
  let ?y = "1 + 2 powi (-53) :: real"
  assume "x \<le> ?y"
  then have "rnd x \<le> rnd ?y" by (rule rnd_mono)
  moreover have "rnd ?y = 1"
  proof -
    have "0 < ?y" "2 powi 0 \<le> ?y" "?y < 2 powi (0 + 1)"
      by (simp_all add: power_int_def power_one_over)
    then have "?y \<noteq> 0" "\<lfloor>log 2 \<bar>?y\<bar>\<rfloor> = 0" using powi_log by force+
    then have u: "ulp_exp ?y = -52" by (simp only: ulp_exp_def) simp
    have "?y / 2 powi (-52) = real_of_int (2 ^ 52) + 1/2"
      by (simp add: power_int_def field_simps)
    moreover have "\<lfloor>real_of_int (2 ^ 52) + 1/2\<rfloor> = 2 ^ 52" by linarith
    ultimately have "rne (?y / 2 powi (-52)) = 2 ^ 52"
      by (simp add: rne_def)
    then have "rnd ?y = real_of_int (2 ^ 52) * 2 powi (-52)" by (simp only: rnd_def u)
    then show ?thesis by (simp add: power_int_def power_one_over)
  qed
  ultimately show ?thesis by simp
qed

section \<open>Arithmetic\<close>

fun f_neg :: "float64 \<Rightarrow> float64" where
  "f_neg NaN = NaN"
| "f_neg NegInf = PosInf"
| "f_neg PosInf = NegInf"
| "f_neg (Fin x) = Fin (- x)"

fun f_add :: "float64 \<Rightarrow> float64 \<Rightarrow> float64" where
  "f_add (Fin x) (Fin y) = round64 (x + y)"
| "f_add (Fin x) z = z"
| "f_add z (Fin y) = z"
| "f_add PosInf PosInf = PosInf"
| "f_add NegInf NegInf = NegInf"
| "f_add _ _ = NaN"

definition f_sub :: "float64 \<Rightarrow> float64 \<Rightarrow> float64" where
  "f_sub x y = f_add x (f_neg y)"

definition inf_of_sign :: "real \<Rightarrow> float64" where
  "inf_of_sign s = (if s = 0 then NaN else if 0 < s then PosInf else NegInf)"

fun f_mul :: "float64 \<Rightarrow> float64 \<Rightarrow> float64" where
  "f_mul (Fin x) (Fin y) = round64 (x * y)"
| "f_mul NaN _ = NaN"
| "f_mul _ NaN = NaN"
| "f_mul (Fin x) PosInf = inf_of_sign x"
| "f_mul (Fin x) NegInf = inf_of_sign (- x)"
| "f_mul PosInf (Fin y) = inf_of_sign y"
| "f_mul NegInf (Fin y) = inf_of_sign (- y)"
| "f_mul PosInf PosInf = PosInf"
| "f_mul NegInf NegInf = PosInf"
| "f_mul PosInf NegInf = NegInf"
| "f_mul NegInf PosInf = NegInf"

fun f_div :: "float64 \<Rightarrow> float64 \<Rightarrow> float64" where
  "f_div (Fin x) (Fin y) = (if y = 0 then inf_of_sign x else round64 (x / y))"
| "f_div NaN _ = NaN"
| "f_div _ NaN = NaN"
| "f_div (Fin x) _ = Fin 0"
| "f_div PosInf (Fin y) = (if y < 0 then NegInf else PosInf)"
| "f_div NegInf (Fin y) = (if y < 0 then PosInf else NegInf)"
| "f_div _ _ = NaN"

text \<open>A literal of the source is rounded when it becomes a \<open>float64\<close>; an \<open>int\<close> converts the same way.\<close>

definition lit :: "real \<Rightarrow> float64" where
  "lit x = round64 x"

definition f_of_int :: "int \<Rightarrow> float64" where
  "f_of_int n = round64 (real_of_int n)"

lemma round64_small: "\<bar>x\<bar> \<le> 2 powi 1000 \<Longrightarrow> round64 x = Fin (rnd x)"
proof -
  assume a: "\<bar>x\<bar> \<le> 2 powi 1000"
  have b: "(2::real) powi 1000 < 2 ^ 1024" by (simp add: power_int_def)
  have "rnd x \<le> rnd (2 powi 1000)" "rnd (- (2 powi 1000)) \<le> rnd x"
    using a by (auto intro!: rnd_mono)
  then have "rnd x \<le> 2 powi 1000" "- (2 powi 1000) \<le> rnd x"
    using rnd_powi [of 1000] by (simp_all add: rnd_minus)
  with b show ?thesis by (simp add: round64_def)
qed

section \<open>Which numbers are exact\<close>

lemma rnd_multiple:
  assumes "x = real_of_int m * 2 powi e" and "ulp_exp x \<le> e"
  shows "rnd x = x"
proof (rule rnd_exact [of _ "m * 2 ^ nat (e - ulp_exp x)"])
  show "x = real_of_int (m * 2 ^ nat (e - ulp_exp x)) * 2 powi ulp_exp x"
    using assms powi_split [OF assms(2)] by simp
qed

text \<open>Rounding a second time changes nothing: a result of the arithmetic is a \<open>float64\<close>.\<close>

lemma rnd_idem [simp]: "rnd (rnd x) = rnd x"
proof -
  have pos: "rnd (rnd x) = rnd x" if x: "0 < x" for x :: real
  proof -
    define k where "k = \<lfloor>log 2 x\<rfloor>"
    have k: "2 powi k \<le> x" "x < 2 powi (k + 1)" using powi_log [OF x, of k] by (auto simp: k_def)
    have u: "ulp_exp x = max (k - 52) (-1074)" using x by (simp add: ulp_exp_def k_def)
    show ?thesis
    proof (cases "ulp_exp (rnd x) \<le> ulp_exp x")
      case True
      then show ?thesis by (intro rnd_multiple [of _ _ "ulp_exp x"]) (simp_all add: rnd_def [of x])
    next
      case False
      then have nz: "rnd x \<noteq> 0" using u by (auto simp: ulp_exp_def)
      have y: "0 < rnd x" using rnd_nonneg [of x] x nz by simp
      have k1: "-1074 \<le> k + 1"
      proof (rule ccontr)
        assume n: "\<not> -1074 \<le> k + 1"
        then have "x < 2 powi (-1074)" using k(2) powi_mono [of "k + 1" "-1074"] by linarith
        then have "rnd x \<le> 2 powi (-1074)" using x u n by (intro rnd_le_powi) auto
        then have "ulp_exp (rnd x) \<le> ulp_exp (2 powi (-1074))" by (rule ulp_exp_mono [OF y])
        with False u n show False unfolding ulp_exp_powi by simp
      qed
      have "ulp_exp x \<le> k + 1" using u k1 by auto
      then have "rnd x \<le> 2 powi (k + 1)" using rnd_le_powi [OF x k(2)] by simp
      moreover have "2 powi (k + 1) \<le> rnd x"
      proof (rule ccontr)
        assume "\<not> 2 powi (k + 1) \<le> rnd x"
        then have "ulp_exp (rnd x) \<le> ulp_exp (2 powi k)"
        proof -
          from y have "2 powi \<lfloor>log 2 (rnd x)\<rfloor> \<le> rnd x" using powi_log by blast
          with \<open>\<not> 2 powi (k + 1) \<le> rnd x\<close> have "(2::real) powi \<lfloor>log 2 (rnd x)\<rfloor> < 2 powi (k + 1)" by linarith
          then have "\<lfloor>log 2 (rnd x)\<rfloor> < k + 1" by (rule powi_less)
          with y show ?thesis by (simp add: ulp_exp_powi) (simp add: ulp_exp_def)
        qed
        with False u show False by (simp add: ulp_exp_powi)
      qed
      ultimately have "rnd x = 2 powi (k + 1)" by simp
      with rnd_powi [OF k1] show ?thesis by simp
    qed
  qed
  consider "x = 0" | "0 < x" | "x < 0" by linarith
  then show ?thesis
  proof cases
    case 3
    then have "rnd (rnd (- x)) = rnd (- x)" by (intro pos) simp
    then show ?thesis by (simp add: rnd_minus)
  qed (simp_all add: pos)
qed

lemma rnd_calc:
  assumes "2 powi k \<le> x" and "x < 2 powi (k + 1)" and "-1022 \<le> k"
  shows "rnd x = real_of_int (rne (x / 2 powi (k - 52))) * 2 powi (k - 52)"
proof -
  have x: "0 < x" using assms(1) powi_pos [of k] by linarith
  then have "ulp_exp x = k - 52" using powi_log [OF x, of k] assms by (simp add: ulp_exp_def)
  then show ?thesis by (simp only: rnd_def)
qed

text \<open>Integers up to 53 bits are exact.\<close>

lemma rnd_of_int: "\<bar>n\<bar> < 2 ^ 53 \<Longrightarrow> rnd (real_of_int n) = real_of_int n"
proof -
  have pos: "rnd (real_of_int n) = real_of_int n" if "0 < n" "n < 2 ^ 53" for n :: int
  proof (rule rnd_multiple [of _ n 0])
    have n: "real_of_int n < 2 powi 53"
    proof -
      have "real_of_int n < real_of_int (2 ^ 53)" using that(2) by (simp only: of_int_less_iff)
      then show ?thesis by (simp add: power_int_def)
    qed
    have "2 powi \<lfloor>log 2 (real_of_int n)\<rfloor> \<le> real_of_int n" 
      using powi_log [of "real_of_int n", THEN iffD1, OF _ refl] that(1) by simp
    with n have "(2::real) powi \<lfloor>log 2 (real_of_int n)\<rfloor> < 2 powi 53" by linarith
    then have "\<lfloor>log 2 (real_of_int n)\<rfloor> < 53" by (rule powi_less)
    with that(1) show "ulp_exp (real_of_int n) \<le> 0" by (simp add: ulp_exp_def)
  qed simp
  assume "\<bar>n\<bar> < 2 ^ 53"
  consider "n = 0" | "0 < n" | "n < 0" by linarith
  then show "rnd (real_of_int n) = real_of_int n"
  proof cases
    case 3
    with \<open>\<bar>n\<bar> < 2 ^ 53\<close> have "rnd (real_of_int (- n)) = real_of_int (- n)" by (intro pos) auto
    then show ?thesis by (simp add: rnd_minus)
  qed (use \<open>\<bar>n\<bar> < 2 ^ 53\<close> pos in auto)
qed

lemma rnd_numeral [simp]: "numeral n < (2 ^ 53 :: int) \<Longrightarrow> rnd (numeral n) = numeral n"
  using rnd_of_int [of "numeral n"] by simp

lemma rnd_le_of_int: "x \<le> real_of_int n \<Longrightarrow> \<bar>n\<bar> < 2 ^ 53 \<Longrightarrow> rnd x \<le> real_of_int n"
  using rnd_mono [of x "real_of_int n"] rnd_of_int [of n] by simp

lemma rnd_ge_of_int: "real_of_int n \<le> x \<Longrightarrow> \<bar>n\<bar> < 2 ^ 53 \<Longrightarrow> real_of_int n \<le> rnd x"
  using rnd_mono [of "real_of_int n" x] rnd_of_int [of n] by simp

text \<open>The conversion of a \<open>float64\<close> in range to an integer type: toward zero.\<close>

definition trunc64 :: "float64 \<Rightarrow> int" where
  "trunc64 x = (case x of Fin r \<Rightarrow> (if 0 \<le> r then \<lfloor>r\<rfloor> else \<lceil>r\<rceil>) | _ \<Rightarrow> 0)"

lemma trunc64_Fin [simp]: "trunc64 (Fin r) = (if 0 \<le> r then \<lfloor>r\<rfloor> else \<lceil>r\<rceil>)"
  by (simp add: trunc64_def)


lemma rne_unique: "\<bar>x - real_of_int n\<bar> < 1 / 2 \<Longrightarrow> rne x = n"
proof -
  assume a: "\<bar>x - real_of_int n\<bar> < 1 / 2"
  with rne_near [of x] have "\<bar>real_of_int (rne x) - real_of_int n\<bar> < 1" by linarith
  then show ?thesis by linarith
qed

lemma rnd_nearest:
  assumes "2 powi k \<le> x" and "x < 2 powi (k + 1)" and "-1022 \<le> k"
    and "\<bar>x / 2 powi (k - 52) - real_of_int m\<bar> < 1 / 2"
  shows "rnd x = real_of_int m * 2 powi (k - 52)"
  using rnd_calc [OF assms(1-3)] rne_unique [OF assms(4)] by simp


end
