(* ===== verification/Common.thy ===== *)
theory Common
  imports Go_Float
begin

text \<open>
  The platform layer every module leans on: the error values of the whole program (one
  constructor per \<open>errors.New\<close> sentinel, named after its package), the response envelope
  (\<^verbatim>\<open>platform/common\<close>), query clamping, coordinate validation (\<^verbatim>\<open>platform/geo\<close>) and the role
  vocabulary with its object-ownership rules (\<^verbatim>\<open>platform/authz\<close>).
\<close>

section \<open>Error values\<close>

datatype sentinel =
    Dispatch_ErrUnitNotFound | Dispatch_ErrUnitNotAvailable | Dispatch_ErrIncidentNotFound
  | Dispatch_ErrIncidentNotDispatchable | Dispatch_ErrReservationConflict
  | Dispatch_ErrDispatchNotFound | Dispatch_ErrIllegalDispatchTransition
  | Dispatch_ErrUnitUnavailable | Dispatch_ErrInvalidDispatchStatus | Dispatch_ErrNoReassignCandidate
  | Unit_ErrUnitNotAvailable | Unit_ErrInvalidUnitType | Unit_ErrInvalidUnitStatus
  | Unit_ErrDuplicateCallSign | Unit_ErrUnitNotFound
  | Incident_ErrInvalidSeverity | Incident_ErrInvalidStatus | Incident_ErrIllegalTransition
  | Incident_ErrIncidentNotFound | Incident_ErrInvalidRadius
  | Shelter_ErrShelterClosed | Shelter_ErrShelterFull | Shelter_ErrInvalidCapacity
  | Shelter_ErrInvalidShelterStatus | Shelter_ErrDuplicateShelterName | Shelter_ErrShelterNotFound
  | Victim_ErrVictimNotFound | Victim_ErrVictimAlreadyAssigned
  | Transport_ErrTransportNotFound | Transport_ErrTransportUnavailable
  | Transport_ErrInsufficientSeats | Transport_ErrBookingNotFound | Transport_ErrBookingNotActive
  | Transport_ErrIncidentNotFound | Transport_ErrInvalidCapacity | Transport_ErrInvalidKind
  | Transport_ErrInvalidStatus | Transport_ErrInvalidSeats | Transport_ErrDuplicateCallSign
  | Auth_ErrDuplicateUser | Auth_ErrInvalidCredentials | Auth_ErrInvalidRole
  | Auth_ErrBindingMissing | Auth_ErrUserNotFound
  | Geo_ErrInvalidCoordinates

text \<open>
  A Go \<open>error\<close>: a sentinel, an error of the Postgres server with its SQLSTATE, the driver's
  \<open>pgx.ErrNoRows\<close>, a sentinel or other error wrapped by \<open>fmt.Errorf("...%w", err)\<close>, or any
  other error (a lost connection, Redis, Kafka, JSON), with its text.
\<close>

datatype go_error = E sentinel | PgError string | ErrNoRows | Wrapped string go_error | Other string

fun errors_Is :: "go_error \<Rightarrow> go_error \<Rightarrow> bool" where
  "errors_Is (Wrapped m e) t = (Wrapped m e = t \<or> errors_Is e t)"
| "errors_Is e t = (e = t)"

text \<open>\<open>errors.As(err, &pgErr) && pgErr.Code == code\<close>\<close>

fun pg_code_is :: "string \<Rightarrow> go_error \<Rightarrow> bool" where
  "pg_code_is c (PgError c') = (c' = c)"
| "pg_code_is c (Wrapped _ e) = pg_code_is c e"
| "pg_code_is c _ = False"

text \<open>The texts of the sentinels, and \<open>err.Error()\<close>; a wrapped error carries its full text.\<close>

primrec sentinel_text :: "sentinel \<Rightarrow> string" where
  "sentinel_text Dispatch_ErrUnitNotFound = ''unit not found''"
| "sentinel_text Dispatch_ErrUnitNotAvailable = ''unit not available''"
| "sentinel_text Dispatch_ErrIncidentNotFound = ''incident not found''"
| "sentinel_text Dispatch_ErrIncidentNotDispatchable = ''incident not dispatchable''"
| "sentinel_text Dispatch_ErrReservationConflict = ''reservation conflict, retries exhausted''"
| "sentinel_text Dispatch_ErrDispatchNotFound = ''dispatch not found''"
| "sentinel_text Dispatch_ErrIllegalDispatchTransition = ''illegal dispatch transition''"
| "sentinel_text Dispatch_ErrUnitUnavailable = ''unit is not available for dispatch''"
| "sentinel_text Dispatch_ErrInvalidDispatchStatus = ''invalid dispatch status''"
| "sentinel_text Dispatch_ErrNoReassignCandidate = ''no candidate available for reassignment''"
| "sentinel_text Unit_ErrUnitNotAvailable = ''unit not available''"
| "sentinel_text Unit_ErrInvalidUnitType = ''invalid unit type''"
| "sentinel_text Unit_ErrInvalidUnitStatus = ''invalid unit status''"
| "sentinel_text Unit_ErrDuplicateCallSign = ''call sign already exists''"
| "sentinel_text Unit_ErrUnitNotFound = ''unit not found''"
| "sentinel_text Incident_ErrInvalidSeverity = ''invalid severity''"
| "sentinel_text Incident_ErrInvalidStatus = ''invalid status''"
| "sentinel_text Incident_ErrIllegalTransition = ''illegal status transition''"
| "sentinel_text Incident_ErrIncidentNotFound = ''incident not found''"
| "sentinel_text Incident_ErrInvalidRadius = ''radius must be between 1 and 100000 meters''"
| "sentinel_text Shelter_ErrShelterClosed = ''shelter closed''"
| "sentinel_text Shelter_ErrShelterFull = ''shelter full''"
| "sentinel_text Shelter_ErrInvalidCapacity = ''capacity must be a positive integer''"
| "sentinel_text Shelter_ErrInvalidShelterStatus = ''invalid shelter status''"
| "sentinel_text Shelter_ErrDuplicateShelterName = ''shelter name already exists''"
| "sentinel_text Shelter_ErrShelterNotFound = ''shelter not found''"
| "sentinel_text Victim_ErrVictimNotFound = ''victim not found''"
| "sentinel_text Victim_ErrVictimAlreadyAssigned = ''victim already assigned''"
| "sentinel_text Transport_ErrTransportNotFound = ''transport not found''"
| "sentinel_text Transport_ErrTransportUnavailable = ''transport is not available''"
| "sentinel_text Transport_ErrInsufficientSeats = ''not enough free seats''"
| "sentinel_text Transport_ErrBookingNotFound = ''booking not found''"
| "sentinel_text Transport_ErrBookingNotActive = ''booking is not active''"
| "sentinel_text Transport_ErrIncidentNotFound = ''incident not found''"
| "sentinel_text Transport_ErrInvalidCapacity = ''capacity must be a positive integer''"
| "sentinel_text Transport_ErrInvalidKind = ''invalid transport kind''"
| "sentinel_text Transport_ErrInvalidStatus = ''invalid transport status''"
| "sentinel_text Transport_ErrInvalidSeats = ''seats must be a positive integer''"
| "sentinel_text Transport_ErrDuplicateCallSign = ''call sign already exists''"
| "sentinel_text Auth_ErrDuplicateUser = ''username or email already exists''"
| "sentinel_text Auth_ErrInvalidCredentials = ''invalid credentials''"
| "sentinel_text Auth_ErrInvalidRole = ''invalid role''"
| "sentinel_text Auth_ErrBindingMissing = ''this role requires a resource binding''"
| "sentinel_text Auth_ErrUserNotFound = ''user not found''"
| "sentinel_text Geo_ErrInvalidCoordinates = ''coordinates out of range''"

primrec err_Error :: "go_error \<Rightarrow> string" where
  "err_Error (E s) = sentinel_text s"
| "err_Error (PgError code) = ''SQLSTATE '' @ code"
| "err_Error ErrNoRows = ''no rows in result set''"
| "err_Error (Wrapped m e) = m"
| "err_Error (Other m) = m"

text \<open>The SQLSTATE codes the model raises: unique, foreign-key and check violations, a malformed
  uuid, an integer out of range, and bytes that are not valid in the database encoding.\<close>

abbreviation unique_violation :: go_error where "unique_violation \<equiv> PgError ''23505''"
abbreviation foreign_key_violation :: go_error where "foreign_key_violation \<equiv> PgError ''23503''"
abbreviation check_violation :: go_error where "check_violation \<equiv> PgError ''23514''"
abbreviation invalid_text :: go_error where "invalid_text \<equiv> PgError ''22P02''"
abbreviation out_of_range :: go_error where "out_of_range \<equiv> PgError ''22003''"
abbreviation bad_encoding :: go_error where "bad_encoding \<equiv> PgError ''22021''"

section \<open>The response envelope\<close>

text \<open>\<open>APIResponse\<close> with the status code it is written under.\<close>

record 'd response =
  resp_status :: nat
  resp_success :: bool
  resp_message :: string
  resp_data :: "'d option"
  resp_error :: string

definition common_Success :: "nat \<Rightarrow> string \<Rightarrow> 'd \<Rightarrow> 'd response" where
  "common_Success statusCode message data =
     \<lparr>resp_status = statusCode, resp_success = True, resp_message = message,
      resp_data = Some data, resp_error = ''''\<rparr>"

definition common_Error :: "nat \<Rightarrow> string \<Rightarrow> string \<Rightarrow> 'd response" where
  "common_Error statusCode message errCode =
     \<lparr>resp_status = statusCode, resp_success = False, resp_message = message,
      resp_data = None, resp_error = errCode\<rparr>"

section \<open>Query parsing\<close>

type_synonym query = "string \<Rightarrow> string" \<comment> \<open>\<open>c.Query\<close>: the empty string when absent\<close>

definition digit_of :: "char \<Rightarrow> nat option" where
  "digit_of c = (let n = (of_char c :: nat) in if 48 \<le> n \<and> n \<le> 57 then Some (n - 48) else None)"

fun digits_of :: "nat \<Rightarrow> string \<Rightarrow> nat option" where
  "digits_of acc [] = Some acc"
| "digits_of acc (c # cs) =
     (case digit_of c of None \<Rightarrow> None | Some d \<Rightarrow> digits_of (10 * acc + d) cs)"

definition int64_ok :: "int \<Rightarrow> bool" where
  "int64_ok n \<longleftrightarrow> - (2 ^ 63) \<le> n \<and> n < 2 ^ 63"

text \<open>\<open>strconv.Atoi\<close>: an optional sign, at least one digit, and a value that fits an \<open>int\<close>.\<close>

definition strconv_Atoi :: "string \<Rightarrow> int option" where
  "strconv_Atoi s =
     (let (neg, ds) = (case s of c # cs \<Rightarrow> if c = CHR ''-'' then (True, cs)
                                 else if c = CHR ''+'' then (False, cs) else (False, s)
                       | [] \<Rightarrow> (False, []))
      in if ds = [] then None
         else case digits_of 0 ds of None \<Rightarrow> None
              | Some n \<Rightarrow> let v = (if neg then - int n else int n)
                          in if int64_ok v then Some v else None)"

definition ClampInt :: "string \<Rightarrow> int \<Rightarrow> int \<Rightarrow> int \<Rightarrow> int" where
  "ClampInt raw def mn mx =
     (if raw = '''' then def
      else case strconv_Atoi raw of
        None \<Rightarrow> def
      | Some n \<Rightarrow> if n < mn then mn else if n > mx then mx else n)"

lemma ClampInt_bounds:
  "mn \<le> def \<Longrightarrow> def \<le> mx \<Longrightarrow> mn \<le> ClampInt raw def mn mx \<and> ClampInt raw def mn mx \<le> mx"
  by (auto simp: ClampInt_def split: option.splits)

section \<open>Coordinates\<close>

definition ValidateLatLng :: "float64 \<Rightarrow> float64 \<Rightarrow> go_error + unit" where
  "ValidateLatLng lat lng =
     (if f_lt lat (Fin (-90)) \<or> f_gt lat (Fin 90) \<or> f_lt lng (Fin (-180)) \<or> f_gt lng (Fin 180)
      then Inl (E Geo_ErrInvalidCoordinates) else Inr ())"

text \<open>What a validated pair is: each coordinate in range, or not a number at all.\<close>

definition in_range :: "real \<Rightarrow> float64 \<Rightarrow> bool" where
  "in_range b x \<longleftrightarrow> (\<exists>r. x = Fin r \<and> - b \<le> r \<and> r \<le> b)"

lemma ValidateLatLng_iff:
  "ValidateLatLng lat lng = Inr () \<longleftrightarrow>
     (lat = NaN \<or> in_range 90 lat) \<and> (lng = NaN \<or> in_range 180 lng)"
  by (cases lat; cases lng) (auto simp: ValidateLatLng_def in_range_def f_gt_def)

lemma ValidateLatLng_error:
  "ValidateLatLng lat lng \<noteq> Inr () \<Longrightarrow> ValidateLatLng lat lng = Inl (E Geo_ErrInvalidCoordinates)"
  by (auto simp: ValidateLatLng_def split: if_splits)

section \<open>Roles and ownership\<close>

definition RoleCitizen :: string where "RoleCitizen = ''citizen''"
definition RoleResponder :: string where "RoleResponder = ''responder''"
definition RoleShelterManager :: string where "RoleShelterManager = ''shelter_manager''"
definition RoleOperator :: string where "RoleOperator = ''operator''"
definition RoleAdmin :: string where "RoleAdmin = ''admin''"

lemmas role_defs = RoleCitizen_def RoleResponder_def RoleShelterManager_def RoleOperator_def RoleAdmin_def

lemma role_distinct [simp, status_simps]:
  "RoleResponder \<noteq> RoleOperator" "RoleResponder \<noteq> RoleAdmin" "RoleResponder \<noteq> RoleShelterManager"
  "RoleResponder \<noteq> RoleCitizen" "RoleShelterManager \<noteq> RoleOperator" "RoleShelterManager \<noteq> RoleAdmin"
  "RoleShelterManager \<noteq> RoleCitizen" "RoleShelterManager \<noteq> RoleResponder"
  "RoleOperator \<noteq> RoleAdmin" "RoleOperator \<noteq> RoleCitizen" "RoleOperator \<noteq> RoleResponder"
  "RoleOperator \<noteq> RoleShelterManager" "RoleAdmin \<noteq> RoleCitizen" "RoleAdmin \<noteq> RoleOperator"
  "RoleAdmin \<noteq> RoleResponder" "RoleAdmin \<noteq> RoleShelterManager" "RoleCitizen \<noteq> RoleOperator"
  "RoleCitizen \<noteq> RoleAdmin" "RoleCitizen \<noteq> RoleResponder" "RoleCitizen \<noteq> RoleShelterManager"
  by (simp_all add: role_defs)

definition authz_All :: "string list" where
  "authz_All = [RoleCitizen, RoleResponder, RoleShelterManager, RoleOperator, RoleAdmin]"

definition authz_IsValid :: "string \<Rightarrow> bool" where
  "authz_IsValid role = list_ex (\<lambda>r. r = role) authz_All"

record Actor =
  act_UserID :: string
  act_Username :: string
  act_Role :: string
  act_UnitID :: string
  act_ShelterID :: string

definition Actor_Is :: "Actor \<Rightarrow> string list \<Rightarrow> bool" where
  "Actor_Is a roles = list_ex (\<lambda>r. act_Role a = r) roles"

definition Actor_OwnsUnit :: "Actor \<Rightarrow> string \<Rightarrow> bool" where
  "Actor_OwnsUnit a unitID =
     (if Actor_Is a [RoleOperator, RoleAdmin] then True
      else Actor_Is a [RoleResponder] \<and> act_UnitID a \<noteq> '''' \<and> act_UnitID a = unitID)"

definition Actor_OwnsShelter :: "Actor \<Rightarrow> string \<Rightarrow> bool" where
  "Actor_OwnsShelter a shelterID =
     (if Actor_Is a [RoleOperator, RoleAdmin] then True
      else Actor_Is a [RoleShelterManager] \<and> act_ShelterID a \<noteq> '''' \<and> act_ShelterID a = shelterID)"

lemma Actor_Is_simps [simp]:
  "Actor_Is a [] = False"
  "Actor_Is a (r # rs) = (act_Role a = r \<or> Actor_Is a rs)"
  by (simp_all add: Actor_Is_def)

lemma authz_IsValid_iff: "authz_IsValid role \<longleftrightarrow> role \<in> set authz_All"
  by (auto simp: authz_IsValid_def list_ex_iff)

text \<open>A role that is bound to a resource may act for that one resource and for no other.\<close>

lemma OwnsUnit_responder:
  "act_Role a = RoleResponder \<Longrightarrow> Actor_OwnsUnit a u \<Longrightarrow> Actor_OwnsUnit a v \<Longrightarrow> u = v"
  by (simp add: Actor_OwnsUnit_def)

lemma OwnsUnit_roles:
  "Actor_OwnsUnit a u \<Longrightarrow> act_Role a \<in> {RoleOperator, RoleAdmin, RoleResponder}"
  by (auto simp: Actor_OwnsUnit_def split: if_splits)

end
