(* ===== verification/Vocab.thy ===== *)
theory Vocab
  imports Common
begin

text \<open>
  The string vocabularies of the modules' \<^verbatim>\<open>model.go\<close> files: statuses, kinds, severities and
  event types. Go compares these strings, and so does the model; the constants stay folded, and
  the simplifier knows that the members of one vocabulary differ. The transport statuses carry the
  prefix \<open>Transport\<close>, because the incident module has constants of the same names.
\<close>

section \<open>Unit type\<close>

definition UnitTypeAmbulance :: string where "UnitTypeAmbulance = ''ambulance''"
definition UnitTypeFire :: string where "UnitTypeFire = ''fire''"
definition UnitTypeRescue :: string where "UnitTypeRescue = ''rescue''"
definition UnitTypePolice :: string where "UnitTypePolice = ''police''"

lemmas unit_type_defs = UnitTypeAmbulance_def UnitTypeFire_def UnitTypeRescue_def UnitTypePolice_def

lemma unit_type_distinct [simp, status_simps]:
  "UnitTypeAmbulance \<noteq> UnitTypeFire"
  "UnitTypeAmbulance \<noteq> UnitTypeRescue"
  "UnitTypeAmbulance \<noteq> UnitTypePolice"
  "UnitTypeFire \<noteq> UnitTypeAmbulance"
  "UnitTypeFire \<noteq> UnitTypeRescue"
  "UnitTypeFire \<noteq> UnitTypePolice"
  "UnitTypeRescue \<noteq> UnitTypeAmbulance"
  "UnitTypeRescue \<noteq> UnitTypeFire"
  "UnitTypeRescue \<noteq> UnitTypePolice"
  "UnitTypePolice \<noteq> UnitTypeAmbulance"
  "UnitTypePolice \<noteq> UnitTypeFire"
  "UnitTypePolice \<noteq> UnitTypeRescue"
  by (simp_all add: unit_type_defs)

definition all_unit_type :: "string list" where
  "all_unit_type = [UnitTypeAmbulance, UnitTypeFire, UnitTypeRescue, UnitTypePolice]"

section \<open>Unit status\<close>

definition UnitAvailable :: string where "UnitAvailable = ''available''"
definition UnitReserved :: string where "UnitReserved = ''reserved''"
definition UnitEnRoute :: string where "UnitEnRoute = ''en_route''"
definition UnitOnScene :: string where "UnitOnScene = ''on_scene''"
definition UnitOutOfService :: string where "UnitOutOfService = ''out_of_service''"

lemmas unit_status_defs = UnitAvailable_def UnitReserved_def UnitEnRoute_def UnitOnScene_def UnitOutOfService_def

lemma unit_status_distinct [simp, status_simps]:
  "UnitAvailable \<noteq> UnitReserved"
  "UnitAvailable \<noteq> UnitEnRoute"
  "UnitAvailable \<noteq> UnitOnScene"
  "UnitAvailable \<noteq> UnitOutOfService"
  "UnitReserved \<noteq> UnitAvailable"
  "UnitReserved \<noteq> UnitEnRoute"
  "UnitReserved \<noteq> UnitOnScene"
  "UnitReserved \<noteq> UnitOutOfService"
  "UnitEnRoute \<noteq> UnitAvailable"
  "UnitEnRoute \<noteq> UnitReserved"
  "UnitEnRoute \<noteq> UnitOnScene"
  "UnitEnRoute \<noteq> UnitOutOfService"
  "UnitOnScene \<noteq> UnitAvailable"
  "UnitOnScene \<noteq> UnitReserved"
  "UnitOnScene \<noteq> UnitEnRoute"
  "UnitOnScene \<noteq> UnitOutOfService"
  "UnitOutOfService \<noteq> UnitAvailable"
  "UnitOutOfService \<noteq> UnitReserved"
  "UnitOutOfService \<noteq> UnitEnRoute"
  "UnitOutOfService \<noteq> UnitOnScene"
  by (simp_all add: unit_status_defs)

definition all_unit_status :: "string list" where
  "all_unit_status = [UnitAvailable, UnitReserved, UnitEnRoute, UnitOnScene, UnitOutOfService]"

section \<open>Severity\<close>

definition SeverityLow :: string where "SeverityLow = ''low''"
definition SeverityMedium :: string where "SeverityMedium = ''medium''"
definition SeverityHigh :: string where "SeverityHigh = ''high''"
definition SeverityCritical :: string where "SeverityCritical = ''critical''"

lemmas severity_defs = SeverityLow_def SeverityMedium_def SeverityHigh_def SeverityCritical_def

lemma severity_distinct [simp, status_simps]:
  "SeverityLow \<noteq> SeverityMedium"
  "SeverityLow \<noteq> SeverityHigh"
  "SeverityLow \<noteq> SeverityCritical"
  "SeverityMedium \<noteq> SeverityLow"
  "SeverityMedium \<noteq> SeverityHigh"
  "SeverityMedium \<noteq> SeverityCritical"
  "SeverityHigh \<noteq> SeverityLow"
  "SeverityHigh \<noteq> SeverityMedium"
  "SeverityHigh \<noteq> SeverityCritical"
  "SeverityCritical \<noteq> SeverityLow"
  "SeverityCritical \<noteq> SeverityMedium"
  "SeverityCritical \<noteq> SeverityHigh"
  by (simp_all add: severity_defs)

definition all_severity :: "string list" where
  "all_severity = [SeverityLow, SeverityMedium, SeverityHigh, SeverityCritical]"

section \<open>Incident status\<close>

definition StatusReported :: string where "StatusReported = ''reported''"
definition StatusVerified :: string where "StatusVerified = ''verified''"
definition StatusDispatched :: string where "StatusDispatched = ''dispatched''"
definition StatusResolved :: string where "StatusResolved = ''resolved''"
definition StatusCancelled :: string where "StatusCancelled = ''cancelled''"

lemmas incident_status_defs = StatusReported_def StatusVerified_def StatusDispatched_def StatusResolved_def StatusCancelled_def

lemma incident_status_distinct [simp, status_simps]:
  "StatusReported \<noteq> StatusVerified"
  "StatusReported \<noteq> StatusDispatched"
  "StatusReported \<noteq> StatusResolved"
  "StatusReported \<noteq> StatusCancelled"
  "StatusVerified \<noteq> StatusReported"
  "StatusVerified \<noteq> StatusDispatched"
  "StatusVerified \<noteq> StatusResolved"
  "StatusVerified \<noteq> StatusCancelled"
  "StatusDispatched \<noteq> StatusReported"
  "StatusDispatched \<noteq> StatusVerified"
  "StatusDispatched \<noteq> StatusResolved"
  "StatusDispatched \<noteq> StatusCancelled"
  "StatusResolved \<noteq> StatusReported"
  "StatusResolved \<noteq> StatusVerified"
  "StatusResolved \<noteq> StatusDispatched"
  "StatusResolved \<noteq> StatusCancelled"
  "StatusCancelled \<noteq> StatusReported"
  "StatusCancelled \<noteq> StatusVerified"
  "StatusCancelled \<noteq> StatusDispatched"
  "StatusCancelled \<noteq> StatusResolved"
  by (simp_all add: incident_status_defs)

definition all_incident_status :: "string list" where
  "all_incident_status = [StatusReported, StatusVerified, StatusDispatched, StatusResolved, StatusCancelled]"

section \<open>Dispatch status\<close>

definition DispatchReserved :: string where "DispatchReserved = ''reserved''"
definition DispatchEnRoute :: string where "DispatchEnRoute = ''en_route''"
definition DispatchOnScene :: string where "DispatchOnScene = ''on_scene''"
definition DispatchCompleted :: string where "DispatchCompleted = ''completed''"
definition DispatchCancelled :: string where "DispatchCancelled = ''cancelled''"

lemmas dispatch_status_defs = DispatchReserved_def DispatchEnRoute_def DispatchOnScene_def DispatchCompleted_def DispatchCancelled_def

lemma dispatch_status_distinct [simp, status_simps]:
  "DispatchReserved \<noteq> DispatchEnRoute"
  "DispatchReserved \<noteq> DispatchOnScene"
  "DispatchReserved \<noteq> DispatchCompleted"
  "DispatchReserved \<noteq> DispatchCancelled"
  "DispatchEnRoute \<noteq> DispatchReserved"
  "DispatchEnRoute \<noteq> DispatchOnScene"
  "DispatchEnRoute \<noteq> DispatchCompleted"
  "DispatchEnRoute \<noteq> DispatchCancelled"
  "DispatchOnScene \<noteq> DispatchReserved"
  "DispatchOnScene \<noteq> DispatchEnRoute"
  "DispatchOnScene \<noteq> DispatchCompleted"
  "DispatchOnScene \<noteq> DispatchCancelled"
  "DispatchCompleted \<noteq> DispatchReserved"
  "DispatchCompleted \<noteq> DispatchEnRoute"
  "DispatchCompleted \<noteq> DispatchOnScene"
  "DispatchCompleted \<noteq> DispatchCancelled"
  "DispatchCancelled \<noteq> DispatchReserved"
  "DispatchCancelled \<noteq> DispatchEnRoute"
  "DispatchCancelled \<noteq> DispatchOnScene"
  "DispatchCancelled \<noteq> DispatchCompleted"
  by (simp_all add: dispatch_status_defs)

definition all_dispatch_status :: "string list" where
  "all_dispatch_status = [DispatchReserved, DispatchEnRoute, DispatchOnScene, DispatchCompleted, DispatchCancelled]"

section \<open>Shelter status\<close>

definition ShelterOpen :: string where "ShelterOpen = ''open''"
definition ShelterClosed :: string where "ShelterClosed = ''closed''"

lemmas shelter_status_defs = ShelterOpen_def ShelterClosed_def

lemma shelter_status_distinct [simp, status_simps]:
  "ShelterOpen \<noteq> ShelterClosed"
  "ShelterClosed \<noteq> ShelterOpen"
  by (simp_all add: shelter_status_defs)

definition all_shelter_status :: "string list" where
  "all_shelter_status = [ShelterOpen, ShelterClosed]"

section \<open>Victim status\<close>

definition VictimRegistered :: string where "VictimRegistered = ''registered''"
definition VictimSheltered :: string where "VictimSheltered = ''sheltered''"
definition VictimDischarged :: string where "VictimDischarged = ''discharged''"

lemmas victim_status_defs = VictimRegistered_def VictimSheltered_def VictimDischarged_def

lemma victim_status_distinct [simp, status_simps]:
  "VictimRegistered \<noteq> VictimSheltered"
  "VictimRegistered \<noteq> VictimDischarged"
  "VictimSheltered \<noteq> VictimRegistered"
  "VictimSheltered \<noteq> VictimDischarged"
  "VictimDischarged \<noteq> VictimRegistered"
  "VictimDischarged \<noteq> VictimSheltered"
  by (simp_all add: victim_status_defs)

definition all_victim_status :: "string list" where
  "all_victim_status = [VictimRegistered, VictimSheltered, VictimDischarged]"

section \<open>Transport kind\<close>

definition KindBus :: string where "KindBus = ''bus''"
definition KindBoat :: string where "KindBoat = ''boat''"
definition KindHelicopter :: string where "KindHelicopter = ''helicopter''"
definition KindTruck :: string where "KindTruck = ''truck''"

lemmas transport_kind_defs = KindBus_def KindBoat_def KindHelicopter_def KindTruck_def

lemma transport_kind_distinct [simp, status_simps]:
  "KindBus \<noteq> KindBoat"
  "KindBus \<noteq> KindHelicopter"
  "KindBus \<noteq> KindTruck"
  "KindBoat \<noteq> KindBus"
  "KindBoat \<noteq> KindHelicopter"
  "KindBoat \<noteq> KindTruck"
  "KindHelicopter \<noteq> KindBus"
  "KindHelicopter \<noteq> KindBoat"
  "KindHelicopter \<noteq> KindTruck"
  "KindTruck \<noteq> KindBus"
  "KindTruck \<noteq> KindBoat"
  "KindTruck \<noteq> KindHelicopter"
  by (simp_all add: transport_kind_defs)

definition all_transport_kind :: "string list" where
  "all_transport_kind = [KindBus, KindBoat, KindHelicopter, KindTruck]"

section \<open>Transport status\<close>

definition TransportAvailable :: string where "TransportAvailable = ''available''"
definition TransportInService :: string where "TransportInService = ''in_service''"
definition TransportOutOfService :: string where "TransportOutOfService = ''out_of_service''"

lemmas transport_status_defs = TransportAvailable_def TransportInService_def TransportOutOfService_def

lemma transport_status_distinct [simp, status_simps]:
  "TransportAvailable \<noteq> TransportInService"
  "TransportAvailable \<noteq> TransportOutOfService"
  "TransportInService \<noteq> TransportAvailable"
  "TransportInService \<noteq> TransportOutOfService"
  "TransportOutOfService \<noteq> TransportAvailable"
  "TransportOutOfService \<noteq> TransportInService"
  by (simp_all add: transport_status_defs)

definition all_transport_status :: "string list" where
  "all_transport_status = [TransportAvailable, TransportInService, TransportOutOfService]"

section \<open>Booking status\<close>

definition BookingBooked :: string where "BookingBooked = ''booked''"
definition BookingCompleted :: string where "BookingCompleted = ''completed''"
definition BookingCancelled :: string where "BookingCancelled = ''cancelled''"

lemmas booking_status_defs = BookingBooked_def BookingCompleted_def BookingCancelled_def

lemma booking_status_distinct [simp, status_simps]:
  "BookingBooked \<noteq> BookingCompleted"
  "BookingBooked \<noteq> BookingCancelled"
  "BookingCompleted \<noteq> BookingBooked"
  "BookingCompleted \<noteq> BookingCancelled"
  "BookingCancelled \<noteq> BookingBooked"
  "BookingCancelled \<noteq> BookingCompleted"
  by (simp_all add: booking_status_defs)

definition all_booking_status :: "string list" where
  "all_booking_status = [BookingBooked, BookingCompleted, BookingCancelled]"

section \<open>Aggregate type\<close>

definition AggregateDispatch :: string where "AggregateDispatch = ''dispatch''"
definition AggregateVictim :: string where "AggregateVictim = ''victim''"
definition AggregateTransport :: string where "AggregateTransport = ''transport''"

lemmas aggregate_type_defs = AggregateDispatch_def AggregateVictim_def AggregateTransport_def

lemma aggregate_type_distinct [simp, status_simps]:
  "AggregateDispatch \<noteq> AggregateVictim"
  "AggregateDispatch \<noteq> AggregateTransport"
  "AggregateVictim \<noteq> AggregateDispatch"
  "AggregateVictim \<noteq> AggregateTransport"
  "AggregateTransport \<noteq> AggregateDispatch"
  "AggregateTransport \<noteq> AggregateVictim"
  by (simp_all add: aggregate_type_defs)

definition all_aggregate_type :: "string list" where
  "all_aggregate_type = [AggregateDispatch, AggregateVictim, AggregateTransport]"

section \<open>Event type\<close>

definition EventDispatchCreated :: string where "EventDispatchCreated = ''dispatch.created''"
definition EventDispatchCompleted :: string where "EventDispatchCompleted = ''dispatch.completed''"
definition EventVictimAssigned :: string where "EventVictimAssigned = ''victim.assigned''"
definition EventTransportBooked :: string where "EventTransportBooked = ''transport.booked''"
definition EventTransportReleased :: string where "EventTransportReleased = ''transport.released''"
definition EventDispatchRerouted :: string where "EventDispatchRerouted = ''dispatch.rerouted''"
definition EventDispatchPreempted :: string where "EventDispatchPreempted = ''dispatch.preempted''"

lemmas event_type_defs = EventDispatchCreated_def EventDispatchCompleted_def EventVictimAssigned_def EventTransportBooked_def EventTransportReleased_def EventDispatchRerouted_def EventDispatchPreempted_def

lemma event_type_distinct [simp, status_simps]:
  "EventDispatchCreated \<noteq> EventDispatchCompleted"
  "EventDispatchCreated \<noteq> EventVictimAssigned"
  "EventDispatchCreated \<noteq> EventTransportBooked"
  "EventDispatchCreated \<noteq> EventTransportReleased"
  "EventDispatchCreated \<noteq> EventDispatchRerouted"
  "EventDispatchCreated \<noteq> EventDispatchPreempted"
  "EventDispatchCompleted \<noteq> EventDispatchCreated"
  "EventDispatchCompleted \<noteq> EventVictimAssigned"
  "EventDispatchCompleted \<noteq> EventTransportBooked"
  "EventDispatchCompleted \<noteq> EventTransportReleased"
  "EventDispatchCompleted \<noteq> EventDispatchRerouted"
  "EventDispatchCompleted \<noteq> EventDispatchPreempted"
  "EventVictimAssigned \<noteq> EventDispatchCreated"
  "EventVictimAssigned \<noteq> EventDispatchCompleted"
  "EventVictimAssigned \<noteq> EventTransportBooked"
  "EventVictimAssigned \<noteq> EventTransportReleased"
  "EventVictimAssigned \<noteq> EventDispatchRerouted"
  "EventVictimAssigned \<noteq> EventDispatchPreempted"
  "EventTransportBooked \<noteq> EventDispatchCreated"
  "EventTransportBooked \<noteq> EventDispatchCompleted"
  "EventTransportBooked \<noteq> EventVictimAssigned"
  "EventTransportBooked \<noteq> EventTransportReleased"
  "EventTransportBooked \<noteq> EventDispatchRerouted"
  "EventTransportBooked \<noteq> EventDispatchPreempted"
  "EventTransportReleased \<noteq> EventDispatchCreated"
  "EventTransportReleased \<noteq> EventDispatchCompleted"
  "EventTransportReleased \<noteq> EventVictimAssigned"
  "EventTransportReleased \<noteq> EventTransportBooked"
  "EventTransportReleased \<noteq> EventDispatchRerouted"
  "EventTransportReleased \<noteq> EventDispatchPreempted"
  "EventDispatchRerouted \<noteq> EventDispatchCreated"
  "EventDispatchRerouted \<noteq> EventDispatchCompleted"
  "EventDispatchRerouted \<noteq> EventVictimAssigned"
  "EventDispatchRerouted \<noteq> EventTransportBooked"
  "EventDispatchRerouted \<noteq> EventTransportReleased"
  "EventDispatchRerouted \<noteq> EventDispatchPreempted"
  "EventDispatchPreempted \<noteq> EventDispatchCreated"
  "EventDispatchPreempted \<noteq> EventDispatchCompleted"
  "EventDispatchPreempted \<noteq> EventVictimAssigned"
  "EventDispatchPreempted \<noteq> EventTransportBooked"
  "EventDispatchPreempted \<noteq> EventTransportReleased"
  "EventDispatchPreempted \<noteq> EventDispatchRerouted"
  by (simp_all add: event_type_defs)

definition all_event_type :: "string list" where
  "all_event_type = [EventDispatchCreated, EventDispatchCompleted, EventVictimAssigned, EventTransportBooked, EventTransportReleased, EventDispatchRerouted, EventDispatchPreempted]"

section \<open>The vocabularies as the code tests them\<close>

definition unit_validUnitTypes :: "string \<Rightarrow> bool" where
  "unit_validUnitTypes s = list_ex (\<lambda>x. x = s) all_unit_type"

definition unit_validUnitStatuses :: "string \<Rightarrow> bool" where
  "unit_validUnitStatuses s = list_ex (\<lambda>x. x = s) all_unit_status"

definition validSeverities :: "string \<Rightarrow> bool" where
  "validSeverities s = list_ex (\<lambda>x. x = s) all_severity"

definition validShelterStatuses :: "string \<Rightarrow> bool" where
  "validShelterStatuses s = list_ex (\<lambda>x. x = s) all_shelter_status"

definition transport_validKinds :: "string \<Rightarrow> bool" where
  "transport_validKinds s = list_ex (\<lambda>x. x = s) all_transport_kind"

definition transport_validStatuses :: "string \<Rightarrow> bool" where
  "transport_validStatuses s = list_ex (\<lambda>x. x = s) all_transport_status"

lemma unit_validUnitTypes_iff: "unit_validUnitTypes s \<longleftrightarrow> s \<in> set all_unit_type"
  by (auto simp: unit_validUnitTypes_def list_ex_iff)

lemma unit_validUnitStatuses_iff: "unit_validUnitStatuses s \<longleftrightarrow> s \<in> set all_unit_status"
  by (auto simp: unit_validUnitStatuses_def list_ex_iff)

lemma validSeverities_iff: "validSeverities s \<longleftrightarrow> s \<in> set all_severity"
  by (auto simp: validSeverities_def list_ex_iff)

lemma validShelterStatuses_iff: "validShelterStatuses s \<longleftrightarrow> s \<in> set all_shelter_status"
  by (auto simp: validShelterStatuses_def list_ex_iff)

lemma transport_validKinds_iff: "transport_validKinds s \<longleftrightarrow> s \<in> set all_transport_kind"
  by (auto simp: transport_validKinds_def list_ex_iff)

lemma transport_validStatuses_iff: "transport_validStatuses s \<longleftrightarrow> s \<in> set all_transport_status"
  by (auto simp: transport_validStatuses_def list_ex_iff)

end
