(* ===== verification/Schema.thy ===== *)
theory Schema
  imports Vocab
begin

text \<open>
  The database schema, as \<^verbatim>\<open>platform/database/migrations\<close> creates it: one row record per table
  (the primary key is the table's key, not a column of the record), the CHECK, UNIQUE and foreign
  key constraints as executable predicates, and the database itself. A \<open>geometry(Point, 4326)\<close>
  column is its two coordinates. \<open>INTEGER\<close> columns that an operation adds a caller's number to
  are kept in range explicitly; the version and report counters, which only ever step by one, are
  unbounded.
\<close>

section \<open>Rows\<close>

type_synonym uuid = string
type_synonym time = int \<comment> \<open>microseconds since the epoch, as \<open>TIMESTAMPTZ\<close> stores them\<close>

definition seconds :: "int \<Rightarrow> time" where
  "seconds n = n * 1000000"

record user_row =
  usr_username :: string
  usr_email :: string
  usr_password :: string
  usr_role :: string
  usr_unit_id :: "uuid option"
  usr_shelter_id :: "uuid option"
  usr_created_at :: time
  usr_updated_at :: time

record incident_row =
  i_reporter_id :: uuid
  i_title :: string
  i_description :: string
  i_severity :: string
  i_status :: string
  i_report_count :: nat
  i_lat :: float64
  i_lng :: float64
  i_created_at :: time
  i_updated_at :: time

record unit_row =
  u_call_sign :: string
  u_type :: string
  u_status :: string
  u_lat :: float64
  u_lng :: float64
  u_version :: nat
  u_created_at :: time
  u_updated_at :: time

record dispatch_row =
  d_incident_id :: uuid
  d_unit_id :: uuid
  d_status :: string
  d_created_at :: time
  d_updated_at :: time

record shelter_row =
  s_name :: string
  s_capacity :: int
  s_occupancy :: int
  s_status :: string
  s_lat :: float64
  s_lng :: float64
  s_created_at :: time
  s_updated_at :: time

record victim_row =
  v_name :: string
  v_status :: string
  v_notes :: string
  v_shelter_id :: "uuid option"
  v_lat :: float64
  v_lng :: float64
  v_created_at :: time
  v_updated_at :: time

record transport_row =
  t_call_sign :: string
  t_kind :: string
  t_capacity :: int
  t_seats_taken :: int
  t_status :: string
  t_lat :: float64
  t_lng :: float64
  t_version :: nat
  t_created_at :: time
  t_updated_at :: time

record booking_row =
  b_transport_id :: uuid
  b_incident_id :: uuid
  b_seats :: int
  b_status :: string
  b_created_at :: time
  b_updated_at :: time

text \<open>A JSON payload: the fields the code's \<open>map[string]any\<close> literals hold.\<close>

datatype json = JStr string | JInt int | JBool bool

type_synonym payload = "(string \<times> json) list"

record outbox_row =
  o_aggregate_type :: string
  o_aggregate_id :: uuid
  o_event_type :: string
  o_payload :: payload
  o_created_at :: time
  o_published_at :: "time option"
  o_attempts :: int
  o_last_error :: "string option"
  o_next_attempt_at :: time
  o_dead_at :: "time option"

record notification_row =
  n_event_id :: int
  n_event_type :: string
  n_message :: string
  n_created_at :: time

record audit_row =
  a_event_id :: int
  a_event_type :: string
  a_aggregate_type :: string
  a_aggregate_id :: uuid
  a_payload :: payload
  a_occurred_at :: time
  a_recorded_at :: time

record db =
  users :: "(uuid, user_row) table"
  incidents :: "(uuid, incident_row) table"
  units :: "(uuid, unit_row) table"
  dispatches :: "(uuid, dispatch_row) table"
  shelters :: "(uuid, shelter_row) table"
  victims :: "(uuid, victim_row) table"
  transports :: "(uuid, transport_row) table"
  transport_bookings :: "(uuid, booking_row) table"
  outbox_events :: "(int, outbox_row) table"
  processed_events :: "(string \<times> int, time) table"
  notifications :: "(int, notification_row) table"
  audit_log :: "(int, audit_row) table"

definition empty_db :: db where
  "empty_db = \<lparr>users = [], incidents = [], units = [], dispatches = [], shelters = [], victims = [],
     transports = [], transport_bookings = [], outbox_events = [], processed_events = [],
     notifications = [], audit_log = []\<rparr>"

section \<open>CHECK constraints\<close>

definition user_row_ok :: "user_row \<Rightarrow> bool" where
  "user_row_ok r \<longleftrightarrow> usr_role r \<in> set authz_All"

definition incident_row_ok :: "incident_row \<Rightarrow> bool" where
  "incident_row_ok r \<longleftrightarrow> i_severity r \<in> set all_severity \<and> i_status r \<in> set all_incident_status"

definition unit_row_ok :: "unit_row \<Rightarrow> bool" where
  "unit_row_ok r \<longleftrightarrow> u_type r \<in> set all_unit_type \<and> u_status r \<in> set all_unit_status"

definition dispatch_row_ok :: "dispatch_row \<Rightarrow> bool" where
  "dispatch_row_ok r \<longleftrightarrow> d_status r \<in> set all_dispatch_status"

definition shelter_row_ok :: "shelter_row \<Rightarrow> bool" where
  "shelter_row_ok r \<longleftrightarrow> 0 < s_capacity r \<and> 0 \<le> s_occupancy r \<and> s_occupancy r \<le> s_capacity r
     \<and> s_status r \<in> set all_shelter_status"

definition victim_row_ok :: "victim_row \<Rightarrow> bool" where
  "victim_row_ok r \<longleftrightarrow> v_status r \<in> set all_victim_status"

definition transport_row_ok :: "transport_row \<Rightarrow> bool" where
  "transport_row_ok r \<longleftrightarrow> t_kind r \<in> set all_transport_kind \<and> 0 < t_capacity r
     \<and> 0 \<le> t_seats_taken r \<and> t_seats_taken r \<le> t_capacity r
     \<and> t_status r \<in> set all_transport_status"

definition booking_row_ok :: "booking_row \<Rightarrow> bool" where
  "booking_row_ok r \<longleftrightarrow> 0 < b_seats r \<and> b_status r \<in> set all_booking_status"

section \<open>The partial unique index on active dispatches\<close>

definition active_status :: "string \<Rightarrow> bool" where
  "active_status s \<longleftrightarrow> s \<in> set [DispatchReserved, DispatchEnRoute, DispatchOnScene]"

definition active_on :: "uuid \<Rightarrow> dispatch_row \<Rightarrow> bool" where
  "active_on u r \<longleftrightarrow> d_unit_id r = u \<and> active_status (d_status r)"

definition active_for :: "uuid \<Rightarrow> dispatch_row \<Rightarrow> bool" where
  "active_for i r \<longleftrightarrow> d_incident_id r = i \<and> active_status (d_status r)"

text \<open>\<open>idx_dispatches_one_active_per_unit\<close>: at most one active dispatch per unit.\<close>

definition one_active :: "(uuid, dispatch_row) table \<Rightarrow> bool" where
  "one_active t \<longleftrightarrow> (\<forall>u. count_rows (active_on u) t \<le> 1)"

lemma active_status_simps [simp]:
  "active_status DispatchReserved" "active_status DispatchEnRoute" "active_status DispatchOnScene"
  "\<not> active_status DispatchCompleted" "\<not> active_status DispatchCancelled"
  by (simp_all add: active_status_def)

section \<open>Foreign keys\<close>

definition dispatch_fk :: "db \<Rightarrow> dispatch_row \<Rightarrow> bool" where
  "dispatch_fk d r \<longleftrightarrow> sel (incidents d) (d_incident_id r) \<noteq> None \<and> sel (units d) (d_unit_id r) \<noteq> None"

definition booking_fk :: "db \<Rightarrow> booking_row \<Rightarrow> bool" where
  "booking_fk d r \<longleftrightarrow> sel (transports d) (b_transport_id r) \<noteq> None
     \<and> sel (incidents d) (b_incident_id r) \<noteq> None"

definition victim_fk :: "db \<Rightarrow> victim_row \<Rightarrow> bool" where
  "victim_fk d r \<longleftrightarrow> (\<forall>s. v_shelter_id r = Some s \<longrightarrow> sel (shelters d) s \<noteq> None)"

definition user_fk :: "db \<Rightarrow> user_row \<Rightarrow> bool" where
  "user_fk d r \<longleftrightarrow> (\<forall>u. usr_unit_id r = Some u \<longrightarrow> sel (units d) u \<noteq> None)
     \<and> (\<forall>s. usr_shelter_id r = Some s \<longrightarrow> sel (shelters d) s \<noteq> None)"

section \<open>Integers\<close>

definition int4_ok :: "int \<Rightarrow> bool" where
  "int4_ok n \<longleftrightarrow> - (2 ^ 31) \<le> n \<and> n < 2 ^ 31"

text \<open>Adding to an \<open>INTEGER\<close> column, and passing a Go \<open>int\<close> as an \<open>INTEGER\<close> parameter: both
  are errors out of range, never wrap-around.\<close>

definition int4_add :: "int \<Rightarrow> int \<Rightarrow> go_error + int" where
  "int4_add a b = (if int4_ok (a + b) then Inr (a + b) else Inl out_of_range)"

definition int4_param :: "int \<Rightarrow> go_error + int" where
  "int4_param n = (if int4_ok n then Inr n else Inl (Other ''value out of range for int4''))"

section \<open>Text\<close>

text \<open>What a UTF-8 database accepts as text: well-formed UTF-8 without a zero byte.\<close>

definition byte :: "char \<Rightarrow> nat" where
  "byte c = of_char c"

definition plain_text :: "string \<Rightarrow> bool" where
  "plain_text s = list_all (\<lambda>c. byte c \<noteq> 0) s"

definition byte_in :: "nat \<Rightarrow> nat \<Rightarrow> char \<Rightarrow> bool" where
  "byte_in lo hi c \<longleftrightarrow> lo \<le> byte c \<and> byte c \<le> hi"

fun text_ok :: "string \<Rightarrow> bool" where
  "text_ok [] = True"
| "text_ok (a # s) =
     (if byte_in 1 127 a then text_ok s
      else if byte_in 194 223 a then
        (case s of b # s' \<Rightarrow> byte_in 128 191 b \<and> text_ok s' | _ \<Rightarrow> False)
      else if byte_in 224 239 a then
        (case s of b # c # s' \<Rightarrow>
           byte_in (if byte a = 224 then 160 else 128) (if byte a = 237 then 159 else 191) b
           \<and> byte_in 128 191 c \<and> text_ok s' | _ \<Rightarrow> False)
      else if byte_in 240 244 a then
        (case s of b # c # d # s' \<Rightarrow>
           byte_in (if byte a = 240 then 144 else 128) (if byte a = 244 then 143 else 191) b
           \<and> byte_in 128 191 c \<and> byte_in 128 191 d \<and> text_ok s' | _ \<Rightarrow> False)
      else False)"

end
