(* ===== verification/Tx.thy ===== *)
theory Tx
  imports Schema
begin

text \<open>
  Scripts: the control flow of a Go method, with one step per statement it sends to a store. A
  step is a state transformer, so the continuation of a script is what the method does with the
  answer. Run alone, a script is an ordinary state-passing function (\<open>run\<close>); the steps stay
  visible for an interleaved execution.

  The world of a request holds the committed database (\<open>base\<close>), what its open transaction sees
  (\<open>view\<close>), the rows the transaction has locked, a statement counter and the environment: which
  statements fail and how, what \<open>gen_random_uuid()\<close>, the sequences, the clock and the \<open>::uuid\<close>
  cast return. A statement outside a transaction commits at once. A commit, or such a statement,
  may also take effect and still be reported as failed, when the acknowledgement is lost.
\<close>

section \<open>Scripts\<close>

datatype ('s, 'a) script = Done 'a | Stmt "'s \<Rightarrow> 's \<times> ('s, 'a) script"

primrec bind :: "('s, 'a) script \<Rightarrow> ('a \<Rightarrow> ('s, 'b) script) \<Rightarrow> ('s, 'b) script" where
  "bind (Done a) k = k a"
| "bind (Stmt f) k = Stmt (map_prod id (\<lambda>m. bind m k) \<circ> f)"

primrec run :: "('s, 'a) script \<Rightarrow> 's \<Rightarrow> 'a \<times> 's" where
  "run (Done a) = (\<lambda>w. (a, w))"
| "run (Stmt f) = (\<lambda>w. case (map_prod id run \<circ> f) w of (w', g) \<Rightarrow> g w')"

lemma run_Done [simp, run_simps]: "run (Done a) w = (a, w)"
  by simp

lemma run_Stmt [run_simps]: "run (Stmt f) w = (case f w of (w', m) \<Rightarrow> run m w')"
  by (simp split: prod.split)

declare run.simps [simp del]
declare run_Done [simp]

lemma run_bind [run_simps]: "run (bind m k) w = (case run m w of (a, w') \<Rightarrow> run (k a) w')"
proof (induction m arbitrary: w)
  case (Done a)
  then show ?case by simp
next
  case (Stmt f)
  obtain w' m where f: "f w = (w', m)" by (cases "f w")
  have "run (bind m k) w' = (case run m w' of (a, w'') \<Rightarrow> run (k a) w'')"
    by (rule Stmt [OF rangeI [of f w]]) (simp add: f snds.intros)
  then show ?case by (simp add: run_Stmt f)
qed

text \<open>The \<open>if err != nil { return ..., err }\<close> of Go.\<close>

definition bindE :: "('s, go_error + 'a) script \<Rightarrow> ('a \<Rightarrow> ('s, go_error + 'b) script)
    \<Rightarrow> ('s, go_error + 'b) script" where
  "bindE m k = bind m (\<lambda>r. case r of Inl e \<Rightarrow> Done (Inl e) | Inr a \<Rightarrow> k a)"

abbreviation ok :: "'a \<Rightarrow> ('s, go_error + 'a) script" where "ok a \<equiv> Done (Inr a)"
abbreviation throw :: "go_error \<Rightarrow> ('s, go_error + 'a) script" where "throw e \<equiv> Done (Inl e)"

lemma run_bindE [run_simps]:
  "run (bindE m k) w = (case run m w of (Inl e, w') \<Rightarrow> (Inl e, w') | (Inr a, w') \<Rightarrow> run (k a) w')"
  by (auto simp: bindE_def run_bind split: prod.splits sum.splits)

text \<open>A successful run went through every step.\<close>

lemma run_bindE_Inr:
  "run (bindE m k) w = (Inr b, w') \<longleftrightarrow> (\<exists>a w1. run m w = (Inr a, w1) \<and> run (k a) w1 = (Inr b, w'))"
  by (auto simp: run_bindE split: prod.splits sum.splits)

lemma run_bindE_Inl:
  "run (bindE m k) w = (Inl e, w') \<longleftrightarrow> run m w = (Inl e, w')
     \<or> (\<exists>a w1. run m w = (Inr a, w1) \<and> run (k a) w1 = (Inl e, w'))"
  by (auto simp: run_bindE split: prod.splits sum.splits)

text \<open>A handler turns what its service call returned into a response.\<close>

definition respond :: "('s, go_error + 'a) script \<Rightarrow> (go_error \<Rightarrow> 'd response) \<Rightarrow> ('a \<Rightarrow> 'd response)
    \<Rightarrow> ('s, 'd response) script" where
  "respond m onErr onOk = bind m (\<lambda>res. Done (case res of Inl err \<Rightarrow> onErr err | Inr a \<Rightarrow> onOk a))"

lemma run_respond [run_simps]:
  "run (respond m f g) w = (case run m w of (Inl e, w') \<Rightarrow> (f e, w') | (Inr a, w') \<Rightarrow> (g a, w'))"
  by (auto simp: respond_def run_bind split: prod.splits sum.splits)

section \<open>The world of a request\<close>

text \<open>Rows and unique-index entries a statement locks until its transaction ends.\<close>

datatype rowid = RowUser uuid | RowIncident uuid | RowUnit uuid | RowDispatch uuid | RowShelter uuid
  | RowVictim uuid | RowTransport uuid | RowBooking uuid | RowOutbox int | RowInbox string int
  | RowNotification int | RowAudit int | IdxActive uuid | IdxUnique string string

record env =
  flt :: "nat \<Rightarrow> go_error option" \<comment> \<open>statement \<open>n\<close> fails before it takes effect\<close>
  ack_lost :: "nat \<Rightarrow> bool" \<comment> \<open>statement \<open>n\<close> commits, its acknowledgement does not arrive\<close>
  uuid_cast :: "string \<Rightarrow> uuid option" \<comment> \<open>the \<open>::uuid\<close> cast, into the canonical text\<close>
  gen_uuid :: "nat \<Rightarrow> uuid" \<comment> \<open>\<open>gen_random_uuid()\<close> in statement \<open>n\<close>\<close>
  nextval :: "nat \<Rightarrow> int" \<comment> \<open>a \<open>BIGSERIAL\<close> default in statement \<open>n\<close>\<close>
  clock :: "nat \<Rightarrow> time" \<comment> \<open>the server's clock when statement \<open>n\<close> starts\<close>
  st_distance :: "float64 \<times> float64 \<Rightarrow> float64 \<times> float64 \<Rightarrow> real"
    \<comment> \<open>\<open>ST_Distance\<close> of two (latitude, longitude) points, in metres\<close>
  knn_distance :: "float64 \<times> float64 \<Rightarrow> float64 \<times> float64 \<Rightarrow> real"
    \<comment> \<open>the \<open><->\<close> operator's distance, by which a KNN query orders\<close>
  others_locked :: "nat \<Rightarrow> rowid \<Rightarrow> bool"
    \<comment> \<open>the rows another transaction holds when statement \<open>n\<close> runs (what \<open>SKIP LOCKED\<close> skips)\<close>
  st_dwithin :: "float64 \<times> float64 \<Rightarrow> float64 \<times> float64 \<Rightarrow> float64 \<Rightarrow> bool"
    \<comment> \<open>\<open>ST_DWithin\<close> of two points and a radius in metres\<close>
  collate_key :: "string \<Rightarrow> string" \<comment> \<open>the sort key of a text under the database's collation\<close>

record world =
  base :: db
  view :: db
  locks :: "rowid set"
  pc :: nat
  txnow :: time
  wenv :: env

type_synonym ('m, 'a) tx = "('m world_scheme, go_error + 'a) script"

text \<open>What a statement does: an error, or an answer, the new database and the rows it locks.\<close>

type_synonym 'a stmt = "env \<Rightarrow> nat \<Rightarrow> time \<Rightarrow> db \<Rightarrow> go_error + ('a \<times> db \<times> rowid set)"

definition lost_ack :: go_error where
  "lost_ack = Other ''connection lost before the server answered''"

section \<open>Statements\<close>

text \<open>A statement of the open transaction: it reads and writes \<open>view\<close>, and \<open>now()\<close> is the time
  the transaction began.\<close>

definition tx_stmt :: "'a stmt \<Rightarrow> ('m, 'a) tx" where
  "tx_stmt f = Stmt (\<lambda>w. let n = pc w; w' = w\<lparr>pc := Suc n\<rparr> in
     case flt (wenv w) n of
       Some e \<Rightarrow> (w', throw e)
     | None \<Rightarrow> (case f (wenv w) n (txnow w) (view w) of
         Inl e \<Rightarrow> (w', throw e)
       | Inr (a, d, ls) \<Rightarrow> (w'\<lparr>view := d, locks := locks w \<union> ls\<rparr>, ok a)))"

text \<open>A statement on the pool: its own transaction.\<close>

definition pool_stmt :: "'a stmt \<Rightarrow> ('m, 'a) tx" where
  "pool_stmt f = Stmt (\<lambda>w. let n = pc w; w' = w\<lparr>pc := Suc n\<rparr> in
     case flt (wenv w) n of
       Some e \<Rightarrow> (w', throw e)
     | None \<Rightarrow> (case f (wenv w) n (clock (wenv w) n) (base w) of
         Inl e \<Rightarrow> (w', throw e)
       | Inr (a, d, ls) \<Rightarrow> (w'\<lparr>base := d, view := d\<rparr>,
           if ack_lost (wenv w) n then throw lost_ack else ok a)))"

definition pool_Begin :: "('m, unit) tx" where
  "pool_Begin = Stmt (\<lambda>w. let n = pc w; w' = w\<lparr>pc := Suc n\<rparr> in
     case flt (wenv w) n of
       Some e \<Rightarrow> (w', throw e)
     | None \<Rightarrow> (w'\<lparr>view := base w, locks := {}, txnow := clock (wenv w) n\<rparr>, ok ()))"

definition tx_Commit :: "('m, unit) tx" where
  "tx_Commit = Stmt (\<lambda>w. let n = pc w; w' = w\<lparr>pc := Suc n\<rparr> in
     case flt (wenv w) n of
       Some e \<Rightarrow> (w', throw e)
     | None \<Rightarrow> (w'\<lparr>base := view w, locks := {}\<rparr>,
         if ack_lost (wenv w) n then throw lost_ack else ok ()))"

text \<open>\<open>defer tx.Rollback(ctx)\<close>: a no-op after a commit, and whatever it returns is ignored.\<close>

definition tx_Rollback :: "('m world_scheme, unit) script" where
  "tx_Rollback = Stmt (\<lambda>w. (w\<lparr>pc := Suc (pc w), view := base w, locks := {}\<rparr>, Done ()))"

text \<open>The shape of every transactional method: begin, defer the rollback, the body, commit.\<close>

definition in_tx :: "('m, 'a) tx \<Rightarrow> ('m, 'a) tx" where
  "in_tx body = bindE pool_Begin (\<lambda>_.
     bind (bindE body (\<lambda>a. bindE tx_Commit (\<lambda>_. ok a)))
       (\<lambda>r. bind tx_Rollback (\<lambda>_. Done r)))"

text \<open>A transactional method that may also return without committing: its body says which.\<close>

datatype 'a ending = Return 'a | Commit 'a

definition in_tx_or :: "('m, 'a ending) tx \<Rightarrow> ('m, 'a) tx" where
  "in_tx_or body = bindE pool_Begin (\<lambda>_.
     bind (bindE body (\<lambda>r. case r of Return a \<Rightarrow> ok a | Commit a \<Rightarrow> bindE tx_Commit (\<lambda>_. ok a)))
       (\<lambda>r. bind tx_Rollback (\<lambda>_. Done r)))"

text \<open>A \<open>$n::uuid\<close> parameter: a malformed value is SQLSTATE 22P02.\<close>

definition cast_uuid :: "string \<Rightarrow> (uuid \<Rightarrow> 'a stmt) \<Rightarrow> 'a stmt" where
  "cast_uuid s f = (\<lambda>e n t d. case uuid_cast e s of None \<Rightarrow> Inl invalid_text | Some u \<Rightarrow> f u e n t d)"

text \<open>A Go \<open>int\<close> sent as an \<open>INTEGER\<close> parameter: out of range, the driver refuses it.\<close>

definition pg_int4 :: "int \<Rightarrow> 'a stmt \<Rightarrow> 'a stmt" where
  "pg_int4 n f = (\<lambda>e k t d. case int4_param n of Inl err \<Rightarrow> Inl err | Inr _ \<Rightarrow> f e k t d)"

lemma pg_int4_Inr: "pg_int4 n f e k t d = Inr x \<longleftrightarrow> int4_ok n \<and> f e k t d = Inr x"
  by (auto simp: pg_int4_def int4_param_def split: if_splits)

text \<open>A query: it answers from the database and changes nothing. A Go text parameter must be valid
  in the server's encoding, and \<open>LIMIT\<close> and \<open>OFFSET\<close> must not be negative.\<close>

definition reading :: "(env \<Rightarrow> db \<Rightarrow> go_error + 'a) \<Rightarrow> 'a stmt" where
  "reading q = (\<lambda>e n t d. case q e d of Inl x \<Rightarrow> Inl x | Inr a \<Rightarrow> Inr (a, d, {}))"

definition one_row :: "'r option \<Rightarrow> go_error + 'r" where
  "one_row r = (case r of None \<Rightarrow> Inl ErrNoRows | Some a \<Rightarrow> Inr a)"

definition pg_text :: "string list \<Rightarrow> 'a stmt \<Rightarrow> 'a stmt" where
  "pg_text ss f = (\<lambda>e n t d. if list_all text_ok ss then f e n t d else Inl bad_encoding)"

definition pg_page :: "int \<Rightarrow> int \<Rightarrow> 'a list \<Rightarrow> go_error + 'a list" where
  "pg_page limit offset xs =
     (if limit < 0 then Inl (PgError ''2201W'')
      else if offset < 0 then Inl (PgError ''2201X'')
      else Inr (page (nat limit) (nat offset) xs))"

lemma pg_text_Inr: "pg_text ss f e n t d = Inr x \<longleftrightarrow> list_all text_ok ss \<and> f e n t d = Inr x"
  by (auto simp: pg_text_def split: if_splits)

lemma pg_page_ok [simp]:
  "0 \<le> limit \<Longrightarrow> 0 \<le> offset \<Longrightarrow> pg_page limit offset xs = Inr (page (nat limit) (nat offset) xs)"
  by (simp add: pg_page_def)

lemma reading_Inr: "reading q e n t d = Inr (a, d', ls) \<longleftrightarrow> q e d = Inr a \<and> d' = d \<and> ls = {}"
  by (auto simp: reading_def split: sum.splits)

lemma reading_Inl: "reading q e n t d = Inl x \<longleftrightarrow> q e d = Inl x"
  by (auto simp: reading_def split: sum.splits)

lemma one_row_simps [simp]: "one_row None = Inl ErrNoRows" "one_row (Some a) = Inr a"
  by (simp_all add: one_row_def)

lemma one_row_iff [simp]: "one_row r = Inr a \<longleftrightarrow> r = Some a" "one_row r = Inl e \<longleftrightarrow> r = None \<and> e = ErrNoRows"
  by (cases r; auto)+

subsection \<open>How statements run\<close>

lemma run_tx_stmt [run_simps]:
  "run (tx_stmt f) w = (case flt (wenv w) (pc w) of
       Some e \<Rightarrow> (Inl e, w\<lparr>pc := Suc (pc w)\<rparr>)
     | None \<Rightarrow> (case f (wenv w) (pc w) (txnow w) (view w) of
         Inl e \<Rightarrow> (Inl e, w\<lparr>pc := Suc (pc w)\<rparr>)
       | Inr (a, d, ls) \<Rightarrow> (Inr a, w\<lparr>pc := Suc (pc w), view := d, locks := locks w \<union> ls\<rparr>)))"
  by (auto simp: tx_stmt_def run_Stmt Let_def split: option.split sum.split)

lemma run_pool_stmt [run_simps]:
  "run (pool_stmt f) w = (case flt (wenv w) (pc w) of
       Some e \<Rightarrow> (Inl e, w\<lparr>pc := Suc (pc w)\<rparr>)
     | None \<Rightarrow> (case f (wenv w) (pc w) (clock (wenv w) (pc w)) (base w) of
         Inl e \<Rightarrow> (Inl e, w\<lparr>pc := Suc (pc w)\<rparr>)
       | Inr (a, d, ls) \<Rightarrow> (if ack_lost (wenv w) (pc w) then Inl lost_ack else Inr a,
           w\<lparr>pc := Suc (pc w), base := d, view := d\<rparr>)))"
  by (auto simp: pool_stmt_def run_Stmt Let_def split: option.split sum.split)

lemma run_pool_Begin [run_simps]:
  "run pool_Begin w = (case flt (wenv w) (pc w) of
       Some e \<Rightarrow> (Inl e, w\<lparr>pc := Suc (pc w)\<rparr>)
     | None \<Rightarrow> (Inr (), w\<lparr>pc := Suc (pc w), view := base w, locks := {}, txnow := clock (wenv w) (pc w)\<rparr>))"
  by (auto simp: pool_Begin_def run_Stmt Let_def split: option.split)

lemma run_tx_Commit [run_simps]:
  "run tx_Commit w = (case flt (wenv w) (pc w) of
       Some e \<Rightarrow> (Inl e, w\<lparr>pc := Suc (pc w)\<rparr>)
     | None \<Rightarrow> (if ack_lost (wenv w) (pc w) then Inl lost_ack else Inr (),
         w\<lparr>pc := Suc (pc w), base := view w, locks := {}\<rparr>))"
  by (auto simp: tx_Commit_def run_Stmt Let_def split: option.split)

lemma run_tx_Rollback [run_simps]:
  "run tx_Rollback w = ((), w\<lparr>pc := Suc (pc w), view := base w, locks := {}\<rparr>)"
  by (simp add: tx_Rollback_def run_Stmt)

text \<open>Inversion: what a successful statement did.\<close>

lemma tx_stmt_Inr:
  "run (tx_stmt f) w = (Inr a, w') \<longleftrightarrow> flt (wenv w) (pc w) = None
     \<and> (\<exists>d ls. f (wenv w) (pc w) (txnow w) (view w) = Inr (a, d, ls)
         \<and> w' = w\<lparr>pc := Suc (pc w), view := d, locks := locks w \<union> ls\<rparr>)"
  by (auto simp: run_tx_stmt split: option.splits sum.splits)

lemma tx_stmt_Inl:
  "run (tx_stmt f) w = (Inl e, w') \<longleftrightarrow> w' = w\<lparr>pc := Suc (pc w)\<rparr>
     \<and> (flt (wenv w) (pc w) = Some e
        \<or> flt (wenv w) (pc w) = None \<and> f (wenv w) (pc w) (txnow w) (view w) = Inl e)"
  by (auto simp: run_tx_stmt split: option.splits sum.splits)

lemma cast_uuid_Inr:
  "cast_uuid s f e n t d = Inr x \<longleftrightarrow> (\<exists>u. uuid_cast e s = Some u \<and> f u e n t d = Inr x)"
  by (auto simp: cast_uuid_def split: option.splits)

lemma cast_uuid_Inl:
  "cast_uuid s f e n t d = Inl x \<longleftrightarrow> uuid_cast e s = None \<and> x = invalid_text
     \<or> (\<exists>u. uuid_cast e s = Some u \<and> f u e n t d = Inl x)"
  by (auto simp: cast_uuid_def split: option.splits)

text \<open>A guard that returns an error early was passed.\<close>

lemma run_guard:
  "run (if b then throw e else m) w = (Inr a, w') \<longleftrightarrow> \<not> b \<and> run m w = (Inr a, w')"
  by simp

section \<open>Transaction bodies and atomicity\<close>

text \<open>
  A body whose statements all go through the transaction leaves the committed database, the
  environment and the transaction's clock alone, whatever it returns.
\<close>

definition tx_only :: "('m world_scheme, 'a) script \<Rightarrow> bool" where
  "tx_only m \<longleftrightarrow> (\<forall>w r w'. run m w = (r, w') \<longrightarrow>
     base w' = base w \<and> wenv w' = wenv w \<and> txnow w' = txnow w \<and> world.more w' = world.more w)"

lemma tx_only_Done [simp]: "tx_only (Done a)"
  by (simp add: tx_only_def)

lemma tx_only_tx_stmt [simp]: "tx_only (tx_stmt f)"
  by (auto simp: tx_only_def run_tx_stmt split: option.splits sum.splits)

lemma tx_only_bind: "tx_only m \<Longrightarrow> (\<And>a. tx_only (k a)) \<Longrightarrow> tx_only (bind m k)"
  unfolding tx_only_def run_bind by (auto split: prod.splits)

lemma tx_only_bindE: "tx_only m \<Longrightarrow> (\<And>a. tx_only (k a)) \<Longrightarrow> tx_only (bindE m k)"
  unfolding bindE_def by (rule tx_only_bind) (auto split: sum.split)

lemma tx_onlyD: "tx_only m \<Longrightarrow> run m w = (r, w') \<Longrightarrow> base w' = base w \<and> wenv w' = wenv w
    \<and> txnow w' = txnow w \<and> world.more w' = world.more w"
  unfolding tx_only_def by blast

text \<open>The world a transaction's body starts in.\<close>

definition begun :: "'m world_scheme \<Rightarrow> 'm world_scheme" where
  "begun w = w\<lparr>pc := Suc (pc w), view := base w, locks := {}, txnow := clock (wenv w) (pc w)\<rparr>"

lemma begun_simps [simp]:
  "base (begun w) = base w" "view (begun w) = base w" "wenv (begun w) = wenv w"
  "pc (begun w) = Suc (pc w)" "locks (begun w) = {}" "txnow (begun w) = clock (wenv w) (pc w)"
  "world.more (begun w) = world.more w"
  by (simp_all add: begun_def)

lemma in_tx_Inr:
  assumes "run (in_tx body) w = (Inr a, w')"
  shows "\<exists>w1. run body (begun w) = (Inr a, w1) \<and> base w' = view w1
      \<and> flt (wenv w) (pc w) = None \<and> wenv w' = wenv w1 \<and> world.more w' = world.more w1"
  using assms
  by (auto simp: in_tx_def run_simps run_bindE_Inr begun_def split: prod.splits option.splits sum.splits if_splits)

text \<open>
  All or nothing: a transactional method either leaves the committed database as it was, or
  installs everything its body wrote. An error leaves it as it was, unless it is the lost
  acknowledgement of the commit. The body may do more than run statements (call a broker, say),
  as long as it keeps the committed database and the environment.
\<close>

lemma in_tx_frame:
  assumes "run (in_tx body) w = (r, w')"
    and "\<And>r1 w1. run body (begun w) = (r1, w1) \<Longrightarrow> base w1 = base w \<and> wenv w1 = wenv w"
  obtains (unstarted) e where "r = Inl e" "base w' = base w" "wenv w' = wenv w" "world.more w' = world.more w"
    | (unchanged) e r1 w1 where "run body (begun w) = (r1, w1)" "r = Inl e" "base w' = base w"
      "wenv w' = wenv w" "world.more w' = world.more w1" "\<forall>e1. r1 = Inl e1 \<longrightarrow> e = e1"
    | (committed) a w1 where "run body (begun w) = (Inr a, w1)" "base w' = view w1"
      "r = Inr a \<or> r = Inl lost_ack" "flt (wenv w) (pc w) = None" "wenv w' = wenv w"
      "world.more w' = world.more w1"
proof (cases "flt (wenv w) (pc w)")
  case (Some e)
  with assms(1) show ?thesis by (intro unstarted [of e]) (auto simp: in_tx_def run_simps)
next
  case None
  obtain r1 w1 where b: "run body (begun w) = (r1, w1)" by (cases "run body (begun w)")
  from assms(2) [OF b] have f: "base w1 = base w" "wenv w1 = wenv w" by simp_all
  show ?thesis
  proof (cases r1)
    case (Inl e)
    with assms(1) None b f show ?thesis
      by (intro unchanged [of r1 w1 e]) (auto simp: in_tx_def run_simps begun_def)
  next
    case (Inr a)
    show ?thesis
    proof (cases "flt (wenv w1) (pc w1)")
      case (Some e)
      with assms(1) None b f Inr show ?thesis
        by (intro unchanged [of r1 w1 e]) (auto simp: in_tx_def run_simps begun_def)
    next
      case n: None
      with assms(1) None b f Inr show ?thesis
        by (intro committed [of a w1]) (auto simp: in_tx_def run_simps begun_def split: if_splits)
    qed
  qed
qed

lemma in_tx_cases:
  assumes "run (in_tx body) w = (r, w')" and "tx_only body"
  obtains (unchanged) e where "r = Inl e" "base w' = base w" "wenv w' = wenv w"
      "world.more w' = world.more w"
    | (committed) a w1 where "run body (begun w) = (Inr a, w1)" "base w' = view w1"
      "r = Inr a \<or> r = Inl lost_ack" "flt (wenv w) (pc w) = None" "wenv w' = wenv w"
      "world.more w' = world.more w"
proof -
  have fr: "base w1 = base w \<and> wenv w1 = wenv w \<and> world.more w1 = world.more w"
    if "run body (begun w) = (r1, w1)" for r1 w1
    using tx_onlyD [OF assms(2) that] by simp
  from assms(1) show ?thesis
  proof (rule in_tx_frame)
    fix r1 w1 assume "run body (begun w) = (r1, w1)"
    from fr [OF this] show "base w1 = base w \<and> wenv w1 = wenv w" by simp
  qed (use fr unchanged committed in \<open>metis\<close>)+
qed

lemma in_tx_or_cases:
  assumes "run (in_tx_or body) w = (r, w')" and "tx_only body"
  obtains (failed) e where "r = Inl e" "base w' = base w" "wenv w' = wenv w" "world.more w' = world.more w"
    | (returned) a w1 where "run body (begun w) = (Inr (Return a), w1)" "r = Inr a" "base w' = base w"
      "flt (wenv w) (pc w) = None" "wenv w' = wenv w" "world.more w' = world.more w"
    | (committed) a w1 where "run body (begun w) = (Inr (Commit a), w1)" "base w' = view w1"
      "r = Inr a \<or> r = Inl lost_ack" "flt (wenv w) (pc w) = None" "wenv w' = wenv w"
      "world.more w' = world.more w"
proof (cases "flt (wenv w) (pc w)")
  case (Some e)
  with assms(1) show ?thesis by (intro failed [of e]) (auto simp: in_tx_or_def run_simps)
next
  case None
  obtain r1 w1 where b: "run body (begun w) = (r1, w1)" by (cases "run body (begun w)")
  from tx_onlyD [OF assms(2) b]
  have f: "base w1 = base w" "wenv w1 = wenv w" "world.more w1 = world.more w" by simp_all
  show ?thesis
  proof (cases r1)
    case (Inl e)
    with assms(1) None b f show ?thesis
      by (intro failed [of e]) (auto simp: in_tx_or_def run_simps begun_def)
  next
    case (Inr a)
    show ?thesis
    proof (cases a)
      case (Return x)
      with assms(1) None b f Inr show ?thesis
        by (intro returned [of x w1]) (auto simp: in_tx_or_def run_simps begun_def)
    next
      case (Commit x)
      show ?thesis
      proof (cases "flt (wenv w1) (pc w1)")
        case (Some e)
        with assms(1) None b f Inr Commit show ?thesis
          by (intro failed [of e]) (auto simp: in_tx_or_def run_simps begun_def)
      next
        case n: None
        with assms(1) None b f Inr Commit show ?thesis
          by (intro committed [of x w1]) (auto simp: in_tx_or_def run_simps begun_def split: if_splits)
      qed
    qed
  qed
qed

text \<open>An operation either changes nothing, with an error, or installs what its specification says;
  the caller may miss the news of a commit, never the other way round.\<close>

definition all_or_nothing :: "('a \<Rightarrow> db \<Rightarrow> bool) \<Rightarrow> 'm world_scheme \<Rightarrow> (go_error + 'a) \<Rightarrow> 'm world_scheme \<Rightarrow> bool" where
  "all_or_nothing spec w res w' \<longleftrightarrow> wenv w' = wenv w \<and> world.more w' = world.more w
     \<and> ((\<exists>err. res = Inl err) \<and> base w' = base w
        \<or> (\<exists>a. spec a (base w') \<and> (res = Inr a \<or> res = Inl lost_ack)))"

lemma all_or_nothing_Inr: "all_or_nothing spec w (Inr a) w' \<Longrightarrow> spec a (base w')"
  by (auto simp: all_or_nothing_def)

lemma in_tx_all_or_nothing:
  assumes "run (in_tx body) w = (res, w')" and "tx_only body"
    and "\<And>a w1. run body (begun w) = (Inr a, w1) \<Longrightarrow> spec a (view w1)"
  shows "all_or_nothing spec w res w'"
  using assms(1,2) by (cases rule: in_tx_cases) (use assms(3) in \<open>auto simp: all_or_nothing_def\<close>)

lemma pool_stmt_all_or_nothing:
  assumes "run (pool_stmt f) w = (res, w')"
    and "\<And>a d ls. f (wenv w) (pc w) (clock (wenv w) (pc w)) (base w) = Inr (a, d, ls) \<Longrightarrow> spec a d"
  shows "all_or_nothing spec w res w'"
  using assms by (auto simp: run_pool_stmt all_or_nothing_def split: option.splits sum.splits if_splits)

text \<open>
  The documented behaviour of Postgres's \<open>uuid\<close> type the code relies on: the canonical text reads
  back as itself and has no zero byte, and what \<open>gen_random_uuid()\<close> returns is canonical.
\<close>

definition uuid_ok :: "env \<Rightarrow> bool" where
  "uuid_ok e \<longleftrightarrow> (\<forall>s u. uuid_cast e s = Some u \<longrightarrow> uuid_cast e u = Some u \<and> plain_text u)
     \<and> (\<forall>n. uuid_cast e (gen_uuid e n) = Some (gen_uuid e n))"

lemma uuid_ok_update [simp]: "uuid_ok (e\<lparr>flt := f\<rparr>) = uuid_ok e" "uuid_ok (e\<lparr>ack_lost := a\<rparr>) = uuid_ok e"
  by (simp_all add: uuid_ok_def)

text \<open>A run with no faults and no lost acknowledgement.\<close>

definition calm :: "env \<Rightarrow> bool" where
  "calm e \<longleftrightarrow> (\<forall>n. flt e n = None) \<and> (\<forall>n. \<not> ack_lost e n)"

lemma calm_simps [simp]: "calm e \<Longrightarrow> flt e n = None" "calm e \<Longrightarrow> \<not> ack_lost e n"
  by (simp_all add: calm_def)

text \<open>The world after a statement that only answers.\<close>

definition ticked :: "'m world_scheme \<Rightarrow> 'm world_scheme" where
  "ticked w = w\<lparr>pc := Suc (pc w)\<rparr>"

lemma ticked_simps [simp]:
  "wenv (ticked w) = wenv w" "pc (ticked w) = Suc (pc w)" "txnow (ticked w) = txnow w" "view (ticked w) = view w"
  "base (ticked w) = base w" "locks (ticked w) = locks w"
  by (simp_all add: ticked_def)

lemma run_in_tx_calm:
  assumes "calm (wenv w)" and "tx_only body" and "run body (begun w) = (r, w1)"
  shows "run (in_tx body) w = (r, w1\<lparr>pc := pc w1 + (case r of Inl _ \<Rightarrow> 1 | Inr _ \<Rightarrow> 2),
     base := (case r of Inl _ \<Rightarrow> base w | Inr _ \<Rightarrow> view w1),
     view := (case r of Inl _ \<Rightarrow> base w | Inr _ \<Rightarrow> view w1), locks := {}\<rparr>)"
proof -
  from tx_onlyD [OF assms(2,3)] have f: "base w1 = base w" "wenv w1 = wenv w" by simp_all
  with assms show ?thesis
    by (cases r) (auto simp: in_tx_def run_simps begun_def intro!: world.equality)
qed

end
