(* ===== verification/Interfaces.thy ===== *)
theory Interfaces
  imports Tx
begin

text \<open>
  The interfaces through which the modules call each other inside one transaction, as the
  consuming Go packages declare them: \<open>dispatch.UnitReserver\<close>, \<open>dispatch.IncidentTracker\<close>,
  \<open>victim.ShelterAllocator\<close> and the \<open>EventWriter\<close> that dispatch, victim and transport share. An
  interface value is a record of its methods; a locale states what its client may rely on: which
  rows a successful call writes, and that a failed one writes nothing the transaction would keep.
  The modules that implement an interface interpret its locale on their own repository.
\<close>

section \<open>Interface values\<close>

record 'm UnitReserver =
  LockForReserveTx :: "string \<Rightarrow> ('m, string) tx"
  ReadVersionTx :: "string \<Rightarrow> ('m, string \<times> nat) tx"
  MarkReservedTx :: "string \<Rightarrow> ('m, unit) tx"
  MarkReservedCASTx :: "string \<Rightarrow> nat \<Rightarrow> ('m, bool) tx"
  SetStatusTx :: "string \<Rightarrow> string \<Rightarrow> ('m, unit) tx"

record 'm IncidentTracker =
  StatusTx :: "string \<Rightarrow> ('m, string) tx"
  MarkDispatchedTx :: "string \<Rightarrow> ('m, unit) tx"
  ResolveIfDispatchedTx :: "string \<Rightarrow> ('m, unit) tx"
  RevertToVerifiedTx :: "string \<Rightarrow> ('m, unit) tx"

record 'm EventWriter =
  WriteTx :: "string \<Rightarrow> string \<Rightarrow> string \<Rightarrow> payload \<Rightarrow> ('m, unit) tx"

section \<open>What a successful call does\<close>

text \<open>A call that answers and writes nothing, perhaps locking rows.\<close>

definition reads_only :: "'m world_scheme \<Rightarrow> 'm world_scheme \<Rightarrow> bool" where
  "reads_only w w' \<longleftrightarrow> view w' = view w \<and> locks w \<subseteq> locks w'"

text \<open>A call that rewrites one row of one table, locking it.\<close>

definition set_unit :: "string \<Rightarrow> time \<Rightarrow> unit_row \<Rightarrow> unit_row" where
  "set_unit st t r = r\<lparr>u_status := st, u_version := Suc (u_version r), u_updated_at := t\<rparr>"

definition set_incident :: "string \<Rightarrow> time \<Rightarrow> incident_row \<Rightarrow> incident_row" where
  "set_incident st t r = r\<lparr>i_status := st, i_updated_at := t\<rparr>"

definition moves_unit :: "uuid \<Rightarrow> string \<Rightarrow> 'm world_scheme \<Rightarrow> 'm world_scheme \<Rightarrow> bool" where
  "moves_unit u st w w' \<longleftrightarrow>
     view w' = (view w)\<lparr>units := upd u (set_unit st (txnow w)) (units (view w))\<rparr>
     \<and> locks w \<subseteq> locks w' \<and> (sel (units (view w)) u \<noteq> None \<longrightarrow> RowUnit u \<in> locks w')"

definition moves_incident_if :: "string set \<Rightarrow> uuid \<Rightarrow> string \<Rightarrow> 'm world_scheme \<Rightarrow> 'm world_scheme \<Rightarrow> bool" where
  "moves_incident_if from i st w w' \<longleftrightarrow>
     view w' = (view w)\<lparr>incidents :=
       upd i (\<lambda>r. if i_status r \<in> from then set_incident st (txnow w) r else r) (incidents (view w))\<rparr>
     \<and> locks w \<subseteq> locks w'
     \<and> (\<forall>r. sel (incidents (view w)) i = Some r \<longrightarrow> i_status r \<in> from \<longrightarrow> RowIncident i \<in> locks w')"

lemma set_unit_simps [simp]:
  "u_status (set_unit st t r) = st" "u_version (set_unit st t r) = Suc (u_version r)"
  "u_call_sign (set_unit st t r) = u_call_sign r" "u_type (set_unit st t r) = u_type r"
  "u_lat (set_unit st t r) = u_lat r" "u_lng (set_unit st t r) = u_lng r"
  "u_created_at (set_unit st t r) = u_created_at r"
  by (simp_all add: set_unit_def)

lemma set_incident_simps [simp]:
  "i_status (set_incident st t r) = st" "i_severity (set_incident st t r) = i_severity r"
  "i_report_count (set_incident st t r) = i_report_count r"
  "i_reporter_id (set_incident st t r) = i_reporter_id r"
  "i_lat (set_incident st t r) = i_lat r" "i_lng (set_incident st t r) = i_lng r"
  by (simp_all add: set_incident_def)

section \<open>The contracts\<close>

locale unit_reserver =
  fixes U :: "'m UnitReserver"
  assumes unit_tx_only [simp]:
      "tx_only (LockForReserveTx U x)" "tx_only (ReadVersionTx U x)" "tx_only (MarkReservedTx U x)"
      "tx_only (MarkReservedCASTx U x v)" "tx_only (SetStatusTx U x st)"
    and lock_ok: "run (LockForReserveTx U x) w = (Inr st, w') \<Longrightarrow>
      \<exists>u r. uuid_cast (wenv w) x = Some u \<and> sel (units (view w)) u = Some r \<and> st = u_status r
        \<and> reads_only w w' \<and> RowUnit u \<in> locks w'"
    and read_version_ok: "run (ReadVersionTx U x) w = (Inr (st, v), w') \<Longrightarrow>
      \<exists>u r. uuid_cast (wenv w) x = Some u \<and> sel (units (view w)) u = Some r \<and> st = u_status r
        \<and> v = u_version r \<and> reads_only w w'"
    and mark_ok: "run (MarkReservedTx U x) w = (Inr (), w') \<Longrightarrow>
      \<exists>u. uuid_cast (wenv w) x = Some u \<and> moves_unit u UnitReserved w w'"
    and cas_ok: "run (MarkReservedCASTx U x v) w = (Inr won, w') \<Longrightarrow>
      \<exists>u. uuid_cast (wenv w) x = Some u
        \<and> (if won then (\<exists>r. sel (units (view w)) u = Some r \<and> u_version r = v) \<and> moves_unit u UnitReserved w w'
           else reads_only w w' \<and> (\<forall>r. sel (units (view w)) u = Some r \<longrightarrow> u_version r \<noteq> v))"
    and set_ok: "run (SetStatusTx U x st) w = (Inr (), w') \<Longrightarrow>
      \<exists>u. uuid_cast (wenv w) x = Some u \<and> moves_unit u st w w'"

locale incident_tracker =
  fixes T :: "'m IncidentTracker"
  assumes incident_tx_only [simp]:
      "tx_only (StatusTx T x)" "tx_only (MarkDispatchedTx T x)" "tx_only (ResolveIfDispatchedTx T x)"
      "tx_only (RevertToVerifiedTx T x)"
    and status_ok: "run (StatusTx T x) w = (Inr st, w') \<Longrightarrow>
      \<exists>i r. uuid_cast (wenv w) x = Some i \<and> sel (incidents (view w)) i = Some r \<and> st = i_status r
        \<and> reads_only w w'"
    and dispatched_ok: "run (MarkDispatchedTx T x) w = (Inr (), w') \<Longrightarrow>
      \<exists>i. uuid_cast (wenv w) x = Some i
        \<and> moves_incident_if {StatusReported, StatusVerified} i StatusDispatched w w'"
    and resolve_ok: "run (ResolveIfDispatchedTx T x) w = (Inr (), w') \<Longrightarrow>
      \<exists>i. uuid_cast (wenv w) x = Some i \<and> moves_incident_if {StatusDispatched} i StatusResolved w w'"
    and revert_ok: "run (RevertToVerifiedTx T x) w = (Inr (), w') \<Longrightarrow>
      \<exists>i. uuid_cast (wenv w) x = Some i \<and> moves_incident_if {StatusDispatched} i StatusVerified w w'"

text \<open>The event is one new row, written by the transaction that changed the state it reports.\<close>

definition new_event :: "string \<Rightarrow> uuid \<Rightarrow> string \<Rightarrow> payload \<Rightarrow> time \<Rightarrow> outbox_row" where
  "new_event agg aid ev pl t = \<lparr>o_aggregate_type = agg, o_aggregate_id = aid, o_event_type = ev,
     o_payload = pl, o_created_at = t, o_published_at = None, o_attempts = 0, o_last_error = None,
     o_next_attempt_at = t, o_dead_at = None\<rparr>"

definition add_event :: "int \<Rightarrow> outbox_row \<Rightarrow> db \<Rightarrow> db" where
  "add_event ek ev d = d\<lparr>outbox_events := ins ek ev (outbox_events d)\<rparr>"

locale event_writer =
  fixes W :: "'m EventWriter"
  assumes write_tx_only [simp]: "tx_only (WriteTx W agg x ev pl)"
    and write_ok: "run (WriteTx W agg x ev pl) w = (Inr (), w') \<Longrightarrow>
      \<exists>aid k. uuid_cast (wenv w) x = Some aid \<and> sel (outbox_events (view w)) k = None
        \<and> view w' = (view w)\<lparr>outbox_events := ins k (new_event agg aid ev pl (txnow w)) (outbox_events (view w))\<rparr>
        \<and> locks w \<subseteq> locks w'"

end
