(* ===== verification/Units.thy ===== *)
theory Units
  imports Interfaces
begin

text \<open>
  The unit module (\<^verbatim>\<open>internal/unit\<close>): the fleet's repository, with the four operations dispatch
  reserves units through, its service and its handlers. \<open>unit_reserver\<close> is interpreted on the
  repository: the contract the dispatch module relies on holds for the code's own statements.
\<close>

section \<open>The model\<close>

record Unit =
  un_ID :: string
  un_CallSign :: string
  un_Type :: string
  un_Status :: string
  un_Latitude :: float64
  un_Longitude :: float64
  un_CreatedAt :: time
  un_UpdatedAt :: time
  un_DistanceMeters :: float64

definition scanUnit :: "uuid \<times> unit_row \<Rightarrow> Unit" where
  "scanUnit kr = (case kr of (k, r) \<Rightarrow>
     \<lparr>un_ID = k, un_CallSign = u_call_sign r, un_Type = u_type r, un_Status = u_status r,
      un_Latitude = u_lat r, un_Longitude = u_lng r, un_CreatedAt = u_created_at r,
      un_UpdatedAt = u_updated_at r, un_DistanceMeters = Fin 0\<rparr>)"

lemma scanUnit_simps [simp]:
  "un_ID (scanUnit (k, r)) = k" "un_Status (scanUnit (k, r)) = u_status r"
  "un_Type (scanUnit (k, r)) = u_type r" "un_CallSign (scanUnit (k, r)) = u_call_sign r"
  "un_Latitude (scanUnit (k, r)) = u_lat r" "un_Longitude (scanUnit (k, r)) = u_lng r"
  by (simp_all add: scanUnit_def)

section \<open>The repository\<close>

text \<open>An \<open>UPDATE\<close> of one unit's status: the row's CHECK constraint, the version and the time.\<close>

definition update_unit_status :: "string \<Rightarrow> uuid \<Rightarrow> (uuid \<times> unit_row) option stmt" where
  "update_unit_status st u = (\<lambda>e n t d. case sel (units d) u of
       None \<Rightarrow> Inr (None, d, {})
     | Some r \<Rightarrow> if unit_row_ok (set_unit st t r)
         then Inr (Some (u, set_unit st t r), d\<lparr>units := upd u (set_unit st t) (units d)\<rparr>, {RowUnit u})
         else Inl check_violation)"

definition UnitRepository_LockForReserveTx :: "string \<Rightarrow> ('m, string) tx" where
  "UnitRepository_LockForReserveTx unitID = bind
     (tx_stmt (cast_uuid unitID (\<lambda>u e n t d. case sel (units d) u of
        None \<Rightarrow> Inl ErrNoRows | Some r \<Rightarrow> Inr (u_status r, d, {RowUnit u}))))
     (\<lambda>res. case res of
        Inl err \<Rightarrow> if errors_Is err ErrNoRows then throw (E Unit_ErrUnitNotFound) else throw err
      | Inr status \<Rightarrow> ok status)"

definition UnitRepository_ReadVersionTx :: "string \<Rightarrow> ('m, string \<times> nat) tx" where
  "UnitRepository_ReadVersionTx unitID = bind
     (tx_stmt (cast_uuid unitID (\<lambda>u. reading (\<lambda>e d.
        map_sum id (\<lambda>r. (u_status r, u_version r)) (one_row (sel (units d) u))))))
     (\<lambda>res. case res of
        Inl err \<Rightarrow> if errors_Is err ErrNoRows then throw (E Unit_ErrUnitNotFound) else throw err
      | Inr sv \<Rightarrow> ok sv)"

definition UnitRepository_MarkReservedTx :: "string \<Rightarrow> ('m, unit) tx" where
  "UnitRepository_MarkReservedTx unitID =
     bindE (tx_stmt (cast_uuid unitID (update_unit_status UnitReserved))) (\<lambda>_. ok ())"

definition UnitRepository_MarkReservedCASTx :: "string \<Rightarrow> nat \<Rightarrow> ('m, bool) tx" where
  "UnitRepository_MarkReservedCASTx unitID version = bindE
     (tx_stmt (cast_uuid unitID (\<lambda>u e n t d. case sel (units d) u of
        None \<Rightarrow> Inr (0, d, {})
      | Some r \<Rightarrow> if u_version r = version
          then map_sum id (\<lambda>(_, dls). (1::nat, dls)) (update_unit_status UnitReserved u e n t d)
          else Inr (0, d, {}))))
     (\<lambda>affected. ok (affected > 0))"

definition UnitRepository_SetStatusTx :: "string \<Rightarrow> string \<Rightarrow> ('m, unit) tx" where
  "UnitRepository_SetStatusTx unitID status =
     bindE (tx_stmt (cast_uuid unitID (update_unit_status status))) (\<lambda>_. ok ())"

text \<open>\<open>id = ANY($1::uuid[])\<close>: one malformed element is an error for the whole array.\<close>

fun cast_uuids :: "env \<Rightarrow> string list \<Rightarrow> go_error + uuid list" where
  "cast_uuids e [] = Inr []"
| "cast_uuids e (s # ss) = (case uuid_cast e s of None \<Rightarrow> Inl invalid_text
     | Some u \<Rightarrow> map_sum id ((#) u) (cast_uuids e ss))"

definition UnitRepository_FindAvailableByIDs :: "string list \<Rightarrow> ('m, Unit list) tx" where
  "UnitRepository_FindAvailableByIDs ids =
     (if ids = [] then ok []
      else pool_stmt (reading (\<lambda>e d. sum_bind (cast_uuids e ids) (\<lambda>us.
        Inr (map scanUnit (filter (\<lambda>(k, r). k \<in> set us \<and> u_status r = UnitAvailable) (units d)))))))"

definition UnitRepository_Create :: "Unit \<Rightarrow> ('m, Unit) tx" where
  "UnitRepository_Create u = pool_stmt (pg_text [un_CallSign u, un_Type u] (\<lambda>e n t d.
     let k = gen_uuid e n;
         r = \<lparr>u_call_sign = un_CallSign u, u_type = un_Type u, u_status = UnitAvailable,
              u_lat = un_Latitude u, u_lng = un_Longitude u, u_version = 1,
              u_created_at = t, u_updated_at = t\<rparr>
     in if \<not> unit_row_ok r then Inl check_violation
        else if sel (units d) k \<noteq> None \<or> list_ex (\<lambda>(_, r'). u_call_sign r' = un_CallSign u) (units d)
        then Inl unique_violation
        else Inr (u\<lparr>un_ID := k, un_Status := UnitAvailable, un_CreatedAt := t, un_UpdatedAt := t\<rparr>,
                  d\<lparr>units := ins k r (units d)\<rparr>,
                  {RowUnit k, IdxUnique ''units.call_sign'' (un_CallSign u)})))"

definition UnitRepository_GetByID :: "string \<Rightarrow> ('m, Unit) tx" where
  "UnitRepository_GetByID unitID = pool_stmt (cast_uuid unitID (\<lambda>u. reading (\<lambda>e d.
     map_sum id (\<lambda>r. scanUnit (u, r)) (one_row (sel (units d) u)))))"

definition UnitRepository_List :: "string \<Rightarrow> string \<Rightarrow> int \<Rightarrow> int \<Rightarrow> ('m, Unit list) tx" where
  "UnitRepository_List status unitType limit offset =
     pool_stmt (pg_text [status, unitType] (reading (\<lambda>e d.
       map_sum id (map scanUnit) (pg_page limit offset
         (sort_key (\<lambda>(k, r). collate_key e (u_call_sign r))
           (filter (\<lambda>(k, r). (status = '''' \<or> u_status r = status) \<and> (unitType = '''' \<or> u_type r = unitType))
             (units d)))))))"

definition UnitRepository_UpdateStatus :: "string \<Rightarrow> string \<Rightarrow> ('m, Unit) tx" where
  "UnitRepository_UpdateStatus unitID status = bindE
     (pool_stmt (pg_text [status] (cast_uuid unitID (update_unit_status status))))
     (\<lambda>row. case row of None \<Rightarrow> throw ErrNoRows | Some kr \<Rightarrow> ok (scanUnit kr))"

text \<open>The KNN query: ordered by the index's own distance operator, the displayed distance apart.\<close>

definition UnitRepository_FindNearestAvailable ::
    "float64 \<Rightarrow> float64 \<Rightarrow> string \<Rightarrow> int \<Rightarrow> ('m, Unit list) tx" where
  "UnitRepository_FindNearestAvailable lat lng unitType limit =
     pool_stmt (pg_text [unitType] (reading (\<lambda>e d.
       map_sum id (map (\<lambda>(k, r). (scanUnit (k, r))
           \<lparr>un_DistanceMeters := Fin (st_distance e (u_lat r, u_lng r) (lat, lng))\<rparr>))
         (pg_page limit 0
           (sort_key (\<lambda>(k, r). knn_distance e (u_lat r, u_lng r) (lat, lng))
             (filter (\<lambda>(k, r). u_status r = UnitAvailable \<and> (unitType = '''' \<or> u_type r = unitType))
               (units d)))))))"

definition UnitRepository_reserver :: "'m UnitReserver" where
  "UnitRepository_reserver = \<lparr>LockForReserveTx = UnitRepository_LockForReserveTx,
     ReadVersionTx = UnitRepository_ReadVersionTx, MarkReservedTx = UnitRepository_MarkReservedTx,
     MarkReservedCASTx = UnitRepository_MarkReservedCASTx,
     SetStatusTx = UnitRepository_SetStatusTx\<rparr>"

section \<open>The contract dispatch relies on\<close>

lemma update_unit_status_Inr:
  "update_unit_status st u e n t d = Inr (a, d', ls) \<Longrightarrow>
     d' = d\<lparr>units := upd u (set_unit st t) (units d)\<rparr> \<and> (sel (units d) u \<noteq> None \<longrightarrow> RowUnit u \<in> ls)
     \<and> a = map_option (\<lambda>r. (u, set_unit st t r)) (sel (units d) u)"
  by (auto simp: update_unit_status_def upd_absent split: option.splits if_splits)

lemma set_status_ok:
  assumes "run (UnitRepository_SetStatusTx x st) w = (Inr (), w')"
  shows "\<exists>u. uuid_cast (wenv w) x = Some u \<and> moves_unit u st w w'"
  using assms
  by (auto simp: UnitRepository_SetStatusTx_def run_bindE_Inr tx_stmt_Inr cast_uuid_Inr moves_unit_def
      dest!: update_unit_status_Inr)

lemma repo_cas_ok:
  assumes "run (UnitRepository_MarkReservedCASTx x v) w = (Inr won, w')"
  shows "\<exists>u. uuid_cast (wenv w) x = Some u
        \<and> (if won then (\<exists>r. sel (units (view w)) u = Some r \<and> u_version r = v) \<and> moves_unit u UnitReserved w w'
           else reads_only w w' \<and> (\<forall>r. sel (units (view w)) u = Some r \<longrightarrow> u_version r \<noteq> v))"
proof -
  from assms obtain u c d ls where u: "uuid_cast (wenv w) x = Some u" and won: "won = (c > (0::nat))"
    and st: "(case sel (units (view w)) u of
        None \<Rightarrow> Inr (0, view w, {})
      | Some r \<Rightarrow> if u_version r = v
          then map_sum id (\<lambda>(_, dls). (1::nat, dls))
                 (update_unit_status UnitReserved u (wenv w) (pc w) (txnow w) (view w))
          else Inr (0, view w, {})) = Inr (c, d, ls)"
    and w': "w' = w\<lparr>pc := Suc (pc w), view := d, locks := locks w \<union> ls\<rparr>"
    by (auto simp: UnitRepository_MarkReservedCASTx_def run_bindE_Inr tx_stmt_Inr cast_uuid_Inr)
  show ?thesis
  proof (cases "\<exists>r. sel (units (view w)) u = Some r \<and> u_version r = v")
    case True
    then obtain r where r: "sel (units (view w)) u = Some r" "u_version r = v" by blast
    with st obtain a where
      "update_unit_status UnitReserved u (wenv w) (pc w) (txnow w) (view w) = Inr (a, d, ls)" and "c = 1"
      by (cases "update_unit_status UnitReserved u (wenv w) (pc w) (txnow w) (view w)") auto
    with update_unit_status_Inr [of UnitReserved u "wenv w" "pc w" "txnow w" "view w" a d ls] u r w' won
    show ?thesis by (auto simp: moves_unit_def)
  next
    case False
    with st have "c = 0 \<and> d = view w \<and> ls = {}" by (auto split: option.splits if_splits)
    with False u w' won show ?thesis by (auto simp: reads_only_def)
  qed
qed

lemma repo_lock_ok:
  assumes "run (UnitRepository_LockForReserveTx x) w = (Inr st, w')"
  shows "\<exists>u r. uuid_cast (wenv w) x = Some u \<and> sel (units (view w)) u = Some r \<and> st = u_status r
        \<and> reads_only w w' \<and> RowUnit u \<in> locks w'"
  using assms
  by (auto simp: UnitRepository_LockForReserveTx_def run_bind tx_stmt_Inr cast_uuid_Inr reads_only_def
      split: prod.splits sum.splits if_splits option.splits)

lemma repo_read_version_ok:
  assumes "run (UnitRepository_ReadVersionTx x) w = (Inr (st, v), w')"
  shows "\<exists>u r. uuid_cast (wenv w) x = Some u \<and> sel (units (view w)) u = Some r \<and> st = u_status r
        \<and> v = u_version r \<and> reads_only w w'"
  using assms
  by (auto simp: UnitRepository_ReadVersionTx_def run_bind tx_stmt_Inr cast_uuid_Inr reading_Inr reads_only_def
      one_row_def split: prod.splits sum.splits if_splits option.splits)

lemma repo_tx_only [simp]:
  "tx_only (UnitRepository_LockForReserveTx x)" "tx_only (UnitRepository_ReadVersionTx x)"
  "tx_only (UnitRepository_MarkReservedTx x)" "tx_only (UnitRepository_MarkReservedCASTx x v)"
  "tx_only (UnitRepository_SetStatusTx x st)"
  by (auto simp: UnitRepository_LockForReserveTx_def UnitRepository_ReadVersionTx_def
      UnitRepository_MarkReservedTx_def UnitRepository_MarkReservedCASTx_def
      UnitRepository_SetStatusTx_def intro!: tx_only_bind tx_only_bindE split: sum.split)

lemma reserver_simps [simp]:
  "LockForReserveTx UnitRepository_reserver = UnitRepository_LockForReserveTx"
  "ReadVersionTx UnitRepository_reserver = UnitRepository_ReadVersionTx"
  "MarkReservedTx UnitRepository_reserver = UnitRepository_MarkReservedTx"
  "MarkReservedCASTx UnitRepository_reserver = UnitRepository_MarkReservedCASTx"
  "SetStatusTx UnitRepository_reserver = UnitRepository_SetStatusTx"
  by (simp_all add: UnitRepository_reserver_def)

lemma mark_is_set: "UnitRepository_MarkReservedTx x = UnitRepository_SetStatusTx x UnitReserved"
  by (simp add: UnitRepository_MarkReservedTx_def UnitRepository_SetStatusTx_def)

interpretation unit_repo: unit_reserver UnitRepository_reserver
  by (unfold_locales, unfold reserver_simps mark_is_set)
    (rule repo_tx_only repo_lock_ok repo_read_version_ok repo_cas_ok set_status_ok, assumption?)+

section \<open>The service\<close>

record CreateUnitInput =
  cui_CallSign :: string
  cui_Type :: string
  cui_Latitude :: float64
  cui_Longitude :: float64

definition UnitService_Create :: "CreateUnitInput \<Rightarrow> ('m, Unit) tx" where
  "UnitService_Create i =
     (if \<not> unit_validUnitTypes (cui_Type i) then throw (E Unit_ErrInvalidUnitType)
      else case ValidateLatLng (cui_Latitude i) (cui_Longitude i) of
        Inl err \<Rightarrow> throw err
      | Inr _ \<Rightarrow> bind
          (UnitRepository_Create \<lparr>un_ID = '''', un_CallSign = cui_CallSign i, un_Type = cui_Type i,
             un_Status = '''', un_Latitude = cui_Latitude i, un_Longitude = cui_Longitude i,
             un_CreatedAt = 0, un_UpdatedAt = 0, un_DistanceMeters = Fin 0\<rparr>)
          (\<lambda>res. case res of
             Inl err \<Rightarrow> if pg_code_is ''23505'' err then throw (E Unit_ErrDuplicateCallSign)
               else throw (Wrapped (''create unit: '' @ err_Error err) err)
           | Inr u \<Rightarrow> ok u))"

definition UnitService_GetByID :: "string \<Rightarrow> ('m, Unit) tx" where
  "UnitService_GetByID unitID = bind (UnitRepository_GetByID unitID) (\<lambda>res. case res of
     Inl err \<Rightarrow> if errors_Is err ErrNoRows then throw (E Unit_ErrUnitNotFound) else throw err
   | Inr u \<Rightarrow> ok u)"

definition UnitService_List :: "string \<Rightarrow> string \<Rightarrow> int \<Rightarrow> int \<Rightarrow> ('m, Unit list) tx" where
  "UnitService_List status unitType limit offset =
     (if status \<noteq> '''' \<and> \<not> unit_validUnitStatuses status then throw (E Unit_ErrInvalidUnitStatus)
      else if unitType \<noteq> '''' \<and> \<not> unit_validUnitTypes unitType then throw (E Unit_ErrInvalidUnitType)
      else UnitRepository_List status unitType limit offset)"

definition UnitService_UpdateStatus :: "string \<Rightarrow> string \<Rightarrow> ('m, Unit) tx" where
  "UnitService_UpdateStatus unitID status =
     (if \<not> unit_validUnitStatuses status then throw (E Unit_ErrInvalidUnitStatus)
      else bind (UnitRepository_UpdateStatus unitID status) (\<lambda>res. case res of
        Inl err \<Rightarrow> if errors_Is err ErrNoRows then throw (E Unit_ErrUnitNotFound) else throw err
      | Inr u \<Rightarrow> ok u))"

section \<open>The handlers\<close>

text \<open>A handler takes the request gin has bound (or the binding error) and the path and query
  parameters, and yields the response.\<close>

record CreateUnitRequest =
  cur_CallSign :: string
  cur_Type :: string
  cur_Latitude :: float64
  cur_Longitude :: float64

definition UnitHandler_Create :: "go_error + CreateUnitRequest \<Rightarrow> ('m world_scheme, Unit response) script" where
  "UnitHandler_Create body = (case body of
     Inl err \<Rightarrow> Done (common_Error 400 (err_Error err) ''VALIDATION_ERROR'')
   | Inr req \<Rightarrow> respond
       (UnitService_Create \<lparr>cui_CallSign = cur_CallSign req, cui_Type = cur_Type req,
          cui_Latitude = cur_Latitude req, cui_Longitude = cur_Longitude req\<rparr>)
       (\<lambda>err. if errors_Is err (E Unit_ErrDuplicateCallSign)
              then common_Error 409 ''call sign already exists'' ''DUPLICATE_CALL_SIGN''
              else if errors_Is err (E Unit_ErrInvalidUnitType) \<or> errors_Is err (E Geo_ErrInvalidCoordinates)
              then common_Error 400 (err_Error err) ''VALIDATION_ERROR''
              else common_Error 500 ''could not create unit'' ''INTERNAL_ERROR'')
       (\<lambda>u. common_Success 201 ''unit registered'' u))"

definition UnitHandler_List :: "query \<Rightarrow> ('m world_scheme, Unit list response) script" where
  "UnitHandler_List q = respond
     (UnitService_List (q ''status'') (q ''type'')
        (ClampInt (q ''limit'') 50 1 200) (ClampInt (q ''offset'') 0 0 1000000))
     (\<lambda>err. if errors_Is err (E Unit_ErrInvalidUnitStatus) \<or> errors_Is err (E Unit_ErrInvalidUnitType)
            then common_Error 400 (err_Error err) ''VALIDATION_ERROR''
            else common_Error 500 ''could not list units'' ''INTERNAL_ERROR'')
     (\<lambda>us. common_Success 200 ''units'' us)"

definition UnitHandler_GetByID :: "string \<Rightarrow> ('m world_scheme, Unit response) script" where
  "UnitHandler_GetByID unitID = respond (UnitService_GetByID unitID)
     (\<lambda>err. if errors_Is err (E Unit_ErrUnitNotFound) then common_Error 404 ''unit not found'' ''NOT_FOUND''
            else common_Error 500 ''could not fetch unit'' ''INTERNAL_ERROR'')
     (\<lambda>u. common_Success 200 ''unit'' u)"

definition UnitHandler_UpdateStatus :: "string \<Rightarrow> go_error + string \<Rightarrow> ('m world_scheme, Unit response) script" where
  "UnitHandler_UpdateStatus unitID body = (case body of
     Inl err \<Rightarrow> Done (common_Error 400 (err_Error err) ''VALIDATION_ERROR'')
   | Inr status \<Rightarrow> respond (UnitService_UpdateStatus unitID status)
       (\<lambda>err. if errors_Is err (E Unit_ErrUnitNotFound) then common_Error 404 ''unit not found'' ''NOT_FOUND''
              else if errors_Is err (E Unit_ErrInvalidUnitStatus)
              then common_Error 400 (err_Error err) ''VALIDATION_ERROR''
              else common_Error 500 ''could not update unit'' ''INTERNAL_ERROR'')
       (\<lambda>u. common_Success 200 ''unit status updated'' u))"

end
