(* ===== verification/Cache.thy ===== *)
theory Cache
  imports Tx
begin

text \<open>
  The cache-aside layer (\<^verbatim>\<open>platform/cache\<close>): a JSON codec over Redis strings that fails open, with
  jittered expiry. Redis is a map from keys to bytes with a deadline. A call may be refused before
  it reaches the server, or take effect with its answer lost. The codec of a cached type is a
  parameter; \<open>json_codec\<close> is the law the cache relies on, and the cache-aside read is proved
  transparent under it. The metrics counters and log lines of the source are not modelled.
\<close>

section \<open>Redis strings\<close>

record 'b redis = world +
  strs :: "string \<Rightarrow> ('b \<times> time) option" \<comment> \<open>a value and the moment it expires\<close>
  calls :: nat
  refuses :: "nat \<Rightarrow> bool" \<comment> \<open>call \<open>n\<close> fails before it reaches the server\<close>
  mute :: "nat \<Rightarrow> bool" \<comment> \<open>call \<open>n\<close> takes effect, its answer does not arrive\<close>
  rclock :: "nat \<Rightarrow> time" \<comment> \<open>the Redis server's clock at call \<open>n\<close>\<close>
  rand_Float64 :: "nat \<Rightarrow> float64" \<comment> \<open>\<open>rand.Float64()\<close> as call \<open>n\<close> is prepared\<close>

type_synonym ('b, 'm, 'a) cached = "(('b, 'm) redis_ext world_scheme, 'a) script"

text \<open>One call: what it answers at the server's time, and what it does to the strings.\<close>

definition redis_call :: "(nat \<Rightarrow> time \<Rightarrow> (string \<Rightarrow> ('b \<times> time) option) \<Rightarrow> 'r \<times> (string \<Rightarrow> ('b \<times> time) option))
    \<Rightarrow> ('b, 'm, go_error + 'r) cached" where
  "redis_call f = Stmt (\<lambda>w. let n = calls w; w' = w\<lparr>calls := Suc n\<rparr> in
     if refuses w n then (w', throw (Other ''redis: refused''))
     else case f n (rclock w n) (strs w) of (a, s) \<Rightarrow>
       (w'\<lparr>strs := s\<rparr>, if mute w n then throw (Other ''redis: no answer'') else ok a))"

definition live :: "time \<Rightarrow> ('b \<times> time) option \<Rightarrow> 'b option" where
  "live t v = (case v of Some (b, dl) \<Rightarrow> if t \<le> dl then Some b else None | None \<Rightarrow> None)"

definition redis_Get :: "string \<Rightarrow> ('b, 'm, go_error + 'b option) cached" where
  "redis_Get key = redis_call (\<lambda>n t s. (live t (s key), s))"

definition redis_Del :: "string list \<Rightarrow> ('b, 'm, go_error + unit) cached" where
  "redis_Del ks = redis_call (\<lambda>n t s. ((), \<lambda>k. if k \<in> set ks then None else s k))"

lemma run_redis_call [run_simps]:
  "run (redis_call f) w = (let n = calls w in
     if refuses w n then (Inl (Other ''redis: refused''), w\<lparr>calls := Suc n\<rparr>)
     else (if mute w n then Inl (Other ''redis: no answer'') else Inr (fst (f n (rclock w n) (strs w))),
           w\<lparr>calls := Suc n, strs := snd (f n (rclock w n) (strs w))\<rparr>))"
  by (auto simp: redis_call_def run_Stmt Let_def split: prod.split)

section \<open>The codec\<close>

text \<open>A duration in nanoseconds, spread by a fifth either way.\<close>

definition jitter :: "int \<Rightarrow> float64 \<Rightarrow> int" where
  "jitter ttl rand =
     (if ttl \<le> 0 then ttl
      else let spread = f_mul (f_of_int ttl) (lit (1/5))
        in trunc64 (f_add (f_sub (f_of_int ttl) spread) (f_mul (f_mul rand (Fin 2)) spread)))"

text \<open>\<open>SET\<close> takes whole milliseconds.\<close>

definition expires :: "time \<Rightarrow> int \<Rightarrow> time" where
  "expires t ttl = t + 1000 * (ttl div 1000000)"

definition redis_Set :: "string \<Rightarrow> 'b \<Rightarrow> int \<Rightarrow> ('b, 'm, go_error + unit) cached" where
  "redis_Set key b ttl = bind (Stmt (\<lambda>w. (w, Done (rand_Float64 w (calls w))))) (\<lambda>rand.
     redis_call (\<lambda>n t s. ((), s(key \<mapsto> (b, expires t (jitter ttl rand))))))"

definition Cache_Del :: "string list \<Rightarrow> ('b, 'm, unit) cached" where
  "Cache_Del ks = (if ks = [] then Done () else bind (redis_Del ks) (\<lambda>_. Done ()))"

definition Cache_GetJSON :: "('b \<Rightarrow> 'v option) \<Rightarrow> string \<Rightarrow> ('b, 'm, 'v option) cached" where
  "Cache_GetJSON Unmarshal key = bind (redis_Get key) (\<lambda>r. case r of
     Inl err \<Rightarrow> Done None
   | Inr None \<Rightarrow> Done None
   | Inr (Some raw) \<Rightarrow> (case Unmarshal raw of
       None \<Rightarrow> bind (Cache_Del [key]) (\<lambda>_. Done None)
     | Some v \<Rightarrow> Done (Some v)))"

definition Cache_SetJSON :: "('v \<Rightarrow> 'b option) \<Rightarrow> string \<Rightarrow> 'v \<Rightarrow> int \<Rightarrow> ('b, 'm, unit) cached" where
  "Cache_SetJSON Marshal key v ttl = (case Marshal v of
     None \<Rightarrow> Done ()
   | Some raw \<Rightarrow> bind (redis_Set key raw ttl) (\<lambda>_. Done ()))"

text \<open>The cache-aside read. Alone, a \<open>singleflight\<close> call is the call of its function: it looks
  again, loads, and backfills only what was loaded without an error.\<close>

definition Cache_GetOrLoad :: "('b \<Rightarrow> 'v option) \<Rightarrow> ('v \<Rightarrow> 'b option) \<Rightarrow> string \<Rightarrow> int
    \<Rightarrow> ('b, 'm, go_error + 'v) cached \<Rightarrow> ('b, 'm, go_error + 'v) cached" where
  "Cache_GetOrLoad Unmarshal Marshal key ttl load =
     bind (Cache_GetJSON Unmarshal key) (\<lambda>hit. case hit of
       Some v \<Rightarrow> ok v
     | None \<Rightarrow> bind (Cache_GetJSON Unmarshal key) (\<lambda>again. case again of
         Some v \<Rightarrow> ok v
       | None \<Rightarrow> bind load (\<lambda>r. case r of
           Inl err \<Rightarrow> throw err
         | Inr v \<Rightarrow> bind (Cache_SetJSON Marshal key v ttl) (\<lambda>_. ok v))))"

section \<open>What the calls do\<close>

text \<open>A call leaves the database and everything but the strings alone.\<close>

definition redis_frame :: "('b, 'm) redis_ext world_scheme \<Rightarrow> ('b, 'm) redis_ext world_scheme \<Rightarrow> bool" where
  "redis_frame w w' \<longleftrightarrow> (\<exists>s n. w' = w\<lparr>strs := s, calls := n\<rparr>)"

lemma redis_frameI: "w' = w\<lparr>strs := s, calls := n\<rparr> \<Longrightarrow> redis_frame w w'"
  unfolding redis_frame_def by blast

lemma redis_frame_refl [simp]: "redis_frame w w"
  by (rule redis_frameI [where s = "strs w" and n = "calls w"]) simp

lemma redis_frame_calls [simp]: "redis_frame w (w\<lparr>calls := n\<rparr>)"
  by (rule redis_frameI [where s = "strs w" and n = n]) simp

lemma redis_frame_strs [simp]: "redis_frame w (w\<lparr>calls := n, strs := s\<rparr>)"
  by (rule redis_frameI [where s = s and n = n]) simp

lemma redis_frame_trans: "redis_frame w w1 \<Longrightarrow> redis_frame w1 w2 \<Longrightarrow> redis_frame w w2"
proof -
  assume "redis_frame w w1" "redis_frame w1 w2"
  then obtain s n s' n' where "w1 = w\<lparr>strs := s, calls := n\<rparr>" "w2 = w1\<lparr>strs := s', calls := n'\<rparr>"
    unfolding redis_frame_def by blast
  then show ?thesis by (intro redis_frameI [where s = s' and n = n']) simp
qed

lemma redis_frame_simps:
  "redis_frame w w' \<Longrightarrow> base w' = base w" "redis_frame w w' \<Longrightarrow> view w' = view w"
  "redis_frame w w' \<Longrightarrow> wenv w' = wenv w" "redis_frame w w' \<Longrightarrow> pc w' = pc w"
  "redis_frame w w' \<Longrightarrow> refuses w' = refuses w" "redis_frame w w' \<Longrightarrow> mute w' = mute w"
  "redis_frame w w' \<Longrightarrow> rclock w' = rclock w"
  by (auto simp: redis_frame_def)

lemma Cache_Del_run:
  assumes "run (Cache_Del ks) w = (u, w')"
  shows "redis_frame w w' \<and> (strs w' = strs w \<or> strs w' = (\<lambda>k. if k \<in> set ks then None else strs w k))
    \<and> (ks \<noteq> [] \<longrightarrow> \<not> refuses w (calls w) \<longrightarrow> strs w' = (\<lambda>k. if k \<in> set ks then None else strs w k))"
proof (cases "ks = []")
  case True
  with assms show ?thesis by (simp add: Cache_Del_def)
next
  case False
  with assms have "w' = w\<lparr>calls := Suc (calls w), strs :=
      (if refuses w (calls w) then strs w else (\<lambda>k. if k \<in> set ks then None else strs w k))\<rparr>"
    by (auto simp: Cache_Del_def redis_Del_def run_simps Let_def split: if_splits)
  with False show ?thesis by simp
qed

lemma Cache_GetJSON_run:
  assumes "run (Cache_GetJSON dec key) w = (hit, w')"
  shows "redis_frame w w' \<and> (\<forall>k. strs w' k = strs w k \<or> k = key \<and> strs w' k = None)
    \<and> (\<forall>v. hit = Some v \<longrightarrow> strs w' = strs w \<and>
         (\<exists>b dl. strs w key = Some (b, dl) \<and> dec b = Some v \<and> rclock w (calls w) \<le> dl))"
proof -
  obtain r w1 where g: "run (redis_Get key) w = (r, w1)" by (cases "run (redis_Get key) w")
  then have f: "redis_frame w w1" "strs w1 = strs w"
    by (auto simp: redis_Get_def run_simps Let_def split: if_splits)
  show ?thesis
  proof (cases "\<exists>b. r = Inr (Some b)")
    case False
    with g assms f have "w' = w1 \<and> hit = None"
      by (auto simp: Cache_GetJSON_def run_simps split: sum.splits option.splits)
    with f show ?thesis by simp
  next
    case True
    then obtain b where b: "r = Inr (Some b)" by blast
    with g obtain dl where e: "strs w key = Some (b, dl)" "rclock w (calls w) \<le> dl"
      by (auto simp: redis_Get_def run_simps live_def Let_def split: if_splits option.splits)
    show ?thesis
    proof (cases "dec b")
      case None
      with assms g b obtain u where d: "run (Cache_Del [key]) w1 = (u, w')" "hit = None"
        by (auto simp: Cache_GetJSON_def run_simps split: prod.splits)
      from Cache_Del_run [OF d(1)] d(2) f show ?thesis by (auto intro: redis_frame_trans split: if_splits)
    next
      case (Some v)
      with assms g b have "w' = w1" "hit = Some v" by (auto simp: Cache_GetJSON_def run_simps)
      with Some f e show ?thesis by auto
    qed
  qed
qed

lemma Cache_SetJSON_run:
  assumes "run (Cache_SetJSON enc key v ttl) w = (u, w')"
  shows "redis_frame w w' \<and> (strs w' = strs w \<or>
    (\<exists>b. enc v = Some b \<and> strs w' = (strs w)(key \<mapsto>
       (b, expires (rclock w (calls w)) (jitter ttl (rand_Float64 w (calls w)))))))"
proof (cases "enc v")
  case None
  with assms show ?thesis by (simp add: Cache_SetJSON_def)
next
  case (Some b)
  with assms have "w' = w\<lparr>calls := Suc (calls w), strs := (if refuses w (calls w) then strs w
      else (strs w)(key \<mapsto> (b, expires (rclock w (calls w)) (jitter ttl (rand_Float64 w (calls w))))))\<rparr>"
    by (auto simp: Cache_SetJSON_def redis_Set_def run_simps run_Stmt Let_def split: if_splits)
  with Some show ?thesis by simp
qed

section \<open>Cache-aside under a codec\<close>

text \<open>The law of a codec: what was encoded reads back as itself.\<close>

locale json_codec =
  fixes Marshal :: "'v \<Rightarrow> 'b option"
    and Unmarshal :: "'b \<Rightarrow> 'v option"
  assumes roundtrip: "Marshal v = Some b \<Longrightarrow> Unmarshal b = Some v"
begin

text \<open>Every readable entry holds what the source of truth has for its key.\<close>

definition coherent :: "(string \<Rightarrow> 'v \<Rightarrow> bool) \<Rightarrow> (string \<Rightarrow> ('b \<times> time) option) \<Rightarrow> bool" where
  "coherent truth s \<longleftrightarrow> (\<forall>key b dl v. s key = Some (b, dl) \<longrightarrow> Unmarshal b = Some v \<longrightarrow> truth key v)"

lemma coherent_put: "coherent truth s \<Longrightarrow> Marshal v = Some b \<Longrightarrow> truth key v \<Longrightarrow> coherent truth (s(key \<mapsto> (b, dl)))"
  by (auto simp: coherent_def dest: roundtrip)

lemma coherent_less: "coherent truth s \<Longrightarrow> (\<And>k. s' k = s k \<or> s' k = None) \<Longrightarrow> coherent truth s'"
  unfolding coherent_def by (metis option.distinct(1))

lemma GetJSON_coherent:
  assumes "run (Cache_GetJSON Unmarshal key) w = (hit, w')" and "coherent truth (strs w)"
  shows "coherent truth (strs w') \<and> (\<forall>v. hit = Some v \<longrightarrow> truth key v)"
proof
  note g = Cache_GetJSON_run [OF assms(1)]
  from g have "strs w' k = strs w k \<or> strs w' k = None" for k by metis
  then show "coherent truth (strs w')" by (rule coherent_less [OF assms(2)])
  show "\<forall>v. hit = Some v \<longrightarrow> truth key v"
  proof (intro allI impI)
    fix v assume "hit = Some v"
    with g obtain b dl where "strs w key = Some (b, dl)" "Unmarshal b = Some v" by metis
    with assms(2) show "truth key v" by (simp add: coherent_def)
  qed
qed

lemma SetJSON_coherent:
  assumes "run (Cache_SetJSON Marshal key v ttl) w = (u, w')" and "coherent truth (strs w)" and "truth key v"
  shows "coherent truth (strs w')"
  using Cache_SetJSON_run [OF assms(1)] assms(2,3) by (auto intro: coherent_put)

text \<open>Whatever Redis answers, a read through a coherent cache yields what the load would.\<close>

lemma GetOrLoad_transparent:
  assumes "run (Cache_GetOrLoad Unmarshal Marshal key ttl load) w = (res, w')" and "coherent truth (strs w)"
    and load: "\<And>w0 r w1. redis_frame w w0 \<Longrightarrow> run load w0 = (r, w1) \<Longrightarrow>
      strs w1 = strs w0 \<and> base w1 = base w0 \<and> wenv w1 = wenv w0 \<and> (\<forall>v. r = Inr v \<longrightarrow> truth key v)"
  shows "coherent truth (strs w') \<and> base w' = base w \<and> wenv w' = wenv w \<and> (\<forall>v. res = Inr v \<longrightarrow> truth key v)"
proof -
  obtain h1 w1 where g1: "run (Cache_GetJSON Unmarshal key) w = (h1, w1)" by (cases "run (Cache_GetJSON Unmarshal key) w")
  from GetJSON_coherent [OF g1 assms(2)] Cache_GetJSON_run [OF g1]
  have c1: "coherent truth (strs w1)" "\<forall>v. h1 = Some v \<longrightarrow> truth key v" and f1: "redis_frame w w1" by auto
  show ?thesis
  proof (cases h1)
    case (Some v)
    with g1 assms(1) c1 f1 show ?thesis by (auto simp: Cache_GetOrLoad_def run_simps redis_frame_simps)
  next
    case n1: None
    obtain h2 w2 where g2: "run (Cache_GetJSON Unmarshal key) w1 = (h2, w2)" by (cases "run (Cache_GetJSON Unmarshal key) w1")
    from GetJSON_coherent [OF g2 c1(1)] Cache_GetJSON_run [OF g2] f1
    have c2: "coherent truth (strs w2)" "\<forall>v. h2 = Some v \<longrightarrow> truth key v" and f2: "redis_frame w w2"
      by (auto intro: redis_frame_trans)
    show ?thesis
    proof (cases h2)
      case (Some v)
      with g1 g2 n1 assms(1) c2 f2 show ?thesis by (auto simp: Cache_GetOrLoad_def run_simps redis_frame_simps)
    next
      case n2: None
      obtain r w3 where l: "run load w2 = (r, w3)" by (cases "run load w2")
      from load [OF f2 l] c2 f2 have c3: "coherent truth (strs w3)" "base w3 = base w" "wenv w3 = wenv w"
        "\<forall>v. r = Inr v \<longrightarrow> truth key v"
        by (auto simp: redis_frame_simps)
      show ?thesis
      proof (cases r)
        case (Inl e)
        with g1 g2 n1 n2 l assms(1) c3 show ?thesis by (auto simp: Cache_GetOrLoad_def run_simps)
      next
        case (Inr v)
        obtain u w4 where s: "run (Cache_SetJSON Marshal key v ttl) w3 = (u, w4)"
          by (cases "run (Cache_SetJSON Marshal key v ttl) w3")
        with g1 g2 n1 n2 l Inr assms(1) have "res = Inr v" "w' = w4" by (auto simp: Cache_GetOrLoad_def run_simps)
        with SetJSON_coherent [OF s c3(1)] Cache_SetJSON_run [OF s] c3 Inr show ?thesis
          by (auto simp: redis_frame_simps)
      qed
    qed
  qed
qed

end

section \<open>How long an entry lives\<close>

text \<open>The spread of a minute is exactly twelve seconds, in floating point too.\<close>

lemma rnd_fifth: "rnd (1 / 5) = 7205759403792794 / 2 ^ 55"
  using rnd_nearest [of "-3" "1 / 5" 7205759403792794] by (simp add: power_int_def power_one_over)

lemma spread_exact: "rnd (60000000000 * rnd (1 / 5)) = 12000000000"
  unfolding rnd_fifth using rnd_nearest [of 33 "60000000000 * (7205759403792794 / 2 ^ 55)" "12000000000 * 2 ^ 19"]
  by (simp add: power_int_def power_one_over)

lemma jitter_minute:
  assumes "0 \<le> r" and "r < 1"
  shows "48 * 1000000000 \<le> jitter (60 * 1000000000) (Fin r)" and "jitter (60 * 1000000000) (Fin r) \<le> 72 * 1000000000"
proof -
  have big: "(2::real) ^ 53 \<le> 2 powi 1000" by (simp add: power_int_def)
  have r64: "round64 x = Fin (rnd x)" if "\<bar>x\<bar> \<le> 2 ^ 53" for x :: real
    using that big by (intro round64_small) linarith
  have two: "0 \<le> rnd (r * 2)" "rnd (r * 2) \<le> 2"
    using assms rnd_le_of_int [of "r * 2" 2] by (simp_all add: rnd_nonneg)
  let ?y = "rnd (rnd (r * 2) * 12000000000)"
  have y: "0 \<le> ?y" "?y \<le> 24000000000"
    using two rnd_le_of_int [of "rnd (r * 2) * 12000000000" 24000000000] by (simp_all add: rnd_nonneg)
  have z: "48000000000 \<le> rnd (48000000000 + ?y)" "rnd (48000000000 + ?y) \<le> 72000000000"
    using y rnd_ge_of_int [of 48000000000 "48000000000 + ?y"] rnd_le_of_int [of "48000000000 + ?y" 72000000000]
    by simp_all
  have "0 \<le> rnd (1 / 5)" "rnd (1 / 5) \<le> 1" by (simp_all add: rnd_fifth)
  then have s: "\<bar>60000000000 * rnd (1 / 5)\<bar> \<le> 2 ^ 53" by (simp add: abs_mult)
  have "f_mul (f_of_int 60000000000) (lit (1 / 5)) = Fin 12000000000"
    using s by (simp add: f_of_int_def lit_def r64 spread_exact)
  then have "jitter 60000000000 (Fin r) = \<lfloor>rnd (48000000000 + ?y)\<rfloor>"
    using assms y two z by (simp add: jitter_def Let_def f_of_int_def f_sub_def r64)
  with z show "48 * 1000000000 \<le> jitter (60 * 1000000000) (Fin r)" "jitter (60 * 1000000000) (Fin r) \<le> 72 * 1000000000"
    by (simp_all add: le_floor_iff floor_le_iff)
qed

end
