(* ===== verification/Shelters.thy ===== *)
theory Shelters
  imports Interfaces Cache
begin

text \<open>
  The shelter module (\<^verbatim>\<open>internal/shelter\<close>): a shelter is a counter with a capacity. Its repository,
  with the guarded increment the victim module admits people through, its read cache, its service
  and its handlers. \<open>shelter_allocator\<close>, the interface the victim package declares, is interpreted
  on the repository, and \<open>json_codec\<close> on the cached type.
\<close>

section \<open>The model\<close>

record Shelter =
  sh_ID :: string
  sh_Name :: string
  sh_Capacity :: int
  sh_Occupancy :: int
  sh_Status :: string
  sh_Latitude :: float64
  sh_Longitude :: float64
  sh_CreatedAt :: time
  sh_UpdatedAt :: time
  sh_AvailableSpots :: int
  sh_DistanceMeters :: float64

definition scanShelter :: "uuid \<times> shelter_row \<Rightarrow> Shelter" where
  "scanShelter kr = (case kr of (k, r) \<Rightarrow>
     \<lparr>sh_ID = k, sh_Name = s_name r, sh_Capacity = s_capacity r, sh_Occupancy = s_occupancy r,
      sh_Status = s_status r, sh_Latitude = s_lat r, sh_Longitude = s_lng r,
      sh_CreatedAt = s_created_at r, sh_UpdatedAt = s_updated_at r,
      sh_AvailableSpots = s_capacity r - s_occupancy r, sh_DistanceMeters = Fin 0\<rparr>)"

lemma scanShelter_simps [simp]:
  "sh_ID (scanShelter (k, r)) = k" "sh_Capacity (scanShelter (k, r)) = s_capacity r"
  "sh_Occupancy (scanShelter (k, r)) = s_occupancy r" "sh_Status (scanShelter (k, r)) = s_status r"
  "sh_AvailableSpots (scanShelter (k, r)) = s_capacity r - s_occupancy r"
  "sh_Latitude (scanShelter (k, r)) = s_lat r" "sh_Longitude (scanShelter (k, r)) = s_lng r"
  by (simp_all add: scanShelter_def)

section \<open>The repository\<close>

definition ShelterRepository_Create :: "Shelter \<Rightarrow> ('m, Shelter) tx" where
  "ShelterRepository_Create sh = pool_stmt (\<lambda>e n t d.
     case int4_param (sh_Capacity sh) of Inl err \<Rightarrow> Inl err | Inr capacity \<Rightarrow>
       pg_text [sh_Name sh] (\<lambda>e n t d.
         let k = gen_uuid e n;
             r = \<lparr>s_name = sh_Name sh, s_capacity = capacity, s_occupancy = 0, s_status = ShelterOpen,
                  s_lat = sh_Latitude sh, s_lng = sh_Longitude sh, s_created_at = t, s_updated_at = t\<rparr>
         in if \<not> shelter_row_ok r then Inl check_violation
            else if sel (shelters d) k \<noteq> None \<or> list_ex (\<lambda>(_, r'). s_name r' = sh_Name sh) (shelters d)
            then Inl unique_violation
            else Inr (sh\<lparr>sh_ID := k, sh_Occupancy := 0, sh_Status := ShelterOpen, sh_CreatedAt := t,
                         sh_UpdatedAt := t, sh_AvailableSpots := sh_Capacity sh - 0\<rparr>,
                      d\<lparr>shelters := ins k r (shelters d)\<rparr>,
                      {RowShelter k, IdxUnique ''shelters.name'' (sh_Name sh)})) e n t d)"

definition shelter_by_id :: "string \<Rightarrow> Shelter stmt" where
  "shelter_by_id x = cast_uuid x (\<lambda>s. reading (\<lambda>e d.
     map_sum id (\<lambda>r. scanShelter (s, r)) (one_row (sel (shelters d) s))))"

definition ShelterRepository_GetByID :: "string \<Rightarrow> ('m, Shelter) tx" where
  "ShelterRepository_GetByID x = pool_stmt (shelter_by_id x)"

definition ShelterRepository_GetByIDTx :: "string \<Rightarrow> ('m, Shelter) tx" where
  "ShelterRepository_GetByIDTx x = tx_stmt (shelter_by_id x)"

text \<open>One bed: the increment, and the conditional \<open>UPDATE\<close> that makes it.\<close>

definition admit_row :: "time \<Rightarrow> shelter_row \<Rightarrow> shelter_row" where
  "admit_row t r = r\<lparr>s_occupancy := s_occupancy r + 1, s_updated_at := t\<rparr>"

definition has_room :: "shelter_row \<Rightarrow> bool" where
  "has_room r \<longleftrightarrow> s_status r = ShelterOpen \<and> s_occupancy r < s_capacity r"

definition admit_one :: "uuid \<Rightarrow> nat stmt" where
  "admit_one s = (\<lambda>e n t d. case sel (shelters d) s of
     None \<Rightarrow> Inr (0, d, {})
   | Some r \<Rightarrow> if has_room r
       then if shelter_row_ok (admit_row t r)
         then Inr (1, d\<lparr>shelters := upd s (admit_row t) (shelters d)\<rparr>, {RowShelter s})
         else Inl check_violation
       else Inr (0, d, {}))"

definition ShelterRepository_AdmitTx :: "string \<Rightarrow> ('m, unit) tx" where
  "ShelterRepository_AdmitTx shelterID = bindE (tx_stmt (cast_uuid shelterID admit_one)) (\<lambda>affected.
     if affected > 0 then ok ()
     else bind
       (tx_stmt (cast_uuid shelterID (\<lambda>s. reading (\<lambda>e d.
          map_sum id (\<lambda>r. (s_status r, s_occupancy r, s_capacity r)) (one_row (sel (shelters d) s))))))
       (\<lambda>res. case res of
          Inl e \<Rightarrow> if errors_Is e ErrNoRows then throw (E Shelter_ErrShelterNotFound) else throw e
        | Inr (status, occ, capacity) \<Rightarrow>
            if status \<noteq> ShelterOpen then throw (E Shelter_ErrShelterClosed)
            else throw (E Shelter_ErrShelterFull)))"

definition ShelterRepository_List :: "string \<Rightarrow> int \<Rightarrow> int \<Rightarrow> ('m, Shelter list) tx" where
  "ShelterRepository_List status limit offset = pool_stmt (pg_text [status] (reading (\<lambda>e d.
     map_sum id (map scanShelter) (pg_page limit offset
       (sort_key (\<lambda>(k, r). collate_key e (s_name r))
         (filter (\<lambda>(k, r). status = '''' \<or> s_status r = status) (shelters d)))))))"

definition ShelterRepository_FindNearestOpen :: "float64 \<Rightarrow> float64 \<Rightarrow> int \<Rightarrow> ('m, Shelter list) tx" where
  "ShelterRepository_FindNearestOpen lat lng limit = pool_stmt (reading (\<lambda>e d.
     map_sum id (map (\<lambda>(k, r). (scanShelter (k, r))
         \<lparr>sh_DistanceMeters := Fin (st_distance e (s_lat r, s_lng r) (lat, lng))\<rparr>))
       (pg_page limit 0
         (sort_key (\<lambda>(k, r). knn_distance e (s_lat r, s_lng r) (lat, lng))
           (filter (\<lambda>(k, r). has_room r) (shelters d))))))"

definition set_shelter :: "string \<Rightarrow> time \<Rightarrow> shelter_row \<Rightarrow> shelter_row" where
  "set_shelter st t r = r\<lparr>s_status := st, s_updated_at := t\<rparr>"

definition ShelterRepository_UpdateStatus :: "string \<Rightarrow> string \<Rightarrow> ('m, Shelter) tx" where
  "ShelterRepository_UpdateStatus x status =
     pool_stmt (pg_text [status] (cast_uuid x (\<lambda>s e n t d. case sel (shelters d) s of
       None \<Rightarrow> Inl ErrNoRows
     | Some r \<Rightarrow> if shelter_row_ok (set_shelter status t r)
         then Inr (scanShelter (s, set_shelter status t r),
                   d\<lparr>shelters := upd s (set_shelter status t) (shelters d)\<rparr>, {RowShelter s})
         else Inl check_violation)))"

section \<open>The contract the victim module relies on\<close>

text \<open>\<open>victim.ShelterAllocator\<close>: an admission takes one bed of an open shelter with room, and a
  read inside the transaction sees it.\<close>

record 'm ShelterAllocator =
  AdmitTx :: "string \<Rightarrow> ('m, unit) tx"
  GetByIDTx :: "string \<Rightarrow> ('m, Shelter) tx"

locale shelter_allocator =
  fixes S :: "'m ShelterAllocator"
  assumes shelter_tx_only [simp]: "tx_only (AdmitTx S x)" "tx_only (GetByIDTx S x)"
    and admit_ok: "run (AdmitTx S x) w = (Inr (), w') \<Longrightarrow>
      \<exists>s r. uuid_cast (wenv w) x = Some s \<and> sel (shelters (view w)) s = Some r \<and> has_room r
        \<and> view w' = (view w)\<lparr>shelters := upd s (admit_row (txnow w)) (shelters (view w))\<rparr>
        \<and> RowShelter s \<in> locks w' \<and> locks w \<subseteq> locks w'"
    and admit_fails: "run (AdmitTx S x) w = (Inl err, w') \<Longrightarrow> view w' = view w"
    and get_ok: "run (GetByIDTx S x) w = (Inr sh, w') \<Longrightarrow>
      \<exists>s r. uuid_cast (wenv w) x = Some s \<and> sel (shelters (view w)) s = Some r
        \<and> sh = scanShelter (s, r) \<and> reads_only w w'"

definition ShelterRepository_allocator :: "'m ShelterAllocator" where
  "ShelterRepository_allocator = \<lparr>AdmitTx = ShelterRepository_AdmitTx, GetByIDTx = ShelterRepository_GetByIDTx\<rparr>"

lemma allocator_simps [simp]:
  "AdmitTx ShelterRepository_allocator = ShelterRepository_AdmitTx"
  "GetByIDTx ShelterRepository_allocator = ShelterRepository_GetByIDTx"
  by (simp_all add: ShelterRepository_allocator_def)

lemma admit_one_Inr:
  "admit_one s e n t d = Inr (c, d', ls) \<longleftrightarrow>
     (if \<exists>r. sel (shelters d) s = Some r \<and> has_room r
      then c = 1 \<and> d' = d\<lparr>shelters := upd s (admit_row t) (shelters d)\<rparr> \<and> ls = {RowShelter s}
        \<and> (\<forall>r. sel (shelters d) s = Some r \<longrightarrow> shelter_row_ok (admit_row t r))
      else c = 0 \<and> d' = d \<and> ls = {})"
  by (auto simp: admit_one_def split: option.splits if_splits)

lemma repo_admit_ok:
  assumes "run (ShelterRepository_AdmitTx x) w = (Inr (), w')"
  shows "\<exists>s r. uuid_cast (wenv w) x = Some s \<and> sel (shelters (view w)) s = Some r \<and> has_room r
    \<and> view w' = (view w)\<lparr>shelters := upd s (admit_row (txnow w)) (shelters (view w))\<rparr>
    \<and> RowShelter s \<in> locks w' \<and> locks w \<subseteq> locks w'"
  using assms
  by (auto simp: ShelterRepository_AdmitTx_def run_bindE_Inr tx_stmt_Inr cast_uuid_Inr admit_one_Inr run_bind
      split: if_splits prod.splits sum.splits)

lemma repo_admit_fails:
  assumes "run (ShelterRepository_AdmitTx x) w = (Inl err, w')"
  shows "view w' = view w"
  using assms
  by (auto simp: ShelterRepository_AdmitTx_def run_bindE_Inl tx_stmt_Inr tx_stmt_Inl cast_uuid_Inr admit_one_Inr
      run_bind reading_Inr split: if_splits prod.splits sum.splits)

lemma repo_get_ok:
  assumes "run (ShelterRepository_GetByIDTx x) w = (Inr sh, w')"
  shows "\<exists>s r. uuid_cast (wenv w) x = Some s \<and> sel (shelters (view w)) s = Some r
    \<and> sh = scanShelter (s, r) \<and> reads_only w w'"
  using assms
  by (auto simp: ShelterRepository_GetByIDTx_def shelter_by_id_def tx_stmt_Inr cast_uuid_Inr reading_Inr
      reads_only_def one_row_def split: option.splits)

lemma shelter_repo_tx_only [simp]:
  "tx_only (ShelterRepository_AdmitTx x)" "tx_only (ShelterRepository_GetByIDTx x)"
  by (auto simp: ShelterRepository_AdmitTx_def ShelterRepository_GetByIDTx_def
      intro!: tx_only_bind tx_only_bindE split: sum.split prod.split)

interpretation shelter_repo: shelter_allocator ShelterRepository_allocator
  by (unfold_locales, unfold allocator_simps)
    (rule shelter_repo_tx_only repo_admit_ok repo_admit_fails repo_get_ok, assumption?)+

section \<open>The cache\<close>

text \<open>The JSON of a shelter, or bytes this code did not write, with what decoding them yields. A
  \<open>NaN\<close> or an infinity has no JSON.\<close>

datatype shelter_json = ShelterJSON Shelter | ForeignJSON "Shelter option"

definition Shelter_Marshal :: "Shelter \<Rightarrow> shelter_json option" where
  "Shelter_Marshal sh =
     (if finite64 (sh_Latitude sh) \<and> finite64 (sh_Longitude sh) \<and> finite64 (sh_DistanceMeters sh)
      then Some (ShelterJSON sh) else None)"

fun Shelter_Unmarshal :: "shelter_json \<Rightarrow> Shelter option" where
  "Shelter_Unmarshal (ShelterJSON sh) = Some sh"
| "Shelter_Unmarshal (ForeignJSON v) = v"

interpretation shelter_json: json_codec Shelter_Marshal Shelter_Unmarshal
  by unfold_locales (auto simp: Shelter_Marshal_def split: if_splits)

definition shelterKeyPrefix :: string where "shelterKeyPrefix = ''shelter:v1:''"

definition shelterKey :: "string \<Rightarrow> string" where
  "shelterKey x = shelterKeyPrefix @ x"

definition shelterTTL :: int where "shelterTTL = 60 * 1000000000"

definition ShelterCache_GetOrLoad ::
    "string \<Rightarrow> (shelter_json, 'm, go_error + Shelter) cached \<Rightarrow> (shelter_json, 'm, go_error + Shelter) cached" where
  "ShelterCache_GetOrLoad x load =
     Cache_GetOrLoad Shelter_Unmarshal Shelter_Marshal (shelterKey x) shelterTTL load"

definition ShelterCache_Invalidate :: "string \<Rightarrow> (shelter_json, 'm, unit) cached" where
  "ShelterCache_Invalidate x = Cache_Del [shelterKey x]"

section \<open>The service\<close>

record CreateShelterInput =
  csi_Name :: string
  csi_Capacity :: int
  csi_Latitude :: float64
  csi_Longitude :: float64

definition ShelterService_Create :: "CreateShelterInput \<Rightarrow> ('m, Shelter) tx" where
  "ShelterService_Create i =
     (if csi_Capacity i \<le> 0 then throw (E Shelter_ErrInvalidCapacity)
      else case ValidateLatLng (csi_Latitude i) (csi_Longitude i) of
        Inl err \<Rightarrow> throw err
      | Inr _ \<Rightarrow> bind
          (ShelterRepository_Create \<lparr>sh_ID = '''', sh_Name = csi_Name i, sh_Capacity = csi_Capacity i,
             sh_Occupancy = 0, sh_Status = '''', sh_Latitude = csi_Latitude i, sh_Longitude = csi_Longitude i,
             sh_CreatedAt = 0, sh_UpdatedAt = 0, sh_AvailableSpots = 0, sh_DistanceMeters = Fin 0\<rparr>)
          (\<lambda>res. case res of
             Inl err \<Rightarrow> if pg_code_is ''23505'' err then throw (E Shelter_ErrDuplicateShelterName)
               else throw (Wrapped (''create shelter: '' @ err_Error err) err)
           | Inr sh \<Rightarrow> ok sh))"

definition ShelterService_load :: "string \<Rightarrow> ('m, Shelter) tx" where
  "ShelterService_load x = bind (ShelterRepository_GetByID x) (\<lambda>res. case res of
     Inl err \<Rightarrow> if errors_Is err ErrNoRows then throw (E Shelter_ErrShelterNotFound) else throw err
   | Inr sh \<Rightarrow> ok sh)"

definition ShelterService_GetByID :: "string \<Rightarrow> (shelter_json, 'm, go_error + Shelter) cached" where
  "ShelterService_GetByID x = bindE (ShelterCache_GetOrLoad x (ShelterService_load x)) (\<lambda>sh. ok sh)"

definition ShelterService_List :: "string \<Rightarrow> int \<Rightarrow> int \<Rightarrow> ('m, Shelter list) tx" where
  "ShelterService_List status limit offset =
     (if status \<noteq> '''' \<and> \<not> validShelterStatuses status then throw (E Shelter_ErrInvalidShelterStatus)
      else ShelterRepository_List status limit offset)"

definition ShelterService_UpdateStatus :: "string \<Rightarrow> string \<Rightarrow> (shelter_json, 'm, go_error + Shelter) cached" where
  "ShelterService_UpdateStatus x status =
     (if \<not> validShelterStatuses status then throw (E Shelter_ErrInvalidShelterStatus)
      else bind (ShelterRepository_UpdateStatus x status) (\<lambda>res. case res of
        Inl err \<Rightarrow> if errors_Is err ErrNoRows then throw (E Shelter_ErrShelterNotFound) else throw err
      | Inr sh \<Rightarrow> bind (ShelterCache_Invalidate x) (\<lambda>_. ok sh)))"

section \<open>The handlers\<close>

record CreateShelterRequest =
  csr_Name :: string
  csr_Capacity :: int
  csr_Latitude :: float64
  csr_Longitude :: float64

definition ShelterHandler_Create ::
    "go_error + CreateShelterRequest \<Rightarrow> ('m world_scheme, Shelter response) script" where
  "ShelterHandler_Create body = (case body of
     Inl err \<Rightarrow> Done (common_Error 400 (err_Error err) ''VALIDATION_ERROR'')
   | Inr req \<Rightarrow> respond
       (ShelterService_Create \<lparr>csi_Name = csr_Name req, csi_Capacity = csr_Capacity req,
          csi_Latitude = csr_Latitude req, csi_Longitude = csr_Longitude req\<rparr>)
       (\<lambda>err. if errors_Is err (E Shelter_ErrDuplicateShelterName)
              then common_Error 409 ''shelter name already exists'' ''DUPLICATE_NAME''
              else if errors_Is err (E Shelter_ErrInvalidCapacity) \<or> errors_Is err (E Geo_ErrInvalidCoordinates)
              then common_Error 400 (err_Error err) ''VALIDATION_ERROR''
              else common_Error 500 ''could not create shelter'' ''INTERNAL_ERROR'')
       (\<lambda>sh. common_Success 201 ''shelter registered'' sh))"

definition ShelterHandler_List :: "query \<Rightarrow> ('m world_scheme, Shelter list response) script" where
  "ShelterHandler_List q = respond
     (ShelterService_List (q ''status'')
        (ClampInt (q ''limit'') 50 1 200) (ClampInt (q ''offset'') 0 0 1000000))
     (\<lambda>err. if errors_Is err (E Shelter_ErrInvalidShelterStatus)
            then common_Error 400 (err_Error err) ''VALIDATION_ERROR''
            else common_Error 500 ''could not list shelters'' ''INTERNAL_ERROR'')
     (\<lambda>shs. common_Success 200 ''shelters'' shs)"

definition ShelterHandler_GetByID :: "string \<Rightarrow> (shelter_json, 'm, Shelter response) cached" where
  "ShelterHandler_GetByID x = respond (ShelterService_GetByID x)
     (\<lambda>err. if errors_Is err (E Shelter_ErrShelterNotFound)
            then common_Error 404 ''shelter not found'' ''NOT_FOUND''
            else common_Error 500 ''could not fetch shelter'' ''INTERNAL_ERROR'')
     (\<lambda>sh. common_Success 200 ''shelter'' sh)"

definition ShelterHandler_UpdateStatus ::
    "Actor \<Rightarrow> string \<Rightarrow> go_error + string \<Rightarrow> (shelter_json, 'm, Shelter response) cached" where
  "ShelterHandler_UpdateStatus actor x body = (case body of
     Inl err \<Rightarrow> Done (common_Error 400 (err_Error err) ''VALIDATION_ERROR'')
   | Inr status \<Rightarrow>
       if \<not> Actor_OwnsShelter actor x
       then Done (common_Error 403 ''you may only manage your own shelter'' ''FORBIDDEN'')
       else respond (ShelterService_UpdateStatus x status)
         (\<lambda>err. if errors_Is err (E Shelter_ErrShelterNotFound)
                then common_Error 404 ''shelter not found'' ''NOT_FOUND''
                else if errors_Is err (E Shelter_ErrInvalidShelterStatus)
                then common_Error 400 (err_Error err) ''VALIDATION_ERROR''
                else common_Error 500 ''could not update shelter'' ''INTERNAL_ERROR'')
         (\<lambda>sh. common_Success 200 ''shelter status updated'' sh))"

section \<open>The cache tells the truth\<close>

text \<open>What the database has for a cache key.\<close>

definition shelter_truth :: "env \<Rightarrow> db \<Rightarrow> string \<Rightarrow> Shelter \<Rightarrow> bool" where
  "shelter_truth e d key sh \<longleftrightarrow> (\<forall>x. key = shelterKey x \<longrightarrow>
     (\<exists>s r. uuid_cast e x = Some s \<and> sel (shelters d) s = Some r \<and> sh = scanShelter (s, r)))"

lemma shelterKey_eq [simp]: "shelterKey x = shelterKey y \<longleftrightarrow> x = y"
  by (simp add: shelterKey_def)

definition cache_coherent :: "(shelter_json, 'm) redis_ext world_scheme \<Rightarrow> bool" where
  "cache_coherent w \<longleftrightarrow> shelter_json.coherent (shelter_truth (wenv w) (base w)) (strs w)"

lemma load_truth:
  assumes "run (ShelterService_load x) w = (r, w')"
  shows "strs w' = strs w \<and> base w' = base w \<and> wenv w' = wenv w
    \<and> (\<forall>sh. r = Inr sh \<longrightarrow> shelter_truth (wenv w) (base w) (shelterKey x) sh)"
proof -
  obtain r1 w1 where g: "run (ShelterRepository_GetByID x) w = (r1, w1)" by (cases "run (ShelterRepository_GetByID x) w")
  then have "strs w1 = strs w \<and> base w1 = base w \<and> wenv w1 = wenv w
    \<and> (\<forall>sh. r1 = Inr sh \<longrightarrow> shelter_truth (wenv w) (base w) (shelterKey x) sh)"
    by (auto simp: ShelterRepository_GetByID_def run_pool_stmt shelter_by_id_def cast_uuid_Inr cast_uuid_Inl
        reading_Inr one_row_def shelter_truth_def split: option.splits sum.splits if_splits)
  moreover from g assms have "w' = w1 \<and> (\<forall>sh. r = Inr sh \<longrightarrow> r1 = Inr sh)"
    by (auto simp: ShelterService_load_def run_simps split: sum.splits if_splits)
  ultimately show ?thesis by auto
qed

end
