(* ===== verification/Scoring.thy ===== *)
theory Scoring
  imports Units Shelters
begin

text \<open>
  The ranking functions (\<^verbatim>\<open>internal/scoring\<close>), in the floating-point arithmetic the code runs them
  in: every literal is rounded when it becomes a \<open>float64\<close>, every operation rounds its result.
\<close>

section \<open>Travel\<close>

definition roadDetourFactor :: float64 where "roadDetourFactor = lit 1.3"

definition avgSpeedMPS :: "string \<Rightarrow> float64 option" where
  "avgSpeedMPS = map_of
     [(UnitTypeAmbulance, lit 13.9), (UnitTypePolice, lit 16.7), (UnitTypeFire, lit 11.1),
      (UnitTypeRescue, lit 11.1)]"

definition defaultSpeedMPS :: float64 where "defaultSpeedMPS = lit 11.1"
definition etaFalloffSeconds :: float64 where "etaFalloffSeconds = lit 900"
definition partialSkillMatch :: float64 where "partialSkillMatch = lit 0.30"

definition routingDistanceMeters :: "float64 \<Rightarrow> float64" where
  "routingDistanceMeters straightLineMeters = f_mul straightLineMeters roadDetourFactor"

definition etaSeconds :: "float64 \<Rightarrow> string \<Rightarrow> float64" where
  "etaSeconds routedMeters unitType =
     (let speed = (case avgSpeedMPS unitType of
                     None \<Rightarrow> defaultSpeedMPS
                   | Some speed \<Rightarrow> if f_le speed (Fin 0) then defaultSpeedMPS else speed)
      in f_div routedMeters speed)"

section \<open>Weights\<close>

record Weights =
  wt_Time :: float64
  wt_Skill :: float64

definition weightsForSeverity :: "string \<Rightarrow> Weights" where
  "weightsForSeverity severity =
     (if severity = SeverityCritical then \<lparr>wt_Time = lit 0.85, wt_Skill = lit 0.15\<rparr>
      else if severity = SeverityHigh then \<lparr>wt_Time = lit 0.75, wt_Skill = lit 0.25\<rparr>
      else if severity = SeverityMedium then \<lparr>wt_Time = lit 0.60, wt_Skill = lit 0.40\<rparr>
      else \<lparr>wt_Time = lit 0.50, wt_Skill = lit 0.50\<rparr>)"

section \<open>Units\<close>

record Need =
  nd_Severity :: string
  nd_RequiredType :: string

record Breakdown =
  bd_TimeScore :: float64
  bd_SkillScore :: float64
  bd_Weights :: Weights
  bd_DistanceMeters :: float64
  bd_RoutingDistanceMeters :: float64
  bd_ETASeconds :: float64
  bd_Severity :: string
  bd_RequiredType :: string
  bd_UnitType :: string

record ScoredUnit =
  su_Unit :: Unit
  su_Score :: float64
  su_Breakdown :: Breakdown

definition ScoreUnit :: "Unit \<Rightarrow> Need \<Rightarrow> float64 \<times> Breakdown" where
  "ScoreUnit u need =
     (let routed = routingDistanceMeters (un_DistanceMeters u);
          eta = etaSeconds routed (un_Type u);
          timeScore = f_sub (Fin 1) (f_div eta etaFalloffSeconds);
          timeScore = (if f_lt timeScore (Fin 0) then Fin 0 else timeScore);
          skillScore = (if nd_RequiredType need \<noteq> '''' \<and> un_Type u \<noteq> nd_RequiredType need
                        then partialSkillMatch else Fin 1);
          w = weightsForSeverity (nd_Severity need);
          total = f_add (f_mul (wt_Time w) timeScore) (f_mul (wt_Skill w) skillScore)
      in (total, \<lparr>bd_TimeScore = timeScore, bd_SkillScore = skillScore, bd_Weights = w,
            bd_DistanceMeters = un_DistanceMeters u, bd_RoutingDistanceMeters = routed,
            bd_ETASeconds = eta, bd_Severity = nd_Severity need,
            bd_RequiredType = nd_RequiredType need, bd_UnitType = un_Type u\<rparr>))"

section \<open>Shelters\<close>

definition shelterProximityFalloffMeters :: float64 where "shelterProximityFalloffMeters = lit 25000"
definition weightShelterProximity :: float64 where "weightShelterProximity = lit 0.70"
definition weightShelterHeadroom :: float64 where "weightShelterHeadroom = lit 0.30"

record ShelterBreakdown =
  sb_Proximity :: float64
  sb_Headroom :: float64
  sb_DistanceMeters :: float64
  sb_AvailableSpots :: int
  sb_Capacity :: int

record ScoredShelter =
  ss_Shelter :: Shelter
  ss_Score :: float64
  ss_Breakdown :: ShelterBreakdown

definition ScoreShelter :: "Shelter \<Rightarrow> float64 \<times> ShelterBreakdown" where
  "ScoreShelter sh =
     (let prox = f_sub (Fin 1) (f_div (sh_DistanceMeters sh) shelterProximityFalloffMeters);
          prox = (if f_lt prox (Fin 0) then Fin 0 else prox);
          headroom = (if sh_Capacity sh > 0
            then f_div (f_of_int (sh_Capacity sh - sh_Occupancy sh)) (f_of_int (sh_Capacity sh)) else Fin 0);
          headroom = (if f_lt headroom (Fin 0) then Fin 0 else headroom);
          total = f_add (f_mul weightShelterProximity prox) (f_mul weightShelterHeadroom headroom)
      in (total, \<lparr>sb_Proximity = prox, sb_Headroom = headroom, sb_DistanceMeters = sh_DistanceMeters sh,
            sb_AvailableSpots = sh_Capacity sh - sh_Occupancy sh, sb_Capacity = sh_Capacity sh\<rparr>))"

section \<open>Ranking\<close>

text \<open>\<open>sort.SliceStable\<close>: equal elements keep their order.\<close>

fun place_before :: "('a \<Rightarrow> 'a \<Rightarrow> bool) \<Rightarrow> 'a \<Rightarrow> 'a list \<Rightarrow> 'a list" where
  "place_before lt x [] = [x]"
| "place_before lt x (y # ys) = (if lt y x then y # place_before lt x ys else x # y # ys)"

definition sort_SliceStable :: "('a \<Rightarrow> 'a \<Rightarrow> bool) \<Rightarrow> 'a list \<Rightarrow> 'a list" where
  "sort_SliceStable lt xs = foldr (place_before lt) xs []"

definition val :: "float64 \<Rightarrow> real" where
  "val x = (case x of Fin r \<Rightarrow> r | _ \<Rightarrow> 0)"

lemma val_Fin [simp]: "val (Fin r) = r"
  by (simp add: val_def)

lemma set_place_before [simp]: "set (place_before lt x ys) = insert x (set ys)"
  by (induction ys) auto

lemma sort_SliceStable_simps [simp]:
  "sort_SliceStable lt [] = []"
  "sort_SliceStable lt (x # xs) = place_before lt x (sort_SliceStable lt xs)"
  by (simp_all add: sort_SliceStable_def)

lemma set_sort_SliceStable [simp]: "set (sort_SliceStable lt xs) = set xs"
  by (induction xs) auto

text \<open>On finite scores the code's comparison, highest first, sorts as the negated score does.\<close>

lemma place_before_insort:
  "(\<And>y. y \<in> insert x (set ys) \<Longrightarrow> finite64 (score y)) \<Longrightarrow>
     place_before (\<lambda>a b. f_gt (score a) (score b)) x ys = insort_key (\<lambda>a. - val (score a)) x ys"
proof (induction ys)
  case Nil
  then show ?case by simp
next
  case (Cons y ys)
  from Cons.prems [of x] Cons.prems [of y] obtain r s where "score x = Fin r" "score y = Fin s"
    by (auto simp: finite64_def split: float64.splits)
  with Cons show ?case by auto
qed

lemma sort_SliceStable_finite:
  "(\<And>y. y \<in> set xs \<Longrightarrow> finite64 (score y)) \<Longrightarrow>
     sort_SliceStable (\<lambda>a b. f_gt (score a) (score b)) xs = sort_key (\<lambda>a. - val (score a)) xs"
proof (induction xs)
  case (Cons x xs)
  then have "place_before (\<lambda>a b. f_gt (score a) (score b)) x (sort_key (\<lambda>a. - val (score a)) xs)
      = insort_key (\<lambda>a. - val (score a)) x (sort_key (\<lambda>a. - val (score a)) xs)"
    by (intro place_before_insort) auto
  with Cons show ?case by simp
qed simp

text \<open>So the ranking is best first, and within one score in the order it was given.\<close>

lemma sort_SliceStable_ranked:
  assumes "\<And>y. y \<in> set xs \<Longrightarrow> finite64 (score y)"
  shows "sorted_wrt (\<lambda>a b. f_le (score b) (score a)) (sort_SliceStable (\<lambda>a b. f_gt (score a) (score b)) xs)
    \<and> (\<forall>s. filter (\<lambda>a. score a = s) (sort_SliceStable (\<lambda>a b. f_gt (score a) (score b)) xs)
          = filter (\<lambda>a. score a = s) xs)"
proof -
  let ?s = "sort_key (\<lambda>a. - val (score a)) xs"
  have fin: "\<exists>r. score y = Fin r" if "y \<in> set xs" for y
    using assms [OF that] by (auto simp: finite64_def split: float64.splits)
  have "sorted (map (\<lambda>a. - val (score a)) ?s)" by simp
  then have "sorted_wrt (\<lambda>a b. val (score b) \<le> val (score a)) ?s" by (simp add: sorted_map)
  then have "sorted_wrt (\<lambda>a b. f_le (score b) (score a)) ?s"
  proof (rule sorted_wrt_mono_rel [rotated])
    fix a b assume "a \<in> set ?s" "b \<in> set ?s" and le: "val (score b) \<le> val (score a)"
    with fin [of a] fin [of b] show "f_le (score b) (score a)" by auto
  qed
  moreover have "filter (\<lambda>a. score a = s) ?s = filter (\<lambda>a. score a = s) xs" for s
  proof (cases "\<exists>r. s = Fin r")
    case True
    then obtain r where Fin: "s = Fin r" ..
    have "filter (\<lambda>a. score a = s) ys = filter (\<lambda>a. - val (score a) = - r) ys" if "set ys \<subseteq> set xs" for ys
      using that fin Fin by (intro filter_cong refl) force
    from this [of ?s] this [of xs] sort_key_stable [of "\<lambda>a. - val (score a)" "- r" xs] show ?thesis by simp
  next
    case False
    with fin have "filter (\<lambda>a. score a = s) ys = []" if "set ys \<subseteq> set xs" for ys
      using that by (fastforce simp: filter_empty_conv)
    from this [of ?s] this [of xs] show ?thesis by simp
  qed
  ultimately show ?thesis by (simp add: sort_SliceStable_finite [OF assms])
qed

section \<open>Monotone arithmetic\<close>

text \<open>The order of the extended line, on which the operations of the scores are monotone.\<close>

lemma f_le_simps [simp]:
  "f_le NegInf (Fin x)" "f_le (Fin x) PosInf" "f_le NegInf PosInf" "f_le NegInf NegInf" "f_le PosInf PosInf"
  "\<not> f_le (Fin x) NegInf" "\<not> f_le PosInf (Fin x)" "\<not> f_le PosInf NegInf" "\<not> f_le NaN y" "\<not> f_le y NaN"
  by (cases y; simp add: f_le_def)+

lemma f_le_ends: "x \<noteq> NaN \<Longrightarrow> f_le x PosInf" "x \<noteq> NaN \<Longrightarrow> f_le NegInf x"
  by (cases x; simp)+

lemma f_le_refl: "x \<noteq> NaN \<Longrightarrow> f_le x x"
  by (cases x) auto

lemma f_le_trans: "f_le x y \<Longrightarrow> f_le y z \<Longrightarrow> f_le x z"
  by (cases x; cases y; cases z) auto

lemma round64_not_NaN [simp]: "round64 x \<noteq> NaN"
  by (simp add: round64_def Let_def)

lemma round64_mono: "x \<le> y \<Longrightarrow> f_le (round64 x) (round64 y)"
  using rnd_mono [of x y] by (auto simp: round64_def Let_def)

lemma round64_nonneg: "0 \<le> x \<Longrightarrow> f_le (Fin 0) (round64 x)"
  using rnd_nonneg [of x] by (auto simp: round64_def Let_def)

lemmas f_mono_intros = round64_mono round64_nonneg f_le_ends mult_right_mono mult_left_mono divide_right_mono

lemma f_mul_mono: "f_le (Fin 0) x \<Longrightarrow> f_le x y \<Longrightarrow> 0 < c \<Longrightarrow> f_le (f_mul x (Fin c)) (f_mul y (Fin c))"
  by (cases x; cases y) (auto simp: inf_of_sign_def intro!: f_mono_intros)

lemma f_mul_mono_left: "f_le (Fin 0) x \<Longrightarrow> f_le x y \<Longrightarrow> 0 < c \<Longrightarrow> f_le (f_mul (Fin c) x) (f_mul (Fin c) y)"
  by (cases x; cases y) (auto simp: inf_of_sign_def intro!: f_mono_intros)

lemma f_mul_nonneg: "f_le (Fin 0) x \<Longrightarrow> 0 < c \<Longrightarrow> f_le (Fin 0) (f_mul x (Fin c))"
  by (cases x) (auto simp: inf_of_sign_def intro!: f_mono_intros)

lemma f_div_mono: "f_le (Fin 0) x \<Longrightarrow> f_le x y \<Longrightarrow> 0 < c \<Longrightarrow> f_le (f_div x (Fin c)) (f_div y (Fin c))"
  by (cases x; cases y) (auto intro!: f_mono_intros)

lemma f_div_nonneg: "f_le (Fin 0) x \<Longrightarrow> 0 < c \<Longrightarrow> f_le (Fin 0) (f_div x (Fin c))"
  by (cases x) (auto intro!: f_mono_intros)

lemma f_sub_antimono: "f_le x y \<Longrightarrow> f_le (f_sub (Fin c) y) (f_sub (Fin c) x)"
  by (cases x; cases y) (auto simp: f_sub_def intro!: f_mono_intros)

lemma f_add_mono: "f_le x y \<Longrightarrow> f_le (f_add x (Fin c)) (f_add y (Fin c))"
  by (cases x; cases y) (auto intro!: f_mono_intros)

section \<open>The size of a score\<close>

lemma lit_Fin: "\<bar>x\<bar> \<le> 2 ^ 53 \<Longrightarrow> lit x = Fin (rnd x)"
proof -
  assume "\<bar>x\<bar> \<le> 2 ^ 53"
  moreover have "(2::real) ^ 53 \<le> 2 powi 1000" by (simp add: power_int_def)
  ultimately show ?thesis by (simp add: lit_def round64_small)
qed

lemma rnd_pos: "1 / 1024 \<le> x \<Longrightarrow> 0 < rnd x"
proof -
  assume "1 / 1024 \<le> x"
  then have "2 powi (-10) \<le> x" by (simp add: power_int_def power_one_over)
  then have "rnd (2 powi (-10)) \<le> rnd x" by (rule rnd_mono)
  then show ?thesis using rnd_powi [of "-10"] powi_pos [of "-10"] by linarith
qed

text \<open>Below two to the \<open>k\<close>, rounding errs by at most half a unit in the fifty-third place.\<close>

lemma rnd_error:
  assumes "0 \<le> x" and "x < 2 powi k" and "-1000 \<le> k"
  shows "\<bar>rnd x - x\<bar> \<le> 2 powi (k - 54)"
proof (cases "x = 0")
  case False
  with assms have x: "0 < x" by simp
  have "2 powi \<lfloor>log 2 x\<rfloor> \<le> x" using powi_log [OF x, THEN iffD1, OF refl] by simp
  with assms(2) have "(2::real) powi \<lfloor>log 2 x\<rfloor> < 2 powi k" by linarith
  then have "\<lfloor>log 2 x\<rfloor> < k" by (rule powi_less)
  with x assms(3) have "ulp_exp x \<le> k - 53" by (simp add: ulp_exp_def)
  then have "2 powi ulp_exp x \<le> (2::real) powi (k - 53)" by (rule powi_mono)
  also have "(2::real) powi (k - 53) = 2 * 2 powi (k - 54)"
    using power_int_add_1 [of "2::real" "k - 54"] by (simp add: algebra_simps)
  finally show ?thesis using rnd_near [of x] by simp
qed simp

lemma rnd_error_1: "0 \<le> x \<Longrightarrow> x < 1 \<Longrightarrow> \<bar>rnd x - x\<bar> \<le> 1 / 2 ^ 54"
  using rnd_error [of x 0] by (simp add: power_int_def field_simps)

lemma rnd_error_2: "0 \<le> x \<Longrightarrow> x < 2 \<Longrightarrow> \<bar>rnd x - x\<bar> \<le> 1 / 2 ^ 53"
  using rnd_error [of x 1] by (simp add: power_int_def field_simps)

lemma rnd_error_4: "0 \<le> x \<Longrightarrow> x < 4 \<Longrightarrow> \<bar>rnd x - x\<bar> \<le> 1 / 2 ^ 52"
  using rnd_error [of x 2] by (simp add: power_int_def field_simps)

lemmas rnd_bounds_1 = rnd_error_1 [unfolded abs_le_iff]
lemmas rnd_bounds_2 = rnd_error_2 [unfolded abs_le_iff]
lemmas rnd_bounds_4 = rnd_error_4 [unfolded abs_le_iff]

definition clamp0 :: "float64 \<Rightarrow> float64" where
  "clamp0 x = (if f_lt x (Fin 0) then Fin 0 else x)"

lemma clamp0_mono: "f_le x y \<Longrightarrow> f_le (clamp0 x) (clamp0 y)"
  by (cases x; cases y) (auto simp: clamp0_def)

lemma clamp0_unit: "f_le (Fin 0) q \<Longrightarrow> \<exists>r. clamp0 (f_sub (Fin 1) q) = Fin r \<and> 0 \<le> r \<and> r \<le> 1"
proof (cases q)
  case (Fin x)
  assume "f_le (Fin 0) q"
  then have "rnd (1 - x) \<le> 1" using Fin rnd_mono [of "1 - x" 1] by simp
  moreover from this have "round64 (1 - x) \<noteq> PosInf" by (simp add: round64_def Let_def)
  ultimately show ?thesis using Fin by (auto simp: f_sub_def round64_def clamp0_def Let_def)
qed (auto simp: f_sub_def clamp0_def f_le_def)

text \<open>Two parts in the unit interval under two weights that add up to one.\<close>

lemma weighted_sum:
  assumes "0 \<le> a" "a \<le> 1" "0 \<le> b" "b \<le> 1" and "0 \<le> p" "p < 1" "0 \<le> q" "q < 1" "p + q = 1"
  shows "f_add (f_mul (lit p) (Fin a)) (f_mul (lit q) (Fin b)) = Fin (rnd (rnd (rnd p * a) + rnd (rnd q * b)))"
    and "0 \<le> rnd (rnd (rnd p * a) + rnd (rnd q * b))" and "rnd (rnd (rnd p * a) + rnd (rnd q * b)) \<le> 1"
    and "rnd (rnd p * a) \<le> rnd p" "rnd (rnd q * b) \<le> rnd q" "0 \<le> rnd (rnd p * a)" "0 \<le> rnd (rnd q * b)"
proof -
  have n: "0 \<le> rnd p" "0 \<le> rnd q" using assms by (auto intro: rnd_nonneg)
  have one: "rnd p \<le> 1" "rnd q \<le> 1" using assms rnd_mono [of p 1] rnd_mono [of q 1] by simp_all
  show pa: "rnd (rnd p * a) \<le> rnd p" and qb: "rnd (rnd q * b) \<le> rnd q"
    using assms n rnd_mono [of "rnd p * a" "rnd p"] rnd_mono [of "rnd q * b" "rnd q"]
    by (simp_all add: mult_left_le)
  show pos: "0 \<le> rnd (rnd p * a)" "0 \<le> rnd (rnd q * b)" using assms n by (auto intro!: rnd_nonneg)
  then show "0 \<le> rnd (rnd (rnd p * a) + rnd (rnd q * b))" by (auto intro!: rnd_nonneg)
  have "rnd p + rnd q \<le> 1 + 2 powi (-53)"
    using rnd_error_1 [of p] rnd_error_1 [of q] assms unfolding abs_le_iff
    by (simp add: power_int_def power_one_over field_simps)
  with pa qb show "rnd (rnd (rnd p * a) + rnd (rnd q * b)) \<le> 1" by (intro rnd_le_1) simp
  have big: "(2::real) \<le> 2 powi 1000" using powi_mono [of 1 1000] by simp
  have "\<bar>rnd p * a\<bar> \<le> 1" "\<bar>rnd q * b\<bar> \<le> 1" using assms n one by (auto simp: abs_mult intro!: mult_le_one)
  with big have "round64 (rnd p * a) = Fin (rnd (rnd p * a))" "round64 (rnd q * b) = Fin (rnd (rnd q * b))"
    by (auto intro!: round64_small)
  moreover have "round64 (rnd (rnd p * a) + rnd (rnd q * b)) = Fin (rnd (rnd (rnd p * a) + rnd (rnd q * b)))"
    using pa qb one pos big by (intro round64_small) simp
  ultimately show "f_add (f_mul (lit p) (Fin a)) (f_mul (lit q) (Fin b))
      = Fin (rnd (rnd (rnd p * a) + rnd (rnd q * b)))"
    using assms by (simp add: lit_Fin)
qed


text \<open>The time component: the clamped linear decay of the estimated arrival.\<close>

definition time_part :: "Unit \<Rightarrow> float64" where
  "time_part u = clamp0 (f_sub (Fin 1)
     (f_div (etaSeconds (routingDistanceMeters (un_DistanceMeters u)) (un_Type u)) etaFalloffSeconds))"

definition skill_part :: "Unit \<Rightarrow> Need \<Rightarrow> float64" where
  "skill_part u need = (if nd_RequiredType need \<noteq> '''' \<and> un_Type u \<noteq> nd_RequiredType need
     then partialSkillMatch else Fin 1)"

lemma ScoreUnit_alt:
  "fst (ScoreUnit u need) = f_add (f_mul (wt_Time (weightsForSeverity (nd_Severity need))) (time_part u))
     (f_mul (wt_Skill (weightsForSeverity (nd_Severity need))) (skill_part u need))"
  by (simp add: ScoreUnit_def time_part_def skill_part_def clamp0_def Let_def)

lemma etaSeconds_div: "\<exists>c. 0 < c \<and> (\<forall>x. etaSeconds x t = f_div x (Fin c))"
proof -
  have "\<exists>c. 0 < c \<and> (case avgSpeedMPS t of None \<Rightarrow> defaultSpeedMPS
      | Some speed \<Rightarrow> if f_le speed (Fin 0) then defaultSpeedMPS else speed) = Fin c"
    by (auto simp: avgSpeedMPS_def defaultSpeedMPS_def lit_Fin rnd_pos not_le split: option.split)
  then show ?thesis by (auto simp: etaSeconds_def Let_def)
qed

lemma arrival_mono:
  assumes "f_le (Fin 0) x" and "f_le x y"
  shows "f_le (Fin 0) (f_div (etaSeconds (routingDistanceMeters x) t) etaFalloffSeconds)"
    and "f_le (f_div (etaSeconds (routingDistanceMeters x) t) etaFalloffSeconds)
          (f_div (etaSeconds (routingDistanceMeters y) t) etaFalloffSeconds)"
proof -
  from etaSeconds_div obtain c where c: "0 < c" "\<And>x. etaSeconds x t = f_div x (Fin c)" by blast
  obtain p q where l: "roadDetourFactor = Fin p" "etaFalloffSeconds = Fin q" "0 < p" "0 < q"
    by (simp add: roadDetourFactor_def etaFalloffSeconds_def lit_Fin rnd_pos)
  have r: "f_le (Fin 0) (routingDistanceMeters x)" "f_le (routingDistanceMeters x) (routingDistanceMeters y)"
    using assms l(3) by (auto simp: routingDistanceMeters_def l(1) intro!: f_mul_mono f_mul_nonneg)
  then show "f_le (Fin 0) (f_div (etaSeconds (routingDistanceMeters x) t) etaFalloffSeconds)"
    using c(1) l(4) unfolding c(2) l(2) by (intro f_div_nonneg)
  show "f_le (f_div (etaSeconds (routingDistanceMeters x) t) etaFalloffSeconds)
          (f_div (etaSeconds (routingDistanceMeters y) t) etaFalloffSeconds)"
    using r c(1) l(4) unfolding c(2) l(2) by (intro f_div_mono f_div_nonneg)
qed

lemma time_part_unit: "f_le (Fin 0) (un_DistanceMeters u) \<Longrightarrow> \<exists>r. time_part u = Fin r \<and> 0 \<le> r \<and> r \<le> 1"
  unfolding time_part_def by (intro clamp0_unit arrival_mono(1) [where y = PosInf]) (auto intro: f_le_ends)

lemma weights_split: "\<exists>p q. wt_Time (weightsForSeverity sev) = lit p \<and> wt_Skill (weightsForSeverity sev) = lit q
    \<and> 1 / 2 \<le> p \<and> p < 1 \<and> 15 / 100 \<le> q \<and> q < 1 \<and> p + q = 1"
proof -
  consider "weightsForSeverity sev = \<lparr>wt_Time = lit 0.85, wt_Skill = lit 0.15\<rparr>"
    | "weightsForSeverity sev = \<lparr>wt_Time = lit 0.75, wt_Skill = lit 0.25\<rparr>"
    | "weightsForSeverity sev = \<lparr>wt_Time = lit 0.60, wt_Skill = lit 0.40\<rparr>"
    | "weightsForSeverity sev = \<lparr>wt_Time = lit 0.50, wt_Skill = lit 0.50\<rparr>"
    unfolding weightsForSeverity_def by argo
  then show ?thesis
  proof cases
    case 1
    then show ?thesis by (intro exI [of _ "0.85"] exI [of _ "0.15"]) simp
  next
    case 2
    then show ?thesis by (intro exI [of _ "0.75"] exI [of _ "0.25"]) simp
  next
    case 3
    then show ?thesis by (intro exI [of _ "0.60"] exI [of _ "0.40"]) simp
  next
    case 4
    then show ?thesis by (intro exI [of _ "0.50"] exI [of _ "0.50"]) simp
  qed
qed

lemma skill_part_unit: "\<exists>r. skill_part u need = Fin r \<and> 0 \<le> r \<and> r \<le> 1"
  using rnd_mono [of "0.3" 1] rnd_nonneg [of "0.3"]
  by (auto simp: skill_part_def partialSkillMatch_def lit_Fin)


section \<open>Properties\<close>

lemma score_unit_unit:
  assumes "f_le (Fin 0) (un_DistanceMeters u)"
  obtains s where "fst (ScoreUnit u need) = Fin s" "0 \<le> s" "s \<le> 1"
proof -
  from time_part_unit [OF assms] obtain a where a: "time_part u = Fin a" "0 \<le> a" "a \<le> 1" by blast
  from skill_part_unit obtain b where b: "skill_part u need = Fin b" "0 \<le> b" "b \<le> 1" by blast
  from weights_split [of "nd_Severity need"] obtain p q where w:
    "wt_Time (weightsForSeverity (nd_Severity need)) = lit p" "wt_Skill (weightsForSeverity (nd_Severity need)) = lit q"
    "1 / 2 \<le> p" "p < 1" "15 / 100 \<le> q" "q < 1" "p + q = 1" by blast
  from weighted_sum [of a b p q] a b w that show ?thesis by (auto simp: ScoreUnit_alt)
qed

text \<open>C31: a unit's score is a number between zero and one, whatever its distance (down to an
  infinite one), type and need; the rounding of the weights never lifts it past one.\<close>

theorem score_unit_bounds:
  assumes "f_le (Fin 0) (un_DistanceMeters u)"
  shows "\<exists>s. fst (ScoreUnit u need) = Fin s \<and> 0 \<le> s \<and> s \<le> 1"
  using assms by (blast elim: score_unit_unit)

text \<open>Nearer is never worse: of two units of one type the nearer one scores at least as high
  for any need, in the rounded arithmetic as in the exact one.\<close>

theorem score_unit_nearer:
  assumes "f_le (Fin 0) (un_DistanceMeters u)" and "f_le (un_DistanceMeters u) (un_DistanceMeters v)"
    and "un_Type u = un_Type v"
  shows "f_le (fst (ScoreUnit v need)) (fst (ScoreUnit u need))"
proof -
  have v: "f_le (Fin 0) (un_DistanceMeters v)" by (rule f_le_trans [OF assms(1,2)])
  from time_part_unit [OF assms(1)] time_part_unit [OF v] obtain a c where
    a: "time_part u = Fin a" "0 \<le> a" "a \<le> 1" and c: "time_part v = Fin c" "0 \<le> c" "c \<le> 1" by blast
  have "f_le (time_part v) (time_part u)"
    unfolding time_part_def assms(3) by (intro clamp0_mono f_sub_antimono arrival_mono(2) assms(1,2))
  with a c have ca: "c \<le> a" by simp
  from skill_part_unit obtain b where b: "skill_part u need = Fin b" "0 \<le> b" "b \<le> 1" by blast
  moreover have "skill_part v need = skill_part u need" by (simp add: skill_part_def assms(3))
  moreover from weights_split [of "nd_Severity need"] obtain p q where w:
    "wt_Time (weightsForSeverity (nd_Severity need)) = lit p" "wt_Skill (weightsForSeverity (nd_Severity need)) = lit q"
    "1 / 2 \<le> p" "p < 1" "15 / 100 \<le> q" "q < 1" "p + q = 1" by blast
  moreover have "rnd (rnd (rnd p * c) + rnd (rnd q * b)) \<le> rnd (rnd (rnd p * a) + rnd (rnd q * b))"
    using ca rnd_nonneg [of p] w by (intro rnd_mono add_right_mono mult_left_mono) auto
  ultimately show ?thesis using weighted_sum(1) [of a b p q] weighted_sum(1) [of c b p q] a c
    by (simp add: ScoreUnit_alt)
qed

text \<open>All else equal, the required specialisation wins: a unit scores strictly higher when its
  own type is the one asked for than when another is, at every severity and every distance.\<close>

theorem score_unit_specialist:
  assumes "f_le (Fin 0) (un_DistanceMeters u)"
    and "nd_RequiredType need = un_Type u"
    and "nd_RequiredType other \<noteq> ''''" "nd_RequiredType other \<noteq> un_Type u"
    and "nd_Severity other = nd_Severity need"
  shows "f_lt (fst (ScoreUnit u other)) (fst (ScoreUnit u need))"
proof -
  from time_part_unit [OF assms(1)] obtain a where a: "time_part u = Fin a" "0 \<le> a" "a \<le> 1" by blast
  have sk: "skill_part u need = Fin 1" "skill_part u other = Fin (rnd 0.3)"
    using assms(2-4) by (simp_all add: skill_part_def partialSkillMatch_def lit_Fin)
  have r3: "0 \<le> rnd 0.3" "rnd 0.3 \<le> 1 / 2"
    using rnd_nonneg [of "0.3"] rnd_mono [of "0.3" "2 powi (-1)"] rnd_powi [of "-1"] by simp_all
  from weights_split [of "nd_Severity need"] obtain p q where w:
    "wt_Time (weightsForSeverity (nd_Severity need)) = lit p" "wt_Skill (weightsForSeverity (nd_Severity need)) = lit q"
    "1 / 2 \<le> p" "p < 1" "15 / 100 \<le> q" "q < 1" "p + q = 1" by blast
  let ?x = "rnd (rnd p * a)" and ?b = "rnd (rnd q * 1)" and ?c = "rnd (rnd q * rnd 0.3)"
  have q: "14 / 100 \<le> rnd q" "rnd q \<le> 1" "?b = rnd q"
    using rnd_bounds_1 [of q] w rnd_mono [of q 1] by simp_all
  have m: "rnd q * rnd 0.3 \<le> rnd q / 2" "0 \<le> rnd q * rnd 0.3"
    using r3 q mult_left_mono [of "rnd 0.3" "1 / 2" "rnd q"] by simp_all
  with q have "rnd q * rnd 0.3 < 2" by linarith
  with m have c: "?c \<le> rnd q / 2 + 1 / 2 ^ 53" "0 \<le> ?c"
    using rnd_bounds_2 [OF m(2)] rnd_nonneg [OF m(2)] by linarith+
  have x: "?x \<le> 1" "0 \<le> ?x"
    using weighted_sum(4,6) [of a 0 p q] a w rnd_mono [of p 1] by simp_all
  have "rnd (?x + ?c) < rnd (?x + ?b)"
    using rnd_bounds_4 [of "?x + ?c"] rnd_bounds_4 [of "?x + ?b"] q c x by simp
  with weighted_sum(1) [of a 1 p q] weighted_sum(1) [of a "rnd 0.3" p q] a w r3 sk assms(5) show ?thesis
    by (simp add: ScoreUnit_alt)
qed


text \<open>The two components of a shelter's score.\<close>

definition near_part :: "Shelter \<Rightarrow> float64" where
  "near_part sh = clamp0 (f_sub (Fin 1) (f_div (sh_DistanceMeters sh) shelterProximityFalloffMeters))"

definition sane_shelter :: "Shelter \<Rightarrow> bool" where
  "sane_shelter sh \<longleftrightarrow> f_le (Fin 0) (sh_DistanceMeters sh) \<and> 0 \<le> sh_Occupancy sh
     \<and> sh_Occupancy sh \<le> sh_Capacity sh \<and> 0 < sh_Capacity sh \<and> int4_ok (sh_Capacity sh)"

definition free_share :: "Shelter \<Rightarrow> real" where
  "free_share sh = real_of_int (sh_Capacity sh - sh_Occupancy sh) / real_of_int (sh_Capacity sh)"

lemma near_part_unit: "f_le (Fin 0) (sh_DistanceMeters sh) \<Longrightarrow> \<exists>r. near_part sh = Fin r \<and> 0 \<le> r \<and> r \<le> 1"
  unfolding near_part_def shelterProximityFalloffMeters_def
  by (intro clamp0_unit) (simp add: lit_Fin f_div_nonneg)

lemma near_part_mono:
  "f_le (Fin 0) (sh_DistanceMeters sh) \<Longrightarrow> f_le (sh_DistanceMeters sh) (sh_DistanceMeters sh')
     \<Longrightarrow> f_le (near_part sh') (near_part sh)"
  unfolding near_part_def shelterProximityFalloffMeters_def
  by (intro clamp0_mono f_sub_antimono) (simp add: lit_Fin f_div_mono)

lemma free_share_unit: "sane_shelter sh \<Longrightarrow> 0 \<le> free_share sh \<and> free_share sh \<le> 1"
  by (simp add: sane_shelter_def free_share_def)

lemma ScoreShelter_alt:
  assumes "sane_shelter sh"
  shows "fst (ScoreShelter sh) = f_add (f_mul (lit 0.70) (near_part sh)) (f_mul (lit 0.30) (Fin (rnd (free_share sh))))"
proof -
  let ?n = "sh_Capacity sh - sh_Occupancy sh"
  have i: "\<bar>?n\<bar> < 2 ^ 53" "\<bar>sh_Capacity sh\<bar> < 2 ^ 53" using assms by (auto simp: sane_shelter_def int4_ok_def)
  have small: "round64 (real_of_int k) = Fin (real_of_int k)" if "\<bar>k\<bar> < 2 ^ 53" for k
  proof -
    have "\<bar>real_of_int k\<bar> \<le> 2 powi 53"
      using that by (simp add: power_int_def flip: of_int_abs of_int_power_le_of_int_cancel_iff)
    also have "\<dots> \<le> 2 powi 1000" by (rule powi_mono) simp
    finally show ?thesis using rnd_of_int [OF that] by (simp add: round64_small)
  qed
  have big: "(1::real) \<le> 2 powi 1000" using powi_mono [of 0 1000] by simp
  with free_share_unit [OF assms] have "round64 (free_share sh) = Fin (rnd (free_share sh))"
    by (intro round64_small) simp
  then have "f_div (f_of_int ?n) (f_of_int (sh_Capacity sh)) = Fin (rnd (free_share sh))"
    using small [OF i(1)] small [OF i(2)] assms by (simp add: f_of_int_def free_share_def sane_shelter_def)
  moreover have "0 \<le> rnd (free_share sh)" using free_share_unit [OF assms] by (simp add: rnd_nonneg)
  ultimately show ?thesis using assms
    by (simp add: ScoreShelter_def Let_def near_part_def clamp0_def weightShelterProximity_def
        weightShelterHeadroom_def sane_shelter_def)
qed

lemma score_shelter_parts:
  assumes "sane_shelter sh"
  obtains a where "near_part sh = Fin a" "0 \<le> a" "a \<le> 1" "0 \<le> rnd (free_share sh)" "rnd (free_share sh) \<le> 1"
    "fst (ScoreShelter sh) = Fin (rnd (rnd (rnd 0.70 * a) + rnd (rnd 0.30 * rnd (free_share sh))))"
proof -
  from assms have "f_le (Fin 0) (sh_DistanceMeters sh)" by (simp add: sane_shelter_def)
  from near_part_unit [OF this] obtain a where a: "near_part sh = Fin a" "0 \<le> a" "a \<le> 1" by blast
  moreover have f: "0 \<le> rnd (free_share sh)" "rnd (free_share sh) \<le> 1"
    using free_share_unit [OF assms] rnd_mono [of "free_share sh" 1] by (simp_all add: rnd_nonneg)
  moreover have "fst (ScoreShelter sh) = Fin (rnd (rnd (rnd 0.70 * a) + rnd (rnd 0.30 * rnd (free_share sh))))"
    using weighted_sum(1) [of a "rnd (free_share sh)" "0.70" "0.30"] a f by (simp add: ScoreShelter_alt [OF assms])
  ultimately show ?thesis by (rule that)
qed

lemma score_shelter_finite: "sane_shelter sh \<Longrightarrow> \<exists>s. fst (ScoreShelter sh) = Fin s"
  by (erule score_shelter_parts) blast

text \<open>A shelter's score is a number between zero and one, and among shelters the nearer one with
  at least the same share of free beds never scores lower.\<close>

theorem score_shelter_bounds:
  assumes "sane_shelter sh" and "sane_shelter sh'"
  shows "\<exists>s s'. fst (ScoreShelter sh) = Fin s \<and> 0 \<le> s \<and> s \<le> 1 \<and> fst (ScoreShelter sh') = Fin s'
    \<and> (f_le (sh_DistanceMeters sh) (sh_DistanceMeters sh') \<and> free_share sh' \<le> free_share sh \<longrightarrow> s' \<le> s)"
proof -
  from score_shelter_parts [OF assms(1)] obtain a where a: "near_part sh = Fin a" "0 \<le> a" "a \<le> 1"
    "0 \<le> rnd (free_share sh)" "rnd (free_share sh) \<le> 1"
    "fst (ScoreShelter sh) = Fin (rnd (rnd (rnd 0.70 * a) + rnd (rnd 0.30 * rnd (free_share sh))))" .
  from score_shelter_parts [OF assms(2)] obtain c where c: "near_part sh' = Fin c"
    "fst (ScoreShelter sh') = Fin (rnd (rnd (rnd 0.70 * c) + rnd (rnd 0.30 * rnd (free_share sh'))))" by blast
  have "rnd (rnd (rnd 0.70 * c) + rnd (rnd 0.30 * rnd (free_share sh')))
      \<le> rnd (rnd (rnd 0.70 * a) + rnd (rnd 0.30 * rnd (free_share sh)))"
    if "c \<le> a" "free_share sh' \<le> free_share sh"
    using that rnd_nonneg [of "0.70"] rnd_nonneg [of "0.30"]
    by (intro rnd_mono add_mono mult_left_mono) auto
  moreover have "f_le (sh_DistanceMeters sh) (sh_DistanceMeters sh') \<Longrightarrow> c \<le> a"
    using near_part_mono [of sh sh'] assms(1) a c by (simp add: sane_shelter_def)
  ultimately show ?thesis using weighted_sum(2,3) [of a "rnd (free_share sh)" "0.70" "0.30"] a c by simp
qed

section \<open>Witnesses\<close>

definition sample_rated_unit :: "string \<Rightarrow> real \<Rightarrow> Unit" where
  "sample_rated_unit ty d = \<lparr>un_ID = ''u1'', un_CallSign = ''AMB-1'', un_Type = ty, un_Status = UnitAvailable,
     un_Latitude = Fin 0, un_Longitude = Fin 0, un_CreatedAt = 0, un_UpdatedAt = 0, un_DistanceMeters = Fin d\<rparr>"

definition sample_need :: "string \<Rightarrow> Need" where
  "sample_need ty = \<lparr>nd_Severity = SeverityCritical, nd_RequiredType = ty\<rparr>"

lemma score_unit_bounds_witness:
  "\<exists>s. fst (ScoreUnit (sample_rated_unit UnitTypeFire 500) (sample_need UnitTypeAmbulance)) = Fin s
     \<and> 0 \<le> s \<and> s \<le> 1"
  by (rule score_unit_bounds) (simp add: sample_rated_unit_def)

lemma score_unit_nearer_witness:
  "f_le (fst (ScoreUnit (sample_rated_unit UnitTypeFire 2000) (sample_need UnitTypeFire)))
     (fst (ScoreUnit (sample_rated_unit UnitTypeFire 500) (sample_need UnitTypeFire)))"
  by (rule score_unit_nearer) (simp_all add: sample_rated_unit_def)

lemma score_unit_specialist_witness:
  "f_lt (fst (ScoreUnit (sample_rated_unit UnitTypeFire 500) (sample_need UnitTypeAmbulance)))
     (fst (ScoreUnit (sample_rated_unit UnitTypeFire 500) (sample_need UnitTypeFire)))"
  by (rule score_unit_specialist) (simp_all add: sample_rated_unit_def sample_need_def unit_type_defs)

definition sample_rated_shelter :: "int \<Rightarrow> real \<Rightarrow> Shelter" where
  "sample_rated_shelter occ d = \<lparr>sh_ID = ''s1'', sh_Name = ''Hall'', sh_Capacity = 10, sh_Occupancy = occ,
     sh_Status = ShelterOpen, sh_Latitude = Fin 0, sh_Longitude = Fin 0, sh_CreatedAt = 0, sh_UpdatedAt = 0,
     sh_AvailableSpots = 10 - occ, sh_DistanceMeters = Fin d\<rparr>"

lemma score_shelter_bounds_witness:
  "\<exists>s s'. fst (ScoreShelter (sample_rated_shelter 2 100)) = Fin s
     \<and> fst (ScoreShelter (sample_rated_shelter 9 5000)) = Fin s' \<and> 0 \<le> s \<and> s \<le> 1 \<and> s' \<le> s"
  using score_shelter_bounds [of "sample_rated_shelter 2 100" "sample_rated_shelter 9 5000"]
  by (auto simp: sane_shelter_def sample_rated_shelter_def int4_ok_def free_share_def)


end
