(* ===== verification/Outbox.thy ===== *)
theory Outbox
  imports Interfaces
begin

text \<open>
  The transactional outbox (\<^verbatim>\<open>internal/outbox\<close>): \<open>WriteTx\<close>, through which every module records an
  event in the transaction of the change it reports; \<open>PublishBatch\<close> with its retry, backoff and
  dead-letter bookkeeping; the operator's reads, their service and handlers. \<open>event_writer\<close> is
  interpreted on the repository.
\<close>

section \<open>The model\<close>

record OutboxEvent =
  oe_ID :: int
  oe_AggregateType :: string
  oe_AggregateID :: string
  oe_EventType :: string
  oe_Payload :: payload
  oe_CreatedAt :: time
  oe_PublishedAt :: "time option"
  oe_Attempts :: int
  oe_LastError :: "string option"
  oe_NextAttemptAt :: time
  oe_DeadAt :: "time option"

definition scanOutbox :: "int \<times> outbox_row \<Rightarrow> OutboxEvent" where
  "scanOutbox kr = (case kr of (k, r) \<Rightarrow>
     \<lparr>oe_ID = k, oe_AggregateType = o_aggregate_type r, oe_AggregateID = o_aggregate_id r,
      oe_EventType = o_event_type r, oe_Payload = o_payload r, oe_CreatedAt = o_created_at r,
      oe_PublishedAt = o_published_at r, oe_Attempts = o_attempts r, oe_LastError = o_last_error r,
      oe_NextAttemptAt = o_next_attempt_at r, oe_DeadAt = o_dead_at r\<rparr>)"

lemma scanOutbox_simps [simp]:
  "oe_ID (scanOutbox (k, r)) = k" "oe_Attempts (scanOutbox (k, r)) = o_attempts r"
  "oe_AggregateID (scanOutbox (k, r)) = o_aggregate_id r" "oe_EventType (scanOutbox (k, r)) = o_event_type r"
  "oe_Payload (scanOutbox (k, r)) = o_payload r" "oe_AggregateType (scanOutbox (k, r)) = o_aggregate_type r"
  "oe_CreatedAt (scanOutbox (k, r)) = o_created_at r"
  by (simp_all add: scanOutbox_def)

section \<open>Writing an event\<close>

text \<open>\<open>JSONB\<close> has no zero character in a string (SQLSTATE 22P05).\<close>

fun json_ok :: "json \<Rightarrow> bool" where
  "json_ok (JStr s) = plain_text s"
| "json_ok _ = True"

definition OutboxRepository_WriteTx :: "string \<Rightarrow> string \<Rightarrow> string \<Rightarrow> payload \<Rightarrow> ('m, unit) tx" where
  "OutboxRepository_WriteTx aggregateType aggregateID eventType payload =
     tx_stmt (pg_text [aggregateType, eventType] (cast_uuid aggregateID (\<lambda>aid e n t d.
       let k = nextval e n
       in if \<not> list_all (json_ok \<circ> snd) payload then Inl (PgError ''22P05'')
          else if sel (outbox_events d) k \<noteq> None then Inl unique_violation
          else Inr ((), d\<lparr>outbox_events :=
                 ins k (new_event aggregateType aid eventType payload t) (outbox_events d)\<rparr>, {RowOutbox k}))))"

definition OutboxRepository_writer :: "'m EventWriter" where
  "OutboxRepository_writer = \<lparr>WriteTx = OutboxRepository_WriteTx\<rparr>"

lemma writer_simps [simp]: "WriteTx OutboxRepository_writer = OutboxRepository_WriteTx"
  by (simp add: OutboxRepository_writer_def)

lemma repo_write_ok:
  assumes "run (OutboxRepository_WriteTx agg x ev pl) w = (Inr (), w')"
  shows "\<exists>aid k. uuid_cast (wenv w) x = Some aid \<and> sel (outbox_events (view w)) k = None
    \<and> view w' = (view w)\<lparr>outbox_events := ins k (new_event agg aid ev pl (txnow w)) (outbox_events (view w))\<rparr>
    \<and> locks w \<subseteq> locks w'"
  using assms
  by (auto simp: OutboxRepository_WriteTx_def tx_stmt_Inr pg_text_def cast_uuid_Inr Let_def split: if_splits)

lemma repo_write_tx_only [simp]: "tx_only (OutboxRepository_WriteTx agg x ev pl)"
  by (simp add: OutboxRepository_WriteTx_def)

interpretation outbox_repo: event_writer OutboxRepository_writer
  by (unfold_locales, unfold writer_simps) (rule repo_write_tx_only repo_write_ok, assumption?)+

lemma calm_write:
  assumes "calm (wenv w)" and "text_ok agg" "text_ok ev" and "uuid_cast (wenv w) x = Some aid"
    and "list_all (json_ok \<circ> snd) pl" and "sel (outbox_events (view w)) (nextval (wenv w) (pc w)) = None"
  shows "\<exists>w'. run (OutboxRepository_WriteTx agg x ev pl) w = (Inr (), w')
    \<and> view w' = add_event (nextval (wenv w) (pc w)) (new_event agg aid ev pl (txnow w)) (view w)"
  using assms by (simp add: OutboxRepository_WriteTx_def run_tx_stmt pg_text_def cast_uuid_def Let_def add_event_def)

section \<open>Retry and dead-letter\<close>

definition MaxPublishAttempts :: int where "MaxPublishAttempts = 5"
definition maxBackoffSeconds :: int where "maxBackoffSeconds = 300"

definition backoffSeconds :: "int \<Rightarrow> int" where
  "backoffSeconds attempt =
     (let attempt = (if attempt < 1 then 1 else attempt)
      in if attempt > 30 then maxBackoffSeconds
         else let b = push_bit (nat attempt) 1 in if b < maxBackoffSeconds then b else maxBackoffSeconds)"

definition truncateErr :: "go_error \<Rightarrow> string" where
  "truncateErr err = (let mx = 500; s = err_Error err in if length s > mx then take mx s else s)"

definition fail_row :: "int \<Rightarrow> string \<Rightarrow> int \<Rightarrow> bool \<Rightarrow> time \<Rightarrow> outbox_row \<Rightarrow> outbox_row" where
  "fail_row nxt msg secs dead t r = r\<lparr>o_attempts := nxt, o_last_error := Some msg,
     o_next_attempt_at := t + seconds secs, o_dead_at := (if dead then Some t else None)\<rparr>"

definition markFailed :: "int \<Rightarrow> int \<Rightarrow> go_error \<Rightarrow> ('m, bool) tx" where
  "markFailed eventID attempts cause =
     (let nxt = attempts + 1; dead = nxt \<ge> MaxPublishAttempts
      in bindE
        (tx_stmt (pg_text [truncateErr cause] (\<lambda>e n t d. Inr ((), d\<lparr>outbox_events :=
            upd eventID (fail_row nxt (truncateErr cause) (backoffSeconds nxt) dead t) (outbox_events d)\<rparr>,
          {RowOutbox eventID}))))
        (\<lambda>_. ok dead))"

section \<open>Publishing a batch\<close>

record PublishResult =
  pr_Claimed :: nat
  pr_Published :: nat
  pr_Failed :: nat
  pr_DeadLettered :: nat

definition no_result :: PublishResult where
  "no_result = \<lparr>pr_Claimed = 0, pr_Published = 0, pr_Failed = 0, pr_DeadLettered = 0\<rparr>"

definition due :: "time \<Rightarrow> outbox_row \<Rightarrow> bool" where
  "due t r \<longleftrightarrow> o_published_at r = None \<and> o_dead_at r = None \<and> o_next_attempt_at r \<le> t"

text \<open>The claim: due rows nobody else holds, in id order, at most \<open>limit\<close>, locked.\<close>

definition claim_rows :: "int \<Rightarrow> env \<Rightarrow> nat \<Rightarrow> time \<Rightarrow> db \<Rightarrow> go_error + (int \<times> outbox_row) list" where
  "claim_rows limit e n t d = pg_page limit 0
     (sort_key fst (filter (\<lambda>(k, r). due t r \<and> \<not> others_locked e n (RowOutbox k)) (outbox_events d)))"

definition claim_stmt :: "int \<Rightarrow> OutboxEvent list stmt" where
  "claim_stmt limit = (\<lambda>e n t d. case claim_rows limit e n t d of
     Inl x \<Rightarrow> Inl x | Inr rows \<Rightarrow> Inr (map scanOutbox rows, d, RowOutbox ` fst ` set rows))"

text \<open>The loop over the claimed events. A failed publish is recorded on its own row and the loop
  goes on; only a failure to record it ends the batch.\<close>

fun publish_loop :: "(OutboxEvent \<Rightarrow> ('m, unit) tx) \<Rightarrow> PublishResult \<Rightarrow> int list \<Rightarrow> OutboxEvent list
    \<Rightarrow> ('m, PublishResult \<times> int list) tx" where
  "publish_loop publish res publishedIDs [] = ok (res, publishedIDs)"
| "publish_loop publish res publishedIDs (ev # events) = bind (publish ev) (\<lambda>perr. case perr of
     Inl perr \<Rightarrow> bindE (markFailed (oe_ID ev) (oe_Attempts ev) perr) (\<lambda>dead.
       publish_loop publish
         (res\<lparr>pr_Failed := Suc (pr_Failed res),
              pr_DeadLettered := (if dead then Suc (pr_DeadLettered res) else pr_DeadLettered res)\<rparr>)
         publishedIDs events)
   | Inr _ \<Rightarrow> publish_loop publish res (publishedIDs @ [oe_ID ev]) events)"

definition publish_row :: "time \<Rightarrow> outbox_row \<Rightarrow> outbox_row" where
  "publish_row t r = r\<lparr>o_published_at := Some t\<rparr>"

definition mark_published :: "int list \<Rightarrow> ('m, unit) tx" where
  "mark_published ids = tx_stmt (\<lambda>e n t d. Inr ((),
     d\<lparr>outbox_events := upd_all (\<lambda>k. k \<in> set ids) (publish_row t) (outbox_events d)\<rparr>, RowOutbox ` set ids))"

definition publish_body :: "int \<Rightarrow> (OutboxEvent \<Rightarrow> ('m, unit) tx) \<Rightarrow> ('m, PublishResult) tx" where
  "publish_body limit publish = bindE (tx_stmt (claim_stmt limit)) (\<lambda>events.
     bindE (publish_loop publish (no_result\<lparr>pr_Claimed := length events\<rparr>) [] events)
       (\<lambda>(res, publishedIDs).
          if length publishedIDs > 0
          then bindE (mark_published publishedIDs) (\<lambda>_. ok (res\<lparr>pr_Published := length publishedIDs\<rparr>))
          else ok res))"

definition OutboxRepository_PublishBatch ::
    "int \<Rightarrow> (OutboxEvent \<Rightarrow> ('m, unit) tx) \<Rightarrow> ('m, PublishResult) tx" where
  "OutboxRepository_PublishBatch limit publish = in_tx (publish_body limit publish)"

section \<open>The operator's reads\<close>

definition OutboxRepository_ListDead :: "int \<Rightarrow> ('m, OutboxEvent list) tx" where
  "OutboxRepository_ListDead limit = pool_stmt (reading (\<lambda>e d. map_sum id (map scanOutbox)
     (pg_page limit 0 (sort_key (\<lambda>(k, r). - k) (filter (\<lambda>(k, r). o_dead_at r \<noteq> None) (outbox_events d))))))"

definition pending :: "outbox_row \<Rightarrow> bool" where
  "pending r \<longleftrightarrow> o_published_at r = None \<and> o_dead_at r = None"

definition OutboxRepository_PendingCount :: "('m, nat) tx" where
  "OutboxRepository_PendingCount = pool_stmt (reading (\<lambda>e d. Inr (count_rows pending (outbox_events d))))"

definition OutboxRepository_ListRecent :: "int \<Rightarrow> ('m, OutboxEvent list) tx" where
  "OutboxRepository_ListRecent limit = pool_stmt (reading (\<lambda>e d. map_sum id (map scanOutbox)
     (pg_page limit 0 (sort_key (\<lambda>(k, r). - k) (outbox_events d)))))"

text \<open>\<open>OutboxService\<close> only forwards.\<close>

definition OutboxHandler_List :: "query \<Rightarrow> ('m world_scheme, OutboxEvent list response) script" where
  "OutboxHandler_List q = respond (OutboxRepository_ListRecent (ClampInt (q ''limit'') 20 1 200))
     (\<lambda>err. common_Error 500 ''could not list outbox events'' ''INTERNAL_ERROR'')
     (\<lambda>evs. common_Success 200 ''outbox events'' evs)"

text \<open>The data of the dead-letter response: the number of dead rows returned, the lag, the rows.\<close>

definition OutboxHandler_ListDead ::
    "query \<Rightarrow> ('m world_scheme, (nat \<times> nat \<times> OutboxEvent list) response) script" where
  "OutboxHandler_ListDead q = bind (OutboxRepository_ListDead (ClampInt (q ''limit'') 20 1 200)) (\<lambda>res.
     case res of
       Inl err \<Rightarrow> Done (common_Error 500 ''could not list dead events'' ''INTERNAL_ERROR'')
     | Inr evs \<Rightarrow> respond OutboxRepository_PendingCount
         (\<lambda>err. common_Error 500 ''could not read outbox lag'' ''INTERNAL_ERROR'')
         (\<lambda>lag. common_Success 200 ''dead-lettered outbox events'' (length evs, lag, evs)))"

section \<open>What the retry bookkeeping guarantees\<close>

lemma backoffSeconds_bounds: "2 \<le> backoffSeconds n \<and> backoffSeconds n \<le> maxBackoffSeconds"
proof -
  have "(2::int) \<le> 2 ^ nat n" if "1 \<le> n"
  proof -
    have "(2::int) ^ 1 \<le> 2 ^ nat n" using that by (intro power_increasing) auto
    then show ?thesis by simp
  qed
  then show ?thesis by (auto simp: backoffSeconds_def maxBackoffSeconds_def Let_def push_bit_eq_mult)
qed

lemma backoffSeconds_closed:
  "backoffSeconds n = min maxBackoffSeconds (2 ^ nat (max 1 n))"
proof (cases "n > 30")
  case True
  have "(2::int) ^ 30 \<le> 2 ^ nat n" using True by (intro power_increasing) auto
  with True show ?thesis by (simp add: backoffSeconds_def maxBackoffSeconds_def max_def min_def)
next
  case False
  then show ?thesis by (auto simp: backoffSeconds_def Let_def push_bit_eq_mult max_def)
qed

lemma backoffSeconds_mono: "m \<le> n \<Longrightarrow> backoffSeconds m \<le> backoffSeconds n"
proof -
  assume "m \<le> n"
  then have "(2::int) ^ nat (max 1 m) \<le> 2 ^ nat (max 1 n)" by (intro power_increasing) auto
  then show ?thesis by (simp only: backoffSeconds_closed) (rule min.mono, simp_all)
qed

lemma seconds_pos: "0 < n \<Longrightarrow> 0 < seconds n"
  by (simp add: seconds_def)

lemma truncateErr_length: "length (truncateErr err) \<le> 500"
  by (simp add: truncateErr_def Let_def)

text \<open>The life of an outbox row: pending with budget left, published, or dead, never two at once.\<close>

definition outbox_row_inv :: "outbox_row \<Rightarrow> bool" where
  "outbox_row_inv r \<longleftrightarrow> 0 \<le> o_attempts r \<and> o_attempts r \<le> MaxPublishAttempts
     \<and> (o_dead_at r \<noteq> None \<longleftrightarrow> o_attempts r = MaxPublishAttempts)
     \<and> (o_published_at r \<noteq> None \<longrightarrow> o_dead_at r = None)"

definition outbox_inv :: "(int, outbox_row) table \<Rightarrow> bool" where
  "outbox_inv tbl \<longleftrightarrow> pkey tbl \<and> (\<forall>k r. sel tbl k = Some r \<longrightarrow> outbox_row_inv r)"

lemma outbox_row_inv_new: "outbox_row_inv (new_event agg aid ev pl t)"
  by (simp add: outbox_row_inv_def new_event_def MaxPublishAttempts_def)

lemma outbox_row_inv_fail:
  "outbox_row_inv r \<Longrightarrow> pending r \<Longrightarrow>
     outbox_row_inv (fail_row (o_attempts r + 1) msg s (o_attempts r + 1 \<ge> MaxPublishAttempts) t r)"
  by (auto simp: outbox_row_inv_def fail_row_def pending_def)

lemma outbox_row_inv_publish: "outbox_row_inv r \<Longrightarrow> pending r \<Longrightarrow> outbox_row_inv (publish_row t r)"
  by (auto simp: outbox_row_inv_def publish_row_def pending_def)

lemma due_pending: "due t r \<Longrightarrow> pending r"
  by (simp add: due_def pending_def)

section \<open>One batch\<close>

text \<open>What a batch does to the table, as a function of its outcomes: one per claimed event,
  \<open>None\<close> for an acknowledged publish.\<close>

definition fail_event :: "time \<Rightarrow> OutboxEvent \<times> go_error option \<Rightarrow> (int, outbox_row) table \<Rightarrow> (int, outbox_row) table" where
  "fail_event t eo tbl = (case eo of (ev, None) \<Rightarrow> tbl
     | (ev, Some err) \<Rightarrow> let nxt = oe_Attempts ev + 1 in
         upd (oe_ID ev) (fail_row nxt (truncateErr err) (backoffSeconds nxt) (nxt \<ge> MaxPublishAttempts) t) tbl)"

definition acked :: "(OutboxEvent \<times> go_error option) list \<Rightarrow> int list" where
  "acked eos = map (\<lambda>eo. oe_ID (fst eo)) (filter (\<lambda>eo. snd eo = None) eos)"

definition failed :: "(OutboxEvent \<times> go_error option) list \<Rightarrow> nat" where
  "failed eos = length (filter (\<lambda>eo. snd eo \<noteq> None) eos)"

definition died :: "(OutboxEvent \<times> go_error option) list \<Rightarrow> nat" where
  "died eos = length (filter (\<lambda>eo. snd eo \<noteq> None \<and> oe_Attempts (fst eo) + 1 \<ge> MaxPublishAttempts) eos)"

lemma outcome_simps [simp]:
  "acked [] = []" "failed [] = 0" "died [] = 0"
  "acked ((ev, None) # eos) = oe_ID ev # acked eos" "acked ((ev, Some err) # eos) = acked eos"
  "failed ((ev, None) # eos) = failed eos" "failed ((ev, Some err) # eos) = Suc (failed eos)"
  "died ((ev, None) # eos) = died eos"
  "died ((ev, Some err) # eos) = (if oe_Attempts ev + 1 \<ge> MaxPublishAttempts then Suc (died eos) else died eos)"
  by (simp_all add: acked_def failed_def died_def)

lemma fail_event_None [simp]: "fail_event t (ev, None) tbl = tbl"
  by (simp add: fail_event_def)

lemma acked_failed: "length (acked eos) + failed eos = length eos"
  by (induction eos) (auto simp: acked_def failed_def)

lemma markFailed_Inr:
  assumes "run (markFailed k a err) w = (Inr dead, w')"
  shows "view w' = (view w)\<lparr>outbox_events := upd k (fail_row (a + 1) (truncateErr err) (backoffSeconds (a + 1))
          (a + 1 \<ge> MaxPublishAttempts) (txnow w)) (outbox_events (view w))\<rparr>
    \<and> dead = (a + 1 \<ge> MaxPublishAttempts) \<and> base w' = base w \<and> wenv w' = wenv w
    \<and> txnow w' = txnow w \<and> world.more w' = world.more w"
  using assms by (auto simp: markFailed_def Let_def run_bindE_Inr tx_stmt_Inr pg_text_def split: if_splits)

lemma markFailed_tx_only [simp]: "tx_only (markFailed k a err)"
  by (auto simp: markFailed_def Let_def intro!: tx_only_bindE)

text \<open>
  What a batch may ask of the broker: publishing leaves the transaction alone, an acknowledged
  event has reached the broker, and what has reached it stays.
\<close>

locale publisher =
  fixes publish :: "OutboxEvent \<Rightarrow> ('m, unit) tx" and delivered :: "'m world_scheme \<Rightarrow> OutboxEvent \<Rightarrow> bool"
  assumes publish_frame: "run (publish ev) w = (r, w') \<Longrightarrow> base w' = base w \<and> view w' = view w
      \<and> wenv w' = wenv w \<and> txnow w' = txnow w \<and> locks w' = locks w"
    and delivered_more: "world.more w = world.more w' \<Longrightarrow> delivered w ev = delivered w' ev"
    and publish_acked: "run (publish ev) w = (Inr (), w') \<Longrightarrow> delivered w' ev"
    and publish_keeps: "run (publish ev) w = (r, w') \<Longrightarrow> delivered w ev' \<Longrightarrow> delivered w' ev'"

context publisher
begin

lemma loop_frame:
  "run (publish_loop publish res ids evs) w = (r, w') \<Longrightarrow> base w' = base w \<and> wenv w' = wenv w \<and> txnow w' = txnow w"
proof (induction evs arbitrary: res ids w)
  case Nil
  then show ?case by simp
next
  case (Cons ev evs)
  obtain p w1 where p: "run (publish ev) w = (p, w1)" by (cases "run (publish ev) w")
  note f = publish_frame [OF p]
  show ?case
  proof (cases p)
    case (Inr u)
    with Cons p f show ?thesis by (simp add: run_bind)
  next
    case (Inl err)
    obtain m w2 where m: "run (markFailed (oe_ID ev) (oe_Attempts ev) err) w1 = (m, w2)"
      by (cases "run (markFailed (oe_ID ev) (oe_Attempts ev) err) w1")
    note g = tx_onlyD [OF markFailed_tx_only m]
    show ?thesis
    proof (cases m)
      case l: (Inl e)
      with Inl p m f g Cons.prems show ?thesis by (simp add: run_bind run_bindE)
    next
      case (Inr dead)
      with Inl p m f g Cons.prems show ?thesis
        by (auto simp: run_bind run_bindE dest!: Cons.IH)
    qed
  qed
qed

lemma loop_keeps:
  "run (publish_loop publish res ids evs) w = (r, w') \<Longrightarrow> delivered w ev' \<Longrightarrow> delivered w' ev'"
proof (induction evs arbitrary: res ids w)
  case Nil
  then show ?case by simp
next
  case (Cons ev evs)
  obtain p w1 where p: "run (publish ev) w = (p, w1)" by (cases "run (publish ev) w")
  note d = publish_keeps [OF p Cons.prems(2)]
  show ?case
  proof (cases p)
    case (Inr u)
    with Cons p d show ?thesis by (simp add: run_bind)
  next
    case (Inl err)
    obtain m w2 where m: "run (markFailed (oe_ID ev) (oe_Attempts ev) err) w1 = (m, w2)"
      by (cases "run (markFailed (oe_ID ev) (oe_Attempts ev) err) w1")
    note g = tx_onlyD [OF markFailed_tx_only m]
    show ?thesis
    proof (cases m)
      case l: (Inl e)
      with Inl p m d Cons.prems show ?thesis using delivered_more [of w1 w2 ev'] g
        by (simp add: run_bind run_bindE)
    next
      case (Inr dead)
      with Inl p m g Cons.prems(1) have "run (publish_loop publish
          (res\<lparr>pr_Failed := Suc (pr_Failed res),
               pr_DeadLettered := (if dead then Suc (pr_DeadLettered res) else pr_DeadLettered res)\<rparr>) ids evs) w2 = (r, w')"
        by (simp add: run_bind run_bindE)
      moreover from d g have "delivered w2 ev'" using delivered_more [of w1 w2 ev'] by simp
      ultimately show ?thesis by (rule Cons.IH)
    qed
  qed
qed

text \<open>A loop that ends went through every event, whatever the outcomes before it.\<close>

lemma loop_Inr:
  assumes "run (publish_loop publish res ids evs) w = (Inr (res', ids'), w')"
  shows "\<exists>eos. map fst eos = evs \<and> ids' = ids @ acked eos
    \<and> view w' = (view w)\<lparr>outbox_events := fold (fail_event (txnow w)) eos (outbox_events (view w))\<rparr>
    \<and> res' = res\<lparr>pr_Failed := pr_Failed res + failed eos, pr_DeadLettered := pr_DeadLettered res + died eos\<rparr>
    \<and> (\<forall>ev. (ev, None) \<in> set eos \<longrightarrow> delivered w' ev)"
  using assms
proof (induction evs arbitrary: res ids w)
  case Nil
  then show ?case by (intro exI [of _ "[]"]) simp
next
  case (Cons ev evs)
  obtain p w1 where p: "run (publish ev) w = (p, w1)" by (cases "run (publish ev) w")
  note f = publish_frame [OF p]
  show ?case
  proof (cases p)
    case (Inr u)
    with Cons.prems p have r: "run (publish_loop publish res (ids @ [oe_ID ev]) evs) w1 = (Inr (res', ids'), w')"
      by (simp add: run_bind)
    from Inr p have "delivered w1 ev" using publish_acked [of ev w w1] by simp
    from loop_keeps [OF r this] have d: "delivered w' ev" .
    from Cons.IH [OF r] obtain eos where "map fst eos = evs" "ids' = (ids @ [oe_ID ev]) @ acked eos"
      "view w' = (view w1)\<lparr>outbox_events := fold (fail_event (txnow w1)) eos (outbox_events (view w1))\<rparr>"
      "res' = res\<lparr>pr_Failed := pr_Failed res + failed eos, pr_DeadLettered := pr_DeadLettered res + died eos\<rparr>"
      "\<forall>ev. (ev, None) \<in> set eos \<longrightarrow> delivered w' ev" by blast
    with f d show ?thesis by (intro exI [of _ "(ev, None) # eos"]) auto
  next
    case (Inl err)
    with Cons.prems p obtain dead w2 where
      m: "run (markFailed (oe_ID ev) (oe_Attempts ev) err) w1 = (Inr dead, w2)" and
      r: "run (publish_loop publish
          (res\<lparr>pr_Failed := Suc (pr_Failed res),
               pr_DeadLettered := (if dead then Suc (pr_DeadLettered res) else pr_DeadLettered res)\<rparr>)
          ids evs) w2 = (Inr (res', ids'), w')"
      by (auto simp: run_bind run_bindE_Inr)
    from markFailed_Inr [OF m] have v: "view w2 = (view w)\<lparr>outbox_events :=
        fail_event (txnow w) (ev, Some err) (outbox_events (view w))\<rparr>" and
      t: "txnow w2 = txnow w" and dd: "dead = (oe_Attempts ev + 1 \<ge> MaxPublishAttempts)"
      using f by (simp_all add: fail_event_def Let_def)
    from Cons.IH [OF r] obtain eos where "map fst eos = evs" "ids' = ids @ acked eos"
      "view w' = (view w2)\<lparr>outbox_events := fold (fail_event (txnow w2)) eos (outbox_events (view w2))\<rparr>"
      "res' = (res\<lparr>pr_Failed := Suc (pr_Failed res),
          pr_DeadLettered := (if dead then Suc (pr_DeadLettered res) else pr_DeadLettered res)\<rparr>)
         \<lparr>pr_Failed := Suc (pr_Failed res) + failed eos,
          pr_DeadLettered := (if dead then Suc (pr_DeadLettered res) else pr_DeadLettered res) + died eos\<rparr>"
      "\<forall>ev. (ev, None) \<in> set eos \<longrightarrow> delivered w' ev" by auto
    with v t dd show ?thesis by (intro exI [of _ "(ev, Some err) # eos"]) auto
  qed
qed

end

definition settle :: "time \<Rightarrow> (OutboxEvent \<times> go_error option) list \<Rightarrow> (int, outbox_row) table \<Rightarrow> (int, outbox_row) table" where
  "settle t eos tbl = upd_all (\<lambda>k. k \<in> set (acked eos)) (publish_row t) (fold (fail_event t) eos tbl)"

lemma sel_fail_event:
  "sel (fail_event t (ev, Some err) tbl) k = (if k = oe_ID ev then map_option (fail_row (oe_Attempts ev + 1)
     (truncateErr err) (backoffSeconds (oe_Attempts ev + 1)) (oe_Attempts ev + 1 \<ge> MaxPublishAttempts) t) (sel tbl k)
     else sel tbl k)"
  by (simp add: fail_event_def Let_def sel_upd)

lemma sel_fail_event_other: "oe_ID (fst eo) \<noteq> k \<Longrightarrow> sel (fail_event t eo tbl) k = sel tbl k"
  by (auto simp: fail_event_def Let_def split: prod.splits option.splits)

lemma sel_fold_fail_other:
  "k \<notin> oe_ID ` fst ` set eos \<Longrightarrow> sel (fold (fail_event t) eos tbl) k = sel tbl k"
  by (induction eos arbitrary: tbl) (auto simp: sel_fail_event_other)

lemma sel_fold_fail:
  assumes "distinct (map (\<lambda>eo. oe_ID (fst eo)) eos)" and "eo \<in> set eos"
  shows "sel (fold (fail_event t) eos tbl) (oe_ID (fst eo)) = sel (fail_event t eo tbl) (oe_ID (fst eo))"
  using assms
proof (induction eos arbitrary: tbl)
  case Nil
  then show ?case by simp
next
  case (Cons e1 eos)
  show ?case
  proof (cases "eo = e1")
    case True
    with Cons.prems have "oe_ID (fst eo) \<notin> oe_ID ` fst ` set eos" by (auto simp: image_iff)
    with True show ?thesis by (simp add: sel_fold_fail_other)
  next
    case False
    with Cons.prems have "oe_ID (fst e1) \<noteq> oe_ID (fst eo)" and "eo \<in> set eos" by (auto simp: image_iff)
    with Cons.prems Cons.IH [of "fail_event t e1 tbl"]
    have "sel (fold (fail_event t) (e1 # eos) tbl) (oe_ID (fst eo))
        = sel (fail_event t eo (fail_event t e1 tbl)) (oe_ID (fst eo))" by simp
    moreover obtain ev x where eo: "eo = (ev, x)" by (cases eo)
    ultimately show ?thesis using \<open>oe_ID (fst e1) \<noteq> oe_ID (fst eo)\<close>
      by (cases x) (simp_all add: sel_fail_event sel_fail_event_other)
  qed
qed

lemma in_acked: "k \<in> set (acked eos) \<longleftrightarrow> (\<exists>ev. (ev, None) \<in> set eos \<and> oe_ID ev = k)"
  by (force simp: acked_def)

lemma sel_settle_other: "k \<notin> oe_ID ` fst ` set eos \<Longrightarrow> sel (settle t eos tbl) k = sel tbl k"
  by (force simp: settle_def sel_upd_all sel_fold_fail_other in_acked)

lemma unique_outcome:
  "distinct (map (\<lambda>eo. oe_ID (fst eo)) eos) \<Longrightarrow> (ev, x) \<in> set eos \<Longrightarrow> (ev', y) \<in> set eos
     \<Longrightarrow> oe_ID ev = oe_ID ev' \<Longrightarrow> x = y"
  using inj_onD [of "\<lambda>eo. oe_ID (fst eo)" "set eos" "(ev, x)" "(ev', y)"] by (simp add: distinct_map)

lemma sel_settle_acked:
  assumes "distinct (map (\<lambda>eo. oe_ID (fst eo)) eos)" and "(ev, None) \<in> set eos"
  shows "sel (settle t eos tbl) (oe_ID ev) = map_option (publish_row t) (sel tbl (oe_ID ev))"
  using sel_fold_fail [OF assms, of t tbl] assms(2) by (auto simp: settle_def sel_upd_all in_acked)

lemma sel_settle_failed:
  assumes "distinct (map (\<lambda>eo. oe_ID (fst eo)) eos)" and "(ev, Some err) \<in> set eos"
  shows "sel (settle t eos tbl) (oe_ID ev) = map_option (fail_row (oe_Attempts ev + 1) (truncateErr err)
     (backoffSeconds (oe_Attempts ev + 1)) (oe_Attempts ev + 1 \<ge> MaxPublishAttempts) t) (sel tbl (oe_ID ev))"
  using sel_fold_fail [OF assms, of t tbl] unique_outcome [OF assms(1,2)]
  by (force simp: settle_def sel_upd_all in_acked sel_fail_event)

lemma pkey_settle [simp]: "pkey (settle t eos tbl) = pkey tbl"
proof -
  have "pkey (fold (fail_event t) eos tbl) = pkey tbl"
    by (induction eos arbitrary: tbl)
      (auto simp: fail_event_def Let_def split: prod.splits option.splits)
  then show ?thesis by (simp add: settle_def)
qed

text \<open>The claim answers due rows of the table, each once.\<close>

lemma claim_rows_in:
  assumes "claim_rows limit e n t d = Inr rows" and "(k, r) \<in> set rows"
  shows "(k, r) \<in> set (outbox_events d) \<and> due t r \<and> \<not> others_locked e n (RowOutbox k)"
  using assms set_page by (fastforce simp: claim_rows_def pg_page_def split: if_splits)

lemma distinct_page: "distinct (map f xs) \<Longrightarrow> distinct (map f (page l o' xs))"
  by (simp add: page_def take_map [symmetric] drop_map [symmetric])

lemma distinct_map_sort_key: "distinct (map f (sort_key g xs)) = distinct (map f xs)"
  by (simp add: distinct_map inj_on_def)

lemma claim_rows_distinct:
  assumes "claim_rows limit e n t d = Inr rows" and "pkey (outbox_events d)"
  shows "distinct (map fst rows)"
proof -
  have "distinct (map fst (sort_key fst (filter (\<lambda>(k, r). due t r \<and> \<not> others_locked e n (RowOutbox k)) (outbox_events d))))"
    using assms(2) by (simp add: distinct_map_sort_key pkey_def distinct_map_filter)
  with assms(1) show ?thesis by (auto simp: claim_rows_def pg_page_def distinct_page split: if_splits)
qed

lemma claim_Inr:
  "run (tx_stmt (claim_stmt limit)) w = (Inr evs, w1) \<Longrightarrow>
    \<exists>rows. claim_rows limit (wenv w) (pc w) (txnow w) (view w) = Inr rows \<and> view w1 = view w
      \<and> txnow w1 = txnow w \<and> evs = map scanOutbox rows"
  by (auto simp: tx_stmt_Inr claim_stmt_def split: sum.splits)

context publisher
begin

lemma body_Inr:
  assumes "run (publish_body limit publish) w = (Inr res, w')"
  shows "\<exists>rows eos. claim_rows limit (wenv w) (pc w) (txnow w) (view w) = Inr rows
    \<and> map fst eos = map scanOutbox rows
    \<and> view w' = (view w)\<lparr>outbox_events := settle (txnow w) eos (outbox_events (view w))\<rparr>
    \<and> res = \<lparr>pr_Claimed = length rows, pr_Published = length (acked eos), pr_Failed = failed eos,
             pr_DeadLettered = died eos\<rparr>
    \<and> (\<forall>ev. (ev, None) \<in> set eos \<longrightarrow> delivered w' ev)"
proof -
  from assms obtain evs w1 res1 ids w2 where
    st: "run (tx_stmt (claim_stmt limit)) w = (Inr evs, w1)" and
    l0: "run (publish_loop publish (no_result\<lparr>pr_Claimed := length evs\<rparr>) [] evs) w1 = (Inr (res1, ids), w2)" and
    m: "run (if length ids > 0 then bindE (mark_published ids) (\<lambda>_. ok (res1\<lparr>pr_Published := length ids\<rparr>))
          else ok res1) w2 = (Inr res, w')"
    unfolding publish_body_def run_bindE_Inr by (auto simp del: length_greater_0_conv)
  from claim_Inr [OF st] obtain rows where
    c: "claim_rows limit (wenv w) (pc w) (txnow w) (view w) = Inr rows" and
    w1: "view w1 = view w" "txnow w1 = txnow w" and evs: "evs = map scanOutbox rows" by blast
  have l: "run (publish_loop publish (no_result\<lparr>pr_Claimed := length rows\<rparr>) [] (map scanOutbox rows)) w1
          = (Inr (res1, ids), w2)" using l0 evs by simp
  from loop_frame [OF l] have t: "txnow w2 = txnow w" using w1 by simp
  from loop_Inr [OF l] obtain eos where e: "map fst eos = map scanOutbox rows" "ids = acked eos"
    "view w2 = (view w1)\<lparr>outbox_events := fold (fail_event (txnow w1)) eos (outbox_events (view w1))\<rparr>"
    "res1 = \<lparr>pr_Claimed = length rows, pr_Published = 0, pr_Failed = failed eos, pr_DeadLettered = died eos\<rparr>"
    "\<forall>ev. (ev, None) \<in> set eos \<longrightarrow> delivered w2 ev"
    by (auto simp: no_result_def)
  have "view w' = (view w)\<lparr>outbox_events := settle (txnow w) eos (outbox_events (view w))\<rparr>
      \<and> res = res1\<lparr>pr_Published := length ids\<rparr> \<and> world.more w' = world.more w2"
    using m e t w1 by (auto simp: settle_def mark_published_def run_bindE_Inr tx_stmt_Inr split: if_splits)
  with c e show ?thesis using delivered_more [of w' w2] by (intro exI conjI) auto
qed

lemma body_frame:
  assumes "run (publish_body limit publish) w = (r, w')"
  shows "base w' = base w \<and> wenv w' = wenv w"
proof -
  obtain c w1 where c: "run (tx_stmt (claim_stmt limit)) w = (c, w1)"
    by (cases "run (tx_stmt (claim_stmt limit)) w")
  note f1 = tx_onlyD [OF tx_only_tx_stmt c]
  show ?thesis
  proof (cases c)
    case (Inl e)
    with assms c f1 show ?thesis by (simp add: publish_body_def run_bindE)
  next
    case (Inr evs)
    obtain l w2 where l: "run (publish_loop publish (no_result\<lparr>pr_Claimed := length evs\<rparr>) [] evs) w1 = (l, w2)"
      by (cases "run (publish_loop publish (no_result\<lparr>pr_Claimed := length evs\<rparr>) [] evs) w1")
    note f2 = loop_frame [OF l]
    have "tx_only (if length ids > 0 then bindE (mark_published ids) (\<lambda>_. ok (res1\<lparr>pr_Published := length ids\<rparr>))
          else ok res1)" for ids and res1 :: PublishResult
      by (auto simp: mark_published_def intro!: tx_only_bindE)
    note f3 = tx_onlyD [OF this]
    from assms c Inr l f1 f2 show ?thesis
      by (auto simp: publish_body_def run_bindE simp del: length_greater_0_conv
          split: sum.splits dest!: f3 simp: prod.case_eq_if)
  qed
qed

end

end
