(* ===== verification/Victims.thy ===== *)
theory Victims
  imports Scoring Outbox
begin

text \<open>
  The victim module (\<^verbatim>\<open>internal/victim\<close>): the register of people who need shelter, and the
  assignment transaction, which locks the victim, asks the shelter module to admit one person,
  moves the victim and records the event. \<open>victim_deps\<close> gathers the two interfaces it calls; it is
  interpreted on what the server wires in.
\<close>

section \<open>The model\<close>

record Victim =
  vi_ID :: string
  vi_Name :: string
  vi_Status :: string
  vi_Notes :: string
  vi_ShelterID :: "string option"
  vi_Latitude :: float64
  vi_Longitude :: float64
  vi_CreatedAt :: time
  vi_UpdatedAt :: time

definition scanVictim :: "uuid \<times> victim_row \<Rightarrow> Victim" where
  "scanVictim kr = (case kr of (k, r) \<Rightarrow>
     \<lparr>vi_ID = k, vi_Name = v_name r, vi_Status = v_status r, vi_Notes = v_notes r,
      vi_ShelterID = v_shelter_id r, vi_Latitude = v_lat r, vi_Longitude = v_lng r,
      vi_CreatedAt = v_created_at r, vi_UpdatedAt = v_updated_at r\<rparr>)"

lemma scanVictim_simps [simp]:
  "vi_ID (scanVictim (k, r)) = k" "vi_Status (scanVictim (k, r)) = v_status r"
  "vi_ShelterID (scanVictim (k, r)) = v_shelter_id r"
  by (simp_all add: scanVictim_def)

section \<open>The repository\<close>

record 'm VictimRepository =
  vr_shelters :: "'m ShelterAllocator"
  vr_events :: "'m EventWriter"

definition VictimRepository_Create :: "Victim \<Rightarrow> ('m, Victim) tx" where
  "VictimRepository_Create v = pool_stmt (pg_text [vi_Name v, vi_Notes v] (\<lambda>e n t d.
     let k = gen_uuid e n;
         r = \<lparr>v_name = vi_Name v, v_status = VictimRegistered, v_notes = vi_Notes v, v_shelter_id = None,
              v_lat = vi_Latitude v, v_lng = vi_Longitude v, v_created_at = t, v_updated_at = t\<rparr>
     in if sel (victims d) k \<noteq> None then Inl unique_violation
        else Inr (v\<lparr>vi_ID := k, vi_Status := VictimRegistered, vi_ShelterID := None, vi_CreatedAt := t,
                    vi_UpdatedAt := t\<rparr>, d\<lparr>victims := ins k r (victims d)\<rparr>, {RowVictim k})))"

definition VictimRepository_GetByID :: "string \<Rightarrow> ('m, Victim) tx" where
  "VictimRepository_GetByID x = pool_stmt (cast_uuid x (\<lambda>k. reading (\<lambda>e d.
     map_sum id (\<lambda>r. scanVictim (k, r)) (one_row (sel (victims d) k)))))"

text \<open>The scope is a filter of the query; an empty scope is no filter.\<close>

definition VictimRepository_List :: "string \<Rightarrow> string \<Rightarrow> int \<Rightarrow> int \<Rightarrow> ('m, Victim list) tx" where
  "VictimRepository_List status shelterScope limit offset =
     pool_stmt (pg_text [status, shelterScope] (reading (\<lambda>e d.
       if shelterScope \<noteq> '''' \<and> uuid_cast e shelterScope = None then Inl invalid_text
       else map_sum id (map scanVictim) (pg_page limit offset
         (sort_key (\<lambda>(k, r). - v_created_at r)
           (filter (\<lambda>(k, r). (status = '''' \<or> v_status r = status)
               \<and> (shelterScope = '''' \<or> v_shelter_id r \<noteq> None \<and> v_shelter_id r = uuid_cast e shelterScope))
             (victims d)))))))"

definition place :: "uuid \<Rightarrow> time \<Rightarrow> victim_row \<Rightarrow> victim_row" where
  "place s t r = r\<lparr>v_shelter_id := Some s, v_status := VictimSheltered, v_updated_at := t\<rparr>"

definition assigned_payload :: "Victim \<Rightarrow> Shelter \<Rightarrow> payload" where
  "assigned_payload v sh = [(''victimId'', JStr (vi_ID v)), (''shelterId'', JStr (sh_ID sh)),
     (''shelterOccupancy'', JInt (sh_Occupancy sh))]"

definition lock_victim :: "string \<Rightarrow> ('m, string) tx" where
  "lock_victim victimID = bind
     (tx_stmt (cast_uuid victimID (\<lambda>k e n t d. case sel (victims d) k of
        None \<Rightarrow> Inl ErrNoRows | Some r \<Rightarrow> Inr (v_status r, d, {RowVictim k}))))
     (\<lambda>res. case res of
        Inl err \<Rightarrow> if errors_Is err ErrNoRows then throw (E Victim_ErrVictimNotFound) else throw err
      | Inr vStatus \<Rightarrow> ok vStatus)"

definition place_victim :: "string \<Rightarrow> string \<Rightarrow> ('m, Victim) tx" where
  "place_victim shelterID victimID = tx_stmt (cast_uuid shelterID (\<lambda>s. cast_uuid victimID (\<lambda>k e n t d.
     case sel (victims d) k of
       None \<Rightarrow> Inl ErrNoRows
     | Some r \<Rightarrow> if sel (shelters d) s = None then Inl foreign_key_violation
         else Inr (scanVictim (k, place s t r), d\<lparr>victims := upd k (place s t) (victims d)\<rparr>, {RowVictim k}))))"

definition assign_body :: "'m VictimRepository \<Rightarrow> string \<Rightarrow> string \<Rightarrow> ('m, Victim \<times> Shelter) tx" where
  "assign_body R victimID shelterID = bindE (lock_victim victimID) (\<lambda>vStatus.
     if vStatus \<noteq> VictimRegistered then throw (E Victim_ErrVictimAlreadyAssigned)
     else bindE (AdmitTx (vr_shelters R) shelterID) (\<lambda>_.
       bindE (place_victim shelterID victimID) (\<lambda>v.
         bindE (GetByIDTx (vr_shelters R) shelterID) (\<lambda>sh.
           bindE (WriteTx (vr_events R) AggregateVictim (vi_ID v) EventVictimAssigned (assigned_payload v sh))
             (\<lambda>_. ok (v, sh))))))"

definition VictimRepository_Assign :: "'m VictimRepository \<Rightarrow> string \<Rightarrow> string \<Rightarrow> ('m, Victim \<times> Shelter) tx" where
  "VictimRepository_Assign R victimID shelterID = in_tx (assign_body R victimID shelterID)"

section \<open>What an assignment is\<close>

definition admitted :: "uuid \<Rightarrow> uuid \<Rightarrow> int \<Rightarrow> victim_row \<Rightarrow> shelter_row \<Rightarrow> time \<Rightarrow> db \<Rightarrow> db" where
  "admitted k s ek vr sr t d = add_event ek
     (new_event AggregateVictim k EventVictimAssigned
        (assigned_payload (scanVictim (k, place s t vr)) (scanShelter (s, admit_row t sr))) t)
     (d\<lparr>shelters := upd s (admit_row t) (shelters d), victims := upd k (place s t) (victims d)\<rparr>)"

definition assigns :: "env \<Rightarrow> time \<Rightarrow> db \<Rightarrow> string \<Rightarrow> string \<Rightarrow> Victim \<times> Shelter \<Rightarrow> db \<Rightarrow> bool" where
  "assigns e t d x y res d' \<longleftrightarrow> (\<exists>k s ek vr sr. uuid_cast e x = Some k \<and> uuid_cast e y = Some s
     \<and> sel (victims d) k = Some vr \<and> v_status vr = VictimRegistered
     \<and> sel (shelters d) s = Some sr \<and> has_room sr \<and> sel (outbox_events d) ek = None
     \<and> res = (scanVictim (k, place s t vr), scanShelter (s, admit_row t sr))
     \<and> d' = admitted k s ek vr sr t d)"

lemma victim_tx_only [simp]: "tx_only (lock_victim x)" "tx_only (place_victim y x)"
  by (auto simp: lock_victim_def place_victim_def intro!: tx_only_bind split: sum.split)

lemma lock_victim_Inr:
  assumes "run (lock_victim x) w = (Inr st, w1)"
  shows "\<exists>k vr. uuid_cast (wenv w) x = Some k \<and> sel (victims (view w)) k = Some vr \<and> st = v_status vr
    \<and> view w1 = view w \<and> wenv w1 = wenv w \<and> txnow w1 = txnow w"
  using assms by (auto simp: lock_victim_def run_bind tx_stmt_Inr cast_uuid_Inr
      split: prod.splits sum.splits if_splits option.splits)

lemma place_victim_Inr:
  assumes "run (place_victim y x) w = (Inr v, w')"
  shows "\<exists>k s vr. uuid_cast (wenv w) x = Some k \<and> uuid_cast (wenv w) y = Some s
    \<and> sel (victims (view w)) k = Some vr \<and> sel (shelters (view w)) s \<noteq> None
    \<and> v = scanVictim (k, place s (txnow w) vr)
    \<and> view w' = (view w)\<lparr>victims := upd k (place s (txnow w)) (victims (view w))\<rparr>"
  using assms by (auto simp: place_victim_def tx_stmt_Inr cast_uuid_Inr split: option.splits if_splits)

locale victim_deps =
  alloc: shelter_allocator "vr_shelters R" + writer: event_writer "vr_events R"
  for R :: "'m VictimRepository"
begin

lemma assign_body_tx_only [simp]: "tx_only (assign_body R x y)"
  unfolding assign_body_def by (auto intro!: tx_only_bindE)

lemma assign_body_Inr:
  assumes "run (assign_body R x y) w = (Inr res, w')" and "uuid_ok (wenv w)"
  shows "assigns (wenv w) (txnow w) (view w) x y res (view w')"
proof -
  let ?e = "wenv w" and ?t = "txnow w"
  from assms(1) obtain w1 w2 w3 w4 v sh where
    l: "run (lock_victim x) w = (Inr VictimRegistered, w1)"
    and a: "run (AdmitTx (vr_shelters R) y) w1 = (Inr (), w2)"
    and p: "run (place_victim y x) w2 = (Inr v, w3)"
    and g: "run (GetByIDTx (vr_shelters R) y) w3 = (Inr sh, w4)"
    and e: "run (WriteTx (vr_events R) AggregateVictim (vi_ID v) EventVictimAssigned (assigned_payload v sh)) w4
        = (Inr (), w')"
    and res: "res = (v, sh)"
    unfolding assign_body_def by (auto simp: run_bindE_Inr run_guard)
  from lock_victim_Inr [OF l] obtain k vr where k: "uuid_cast ?e x = Some k" "sel (victims (view w)) k = Some vr"
    "v_status vr = VictimRegistered" and w1: "view w1 = view w" "wenv w1 = ?e" "txnow w1 = ?t" by auto
  from tx_onlyD [OF alloc.shelter_tx_only(1) a] w1 have f2: "wenv w2 = ?e" "txnow w2 = ?t" by simp_all
  from tx_onlyD [OF victim_tx_only(2) p] f2 have f3: "wenv w3 = ?e" "txnow w3 = ?t" by simp_all
  from tx_onlyD [OF alloc.shelter_tx_only(2) g] f3 have f4: "wenv w4 = ?e" "txnow w4 = ?t" by simp_all
  from alloc.admit_ok [OF a] w1 obtain s sr where s: "uuid_cast ?e y = Some s"
    "sel (shelters (view w)) s = Some sr" "has_room sr"
    and v2: "view w2 = (view w)\<lparr>shelters := upd s (admit_row ?t) (shelters (view w))\<rparr>" by auto
  from place_victim_Inr [OF p] k s f2 v2 have v: "v = scanVictim (k, place s ?t vr)" and
    v3: "view w3 = (view w2)\<lparr>victims := upd k (place s ?t) (victims (view w))\<rparr>" by auto
  from alloc.get_ok [OF g] f3 s v2 v3 have sh: "sh = scanShelter (s, admit_row ?t sr)" and v4: "view w4 = view w3"
    by (auto simp: reads_only_def)
  have ck: "uuid_cast ?e k = Some k" using assms(2) k(1) by (auto simp: uuid_ok_def)
  from writer.write_ok [OF e] f4 v ck v4 v3 v2 obtain ek where
    "sel (outbox_events (view w)) ek = None"
    "view w' = add_event ek (new_event AggregateVictim k EventVictimAssigned (assigned_payload v sh) ?t) (view w3)"
    by (auto simp: add_event_def)
  with k s v sh v2 v3 res show ?thesis
    unfolding assigns_def admitted_def by (intro exI [of _ k] exI [of _ s] exI [of _ ek]) auto
qed

lemma Assign_all_or_nothing:
  assumes "run (VictimRepository_Assign R x y) w = (res, w')" and "uuid_ok (wenv w)"
  shows "all_or_nothing (assigns (wenv w) (clock (wenv w) (pc w)) (base w) x y) w res w'"
  by (rule in_tx_all_or_nothing [OF assms(1) [unfolded VictimRepository_Assign_def] assign_body_tx_only])
    (use assign_body_Inr assms(2) in force)

end

definition server_victims :: "'m VictimRepository" where
  "server_victims = \<lparr>vr_shelters = ShelterRepository_allocator, vr_events = OutboxRepository_writer\<rparr>"

interpretation server_v: victim_deps server_victims
  unfolding server_victims_def victim_deps_def
  by (simp add: shelter_repo.shelter_allocator_axioms outbox_repo.event_writer_axioms)

section \<open>The service\<close>

record CreateVictimInput =
  cvi_Name :: string
  cvi_Notes :: string
  cvi_Latitude :: float64
  cvi_Longitude :: float64

definition VictimService_Create :: "CreateVictimInput \<Rightarrow> ('m, Victim) tx" where
  "VictimService_Create i = (case ValidateLatLng (cvi_Latitude i) (cvi_Longitude i) of
     Inl err \<Rightarrow> throw err
   | Inr _ \<Rightarrow> bind
       (VictimRepository_Create \<lparr>vi_ID = '''', vi_Name = cvi_Name i, vi_Status = '''', vi_Notes = cvi_Notes i,
          vi_ShelterID = None, vi_Latitude = cvi_Latitude i, vi_Longitude = cvi_Longitude i,
          vi_CreatedAt = 0, vi_UpdatedAt = 0\<rparr>)
       (\<lambda>res. case res of
          Inl err \<Rightarrow> throw (Wrapped (''create victim: '' @ err_Error err) err)
        | Inr v \<Rightarrow> ok v))"

definition VictimService_GetByID :: "string \<Rightarrow> ('m, Victim) tx" where
  "VictimService_GetByID x = bind (VictimRepository_GetByID x) (\<lambda>res. case res of
     Inl err \<Rightarrow> if errors_Is err ErrNoRows then throw (E Victim_ErrVictimNotFound) else throw err
   | Inr v \<Rightarrow> ok v)"

definition VictimService_List :: "string \<Rightarrow> string \<Rightarrow> int \<Rightarrow> int \<Rightarrow> ('m, Victim list) tx" where
  "VictimService_List status shelterScope limit offset =
     VictimRepository_List status shelterScope limit offset"

definition rank_shelters :: "Shelter list \<Rightarrow> ScoredShelter list" where
  "rank_shelters shs = sort_SliceStable (\<lambda>a b. f_gt (ss_Score a) (ss_Score b))
     (map (\<lambda>sh. case ScoreShelter sh of (sc, bd) \<Rightarrow> \<lparr>ss_Shelter = sh, ss_Score = sc, ss_Breakdown = bd\<rparr>) shs)"

definition VictimService_NearestShelters :: "string \<Rightarrow> int \<Rightarrow> ('m, Victim \<times> ScoredShelter list) tx" where
  "VictimService_NearestShelters victimID limit = bind (VictimRepository_GetByID victimID) (\<lambda>res. case res of
     Inl err \<Rightarrow> if errors_Is err ErrNoRows then throw (E Victim_ErrVictimNotFound) else throw err
   | Inr v \<Rightarrow>
       let limit = (if limit \<le> 0 \<or> limit > 50 then 5 else limit)
       in bindE (ShelterRepository_FindNearestOpen (vi_Latitude v) (vi_Longitude v) limit)
            (\<lambda>shs. ok (v, rank_shelters shs)))"

definition VictimService_Assign ::
    "(shelter_json, 'm) redis_ext VictimRepository \<Rightarrow> string \<Rightarrow> string \<Rightarrow> (shelter_json, 'm, go_error + Victim \<times> Shelter) cached" where
  "VictimService_Assign R victimID shelterID = bindE (VictimRepository_Assign R victimID shelterID) (\<lambda>vs.
     bind (ShelterCache_Invalidate shelterID) (\<lambda>_. ok vs))"

section \<open>The handlers\<close>

record CreateVictimRequest =
  cvr_Name :: string
  cvr_Notes :: string
  cvr_Latitude :: float64
  cvr_Longitude :: float64

definition VictimHandler_Create ::
    "go_error + CreateVictimRequest \<Rightarrow> ('m world_scheme, Victim response) script" where
  "VictimHandler_Create body = (case body of
     Inl err \<Rightarrow> Done (common_Error 400 (err_Error err) ''VALIDATION_ERROR'')
   | Inr req \<Rightarrow> respond
       (VictimService_Create \<lparr>cvi_Name = cvr_Name req, cvi_Notes = cvr_Notes req,
          cvi_Latitude = cvr_Latitude req, cvi_Longitude = cvr_Longitude req\<rparr>)
       (\<lambda>err. if errors_Is err (E Geo_ErrInvalidCoordinates)
              then common_Error 400 (err_Error err) ''VALIDATION_ERROR''
              else common_Error 500 ''could not register victim'' ''INTERNAL_ERROR'')
       (\<lambda>v. common_Success 201 ''victim registered'' v))"

definition VictimHandler_List :: "Actor \<Rightarrow> query \<Rightarrow> ('m world_scheme, Victim list response) script" where
  "VictimHandler_List actor q =
     (let scope = (if Actor_Is actor [RoleShelterManager] then act_ShelterID actor else '''')
      in respond
        (VictimService_List (q ''status'') scope
           (ClampInt (q ''limit'') 50 1 200) (ClampInt (q ''offset'') 0 0 1000000))
        (\<lambda>err. common_Error 500 ''could not list victims'' ''INTERNAL_ERROR'')
        (\<lambda>vs. common_Success 200 ''victims'' vs))"

definition VictimHandler_GetByID :: "Actor \<Rightarrow> string \<Rightarrow> ('m world_scheme, Victim response) script" where
  "VictimHandler_GetByID actor x = respond (VictimService_GetByID x)
     (\<lambda>err. if errors_Is err (E Victim_ErrVictimNotFound)
            then common_Error 404 ''victim not found'' ''NOT_FOUND''
            else common_Error 500 ''could not fetch victim'' ''INTERNAL_ERROR'')
     (\<lambda>v. if Actor_Is actor [RoleShelterManager]
              \<and> (vi_ShelterID v = None \<or> vi_ShelterID v \<noteq> Some (act_ShelterID actor))
          then common_Error 404 ''victim not found'' ''NOT_FOUND''
          else common_Success 200 ''victim'' v)"

definition VictimHandler_NearestShelters ::
    "string \<Rightarrow> query \<Rightarrow> ('m world_scheme, (Victim \<times> ScoredShelter list) response) script" where
  "VictimHandler_NearestShelters x q = respond
     (VictimService_NearestShelters x (ClampInt (q ''limit'') 5 1 50))
     (\<lambda>err. if errors_Is err (E Victim_ErrVictimNotFound)
            then common_Error 404 ''victim not found'' ''NOT_FOUND''
            else common_Error 500 ''could not fetch shelters'' ''INTERNAL_ERROR'')
     (\<lambda>vs. common_Success 200 ''ranked open shelters'' vs)"

definition VictimHandler_Assign :: "(shelter_json, 'm) redis_ext VictimRepository \<Rightarrow> string \<Rightarrow> go_error + string
    \<Rightarrow> (shelter_json, 'm, (Victim \<times> Shelter) response) cached" where
  "VictimHandler_Assign R x body = (case body of
     Inl err \<Rightarrow> Done (common_Error 400 ''shelterId is required'' ''VALIDATION_ERROR'')
   | Inr shelterID \<Rightarrow> respond (VictimService_Assign R x shelterID)
       (\<lambda>err. if errors_Is err (E Victim_ErrVictimNotFound)
              then common_Error 404 ''victim not found'' ''NOT_FOUND''
              else if errors_Is err (E Shelter_ErrShelterNotFound)
              then common_Error 404 ''shelter not found'' ''NOT_FOUND''
              else if errors_Is err (E Victim_ErrVictimAlreadyAssigned)
              then common_Error 409 ''victim is already assigned to a shelter'' ''CONFLICT''
              else if errors_Is err (E Shelter_ErrShelterClosed)
              then common_Error 409 ''shelter is closed'' ''CONFLICT''
              else if errors_Is err (E Shelter_ErrShelterFull)
              then common_Error 409 ''shelter is full'' ''CONFLICT''
              else common_Error 500 ''could not assign victim'' ''INTERNAL_ERROR'')
       (\<lambda>vs. common_Success 200 ''victim assigned to shelter'' vs))"

section \<open>The register and the counters\<close>

definition housed_in :: "uuid \<Rightarrow> victim_row \<Rightarrow> bool" where
  "housed_in s v \<longleftrightarrow> v_shelter_id v = Some s"

text \<open>The counter of a shelter is the number of victims in it and fits its capacity; a victim still
  registered is in none; a shelter a victim is in exists.\<close>

definition beds_inv :: "db \<Rightarrow> bool" where
  "beds_inv d \<longleftrightarrow> pkey (victims d) \<and> pkey (shelters d)
     \<and> (\<forall>s r. sel (shelters d) s = Some r \<longrightarrow> shelter_row_ok r
          \<and> s_occupancy r = int (count_rows (housed_in s) (victims d)))
     \<and> (\<forall>k v. sel (victims d) k = Some v \<longrightarrow> victim_fk d v
          \<and> (v_status v = VictimRegistered \<longrightarrow> v_shelter_id v = None))"

lemma beds_inv_empty: "beds_inv empty_db"
  by (simp add: beds_inv_def empty_db_def)

lemma place_simps [simp]:
  "v_shelter_id (place s t v) = Some s" "v_status (place s t v) = VictimSheltered"
  by (simp_all add: place_def)

lemma admit_row_simps [simp]:
  "s_occupancy (admit_row t r) = s_occupancy r + 1" "s_capacity (admit_row t r) = s_capacity r"
  "s_status (admit_row t r) = s_status r"
  by (simp_all add: admit_row_def)

lemma admit_row_ok: "shelter_row_ok r \<Longrightarrow> has_room r \<Longrightarrow> shelter_row_ok (admit_row t r)"
  by (auto simp: shelter_row_ok_def has_room_def)

lemma admitted_simps [simp]:
  "shelters (admitted k s ek vr sr t d) = upd s (admit_row t) (shelters d)"
  "victims (admitted k s ek vr sr t d) = upd k (place s t) (victims d)"
  by (simp_all add: admitted_def add_event_def)

lemma assigns_inv:
  assumes "assigns e t d x y res d'" and inv: "beds_inv d"
  shows "beds_inv d'"
proof -
  from assms(1) obtain k s ek vr sr where v: "sel (victims d) k = Some vr" "v_status vr = VictimRegistered"
    and s: "sel (shelters d) s = Some sr" "has_room sr" and d': "d' = admitted k s ek vr sr t d"
    by (auto simp: assigns_def)
  from inv v have none: "v_shelter_id vr = None" and p: "pkey (victims d)" by (auto simp: beds_inv_def)
  have c: "count_rows (housed_in s') (upd k (place s t) (victims d))
      = count_rows (housed_in s') (victims d) + (if s' = s then 1 else 0)" for s'
    using count_rows_upd [OF p v(1), of "housed_in s'" "place s t"] none by (simp add: housed_in_def)
  have "victim_fk d' v' \<and> (v_status v' = VictimRegistered \<longrightarrow> v_shelter_id v' = None)"
    if "sel (victims d') k' = Some v'" for k' v'
    using that inv s v d' by (cases "k' = k") (auto simp: beds_inv_def victim_fk_def)
  moreover have "shelter_row_ok r' \<and> s_occupancy r' = int (count_rows (housed_in s') (victims d'))"
    if "sel (shelters d') s' = Some r'" for s' r'
    using that inv s d' c [of s'] by (cases "s' = s") (auto simp: beds_inv_def admit_row_ok)
  ultimately show ?thesis using inv d' unfolding beds_inv_def by auto
qed


end
