(* ===== verification/Sample.thy ===== *)
theory Sample
  imports Tx
begin

text \<open>
  A concrete environment for the witnesses: no faults, a clock that ticks once a second per
  statement, ids that name the statement that drew them, and plain coordinate distances.
\<close>

definition flat_distance :: "float64 \<times> float64 \<Rightarrow> float64 \<times> float64 \<Rightarrow> real" where
  "flat_distance p q = (case (p, q) of
     ((Fin a, Fin b), (Fin c, Fin d)) \<Rightarrow> \<bar>a - c\<bar> + \<bar>b - d\<bar> | _ \<Rightarrow> 0)"

definition sample_env :: env where
  "sample_env = \<lparr>flt = (\<lambda>n. None), ack_lost = (\<lambda>n. False),
     uuid_cast = (\<lambda>s. if s = '''' \<or> \<not> plain_text s then None else Some s),
     gen_uuid = (\<lambda>n. ''id-'' @ replicate n (CHR ''x'')), nextval = int, clock = (\<lambda>n. seconds (int n)),
     st_distance = flat_distance, knn_distance = flat_distance,
     others_locked = (\<lambda>n r. False),
     st_dwithin = (\<lambda>p q r. case r of Fin x \<Rightarrow> flat_distance p q \<le> x | _ \<Rightarrow> False),
     collate_key = id\<rparr>"

lemma sample_env_simps [simp]:
  "flt sample_env n = None" "\<not> ack_lost sample_env n"
  "uuid_cast sample_env s = (if s = '''' \<or> \<not> plain_text s then None else Some s)"
  "gen_uuid sample_env n = ''id-'' @ replicate n (CHR ''x'')" "nextval sample_env n = int n"
  "clock sample_env n = seconds (int n)" "\<not> others_locked sample_env n rid"
  "st_distance sample_env = flat_distance" "knn_distance sample_env = flat_distance"
  "collate_key sample_env s = s"
  by (simp_all add: sample_env_def)

lemma calm_sample_env [simp]: "calm sample_env"
  by (simp add: calm_def)

lemma uuid_ok_sample_env [simp]: "uuid_ok sample_env"
proof -
  have "plain_text (''id-'' @ replicate n (CHR ''x''))" for n
    by (simp add: plain_text_def list_all_iff byte_def)
  then have "uuid_cast sample_env (gen_uuid sample_env n) = Some (gen_uuid sample_env n)" for n
    by simp
  moreover have "uuid_cast sample_env u = Some u \<and> plain_text u" if "uuid_cast sample_env s = Some u" for s u
  proof -
    from that have "s = u" "s \<noteq> []" "plain_text s" by (simp_all split: if_splits)
    then show ?thesis by simp
  qed
  ultimately show ?thesis unfolding uuid_ok_def by blast
qed

definition start :: "db \<Rightarrow> world" where
  "start d = \<lparr>base = d, view = d, locks = {}, pc = 0, txnow = 0, wenv = sample_env\<rparr>"

lemma start_simps [simp]:
  "base (start d) = d" "view (start d) = d" "locks (start d) = {}" "pc (start d) = 0"
  "wenv (start d) = sample_env"
  by (simp_all add: start_def)

end
