(* ===== verification/Victim_Props.thy ===== *)
theory Victim_Props
  imports Victims Sample
begin

text \<open>
  The properties of the shelters and the victims: the counters count, an assignment is what it
  says on every branch, a manager's view is scoped, the ranking is a stable sort, and the read
  cache is transparent as long as it is invalidated under the key it was filled under.
\<close>

section \<open>Every write to the two tables\<close>

inductive beds_step :: "'m world_scheme \<Rightarrow> 'm world_scheme \<Rightarrow> bool" where
  shelter_created: "run (ShelterRepository_Create sh) w = (r1, w') \<Longrightarrow> beds_step w w'"
| shelter_updated: "run (ShelterRepository_UpdateStatus x st) w = (r1, w') \<Longrightarrow> beds_step w w'"
| victim_created: "run (VictimRepository_Create v) w = (r2, w') \<Longrightarrow> beds_step w w'"
| victim_assigned: "run (VictimRepository_Assign server_victims x y) w = (r3, w') \<Longrightarrow> beds_step w w'"

lemma count_none: "beds_inv d \<Longrightarrow> sel (shelters d) s = None \<Longrightarrow> count_rows (housed_in s) (victims d) = 0"
  by (fastforce simp: count_rows_zero beds_inv_def in_iff_sel housed_in_def victim_fk_def)

lemma beds_inv_new_shelter:
  assumes "beds_inv d" "shelter_row_ok r" "s_occupancy r = 0" "sel (shelters d) k = None"
  shows "beds_inv (d\<lparr>shelters := ins k r (shelters d)\<rparr>)"
proof -
  have "shelter_row_ok r' \<and> s_occupancy r' = int (count_rows (housed_in s) (victims d))"
    if "sel (ins k r (shelters d)) s = Some r'" for s r'
    using that assms count_none [OF assms(1), of k] by (cases "s = k") (auto simp: beds_inv_def)
  moreover have "victim_fk (d\<lparr>shelters := ins k r (shelters d)\<rparr>) v" if "sel (victims d) kv = Some v" for kv v
    using assms(1) that by (fastforce simp: beds_inv_def victim_fk_def sel_ins split: option.splits)
  ultimately show ?thesis using assms by (auto simp: beds_inv_def pkey_ins)
qed

lemma beds_inv_set_shelter:
  assumes "beds_inv d" "sel (shelters d) k = Some r" "shelter_row_ok (set_shelter st t r)"
  shows "beds_inv (d\<lparr>shelters := upd k (set_shelter st t) (shelters d)\<rparr>)"
proof -
  have "shelter_row_ok r' \<and> s_occupancy r' = int (count_rows (housed_in s) (victims d))"
    if "sel (upd k (set_shelter st t) (shelters d)) s = Some r'" for s r'
    using that assms by (cases "s = k") (auto simp: beds_inv_def set_shelter_def)
  then show ?thesis using assms(1) by (auto simp: beds_inv_def victim_fk_def)
qed

lemma beds_inv_new_victim:
  assumes "beds_inv d" "sel (victims d) k = None" "v_shelter_id r = None"
  shows "beds_inv (d\<lparr>victims := ins k r (victims d)\<rparr>)"
proof -
  have "victim_fk (d\<lparr>victims := ins k r (victims d)\<rparr>) v \<and> (v_status v = VictimRegistered \<longrightarrow> v_shelter_id v = None)"
    if "sel (ins k r (victims d)) kv = Some v" for kv v
    using that assms by (cases "kv = k") (auto simp: beds_inv_def victim_fk_def)
  then show ?thesis using assms by (auto simp: beds_inv_def pkey_ins housed_in_def)
qed

lemma all_or_nothing_inv:
  "all_or_nothing spec w res w' \<Longrightarrow> P (base w) \<Longrightarrow> (\<And>a d. spec a d \<Longrightarrow> P d) \<Longrightarrow> wenv w' = wenv w \<and> P (base w')"
  by (auto simp: all_or_nothing_def)

lemma beds_step_inv:
  assumes "beds_step w w'" and "uuid_ok (wenv w)" and "beds_inv (base w)"
  shows "wenv w' = wenv w \<and> beds_inv (base w')"
  using assms(1)
proof cases
  case (shelter_created sh r1)
  have "all_or_nothing (\<lambda>a d. beds_inv d) w r1 w'"
    by (rule pool_stmt_all_or_nothing [OF shelter_created [unfolded ShelterRepository_Create_def]])
      (use assms(3) in \<open>auto simp: pg_text_def Let_def intro!: beds_inv_new_shelter split: sum.splits if_splits\<close>)
  from all_or_nothing_inv [where P = beds_inv, OF this assms(3)] show ?thesis by simp
next
  case (shelter_updated x st r1)
  have "all_or_nothing (\<lambda>a d. beds_inv d) w r1 w'"
    by (rule pool_stmt_all_or_nothing [OF shelter_updated [unfolded ShelterRepository_UpdateStatus_def]])
      (use assms(3) in \<open>auto simp: pg_text_def cast_uuid_Inr intro!: beds_inv_set_shelter
         split: option.splits if_splits\<close>)
  from all_or_nothing_inv [where P = beds_inv, OF this assms(3)] show ?thesis by simp
next
  case (victim_created v r2)
  have "all_or_nothing (\<lambda>a d. beds_inv d) w r2 w'"
    by (rule pool_stmt_all_or_nothing [OF victim_created [unfolded VictimRepository_Create_def]])
      (use assms(3) in \<open>auto simp: pg_text_def Let_def intro!: beds_inv_new_victim split: if_splits\<close>)
  from all_or_nothing_inv [where P = beds_inv, OF this assms(3)] show ?thesis by simp
next
  case (victim_assigned x y r3)
  from all_or_nothing_inv [OF server_v.Assign_all_or_nothing [OF victim_assigned assms(2)], where P = beds_inv]
    assms(3) assigns_inv show ?thesis by blast
qed

section \<open>Properties of the register\<close>

text \<open>C27: no shelter overflows and no count drifts. Over any sequence of registrations, status
  changes and assignments, with any faults and lost acknowledgements among them, every shelter's
  occupancy is the number of victims recorded in it and never exceeds its capacity.\<close>

theorem shelters_never_overflow:
  assumes "beds_step\<^sup>*\<^sup>* w w'" and "uuid_ok (wenv w)" and "beds_inv (base w)"
    and "sel (shelters (base w')) s = Some r"
  shows "0 \<le> s_occupancy r \<and> s_occupancy r \<le> s_capacity r
    \<and> s_occupancy r = int (count_rows (housed_in s) (victims (base w')))"
proof -
  from assms(1) have "wenv w' = wenv w \<and> beds_inv (base w')"
  proof (induction rule: rtranclp_induct)
    case (step w1 w2)
    with beds_step_inv [OF step(2)] assms(2) show ?case by simp
  qed (use assms(3) in simp)
  with assms(4) show ?thesis unfolding beds_inv_def shelter_row_ok_def by metis
qed

text \<open>C28: an assignment moves one person into one bed. A successful one found the victim registered
  and the shelter open with room, and the committed database differs by the victim's placement,
  the one bed and the one event, all at the transaction's time; a failed one changes nothing, or,
  when only the acknowledgement of the commit is lost, is the whole assignment.\<close>

theorem assign_spec:
  assumes "run (VictimRepository_Assign server_victims x y) w = (res, w')" and "uuid_ok (wenv w)"
  shows "(\<exists>err. res = Inl err) \<and> base w' = base w
    \<or> (\<exists>k s ek vr sr. uuid_cast (wenv w) x = Some k \<and> uuid_cast (wenv w) y = Some s
        \<and> sel (victims (base w)) k = Some vr \<and> v_status vr = VictimRegistered
        \<and> sel (shelters (base w)) s = Some sr \<and> s_status sr = ShelterOpen \<and> s_occupancy sr < s_capacity sr
        \<and> base w' = admitted k s ek vr sr (clock (wenv w) (pc w)) (base w)
        \<and> (res = Inl lost_ack \<or> res = Inr (scanVictim (k, place s (clock (wenv w) (pc w)) vr),
             scanShelter (s, admit_row (clock (wenv w) (pc w)) sr))))"
  using server_v.Assign_all_or_nothing [OF assms]
  unfolding all_or_nothing_def assigns_def has_room_def by blast

text \<open>The answer of an assignment in a run without faults, case by case.\<close>

definition assign_answer :: "env \<Rightarrow> nat \<Rightarrow> db \<Rightarrow> string \<Rightarrow> string \<Rightarrow> go_error + Victim \<times> Shelter" where
  "assign_answer e n d x y = (case uuid_cast e x of
     None \<Rightarrow> Inl invalid_text
   | Some k \<Rightarrow> (case sel (victims d) k of
       None \<Rightarrow> Inl (E Victim_ErrVictimNotFound)
     | Some vr \<Rightarrow> if v_status vr \<noteq> VictimRegistered then Inl (E Victim_ErrVictimAlreadyAssigned)
         else (case uuid_cast e y of
           None \<Rightarrow> Inl invalid_text
         | Some s \<Rightarrow> (case sel (shelters d) s of
             None \<Rightarrow> Inl (E Shelter_ErrShelterNotFound)
           | Some sr \<Rightarrow> if s_status sr \<noteq> ShelterOpen then Inl (E Shelter_ErrShelterClosed)
               else if s_occupancy sr \<ge> s_capacity sr then Inl (E Shelter_ErrShelterFull)
               else Inr (scanVictim (k, place s (clock e n) vr), scanShelter (s, admit_row (clock e n) sr))))))"

lemma calm_admit:
  assumes "calm (wenv w)"
  shows "\<exists>w'. run (ShelterRepository_AdmitTx y) w = (case uuid_cast (wenv w) y of
       None \<Rightarrow> (Inl invalid_text, w')
     | Some s \<Rightarrow> (case sel (shelters (view w)) s of
         None \<Rightarrow> (Inl (E Shelter_ErrShelterNotFound), w')
       | Some sr \<Rightarrow> if s_status sr \<noteq> ShelterOpen then (Inl (E Shelter_ErrShelterClosed), w')
           else if s_occupancy sr \<ge> s_capacity sr then (Inl (E Shelter_ErrShelterFull), w')
           else if shelter_row_ok (admit_row (txnow w) sr) then (Inr (), w') else (Inl check_violation, w')))
    \<and> (\<forall>s sr. uuid_cast (wenv w) y = Some s \<longrightarrow> sel (shelters (view w)) s = Some sr \<longrightarrow> has_room sr
         \<longrightarrow> shelter_row_ok (admit_row (txnow w) sr) \<longrightarrow> w' = (ticked w)\<lparr>locks := locks w \<union> {RowShelter s},
           view := (view w)\<lparr>shelters := upd s (admit_row (txnow w)) (shelters (view w))\<rparr>\<rparr>)"
  using assms
  by (auto simp: ShelterRepository_AdmitTx_def run_bindE run_bind run_tx_stmt cast_uuid_def admit_one_def has_room_def
      reading_def one_row_def ticked_def split: option.split)

lemma server_victims_simps [simp]:
  "vr_shelters server_victims = ShelterRepository_allocator" "vr_events server_victims = OutboxRepository_writer"
  by (simp_all add: server_victims_def)

lemma victim_texts [simp]: "text_ok AggregateVictim" "text_ok EventVictimAssigned"
  by code_simp+

lemma calm_lock_victim:
  assumes "calm (wenv w)"
  shows "\<exists>w1. run (lock_victim x) w = (case uuid_cast (wenv w) x of
       None \<Rightarrow> (Inl invalid_text, w1)
     | Some k \<Rightarrow> (case sel (victims (view w)) k of
         None \<Rightarrow> (Inl (E Victim_ErrVictimNotFound), w1) | Some vr \<Rightarrow> (Inr (v_status vr), w1)))
    \<and> wenv w1 = wenv w \<and> pc w1 = Suc (pc w) \<and> txnow w1 = txnow w \<and> view w1 = view w"
  using assms by (auto simp: lock_victim_def run_bind run_tx_stmt cast_uuid_def split: option.split)

lemma calm_place_victim:
  assumes "calm (wenv w)" "uuid_cast (wenv w) x = Some k" "uuid_cast (wenv w) y = Some s"
    and "sel (victims (view w)) k = Some vr" "sel (shelters (view w)) s \<noteq> None"
  shows "\<exists>w1. run (place_victim y x) w = (Inr (scanVictim (k, place s (txnow w) vr)), w1)
    \<and> wenv w1 = wenv w \<and> pc w1 = Suc (pc w) \<and> txnow w1 = txnow w
    \<and> view w1 = (view w)\<lparr>victims := upd k (place s (txnow w)) (victims (view w))\<rparr>"
  using assms by (auto simp: place_victim_def run_tx_stmt cast_uuid_def)

lemma assign_body_calm:
  assumes c: "calm (wenv w)" and e: "uuid_ok (wenv w)" and inv: "beds_inv (base w)"
    and fresh: "sel (outbox_events (base w)) (nextval (wenv w) (pc w + 5)) = None"
  shows "\<exists>w'. run (assign_body server_victims x y) (begun w) = (assign_answer (wenv w) (pc w) (base w) x y, w')"
proof -
  let ?t = "clock (wenv w) (pc w)"
  from calm_lock_victim [of "begun w" x, unfolded begun_simps, OF c] obtain w1 where l: "run (lock_victim x) (begun w)
      = (case uuid_cast (wenv w) x of None \<Rightarrow> (Inl invalid_text, w1)
         | Some k \<Rightarrow> (case sel (victims (base w)) k of
             None \<Rightarrow> (Inl (E Victim_ErrVictimNotFound), w1) | Some vr \<Rightarrow> (Inr (v_status vr), w1)))"
    and w1: "wenv w1 = wenv w" "pc w1 = pc w + 2" "txnow w1 = ?t" "view w1 = base w" by fastforce
  show ?thesis
  proof (cases "\<exists>k vr. uuid_cast (wenv w) x = Some k \<and> sel (victims (base w)) k = Some vr \<and> v_status vr = VictimRegistered")
    case False
    with l show ?thesis by (auto simp: assign_body_def run_bindE assign_answer_def split: option.split)
  next
    case True
    then obtain k vr where x: "uuid_cast (wenv w) x = Some k" "sel (victims (base w)) k = Some vr"
      "v_status vr = VictimRegistered" by blast
    show ?thesis
    proof (cases "\<exists>s sr. uuid_cast (wenv w) y = Some s \<and> sel (shelters (base w)) s = Some sr \<and> has_room sr")
      case False
      with x have "\<exists>err. assign_answer (wenv w) (pc w) (base w) x y = Inl err"
        by (auto simp: assign_answer_def has_room_def split: option.split)
      then obtain err where err: "assign_answer (wenv w) (pc w) (base w) x y = Inl err" ..
      with calm_admit [of w1 y] c x False w1 obtain w2 where "run (ShelterRepository_AdmitTx y) w1 = (Inl err, w2)"
        by (auto simp: assign_answer_def has_room_def split: option.splits if_splits)
      with l x err show ?thesis by (simp add: assign_body_def run_bindE)
    next
      case True
      then obtain s sr where y: "uuid_cast (wenv w) y = Some s" "sel (shelters (base w)) s = Some sr" "has_room sr" by blast
      have "shelter_row_ok (admit_row ?t sr)" using inv y by (auto simp: beds_inv_def intro: admit_row_ok)
      then obtain w2 where 2: "run (ShelterRepository_AdmitTx y) w1 = (Inr (), w2)" "wenv w2 = wenv w" "pc w2 = pc w + 3"
        "txnow w2 = ?t" "view w2 = (base w)\<lparr>shelters := upd s (admit_row ?t) (shelters (base w))\<rparr>"
        using calm_admit [of w1 y] c y w1 by (auto simp: has_room_def)
      let ?v = "scanVictim (k, place s ?t vr)" and ?sh = "scanShelter (s, admit_row ?t sr)"
      from calm_place_victim [of w2 x k y s vr] c x y 2 obtain w3 where 3: "run (place_victim y x) w2 = (Inr ?v, w3)"
        "wenv w3 = wenv w" "pc w3 = pc w + 4" "txnow w3 = ?t"
        "view w3 = (view w2)\<lparr>victims := upd k (place s ?t) (victims (base w))\<rparr>" by auto
      have 4: "run (ShelterRepository_GetByIDTx y) w3 = (Inr ?sh, ticked w3)"
        using c 2 3 y by (simp add: ShelterRepository_GetByIDTx_def shelter_by_id_def run_tx_stmt cast_uuid_def
            reading_def ticked_def)
      have "list_all (json_ok \<circ> snd) (assigned_payload ?v ?sh)" and k: "uuid_cast (wenv w) k = Some k"
        using e x y by (auto simp: assigned_payload_def uuid_ok_def)
      then obtain w5 where "run (OutboxRepository_WriteTx AggregateVictim k EventVictimAssigned (assigned_payload ?v ?sh))
          (ticked w3) = (Inr (), w5)"
        using calm_write [of "ticked w3" AggregateVictim EventVictimAssigned k k "assigned_payload ?v ?sh"] c 2 3 fresh
        by (auto simp: add.commute)
      moreover have "assign_answer (wenv w) (pc w) (base w) x y = Inr (?v, ?sh)"
        using x y by (simp add: assign_answer_def has_room_def)
      ultimately show ?thesis using l x 2 3 4 by (simp add: assign_body_def run_bindE)
    qed
  qed
qed

text \<open>Every answer of an assignment. In a run without faults it says exactly what is wrong (a
  malformed id, no such victim, a victim already placed, no such shelter, a closed one, a full one,
  in this order of precedence) and leaves the database as it was, and otherwise returns the placed
  victim and the shelter with the fresh count.\<close>

theorem assign_total:
  assumes "calm (wenv w)" and "uuid_ok (wenv w)" and "beds_inv (base w)"
    and "sel (outbox_events (base w)) (nextval (wenv w) (pc w + 5)) = None"
  shows "\<exists>w'. run (VictimRepository_Assign server_victims x y) w = (assign_answer (wenv w) (pc w) (base w) x y, w')
    \<and> (\<forall>err. assign_answer (wenv w) (pc w) (base w) x y = Inl err \<longrightarrow> base w' = base w)"
proof -
  from assign_body_calm [OF assms] obtain w1 where
    "run (assign_body server_victims x y) (begun w) = (assign_answer (wenv w) (pc w) (base w) x y, w1)" by blast
  from run_in_tx_calm [OF assms(1) server_v.assign_body_tx_only this] show ?thesis
    by (auto simp: VictimRepository_Assign_def split: sum.split)
qed



text \<open>The candidates of a victim come best first: the ranking is a stable sort by score, so it is
  a permutation of the shelters found, in falling order of score, and shelters with equal scores
  stay in nearest-first order.\<close>

theorem shelters_ranked_best_first:
  assumes "\<forall>sh\<in>set shs. sane_shelter sh"
  shows "sorted_wrt (\<lambda>a b. f_le (ss_Score b) (ss_Score a)) (rank_shelters shs)
    \<and> (\<forall>s. map ss_Shelter (filter (\<lambda>a. ss_Score a = s) (rank_shelters shs))
          = filter (\<lambda>sh. fst (ScoreShelter sh) = s) shs)"
proof -
  let ?f = "\<lambda>sh. case ScoreShelter sh of (sc, bd) \<Rightarrow> \<lparr>ss_Shelter = sh, ss_Score = sc, ss_Breakdown = bd\<rparr>"
  have f: "ss_Score (?f sh) = fst (ScoreShelter sh)" "ss_Shelter (?f sh) = sh" for sh
    by (simp_all split: prod.split)
  have fin: "finite64 (ss_Score a)" if "a \<in> set (map ?f shs)" for a
  proof -
    from that obtain sh where "sh \<in> set shs" "a = ?f sh" by auto
    with assms score_shelter_finite [of sh] show ?thesis by (auto simp: f finite64_def)
  qed
  have "map ss_Shelter (filter (\<lambda>a. ss_Score a = s) (map ?f shs)) = filter (\<lambda>sh. fst (ScoreShelter sh) = s) shs" for s
    by (induction shs) (simp_all add: f)
  with sort_SliceStable_ranked [of "map ?f shs" ss_Score, OF fin] show ?thesis
    by (simp add: rank_shelters_def)
qed


section \<open>The read cache\<close>


text \<open>One shelter's row has changed and its key is gone.\<close>

lemma coherent_after_write:
  assumes "shelter_json.coherent (shelter_truth e d) s" and "uuid_cast e x = Some k"
    and "\<And>k'. k' \<noteq> k \<Longrightarrow> sel (shelters d') k' = sel (shelters d) k'"
    and "\<And>y. y \<noteq> x \<Longrightarrow> uuid_cast e y = Some k \<Longrightarrow> s (shelterKey y) = None"
  shows "shelter_json.coherent (shelter_truth e d') (\<lambda>key. if key = shelterKey x then None else s key)"
  unfolding shelter_json.coherent_def shelter_truth_def
proof (intro allI impI)
  fix key b dl v y
  assume a: "(if key = shelterKey x then None else s key) = Some (b, dl)" "Shelter_Unmarshal b = Some v"
    and y: "key = shelterKey y"
  then have "y \<noteq> x" and sy: "s (shelterKey y) = Some (b, dl)" by (auto split: if_splits)
  with assms(1) a(2) obtain k' r where k': "uuid_cast e y = Some k'" "sel (shelters d) k' = Some r" "v = scanShelter (k', r)"
    unfolding shelter_json.coherent_def shelter_truth_def by blast
  have "k' \<noteq> k" using assms(4) [OF \<open>y \<noteq> x\<close>] k'(1) sy by auto
  with k' assms(3) show "\<exists>k r. uuid_cast e y = Some k \<and> sel (shelters d') k = Some r \<and> v = scanShelter (k, r)" by metis
qed

lemma invalidate_run:
  assumes "run (ShelterCache_Invalidate x) w = (u, w')" and "\<not> refuses w (calls w)"
  shows "base w' = base w \<and> wenv w' = wenv w \<and> rclock w' = rclock w \<and> refuses w' = refuses w \<and> mute w' = mute w
    \<and> strs w' = (\<lambda>key. if key = shelterKey x then None else strs w key)"
  using Cache_Del_run [OF assms(1) [unfolded ShelterCache_Invalidate_def]] assms(2)
  by (auto simp: redis_frame_simps)

lemma update_shelter_run:
  assumes "run (ShelterService_UpdateStatus x st) w = (Inr sh, w')" and "\<not> refuses w (calls w)"
  shows "\<exists>k. uuid_cast (wenv w) x = Some k \<and> (\<forall>k'. k' \<noteq> k \<longrightarrow> sel (shelters (base w')) k' = sel (shelters (base w)) k')
    \<and> wenv w' = wenv w \<and> rclock w' = rclock w \<and> refuses w' = refuses w \<and> mute w' = mute w
    \<and> strs w' = (\<lambda>key. if key = shelterKey x then None else strs w key)"
proof -
  from assms(1) obtain w1 u where u: "run (ShelterRepository_UpdateStatus x st) w = (Inr sh, w1)"
    and i: "run (ShelterCache_Invalidate x) w1 = (u, w')"
    by (auto simp: ShelterService_UpdateStatus_def run_bind split: prod.splits sum.splits if_splits)
  from u obtain k where k: "uuid_cast (wenv w) x = Some k"
    and d: "\<forall>k'. k' \<noteq> k \<longrightarrow> sel (shelters (base w1)) k' = sel (shelters (base w)) k'"
    and w1: "wenv w1 = wenv w" "strs w1 = strs w" "rclock w1 = rclock w" "refuses w1 = refuses w" "calls w1 = calls w"
      "mute w1 = mute w"
    by (auto simp: ShelterRepository_UpdateStatus_def run_pool_stmt pg_text_def cast_uuid_Inr
        split: option.splits sum.splits if_splits)
  have "\<not> refuses w1 (calls w1)" using assms(2) w1 by simp
  from invalidate_run [OF i this] k d w1 show ?thesis by auto
qed

text \<open>Invalidation works when every reader spells the id the same way. After a status change whose
  \<open>DEL\<close> reached Redis, and if no entry had been filled under another spelling of the same id, the
  cache agrees with the new database, so the next read returns the new row.\<close>

theorem update_keeps_cache_coherent:
  assumes "run (ShelterService_UpdateStatus x st) w = (Inr sh, w')" and "cache_coherent w"
    and "\<not> refuses w (calls w)"
    and "\<forall>y. y \<noteq> x \<longrightarrow> uuid_cast (wenv w) y = uuid_cast (wenv w) x \<longrightarrow> strs w (shelterKey y) = None"
  shows "cache_coherent w'"
proof -
  from update_shelter_run [OF assms(1,3)] obtain k where
    k: "uuid_cast (wenv w) x = Some k" "\<And>k'. k' \<noteq> k \<Longrightarrow> sel (shelters (base w')) k' = sel (shelters (base w)) k'"
    and w': "wenv w' = wenv w" "strs w' = (\<lambda>key. if key = shelterKey x then None else strs w key)" by blast
  have "\<And>y. y \<noteq> x \<Longrightarrow> uuid_cast (wenv w) y = Some k \<Longrightarrow> strs w (shelterKey y) = None"
    using assms(4) k(1) by simp
  then show ?thesis unfolding cache_coherent_def w'
    by (intro coherent_after_write [OF assms(2) [unfolded cache_coherent_def] k(1)]) (rule k(2))
qed

text \<open>The key is the id as the client spelled it, not as the database reads it. A status change made
  under one spelling of an id leaves the entry under another spelling in place, and a read under
  that one still returns the old shelter until its deadline.\<close>

theorem other_spelling_stays_stale:
  assumes "run (ShelterService_UpdateStatus x st) w = (Inr sh, w')"
    and "y \<noteq> x" and "uuid_cast (wenv w) y = uuid_cast (wenv w) x"
    and "strs w (shelterKey y) = Some (ShelterJSON old, dl)"
    and "\<not> refuses w (calls w)" and "rclock w (calls w') \<le> dl"
    and "\<not> refuses w (calls w')" and "\<not> mute w (calls w')"
  shows "fst (run (ShelterService_GetByID y) w') = Inr old"
proof -
  from update_shelter_run [OF assms(1,5)] assms(2,4) have s: "strs w' (shelterKey y) = Some (ShelterJSON old, dl)"
    and w': "rclock w' = rclock w" "refuses w' = refuses w" "mute w' = mute w" by auto
  have "\<exists>w2. run (redis_Get (shelterKey y)) w' = (Inr (Some (ShelterJSON old)), w2)"
    using s assms(6-8) by (simp add: redis_Get_def run_redis_call Let_def live_def w')
  then obtain w2 where "run (redis_Get (shelterKey y)) w' = (Inr (Some (ShelterJSON old)), w2)" ..
  then have "run (Cache_GetJSON Shelter_Unmarshal (shelterKey y)) w' = (Some old, w2)"
    by (simp add: Cache_GetJSON_def run_bind)
  then show ?thesis
    by (simp add: ShelterService_GetByID_def ShelterCache_GetOrLoad_def Cache_GetOrLoad_def run_bind run_bindE)
qed

text \<open>What a missed invalidation costs is bounded. An entry that reaches Redis lives at least 48 and
  at most 72 seconds, whatever the random draw: the nominal minute spread by a fifth, exactly, in
  the arithmetic the code computes it in.\<close>

theorem backfill_lifetime:
  assumes "run (Cache_SetJSON Shelter_Marshal (shelterKey x) sh shelterTTL) w = (u, w')"
    and "Shelter_Marshal sh = Some b" and "\<not> refuses w (calls w)"
    and "rand_Float64 w (calls w) = Fin r" "0 \<le> r" "r < 1"
  shows "\<exists>dl. strs w' (shelterKey x) = Some (b, dl)
    \<and> rclock w (calls w) + seconds 48 \<le> dl \<and> dl \<le> rclock w (calls w) + seconds 72"
proof -
  let ?j = "jitter shelterTTL (Fin r)"
  from assms have "strs w' (shelterKey x) = Some (b, expires (rclock w (calls w)) ?j)"
    by (auto simp: Cache_SetJSON_def redis_Set_def run_simps run_Stmt Let_def split: if_splits)
  moreover have "48000 \<le> ?j div 1000000" "?j div 1000000 \<le> 72000"
    using jitter_minute [OF assms(5,6)] zdiv_mono1 [of "48 * 1000000000" ?j 1000000]
      zdiv_mono1 [of ?j "72 * 1000000000" 1000000] by (simp_all add: shelterTTL_def)
  ultimately show ?thesis by (auto simp: expires_def seconds_def)
qed


section \<open>Witnesses\<close>

text \<open>A shelter with one bed and two victims.\<close>

definition sample_shelter :: shelter_row where
  "sample_shelter = \<lparr>s_name = ''Hall'', s_capacity = 1, s_occupancy = 0, s_status = ShelterOpen, s_lat = Fin 0,
     s_lng = Fin 0, s_created_at = 0, s_updated_at = 0\<rparr>"

definition sample_victim :: "string \<Rightarrow> victim_row" where
  "sample_victim nm = \<lparr>v_name = nm, v_status = VictimRegistered, v_notes = '''', v_shelter_id = None, v_lat = Fin 0,
     v_lng = Fin 0, v_created_at = 0, v_updated_at = 0\<rparr>"

definition beds_db :: db where
  "beds_db = empty_db\<lparr>shelters := [(''s1'', sample_shelter)],
     victims := [(''v1'', sample_victim ''Ann''), (''v2'', sample_victim ''Bob'')]\<rparr>"

lemma beds_db_inv: "beds_inv beds_db"
  by (auto simp: beds_inv_def beds_db_def empty_db_def pkey_def shelter_row_ok_def sample_shelter_def sample_victim_def
      housed_in_def victim_fk_def all_shelter_status_def split: if_splits)

definition after_assign :: "(go_error + Victim \<times> Shelter) \<times> world" where
  "after_assign = run (VictimRepository_Assign server_victims ''v1'' ''s1'') (start beds_db)"

definition after_full :: "(go_error + Victim \<times> Shelter) \<times> world" where
  "after_full = run (VictimRepository_Assign server_victims ''v2'' ''s1'') (snd after_assign)"

lemma after_assign_facts:
  "fst after_assign = Inr (scanVictim (''v1'', place ''s1'' 0 (sample_victim ''Ann'')),
     scanShelter (''s1'', admit_row 0 sample_shelter))"
  "sel (shelters (base (snd after_assign))) ''s1'' = Some (admit_row 0 sample_shelter)"
  "fst after_full = Inl (E Shelter_ErrShelterFull)"
  "sel (shelters (base (snd after_full))) ''s1'' = Some (admit_row 0 sample_shelter)"
  by code_simp+

lemma after_assign_run:
  "run (VictimRepository_Assign server_victims ''v1'' ''s1'') (start beds_db) = (fst after_assign, snd after_assign)"
  "run (VictimRepository_Assign server_victims ''v2'' ''s1'') (snd after_assign) = (fst after_full, snd after_full)"
  by (simp_all add: after_assign_def after_full_def)

lemma shelters_never_overflow_witness:
  "s_occupancy (admit_row 0 sample_shelter) \<le> s_capacity (admit_row 0 sample_shelter)
   \<and> count_rows (housed_in ''s1'') (victims (base (snd after_full))) = 1"
proof -
  have "beds_step\<^sup>*\<^sup>* (start beds_db) (snd after_full)"
    using beds_step.victim_assigned [OF after_assign_run(1)] beds_step.victim_assigned [OF after_assign_run(2)]
    by (meson rtranclp.rtrancl_into_rtrancl rtranclp.rtrancl_refl)
  from shelters_never_overflow [OF this _ _ after_assign_facts(4)] beds_db_inv
  show ?thesis by (simp add: sample_shelter_def)
qed

lemma assign_spec_witness:
  "\<exists>k s ek vr sr. base (snd after_assign) = admitted k s ek vr sr 0 beds_db"
proof -
  have "clock (wenv (start beds_db)) (pc (start beds_db)) = 0" by (simp add: seconds_def)
  with assign_spec [OF after_assign_run(1)] after_assign_facts(1) show ?thesis by fastforce
qed

lemma assign_total_witness:
  "\<exists>w'. run (VictimRepository_Assign server_victims ''v1'' ''s9'') (start beds_db)
     = (Inl (E Shelter_ErrShelterNotFound), w') \<and> base w' = beds_db"
proof -
  have "assign_answer sample_env 0 beds_db ''v1'' ''s9'' = Inl (E Shelter_ErrShelterNotFound)" by code_simp
  with assign_total [of "start beds_db" "''v1''" "''s9''"] beds_db_inv show ?thesis
    by (simp add: beds_db_def empty_db_def)
qed

definition sample_manager :: Actor where
  "sample_manager = \<lparr>act_UserID = ''m1'', act_Username = ''mia'', act_Role = RoleShelterManager, act_UnitID = '''',
     act_ShelterID = ''s1''\<rparr>"

definition mixed_db :: db where
  "mixed_db = beds_db\<lparr>victims := [(''v1'', place ''s1'' 0 (sample_victim ''Ann'')), (''v2'', sample_victim ''Bob'')]\<rparr>"


lemma shelters_ranked_best_first_witness:
  "sorted_wrt (\<lambda>a b. f_le (ss_Score b) (ss_Score a))
     (rank_shelters [sample_rated_shelter 9 100, sample_rated_shelter 2 100])"
  using shelters_ranked_best_first [of "[sample_rated_shelter 9 100, sample_rated_shelter 2 100]"]
  by (simp add: sane_shelter_def sample_rated_shelter_def int4_ok_def)

text \<open>A Redis in which the shelter is cached under an upper-case spelling of its id.\<close>

definition redis_start :: "env \<Rightarrow> db \<Rightarrow> (string \<Rightarrow> (shelter_json \<times> time) option) \<Rightarrow> shelter_json redis" where
  "redis_start e d s = \<lparr>base = d, view = d, locks = {}, pc = 0, txnow = 0, wenv = e, strs = s, calls = 0,
     refuses = (\<lambda>n. False), mute = (\<lambda>n. False), rclock = (\<lambda>n. seconds (int n)), rand_Float64 = (\<lambda>n. Fin (1 / 2))\<rparr>"

definition cached_shelter :: Shelter where
  "cached_shelter = scanShelter (''s1'', sample_shelter)"


lemma update_keeps_cache_coherent_witness:
  "cache_coherent (snd (run (ShelterService_UpdateStatus ''s1'' ShelterClosed) (redis_start sample_env beds_db Map.empty)))"
proof -
  let ?w = "redis_start sample_env beds_db Map.empty"
  let ?r = "run (ShelterService_UpdateStatus ''s1'' ShelterClosed) ?w"
  have "map_sum (\<lambda>e. ()) (\<lambda>s. ()) (fst ?r) = Inr ()" by code_simp
  then obtain sh where "?r = (Inr sh, snd ?r)" by (cases "fst ?r") (auto simp: prod_eq_iff)
  from update_keeps_cache_coherent [OF this] show ?thesis
    by (simp add: cache_coherent_def shelter_json.coherent_def redis_start_def)
qed

definition folding_env :: env where
  "folding_env = sample_env\<lparr>uuid_cast := (\<lambda>s. if s = ''S1'' \<or> s = ''s1'' then Some ''s1'' else None)\<rparr>"

lemma other_spelling_stays_stale_witness:
  "fst (run (ShelterService_GetByID ''S1'') (snd (run (ShelterService_UpdateStatus ''s1'' ShelterClosed)
     (redis_start folding_env beds_db [shelterKey ''S1'' \<mapsto> (ShelterJSON cached_shelter, seconds 60)])))) = Inr cached_shelter"
proof -
  let ?w = "redis_start folding_env beds_db [shelterKey ''S1'' \<mapsto> (ShelterJSON cached_shelter, seconds 60)]"
  let ?r = "run (ShelterService_UpdateStatus ''s1'' ShelterClosed) ?w"
  have "map_sum (\<lambda>e. ()) (\<lambda>s. ()) (fst ?r) = Inr ()" by code_simp
  then obtain sh where r: "?r = (Inr sh, snd ?r)" by (cases "fst ?r") (auto simp: prod_eq_iff)
  have "calls (snd ?r) = 1" by code_simp
  with other_spelling_stays_stale [OF r, of "''S1''" cached_shelter "seconds 60"] show ?thesis
    by (simp add: redis_start_def folding_env_def seconds_def)
qed

lemma backfill_lifetime_witness:
  "\<exists>dl. strs (snd (run (Cache_SetJSON Shelter_Marshal (shelterKey ''s1'') cached_shelter shelterTTL)
       (redis_start sample_env beds_db Map.empty))) (shelterKey ''s1'') = Some (ShelterJSON cached_shelter, dl)
     \<and> seconds 48 \<le> dl \<and> dl \<le> seconds 72"
proof -
  let ?w = "redis_start sample_env beds_db Map.empty"
  let ?r = "run (Cache_SetJSON Shelter_Marshal (shelterKey ''s1'') cached_shelter shelterTTL) ?w"
  from backfill_lifetime [OF surjective_pairing, where x = "''s1''" and sh = cached_shelter and w = ?w and b = "ShelterJSON cached_shelter" and r = "1 / 2"] show ?thesis
    by (simp add: redis_start_def Shelter_Marshal_def cached_shelter_def scanShelter_def sample_shelter_def finite64_def
        seconds_def)
qed


end
