(* ===== verification/Transports.thy ===== *)
theory Transports
  imports Outbox
begin

text \<open>
  The transport module (\<^verbatim>\<open>internal/transport\<close>): vehicles whose seats are booked by the group. Its
  repository with the guarded increment by a quantity and the guarded refund, its service and its
  handlers. \<open>transport_deps\<close> is its view of the outbox, interpreted on the outbox repository.
\<close>

section \<open>The model\<close>

record Transport =
  tp_ID :: string
  tp_CallSign :: string
  tp_Kind :: string
  tp_Capacity :: int
  tp_SeatsTaken :: int
  tp_Status :: string
  tp_Latitude :: float64
  tp_Longitude :: float64
  tp_Version :: nat
  tp_CreatedAt :: time
  tp_UpdatedAt :: time
  tp_SeatsFree :: int
  tp_DistanceMeters :: float64

record Booking =
  bk_ID :: string
  bk_TransportID :: string
  bk_IncidentID :: string
  bk_Seats :: int
  bk_Status :: string
  bk_CreatedAt :: time
  bk_UpdatedAt :: time

definition scanTransport :: "uuid \<times> transport_row \<Rightarrow> Transport" where
  "scanTransport kr = (case kr of (k, r) \<Rightarrow>
     \<lparr>tp_ID = k, tp_CallSign = t_call_sign r, tp_Kind = t_kind r, tp_Capacity = t_capacity r,
      tp_SeatsTaken = t_seats_taken r, tp_Status = t_status r, tp_Latitude = t_lat r, tp_Longitude = t_lng r,
      tp_Version = t_version r, tp_CreatedAt = t_created_at r, tp_UpdatedAt = t_updated_at r,
      tp_SeatsFree = t_capacity r - t_seats_taken r, tp_DistanceMeters = Fin 0\<rparr>)"

definition scanBooking :: "uuid \<times> booking_row \<Rightarrow> Booking" where
  "scanBooking kr = (case kr of (k, r) \<Rightarrow>
     \<lparr>bk_ID = k, bk_TransportID = b_transport_id r, bk_IncidentID = b_incident_id r, bk_Seats = b_seats r,
      bk_Status = b_status r, bk_CreatedAt = b_created_at r, bk_UpdatedAt = b_updated_at r\<rparr>)"

lemma scanTransport_simps [simp]:
  "tp_ID (scanTransport (k, r)) = k" "tp_SeatsTaken (scanTransport (k, r)) = t_seats_taken r"
  "tp_Capacity (scanTransport (k, r)) = t_capacity r" "tp_Status (scanTransport (k, r)) = t_status r"
  by (simp_all add: scanTransport_def)

lemma scanBooking_simps [simp]:
  "bk_ID (scanBooking (k, r)) = k" "bk_TransportID (scanBooking (k, r)) = b_transport_id r"
  "bk_IncidentID (scanBooking (k, r)) = b_incident_id r" "bk_Seats (scanBooking (k, r)) = b_seats r"
  "bk_Status (scanBooking (k, r)) = b_status r"
  by (simp_all add: scanBooking_def)

section \<open>The repository\<close>

record 'm TransportRepository =
  tr_events :: "'m EventWriter"

definition TransportRepository_Create :: "Transport \<Rightarrow> ('m, Transport) tx" where
  "TransportRepository_Create tp = pool_stmt (pg_int4 (tp_Capacity tp) (pg_text [tp_CallSign tp, tp_Kind tp] (\<lambda>e n t d.
     let k = gen_uuid e n;
         r = \<lparr>t_call_sign = tp_CallSign tp, t_kind = tp_Kind tp, t_capacity = tp_Capacity tp, t_seats_taken = 0,
              t_status = TransportAvailable, t_lat = tp_Latitude tp, t_lng = tp_Longitude tp, t_version = 1,
              t_created_at = t, t_updated_at = t\<rparr>
     in if \<not> transport_row_ok r then Inl check_violation
        else if sel (transports d) k \<noteq> None \<or> list_ex (\<lambda>(_, r'). t_call_sign r' = tp_CallSign tp) (transports d)
        then Inl unique_violation
        else Inr (tp\<lparr>tp_ID := k, tp_SeatsTaken := 0, tp_Status := TransportAvailable, tp_Version := 1,
                     tp_CreatedAt := t, tp_UpdatedAt := t, tp_SeatsFree := tp_Capacity tp - 0\<rparr>,
                  d\<lparr>transports := ins k r (transports d)\<rparr>,
                  {RowTransport k, IdxUnique ''transports.call_sign'' (tp_CallSign tp)}))))"

definition transport_by_id :: "string \<Rightarrow> Transport stmt" where
  "transport_by_id x = cast_uuid x (\<lambda>k. reading (\<lambda>e d.
     map_sum id (\<lambda>r. scanTransport (k, r)) (one_row (sel (transports d) k))))"

definition TransportRepository_GetByID :: "string \<Rightarrow> ('m, Transport) tx" where
  "TransportRepository_GetByID x = pool_stmt (transport_by_id x)"

definition TransportRepository_List :: "string \<Rightarrow> string \<Rightarrow> int \<Rightarrow> int \<Rightarrow> ('m, Transport list) tx" where
  "TransportRepository_List status kind limit offset = pool_stmt (pg_text [status, kind] (reading (\<lambda>e d.
     map_sum id (map scanTransport) (pg_page limit offset
       (sort_key (\<lambda>(k, r). collate_key e (t_call_sign r))
         (filter (\<lambda>(k, r). (status = '''' \<or> t_status r = status) \<and> (kind = '''' \<or> t_kind r = kind))
           (transports d)))))))"

text \<open>\<open>seats_taken + $3 <= capacity\<close> over the rows that pass the first conjunct: one sum out of range
  fails the query.\<close>

definition seats_fit :: "int \<Rightarrow> transport_row \<Rightarrow> bool" where
  "seats_fit seats r \<longleftrightarrow> t_status r = TransportAvailable \<and> t_seats_taken r + seats \<le> t_capacity r"

definition TransportRepository_FindNearestAvailable ::
    "float64 \<Rightarrow> float64 \<Rightarrow> int \<Rightarrow> int \<Rightarrow> ('m, Transport list) tx" where
  "TransportRepository_FindNearestAvailable lat lng seats limit = pool_stmt (pg_int4 seats (reading (\<lambda>e d.
     if list_ex (\<lambda>(k, r). t_status r = TransportAvailable \<and> \<not> int4_ok (t_seats_taken r + seats)) (transports d)
     then Inl out_of_range
     else map_sum id (map (\<lambda>(k, r). (scanTransport (k, r))
         \<lparr>tp_DistanceMeters := Fin (st_distance e (t_lat r, t_lng r) (lat, lng))\<rparr>))
       (pg_page limit 0
         (sort_key (\<lambda>(k, r). knn_distance e (t_lat r, t_lng r) (lat, lng))
           (filter (\<lambda>(k, r). seats_fit seats r) (transports d)))))))"

subsection \<open>Booking seats\<close>

definition take_seats :: "int \<Rightarrow> time \<Rightarrow> transport_row \<Rightarrow> transport_row" where
  "take_seats seats t r = r\<lparr>t_seats_taken := t_seats_taken r + seats, t_version := Suc (t_version r), t_updated_at := t\<rparr>"

definition book_if_room :: "int \<Rightarrow> uuid \<Rightarrow> nat stmt" where
  "book_if_room seats k = (\<lambda>e n t d. case sel (transports d) k of
     None \<Rightarrow> Inr (0, d, {})
   | Some r \<Rightarrow> if t_status r \<noteq> TransportAvailable then Inr (0, d, {})
       else case int4_add (t_seats_taken r) seats of
         Inl err \<Rightarrow> Inl err
       | Inr sum_seats \<Rightarrow> if sum_seats \<le> t_capacity r
           then if transport_row_ok (take_seats seats t r)
             then Inr (1, d\<lparr>transports := upd k (take_seats seats t) (transports d)\<rparr>, {RowTransport k})
             else Inl check_violation
           else Inr (0, d, {}))"

text \<open>No row updated: the transaction reads the vehicle again to say why.\<close>

definition claim_refusal :: "string \<Rightarrow> ('m, unit) tx" where
  "claim_refusal transportID = bind
     (tx_stmt (cast_uuid transportID (\<lambda>k. reading (\<lambda>e d.
        map_sum id (\<lambda>r. (t_status r, t_seats_taken r, t_capacity r)) (one_row (sel (transports d) k))))))
     (\<lambda>res. case res of
        Inl e \<Rightarrow> if errors_Is e ErrNoRows then throw (E Transport_ErrTransportNotFound) else throw e
      | Inr (status, taken, capacity) \<Rightarrow>
          if status \<noteq> TransportAvailable then throw (E Transport_ErrTransportUnavailable)
          else throw (E Transport_ErrInsufficientSeats))"

definition claim_seats :: "string \<Rightarrow> int \<Rightarrow> ('m, unit) tx" where
  "claim_seats transportID seats = bindE
     (tx_stmt (pg_int4 seats (cast_uuid transportID (book_if_room seats)))) (\<lambda>affected.
     if affected = 0 then claim_refusal transportID else ok ())"

definition new_booking :: "uuid \<Rightarrow> uuid \<Rightarrow> int \<Rightarrow> time \<Rightarrow> booking_row" where
  "new_booking tk i seats t = \<lparr>b_transport_id = tk, b_incident_id = i, b_seats = seats, b_status = BookingBooked,
     b_created_at = t, b_updated_at = t\<rparr>"

definition insert_booking :: "string \<Rightarrow> string \<Rightarrow> int \<Rightarrow> ('m, Booking) tx" where
  "insert_booking transportID incidentID seats = tx_stmt (pg_int4 seats (cast_uuid transportID (\<lambda>tk.
     cast_uuid incidentID (\<lambda>i e n t d.
       let k = gen_uuid e n; r = new_booking tk i seats t
       in if \<not> booking_row_ok r then Inl check_violation
          else if sel (transport_bookings d) k \<noteq> None then Inl unique_violation
          else if \<not> booking_fk d r then Inl foreign_key_violation
          else Inr (scanBooking (k, r), d\<lparr>transport_bookings := ins k r (transport_bookings d)\<rparr>, {RowBooking k})))))"

definition booked_payload :: "Booking \<Rightarrow> Transport \<Rightarrow> payload" where
  "booked_payload b tp = [(''bookingId'', JStr (bk_ID b)), (''transportId'', JStr (bk_TransportID b)),
     (''incidentId'', JStr (bk_IncidentID b)), (''seats'', JInt (bk_Seats b)), (''seatsTaken'', JInt (tp_SeatsTaken tp))]"

definition book_body :: "'m TransportRepository \<Rightarrow> string \<Rightarrow> string \<Rightarrow> int \<Rightarrow> ('m, Booking \<times> Transport) tx" where
  "book_body R transportID incidentID seats =
     bindE (tx_stmt (cast_uuid incidentID (\<lambda>i. reading (\<lambda>e d. Inr (sel (incidents d) i \<noteq> None))))) (\<lambda>incExists.
       if \<not> incExists then throw (E Transport_ErrIncidentNotFound)
       else bindE (claim_seats transportID seats) (\<lambda>_.
         bindE (insert_booking transportID incidentID seats) (\<lambda>b.
           bindE (tx_stmt (transport_by_id transportID)) (\<lambda>tp.
             bindE (WriteTx (tr_events R) AggregateTransport (bk_ID b) EventTransportBooked (booked_payload b tp))
               (\<lambda>_. ok (b, tp))))))"

definition TransportRepository_BookSeats ::
    "'m TransportRepository \<Rightarrow> string \<Rightarrow> string \<Rightarrow> int \<Rightarrow> ('m, Booking \<times> Transport) tx" where
  "TransportRepository_BookSeats R transportID incidentID seats = in_tx (book_body R transportID incidentID seats)"

subsection \<open>Cancelling a booking\<close>

definition cancel_row :: "time \<Rightarrow> booking_row \<Rightarrow> booking_row" where
  "cancel_row t r = r\<lparr>b_status := BookingCancelled, b_updated_at := t\<rparr>"

definition release_seats :: "int \<Rightarrow> time \<Rightarrow> transport_row \<Rightarrow> transport_row" where
  "release_seats seats t r = r\<lparr>t_seats_taken := max (t_seats_taken r - seats) 0, t_version := Suc (t_version r),
     t_updated_at := t\<rparr>"

definition claim_cancel :: "string \<Rightarrow> ('m, Booking) tx" where
  "claim_cancel bookingID = bind
     (tx_stmt (cast_uuid bookingID (\<lambda>k e n t d. case sel (transport_bookings d) k of
        Some r \<Rightarrow> if b_status r = BookingBooked
          then Inr (scanBooking (k, cancel_row t r),
                    d\<lparr>transport_bookings := upd k (cancel_row t) (transport_bookings d)\<rparr>, {RowBooking k})
          else Inl ErrNoRows
      | None \<Rightarrow> Inl ErrNoRows)))
     (\<lambda>res. case res of
        Inl err \<Rightarrow>
          if errors_Is err ErrNoRows
          then bindE (tx_stmt (cast_uuid bookingID (\<lambda>k. reading (\<lambda>e d. Inr (sel (transport_bookings d) k \<noteq> None)))))
            (\<lambda>exists. if \<not> exists then throw (E Transport_ErrBookingNotFound) else throw (E Transport_ErrBookingNotActive))
          else throw err
      | Inr b \<Rightarrow> ok b)"

definition refund_seats :: "string \<Rightarrow> int \<Rightarrow> ('m, unit) tx" where
  "refund_seats transportID seats = tx_stmt (pg_int4 seats (cast_uuid transportID (\<lambda>k e n t d.
     case sel (transports d) k of
       None \<Rightarrow> Inr ((), d, {})
     | Some r \<Rightarrow> if transport_row_ok (release_seats seats t r)
         then Inr ((), d\<lparr>transports := upd k (release_seats seats t) (transports d)\<rparr>, {RowTransport k})
         else Inl check_violation)))"

definition released_payload :: "Booking \<Rightarrow> Transport \<Rightarrow> payload" where
  "released_payload b tp = [(''bookingId'', JStr (bk_ID b)), (''transportId'', JStr (bk_TransportID b)),
     (''seats'', JInt (bk_Seats b)), (''seatsTaken'', JInt (tp_SeatsTaken tp))]"

definition cancel_body :: "'m TransportRepository \<Rightarrow> string \<Rightarrow> ('m, Booking \<times> Transport) tx" where
  "cancel_body R bookingID = bindE (claim_cancel bookingID) (\<lambda>b.
     bindE (refund_seats (bk_TransportID b) (bk_Seats b)) (\<lambda>_.
       bindE (tx_stmt (transport_by_id (bk_TransportID b))) (\<lambda>tp.
         bindE (WriteTx (tr_events R) AggregateTransport (bk_ID b) EventTransportReleased (released_payload b tp))
           (\<lambda>_. ok (b, tp)))))"

definition TransportRepository_CancelBooking ::
    "'m TransportRepository \<Rightarrow> string \<Rightarrow> ('m, Booking \<times> Transport) tx" where
  "TransportRepository_CancelBooking R bookingID = in_tx (cancel_body R bookingID)"

definition TransportRepository_ListBookings :: "string \<Rightarrow> int \<Rightarrow> ('m, Booking list) tx" where
  "TransportRepository_ListBookings incidentID limit = pool_stmt (cast_uuid incidentID (\<lambda>i. reading (\<lambda>e d.
     map_sum id (map scanBooking) (pg_page limit 0
       (sort_key (\<lambda>(k, r). - b_created_at r) (filter (\<lambda>(k, r). b_incident_id r = i) (transport_bookings d)))))))"

section \<open>The service\<close>

record CreateTransportInput =
  cti_CallSign :: string
  cti_Kind :: string
  cti_Capacity :: int
  cti_Latitude :: float64
  cti_Longitude :: float64

definition TransportService_Create :: "CreateTransportInput \<Rightarrow> ('m, Transport) tx" where
  "TransportService_Create i =
     (if \<not> transport_validKinds (cti_Kind i) then throw (E Transport_ErrInvalidKind)
      else if cti_Capacity i \<le> 0 then throw (E Transport_ErrInvalidCapacity)
      else case ValidateLatLng (cti_Latitude i) (cti_Longitude i) of
        Inl err \<Rightarrow> throw err
      | Inr _ \<Rightarrow> bind
          (TransportRepository_Create \<lparr>tp_ID = '''', tp_CallSign = cti_CallSign i, tp_Kind = cti_Kind i,
             tp_Capacity = cti_Capacity i, tp_SeatsTaken = 0, tp_Status = '''', tp_Latitude = cti_Latitude i,
             tp_Longitude = cti_Longitude i, tp_Version = 0, tp_CreatedAt = 0, tp_UpdatedAt = 0, tp_SeatsFree = 0,
             tp_DistanceMeters = Fin 0\<rparr>)
          (\<lambda>res. case res of
             Inl err \<Rightarrow> if pg_code_is ''23505'' err then throw (E Transport_ErrDuplicateCallSign)
               else throw (Wrapped (''create transport: '' @ err_Error err) err)
           | Inr tp \<Rightarrow> ok tp))"

definition TransportService_GetByID :: "string \<Rightarrow> ('m, Transport) tx" where
  "TransportService_GetByID x = bind (TransportRepository_GetByID x) (\<lambda>res. case res of
     Inl err \<Rightarrow> if errors_Is err ErrNoRows then throw (E Transport_ErrTransportNotFound) else throw err
   | Inr tp \<Rightarrow> ok tp)"

definition TransportService_List :: "string \<Rightarrow> string \<Rightarrow> int \<Rightarrow> int \<Rightarrow> ('m, Transport list) tx" where
  "TransportService_List status kind limit offset =
     (if status \<noteq> '''' \<and> \<not> transport_validStatuses status then throw (E Transport_ErrInvalidStatus)
      else if kind \<noteq> '''' \<and> \<not> transport_validKinds kind then throw (E Transport_ErrInvalidKind)
      else TransportRepository_List status kind limit offset)"

definition TransportService_FindNearest :: "float64 \<Rightarrow> float64 \<Rightarrow> int \<Rightarrow> int \<Rightarrow> ('m, Transport list) tx" where
  "TransportService_FindNearest lat lng seats limit =
     (if seats \<le> 0 then throw (E Transport_ErrInvalidSeats)
      else case ValidateLatLng lat lng of
        Inl err \<Rightarrow> throw err
      | Inr _ \<Rightarrow>
          let limit = (if limit \<le> 0 \<or> limit > 50 then 5 else limit)
          in TransportRepository_FindNearestAvailable lat lng seats limit)"

definition TransportService_Book ::
    "'m TransportRepository \<Rightarrow> string \<Rightarrow> string \<Rightarrow> int \<Rightarrow> ('m, Booking \<times> Transport) tx" where
  "TransportService_Book R transportID incidentID seats =
     (if seats \<le> 0 then throw (E Transport_ErrInvalidSeats)
      else TransportRepository_BookSeats R transportID incidentID seats)"

definition TransportService_Cancel :: "'m TransportRepository \<Rightarrow> string \<Rightarrow> ('m, Booking \<times> Transport) tx" where
  "TransportService_Cancel R bookingID = TransportRepository_CancelBooking R bookingID"

definition TransportService_ListBookings :: "string \<Rightarrow> int \<Rightarrow> ('m, Booking list) tx" where
  "TransportService_ListBookings incidentID limit = TransportRepository_ListBookings incidentID limit"

section \<open>The handlers\<close>

record CreateTransportRequest =
  ctr_CallSign :: string
  ctr_Kind :: string
  ctr_Capacity :: int
  ctr_Latitude :: float64
  ctr_Longitude :: float64

definition TransportHandler_Create ::
    "go_error + CreateTransportRequest \<Rightarrow> ('m world_scheme, Transport response) script" where
  "TransportHandler_Create body = (case body of
     Inl err \<Rightarrow> Done (common_Error 400 (err_Error err) ''VALIDATION_ERROR'')
   | Inr req \<Rightarrow> respond
       (TransportService_Create \<lparr>cti_CallSign = ctr_CallSign req, cti_Kind = ctr_Kind req,
          cti_Capacity = ctr_Capacity req, cti_Latitude = ctr_Latitude req, cti_Longitude = ctr_Longitude req\<rparr>)
       (\<lambda>err. if errors_Is err (E Transport_ErrInvalidKind) \<or> errors_Is err (E Transport_ErrInvalidCapacity)
                \<or> errors_Is err (E Geo_ErrInvalidCoordinates)
              then common_Error 400 (err_Error err) ''VALIDATION_ERROR''
              else if errors_Is err (E Transport_ErrDuplicateCallSign)
              then common_Error 409 ''call sign already exists'' ''CONFLICT''
              else common_Error 500 ''could not create transport'' ''INTERNAL_ERROR'')
       (\<lambda>tp. common_Success 201 ''transport created'' tp))"

definition TransportHandler_List :: "query \<Rightarrow> ('m world_scheme, Transport list response) script" where
  "TransportHandler_List q = respond
     (TransportService_List (q ''status'') (q ''kind'')
        (ClampInt (q ''limit'') 20 1 100) (ClampInt (q ''offset'') 0 0 100000))
     (\<lambda>err. if errors_Is err (E Transport_ErrInvalidStatus) \<or> errors_Is err (E Transport_ErrInvalidKind)
            then common_Error 400 (err_Error err) ''VALIDATION_ERROR''
            else common_Error 500 ''could not list transports'' ''INTERNAL_ERROR'')
     (\<lambda>ts. common_Success 200 ''transports'' ts)"

definition TransportHandler_GetByID :: "string \<Rightarrow> ('m world_scheme, Transport response) script" where
  "TransportHandler_GetByID x = respond (TransportService_GetByID x)
     (\<lambda>err. if errors_Is err (E Transport_ErrTransportNotFound)
            then common_Error 404 ''transport not found'' ''NOT_FOUND''
            else common_Error 500 ''could not fetch transport'' ''INTERNAL_ERROR'')
     (\<lambda>tp. common_Success 200 ''transport'' tp)"

text \<open>\<open>strconv.ParseFloat\<close> is an argument, as in the incident handler.\<close>

definition TransportHandler_Nearest ::
    "(string \<Rightarrow> float64 option) \<Rightarrow> query \<Rightarrow> ('m world_scheme, (int \<times> Transport list) response) script" where
  "TransportHandler_Nearest ParseFloat q =
     (case (ParseFloat (q ''lat''), ParseFloat (q ''lng'')) of
        (Some lat, Some lng) \<Rightarrow>
          let seats = ClampInt (q ''seats'') 1 1 500
          in respond (TransportService_FindNearest lat lng seats (ClampInt (q ''limit'') 5 1 50))
            (\<lambda>err. if errors_Is err (E Geo_ErrInvalidCoordinates) \<or> errors_Is err (E Transport_ErrInvalidSeats)
                   then common_Error 400 (err_Error err) ''VALIDATION_ERROR''
                   else common_Error 500 ''could not search transports'' ''INTERNAL_ERROR'')
            (\<lambda>ts. common_Success 200 ''nearest transports with room'' (seats, ts))
      | _ \<Rightarrow> Done (common_Error 400 ''lat and lng are required'' ''VALIDATION_ERROR''))"

record BookRequest =
  br_TransportID :: string
  br_Seats :: int

definition TransportHandler_Book :: "'m TransportRepository \<Rightarrow> string \<Rightarrow> go_error + BookRequest
    \<Rightarrow> ('m world_scheme, (Booking \<times> Transport) response) script" where
  "TransportHandler_Book R x body = (case body of
     Inl err \<Rightarrow> Done (common_Error 400 ''transportId and seats are required'' ''VALIDATION_ERROR'')
   | Inr req \<Rightarrow> respond (TransportService_Book R (br_TransportID req) x (br_Seats req))
       (\<lambda>err. if errors_Is err (E Transport_ErrTransportNotFound)
              then common_Error 404 ''transport not found'' ''NOT_FOUND''
              else if errors_Is err (E Transport_ErrIncidentNotFound)
              then common_Error 404 ''incident not found'' ''NOT_FOUND''
              else if errors_Is err (E Transport_ErrTransportUnavailable)
              then common_Error 409 ''transport is not available'' ''CONFLICT''
              else if errors_Is err (E Transport_ErrInsufficientSeats)
              then common_Error 409 ''not enough free seats'' ''CONFLICT''
              else if errors_Is err (E Transport_ErrInvalidSeats)
              then common_Error 400 ''seats must be positive'' ''VALIDATION_ERROR''
              else common_Error 500 ''could not book seats'' ''INTERNAL_ERROR'')
       (\<lambda>bt. common_Success 201 ''seats booked'' bt))"

definition TransportHandler_Cancel ::
    "'m TransportRepository \<Rightarrow> string \<Rightarrow> ('m world_scheme, (Booking \<times> Transport) response) script" where
  "TransportHandler_Cancel R x = respond (TransportService_Cancel R x)
     (\<lambda>err. if errors_Is err (E Transport_ErrBookingNotFound)
            then common_Error 404 ''booking not found'' ''NOT_FOUND''
            else if errors_Is err (E Transport_ErrBookingNotActive)
            then common_Error 409 ''booking is not active'' ''CONFLICT''
            else common_Error 500 ''could not cancel booking'' ''INTERNAL_ERROR'')
     (\<lambda>bt. common_Success 200 ''booking cancelled, seats released'' bt)"

definition TransportHandler_ListBookings :: "string \<Rightarrow> query \<Rightarrow> ('m world_scheme, Booking list response) script" where
  "TransportHandler_ListBookings x q = respond
     (TransportService_ListBookings x (ClampInt (q ''limit'') 20 1 100))
     (\<lambda>err. common_Error 500 ''could not list bookings'' ''INTERNAL_ERROR'')
     (\<lambda>bs. common_Success 200 ''transport bookings'' bs)"


end
