(* ===== verification/Transport_Props.thy ===== *)
theory Transport_Props
  imports Transports Sample
begin

text \<open>
  The properties of the seats: the books balance over every sequence of operations, a booking and a
  cancellation are exactly what they say on every branch, and seats come back once.
\<close>

section \<open>What a booking and a cancellation write\<close>

definition booked_state :: "uuid \<Rightarrow> uuid \<Rightarrow> uuid \<Rightarrow> int \<Rightarrow> int \<Rightarrow> transport_row \<Rightarrow> time \<Rightarrow> db \<Rightarrow> db" where
  "booked_state k tk i ek seats tr t d =
     add_event ek (new_event AggregateTransport k EventTransportBooked
       (booked_payload (scanBooking (k, new_booking tk i seats t)) (scanTransport (tk, take_seats seats t tr))) t)
     (d\<lparr>transports := upd tk (take_seats seats t) (transports d),
        transport_bookings := ins k (new_booking tk i seats t) (transport_bookings d)\<rparr>)"

definition fits :: "int \<Rightarrow> transport_row \<Rightarrow> bool" where
  "fits seats r \<longleftrightarrow> t_status r = TransportAvailable \<and> t_seats_taken r + seats \<le> t_capacity r"

definition books :: "env \<Rightarrow> time \<Rightarrow> db \<Rightarrow> string \<Rightarrow> string \<Rightarrow> int \<Rightarrow> Booking \<times> Transport \<Rightarrow> db \<Rightarrow> bool" where
  "books e t d x y seats res d' \<longleftrightarrow> (\<exists>k tk i ek tr. uuid_cast e x = Some tk \<and> uuid_cast e y = Some i
     \<and> sel (incidents d) i \<noteq> None \<and> sel (transports d) tk = Some tr \<and> fits seats tr
     \<and> transport_row_ok (take_seats seats t tr) \<and> booking_row_ok (new_booking tk i seats t)
     \<and> sel (transport_bookings d) k = None \<and> sel (outbox_events d) ek = None
     \<and> res = (scanBooking (k, new_booking tk i seats t), scanTransport (tk, take_seats seats t tr))
     \<and> d' = booked_state k tk i ek seats tr t d)"

definition cancelled_state :: "uuid \<Rightarrow> uuid \<Rightarrow> int \<Rightarrow> booking_row \<Rightarrow> transport_row \<Rightarrow> time \<Rightarrow> db \<Rightarrow> db" where
  "cancelled_state k tk ek b tr t d =
     add_event ek (new_event AggregateTransport k EventTransportReleased
       (released_payload (scanBooking (k, cancel_row t b))
         (scanTransport (tk, release_seats (b_seats b) t tr))) t)
     (d\<lparr>transport_bookings := upd k (cancel_row t) (transport_bookings d),
        transports := upd tk (release_seats (b_seats b) t) (transports d)\<rparr>)"

definition cancels :: "env \<Rightarrow> time \<Rightarrow> db \<Rightarrow> string \<Rightarrow> Booking \<times> Transport \<Rightarrow> db \<Rightarrow> bool" where
  "cancels e t d x res d' \<longleftrightarrow> (\<exists>k ek b tk tr. uuid_cast e x = Some k
     \<and> sel (transport_bookings d) k = Some b \<and> b_status b = BookingBooked
     \<and> uuid_cast e (b_transport_id b) = Some tk \<and> sel (transports d) tk = Some tr
     \<and> transport_row_ok (release_seats (b_seats b) t tr) \<and> sel (outbox_events d) ek = None
     \<and> res = (scanBooking (k, cancel_row t b), scanTransport (tk, release_seats (b_seats b) t tr))
     \<and> d' = cancelled_state k tk ek b tr t d)"

lemma transport_rows [simp]:
  "t_seats_taken (take_seats n t r) = t_seats_taken r + n" "t_capacity (take_seats n t r) = t_capacity r"
  "t_seats_taken (release_seats n t r) = max (t_seats_taken r - n) 0" "t_capacity (release_seats n t r) = t_capacity r"
  "t_status (take_seats n t r) = t_status r" "t_status (release_seats n t r) = t_status r"
  "b_seats (cancel_row t b) = b_seats b" "b_status (cancel_row t b) = BookingCancelled"
  "b_transport_id (cancel_row t b) = b_transport_id b" "b_incident_id (cancel_row t b) = b_incident_id b"
  "b_transport_id (new_booking tk i n t) = tk" "b_incident_id (new_booking tk i n t) = i"
  "b_seats (new_booking tk i n t) = n" "b_status (new_booking tk i n t) = BookingBooked"
  by (simp_all add: take_seats_def release_seats_def cancel_row_def new_booking_def)

subsection \<open>The statements\<close>

lemma claim_refusal_tx_only [simp]: "tx_only (claim_refusal x)"
  by (auto simp: claim_refusal_def intro!: tx_only_bind split: sum.split)

lemma seat_tx_only [simp]:
  "tx_only (claim_seats x n)" "tx_only (insert_booking x y n)" "tx_only (claim_cancel x)" "tx_only (refund_seats x n)"
  by (auto simp: claim_seats_def insert_booking_def claim_cancel_def refund_seats_def
      intro!: tx_only_bind tx_only_bindE split: sum.split)

lemma claim_refusal_Inr [simp]: "run (claim_refusal x) w \<noteq> (Inr u, w1)"
  by (auto simp: claim_refusal_def run_bind split: prod.splits sum.splits)

lemma book_if_room_Inr:
  "book_if_room n k e m t d = Inr (Suc x, d', ls) \<longleftrightarrow> x = 0 \<and> ls = {RowTransport k}
     \<and> (\<exists>r. sel (transports d) k = Some r \<and> fits n r \<and> int4_ok (t_seats_taken r + n)
          \<and> transport_row_ok (take_seats n t r) \<and> d' = d\<lparr>transports := upd k (take_seats n t) (transports d)\<rparr>)"
  by (auto simp: book_if_room_def int4_add_def fits_def split: option.split)

lemma claim_seats_Inr:
  assumes "run (claim_seats x n) w = (Inr (), w1)"
  shows "\<exists>tk tr. uuid_cast (wenv w) x = Some tk \<and> sel (transports (view w)) tk = Some tr \<and> fits n tr
    \<and> transport_row_ok (take_seats n (txnow w) tr)
    \<and> view w1 = (view w)\<lparr>transports := upd tk (take_seats n (txnow w)) (transports (view w))\<rparr>"
proof -
  from assms obtain a w2 where s: "run (tx_stmt (pg_int4 n (cast_uuid x (book_if_room n)))) w = (Inr a, w2)"
    and a: "run (if a = 0 then claim_refusal x else ok ()) w2 = (Inr (), w1)"
    unfolding claim_seats_def by (auto simp: run_bindE_Inr)
  from a claim_refusal_Inr [of x w2] obtain m where m: "a = Suc m" "w1 = w2"
    by (cases a) auto
  from s [unfolded m(1)] obtain tk d ls where "uuid_cast (wenv w) x = Some tk"
    and b: "book_if_room n tk (wenv w) (pc w) (txnow w) (view w) = Inr (Suc m, d, ls)" and w2: "view w2 = d"
    by (auto simp: tx_stmt_Inr pg_int4_Inr cast_uuid_Inr)
  with b [unfolded book_if_room_Inr] m show ?thesis by auto
qed

lemma insert_booking_Inr:
  assumes "run (insert_booking x y n) w = (Inr b, w1)"
  shows "\<exists>k tk i. uuid_cast (wenv w) x = Some tk \<and> uuid_cast (wenv w) y = Some i
    \<and> booking_row_ok (new_booking tk i n (txnow w)) \<and> sel (transport_bookings (view w)) k = None
    \<and> booking_fk (view w) (new_booking tk i n (txnow w))
    \<and> (\<exists>m. k = gen_uuid (wenv w) m)
    \<and> b = scanBooking (k, new_booking tk i n (txnow w))
    \<and> view w1 = (view w)\<lparr>transport_bookings := ins k (new_booking tk i n (txnow w)) (transport_bookings (view w))\<rparr>"
  using assms
  by (auto simp: insert_booking_def tx_stmt_Inr pg_int4_Inr cast_uuid_Inr Let_def split: if_splits)

lemma claim_cancel_Inr:
  assumes "run (claim_cancel x) w = (Inr b, w1)"
  shows "\<exists>k r. uuid_cast (wenv w) x = Some k \<and> sel (transport_bookings (view w)) k = Some r
    \<and> b_status r = BookingBooked \<and> b = scanBooking (k, cancel_row (txnow w) r)
    \<and> view w1 = (view w)\<lparr>transport_bookings := upd k (cancel_row (txnow w)) (transport_bookings (view w))\<rparr>"
  using assms
  by (auto simp: claim_cancel_def run_bind run_bindE tx_stmt_Inr cast_uuid_Inr
      split: prod.splits sum.splits if_splits option.splits)

lemma refund_seats_Inr:
  assumes "run (refund_seats x n) w = (Inr (), w1)" and "uuid_cast (wenv w) x = Some tk"
    and "sel (transports (view w)) tk = Some tr"
  shows "transport_row_ok (release_seats n (txnow w) tr)
    \<and> view w1 = (view w)\<lparr>transports := upd tk (release_seats n (txnow w)) (transports (view w))\<rparr>"
  using assms
  by (auto simp: refund_seats_def tx_stmt_Inr pg_int4_Inr cast_uuid_Inr split: if_splits)

lemma refund_seats_absent:
  assumes "run (refund_seats x n) w = (Inr (), w1)" and "uuid_cast (wenv w) x = Some tk"
    and "sel (transports (view w)) tk = None"
  shows "view w1 = view w"
  using assms
  by (auto simp: refund_seats_def tx_stmt_Inr pg_int4_Inr cast_uuid_Inr split: if_splits)

lemma refund_seats_cast: "run (refund_seats x n) w = (Inr (), w1) \<Longrightarrow> \<exists>tk. uuid_cast (wenv w) x = Some tk"
  by (auto simp: refund_seats_def tx_stmt_Inr pg_int4_Inr cast_uuid_Inr)

lemma transport_by_id_Inr:
  assumes "run (tx_stmt (transport_by_id x)) w = (Inr tp, w1)"
  shows "\<exists>tk tr. uuid_cast (wenv w) x = Some tk \<and> sel (transports (view w)) tk = Some tr
    \<and> tp = scanTransport (tk, tr) \<and> view w1 = view w"
  using assms
  by (auto simp: transport_by_id_def tx_stmt_Inr cast_uuid_Inr reading_Inr one_row_def split: option.splits)

section \<open>The bodies, over any event writer\<close>

locale transport_deps =
  writer: event_writer "tr_events R" for R :: "'m TransportRepository"
begin

lemma seat_bodies_tx_only [simp]: "tx_only (book_body R x y n)" "tx_only (cancel_body R x)"
  unfolding book_body_def cancel_body_def by (auto intro!: tx_only_bindE)

lemma book_body_Inr:
  assumes "run (book_body R x y n) w = (Inr res, w')" and "uuid_ok (wenv w)"
  shows "books (wenv w) (txnow w) (view w) x y n res (view w')"
proof -
  let ?e = "wenv w" and ?t = "txnow w"
  from assms(1) obtain w0 w1 w2 w3 b tp where
    x: "run (tx_stmt (cast_uuid y (\<lambda>i. reading (\<lambda>e d. Inr (sel (incidents d) i \<noteq> None))))) w = (Inr True, w0)"
    and c: "run (claim_seats x n) w0 = (Inr (), w1)"
    and i: "run (insert_booking x y n) w1 = (Inr b, w2)"
    and g: "run (tx_stmt (transport_by_id x)) w2 = (Inr tp, w3)"
    and e: "run (WriteTx (tr_events R) AggregateTransport (bk_ID b) EventTransportBooked (booked_payload b tp)) w3
        = (Inr (), w')"
    and res: "res = (b, tp)"
    unfolding book_body_def by (auto simp: run_bindE_Inr run_guard)
  from x obtain i where y: "uuid_cast ?e y = Some i" "sel (incidents (view w)) i \<noteq> None"
    and w0: "view w0 = view w" "wenv w0 = ?e" "txnow w0 = ?t"
    by (auto simp: tx_stmt_Inr cast_uuid_Inr reading_Inr)
  from tx_onlyD [OF seat_tx_only(1) c] w0 have f1: "wenv w1 = ?e" "txnow w1 = ?t" by simp_all
  from tx_onlyD [OF seat_tx_only(2) i] f1 have f2: "wenv w2 = ?e" "txnow w2 = ?t" by simp_all
  from tx_onlyD [OF tx_only_tx_stmt g] f2 have f3: "wenv w3 = ?e" "txnow w3 = ?t" by simp_all
  from claim_seats_Inr [OF c] w0 obtain tk tr where tk: "uuid_cast ?e x = Some tk" "sel (transports (view w)) tk = Some tr"
    "fits n tr" "transport_row_ok (take_seats n ?t tr)"
    and v1: "view w1 = (view w)\<lparr>transports := upd tk (take_seats n ?t) (transports (view w))\<rparr>" by auto
  from insert_booking_Inr [OF i] tk y f1 v1 obtain m where
    bk: "booking_row_ok (new_booking tk i n ?t)" "sel (transport_bookings (view w)) (gen_uuid ?e m) = None"
    and b: "b = scanBooking (gen_uuid ?e m, new_booking tk i n ?t)"
    and v2: "view w2 = (view w1)\<lparr>transport_bookings :=
        ins (gen_uuid ?e m) (new_booking tk i n ?t) (transport_bookings (view w))\<rparr>" by auto
  from transport_by_id_Inr [OF g] f2 tk v1 v2 have tp: "tp = scanTransport (tk, take_seats n ?t tr)"
    and v3: "view w3 = view w2" by auto
  have "uuid_cast ?e (gen_uuid ?e m) = Some (gen_uuid ?e m)" using assms(2) by (simp add: uuid_ok_def)
  with writer.write_ok [OF e] f3 b v1 v2 v3 obtain ek where "sel (outbox_events (view w)) ek = None"
    "view w' = add_event ek (new_event AggregateTransport (gen_uuid ?e m) EventTransportBooked
       (booked_payload b tp) ?t) (view w2)" by (auto simp: add_event_def)
  with tk y bk b tp v1 v2 res show ?thesis
    unfolding books_def booked_state_def
    by (intro exI [of _ "gen_uuid ?e m"] exI [of _ tk] exI [of _ i] exI [of _ ek] exI [of _ tr]) auto
qed

lemma cancel_body_Inr:
  assumes "run (cancel_body R x) w = (Inr res, w')" and "uuid_ok (wenv w)"
  shows "cancels (wenv w) (txnow w) (view w) x res (view w')"
proof -
  let ?e = "wenv w" and ?t = "txnow w"
  from assms(1) obtain w1 w2 w3 b tp where
    c: "run (claim_cancel x) w = (Inr b, w1)"
    and r: "run (refund_seats (bk_TransportID b) (bk_Seats b)) w1 = (Inr (), w2)"
    and g: "run (tx_stmt (transport_by_id (bk_TransportID b))) w2 = (Inr tp, w3)"
    and e: "run (WriteTx (tr_events R) AggregateTransport (bk_ID b) EventTransportReleased (released_payload b tp)) w3
        = (Inr (), w')"
    and res: "res = (b, tp)"
    unfolding cancel_body_def by (auto simp: run_bindE_Inr)
  from tx_onlyD [OF seat_tx_only(3) c] have f1: "wenv w1 = ?e" "txnow w1 = ?t" by simp_all
  from tx_onlyD [OF seat_tx_only(4) r] f1 have f2: "wenv w2 = ?e" "txnow w2 = ?t" by simp_all
  from tx_onlyD [OF tx_only_tx_stmt g] f2 have f3: "wenv w3 = ?e" "txnow w3 = ?t" by simp_all
  from claim_cancel_Inr [OF c] obtain k br where k: "uuid_cast ?e x = Some k"
    "sel (transport_bookings (view w)) k = Some br" "b_status br = BookingBooked"
    and b: "b = scanBooking (k, cancel_row ?t br)"
    and v1: "view w1 = (view w)\<lparr>transport_bookings := upd k (cancel_row ?t) (transport_bookings (view w))\<rparr>" by auto
  from refund_seats_cast [OF r] f1 b obtain tk where tk: "uuid_cast ?e (b_transport_id br) = Some tk" by auto
  from transport_by_id_Inr [OF g] f2 tk b obtain tr' where tr': "sel (transports (view w2)) tk = Some tr'"
    "tp = scanTransport (tk, tr')" "view w3 = view w2" by auto
  obtain tr where tr: "sel (transports (view w)) tk = Some tr"
    using refund_seats_absent [OF r, of tk] tk tr'(1) b f1 v1 by (cases "sel (transports (view w)) tk") auto
  from refund_seats_Inr [OF r, of tk tr] tk tr b f1 v1 have ok: "transport_row_ok (release_seats (b_seats br) ?t tr)"
    and v2: "view w2 = (view w1)\<lparr>transports := upd tk (release_seats (b_seats br) ?t) (transports (view w))\<rparr>" by auto
  have tp: "tp = scanTransport (tk, release_seats (b_seats br) ?t tr)" using tr' tr v2 by simp
  have "uuid_cast ?e k = Some k" using assms(2) k(1) by (auto simp: uuid_ok_def)
  with writer.write_ok [OF e] f3 b v1 v2 tr'(3) obtain ek where "sel (outbox_events (view w)) ek = None"
    "view w' = add_event ek (new_event AggregateTransport k EventTransportReleased (released_payload b tp) ?t) (view w2)"
    by (auto simp: add_event_def)
  with k tk tr ok b tp v1 v2 res show ?thesis
    unfolding cancels_def cancelled_state_def
    by (intro exI [of _ k] exI [of _ ek] exI [of _ br] exI [of _ tk] exI [of _ tr]) auto
qed

lemma BookSeats_all_or_nothing:
  assumes "run (TransportRepository_BookSeats R x y n) w = (res, w')" and "uuid_ok (wenv w)"
  shows "all_or_nothing (books (wenv w) (clock (wenv w) (pc w)) (base w) x y n) w res w'"
  by (rule in_tx_all_or_nothing [OF assms(1) [unfolded TransportRepository_BookSeats_def] seat_bodies_tx_only(1)])
    (use book_body_Inr assms(2) in force)

lemma CancelBooking_all_or_nothing:
  assumes "run (TransportRepository_CancelBooking R x) w = (res, w')" and "uuid_ok (wenv w)"
  shows "all_or_nothing (cancels (wenv w) (clock (wenv w) (pc w)) (base w) x) w res w'"
  by (rule in_tx_all_or_nothing [OF assms(1) [unfolded TransportRepository_CancelBooking_def] seat_bodies_tx_only(2)])
    (use cancel_body_Inr assms(2) in force)

end

definition server_transports :: "'m TransportRepository" where
  "server_transports = \<lparr>tr_events = OutboxRepository_writer\<rparr>"

interpretation server_t: transport_deps server_transports
  unfolding server_transports_def transport_deps_def by (simp add: outbox_repo.event_writer_axioms)

section \<open>The books balance\<close>

definition holds_seats :: "uuid \<Rightarrow> booking_row \<Rightarrow> bool" where
  "holds_seats tk b \<longleftrightarrow> b_transport_id b = tk \<and> b_status b = BookingBooked"

text \<open>The seats taken on a vehicle are the seats of its live bookings and fit its capacity; every
  booking is well formed, on a vehicle that exists, whose id is stored in canonical form.\<close>

definition seats_inv :: "env \<Rightarrow> db \<Rightarrow> bool" where
  "seats_inv e d \<longleftrightarrow> pkey (transports d) \<and> pkey (transport_bookings d)
     \<and> (\<forall>tk r. sel (transports d) tk = Some r \<longrightarrow> transport_row_ok r
          \<and> t_seats_taken r = sum_rows (holds_seats tk) b_seats (transport_bookings d))
     \<and> (\<forall>k b. sel (transport_bookings d) k = Some b \<longrightarrow> booking_row_ok b
          \<and> sel (transports d) (b_transport_id b) \<noteq> None \<and> uuid_cast e (b_transport_id b) = Some (b_transport_id b))"

lemma seats_inv_empty: "seats_inv e empty_db"
  by (simp add: seats_inv_def empty_db_def)

lemma booked_state_simps [simp]:
  "transports (booked_state k tk i ek n tr t d) = upd tk (take_seats n t) (transports d)"
  "transport_bookings (booked_state k tk i ek n tr t d) = ins k (new_booking tk i n t) (transport_bookings d)"
  "transports (cancelled_state k tk ek b tr t d) = upd tk (release_seats (b_seats b) t) (transports d)"
  "transport_bookings (cancelled_state k tk ek b tr t d) = upd k (cancel_row t) (transport_bookings d)"
  by (simp_all add: booked_state_def cancelled_state_def add_event_def)

lemma books_inv:
  assumes "books e t d x y n res d'" and inv: "seats_inv e d" and "uuid_ok e"
  shows "seats_inv e d'"
proof -
  from assms(1) obtain k tk i ek tr where tk: "uuid_cast e x = Some tk" "sel (transports d) tk = Some tr"
    "transport_row_ok (take_seats n t tr)" "booking_row_ok (new_booking tk i n t)" "sel (transport_bookings d) k = None"
    and d': "d' = booked_state k tk i ek n tr t d" by (auto simp: books_def)
  from assms(3) tk(1) have c: "uuid_cast e tk = Some tk" by (auto simp: uuid_ok_def)
  have "transport_row_ok r \<and> t_seats_taken r = sum_rows (holds_seats tk') b_seats (transport_bookings d')"
    if "sel (transports d') tk' = Some r" for tk' r
    using that inv tk d' by (cases "tk' = tk") (auto simp: seats_inv_def holds_seats_def)
  moreover have "booking_row_ok b \<and> sel (transports d') (b_transport_id b) \<noteq> None
      \<and> uuid_cast e (b_transport_id b) = Some (b_transport_id b)"
    if "sel (transport_bookings d') k' = Some b" for k' b
    using that inv tk d' c by (cases "k' = k") (auto simp: seats_inv_def)
  ultimately show ?thesis using inv d' tk(5) unfolding seats_inv_def by (auto intro: pkey_ins)
qed

text \<open>A live booking's seats are among those taken, so giving them back never falls below zero.\<close>

lemma live_seats_taken:
  assumes inv: "seats_inv e d" and b: "sel (transport_bookings d) k = Some b" "b_status b = BookingBooked"
    and "sel (transports d) (b_transport_id b) = Some tr"
  shows "b_seats b \<le> t_seats_taken tr"
proof -
  let ?f = "\<lambda>r. r\<lparr>b_status := BookingCancelled\<rparr>" and ?tk = "b_transport_id b"
  have p: "pkey (transport_bookings d)" and q: "\<And>k b. (k, b) \<in> set (transport_bookings d) \<Longrightarrow> 0 < b_seats b"
    using inv by (auto simp: seats_inv_def booking_row_ok_def in_iff_sel)
  have "0 \<le> sum_rows (holds_seats ?tk) b_seats (upd k ?f (transport_bookings d))"
    by (rule sum_rows_nonneg) (use q p in \<open>auto simp: upd_def intro: less_imp_le split: if_splits\<close>)
  also have "\<dots> = sum_rows (holds_seats ?tk) b_seats (transport_bookings d) - b_seats b"
    using sum_rows_upd [OF p b(1), of "holds_seats ?tk" b_seats ?f] b(2) by (simp add: holds_seats_def)
  finally show ?thesis using inv assms(4) by (auto simp: seats_inv_def)
qed

lemma cancels_inv:
  assumes "cancels e t d x res d'" and inv: "seats_inv e d"
  shows "seats_inv e d'"
proof -
  from assms(1) obtain k ek b tk tr where b: "sel (transport_bookings d) k = Some b" "b_status b = BookingBooked"
    and tk: "uuid_cast e (b_transport_id b) = Some tk" "sel (transports d) tk = Some tr"
    "transport_row_ok (release_seats (b_seats b) t tr)"
    and d': "d' = cancelled_state k tk ek b tr t d" by (auto simp: cancels_def)
  from inv b tk have tkb: "tk = b_transport_id b" and p: "pkey (transport_bookings d)" by (auto simp: seats_inv_def)
  have le: "b_seats b \<le> t_seats_taken tr" using live_seats_taken [OF inv b] tk(2) tkb by simp
  have s: "sum_rows (holds_seats tk') b_seats (transport_bookings d')
      = sum_rows (holds_seats tk') b_seats (transport_bookings d) - (if tk' = tk then b_seats b else 0)" for tk'
    using sum_rows_upd [OF p b(1), of "holds_seats tk'" b_seats "cancel_row t"] b d' tkb by (auto simp: holds_seats_def)
  have "transport_row_ok r \<and> t_seats_taken r = sum_rows (holds_seats tk') b_seats (transport_bookings d')"
    if "sel (transports d') tk' = Some r" for tk' r
    using that inv tk d' le s [of tk'] by (cases "tk' = tk") (auto simp: seats_inv_def)
  moreover have "booking_row_ok b' \<and> sel (transports d') (b_transport_id b') \<noteq> None
      \<and> uuid_cast e (b_transport_id b') = Some (b_transport_id b')"
    if "sel (transport_bookings d') k' = Some b'" for k' b'
    using that inv b d' by (cases "k' = k") (auto simp: seats_inv_def booking_row_ok_def all_booking_status_def)
  ultimately show ?thesis using inv d' unfolding seats_inv_def by auto
qed


subsection \<open>Bookings without faults\<close>

text \<open>The answer of a booking of a positive number of seats, case by case.\<close>

definition book_answer :: "env \<Rightarrow> nat \<Rightarrow> db \<Rightarrow> string \<Rightarrow> string \<Rightarrow> int \<Rightarrow> go_error + Booking \<times> Transport" where
  "book_answer e m d x y n = (case uuid_cast e y of
     None \<Rightarrow> Inl invalid_text
   | Some i \<Rightarrow> if sel (incidents d) i = None then Inl (E Transport_ErrIncidentNotFound)
       else if \<not> int4_ok n then Inl (Other ''value out of range for int4'')
       else (case uuid_cast e x of
         None \<Rightarrow> Inl invalid_text
       | Some tk \<Rightarrow> (case sel (transports d) tk of
           None \<Rightarrow> Inl (E Transport_ErrTransportNotFound)
         | Some tr \<Rightarrow> if t_status tr \<noteq> TransportAvailable then Inl (E Transport_ErrTransportUnavailable)
             else if \<not> int4_ok (t_seats_taken tr + n) then Inl out_of_range
             else if t_seats_taken tr + n > t_capacity tr then Inl (E Transport_ErrInsufficientSeats)
             else Inr (scanBooking (gen_uuid e (m + 3), new_booking tk i n (clock e m)),
                       scanTransport (tk, take_seats n (clock e m) tr)))))"

lemma calm_book_if_room:
  assumes "0 < n" and "\<And>r. sel (transports d) tk = Some r \<Longrightarrow> transport_row_ok r"
  shows "book_if_room n tk e m t d = (case sel (transports d) tk of
       None \<Rightarrow> Inr (0, d, {})
     | Some tr \<Rightarrow> if t_status tr \<noteq> TransportAvailable then Inr (0, d, {})
         else if \<not> int4_ok (t_seats_taken tr + n) then Inl out_of_range
         else if t_seats_taken tr + n > t_capacity tr then Inr (0, d, {})
         else Inr (1, d\<lparr>transports := upd tk (take_seats n t) (transports d)\<rparr>, {RowTransport tk}))"
proof (cases "sel (transports d) tk")
  case (Some tr)
  with assms(2) [OF Some] assms(1) show ?thesis
    by (auto simp: book_if_room_def int4_add_def transport_row_ok_def take_seats_def)
qed (simp add: book_if_room_def)

lemma calm_claim_seats:
  assumes "calm (wenv w)" and "0 < n" and "\<And>tk r. sel (transports (view w)) tk = Some r \<Longrightarrow> transport_row_ok r"
    and "uuid_cast (wenv w) y = Some i" and "sel (incidents (view w)) i \<noteq> None"
  shows "\<exists>w1. run (claim_seats x n) w
      = (map_sum id (\<lambda>_. ()) (book_answer (wenv w) m (view w) x y n), w1)
    \<and> (\<forall>tk tr. uuid_cast (wenv w) x = Some tk \<longrightarrow> sel (transports (view w)) tk = Some tr \<longrightarrow> fits n tr
         \<longrightarrow> int4_ok n \<longrightarrow> int4_ok (t_seats_taken tr + n) \<longrightarrow> pc w1 = Suc (pc w)
           \<and> view w1 = (view w)\<lparr>transports := upd tk (take_seats n (txnow w)) (transports (view w))\<rparr>)"
  using assms
  by (auto simp: claim_seats_def claim_refusal_def run_bindE run_bind run_tx_stmt cast_uuid_def pg_int4_def
      int4_param_def calm_book_if_room reading_def one_row_def book_answer_def fits_def split: option.split sum.split)

lemma transport_texts [simp]: "text_ok AggregateTransport" "text_ok EventTransportBooked" "text_ok EventTransportReleased"
  by code_simp+

lemma server_transports_simps [simp]: "tr_events server_transports = OutboxRepository_writer"
  by (simp add: server_transports_def)

lemma book_body_calm:
  assumes c: "calm (wenv w)" and e: "uuid_ok (wenv w)" and inv: "seats_inv (wenv w) (base w)" and n: "0 < n"
    and fresh: "sel (transport_bookings (base w)) (gen_uuid (wenv w) (pc w + 3)) = None"
      "sel (outbox_events (base w)) (nextval (wenv w) (pc w + 5)) = None"
  shows "\<exists>w'. run (book_body server_transports x y n) (begun w) = (book_answer (wenv w) (pc w) (base w) x y n, w')"
proof -
  let ?e = "wenv w" and ?t = "clock (wenv w) (pc w)" and ?k = "gen_uuid (wenv w) (pc w + 3)"
  let ?q = "tx_stmt (cast_uuid y (\<lambda>i. reading (\<lambda>e d. Inr (sel (incidents d) i \<noteq> None))))"
  have q: "run ?q (begun w) = (case uuid_cast ?e y of None \<Rightarrow> (Inl invalid_text, ticked (begun w))
      | Some i \<Rightarrow> (Inr (sel (incidents (base w)) i \<noteq> None), ticked (begun w)))"
    using c by (auto simp: run_tx_stmt cast_uuid_def reading_def ticked_def split: option.split)
  show ?thesis
  proof (cases "\<exists>i. uuid_cast ?e y = Some i \<and> sel (incidents (base w)) i \<noteq> None")
    case False
    with q show ?thesis by (auto simp: book_body_def run_bindE book_answer_def split: option.split)
  next
    case True
    then obtain i where i: "uuid_cast ?e y = Some i" "sel (incidents (base w)) i \<noteq> None" by blast
    have rows: "\<And>tk r. sel (transports (base w)) tk = Some r \<Longrightarrow> transport_row_ok r"
      using inv by (simp add: seats_inv_def)
    from calm_claim_seats [of "ticked (begun w)" n y i x "pc w"] c n rows i obtain w1 where
      s: "run (claim_seats x n) (ticked (begun w)) = (map_sum id (\<lambda>_. ()) (book_answer ?e (pc w) (base w) x y n), w1)"
      and w1: "\<forall>tk tr. uuid_cast ?e x = Some tk \<longrightarrow> sel (transports (base w)) tk = Some tr \<longrightarrow> fits n tr
         \<longrightarrow> int4_ok n \<longrightarrow> int4_ok (t_seats_taken tr + n) \<longrightarrow> pc w1 = pc w + 3
           \<and> view w1 = (base w)\<lparr>transports := upd tk (take_seats n ?t) (transports (base w))\<rparr>" by auto
    from tx_onlyD [OF seat_tx_only(1) s] have f1: "wenv w1 = ?e" "txnow w1 = ?t" by simp_all
    show ?thesis
    proof (cases "book_answer ?e (pc w) (base w) x y n")
      case (Inl err)
      with s q i show ?thesis by (simp add: book_body_def run_bindE)
    next
      case (Inr res)
      then obtain tk tr where tk: "uuid_cast ?e x = Some tk" "sel (transports (base w)) tk = Some tr" "fits n tr"
        "int4_ok n" "int4_ok (t_seats_taken tr + n)"
        and res: "res = (scanBooking (?k, new_booking tk i n ?t), scanTransport (tk, take_seats n ?t tr))"
        using i by (auto simp: book_answer_def fits_def split: option.splits if_splits)
      with w1 have p1: "pc w1 = pc w + 3"
        and v1: "view w1 = (base w)\<lparr>transports := upd tk (take_seats n ?t) (transports (base w))\<rparr>" by auto
      have bok: "booking_row_ok (new_booking tk i n ?t)"
        using n by (simp add: booking_row_ok_def all_booking_status_def)
      let ?b = "scanBooking (?k, new_booking tk i n ?t)" and ?tp = "scanTransport (tk, take_seats n ?t tr)"
      have "\<exists>w2. run (insert_booking x y n) w1 = (Inr ?b, w2) \<and> wenv w2 = ?e \<and> pc w2 = pc w + 4 \<and> txnow w2 = ?t
          \<and> sel (transports (view w2)) tk = Some (take_seats n ?t tr)
          \<and> outbox_events (view w2) = outbox_events (base w)"
        using c f1 p1 v1 tk i fresh(1) bok
        by (simp add: insert_booking_def run_tx_stmt pg_int4_def int4_param_def cast_uuid_def Let_def booking_fk_def)
      then obtain w2 where 2: "run (insert_booking x y n) w1 = (Inr ?b, w2)" "wenv w2 = ?e" "pc w2 = pc w + 4"
        "txnow w2 = ?t" "sel (transports (view w2)) tk = Some (take_seats n ?t tr)"
        "outbox_events (view w2) = outbox_events (base w)" by blast
      have 3: "run (tx_stmt (transport_by_id x)) w2 = (Inr ?tp, ticked w2)"
        using c 2 tk by (simp add: run_tx_stmt transport_by_id_def cast_uuid_def reading_def ticked_def)
      have "list_all (json_ok \<circ> snd) (booked_payload ?b ?tp)" and k: "uuid_cast ?e ?k = Some ?k"
        using e tk i by (auto simp: booked_payload_def uuid_ok_def)
      then obtain w5 where "run (OutboxRepository_WriteTx AggregateTransport ?k EventTransportBooked (booked_payload ?b ?tp))
          (ticked w2) = (Inr (), w5)"
        using calm_write [of "ticked w2" AggregateTransport EventTransportBooked ?k ?k "booked_payload ?b ?tp"] c 2 fresh(2)
        by (auto simp: add.commute)
      with s q i 2 3 Inr res show ?thesis by (simp add: book_body_def run_bindE)
    qed
  qed
qed


section \<open>Every write to the two tables\<close>

inductive seats_step :: "'m world_scheme \<Rightarrow> 'm world_scheme \<Rightarrow> bool" where
  created: "run (TransportRepository_Create tp) w = (r1, w') \<Longrightarrow> seats_step w w'"
| booked: "run (TransportRepository_BookSeats server_transports x y n) w = (r2, w') \<Longrightarrow> seats_step w w'"
| cancelled: "run (TransportRepository_CancelBooking server_transports x) w = (r2, w') \<Longrightarrow> seats_step w w'"

lemma no_seats_held: "seats_inv e d \<Longrightarrow> sel (transports d) tk = None
    \<Longrightarrow> sum_rows (holds_seats tk) b_seats (transport_bookings d) = 0"
  using sum_rows_cong [of "transport_bookings d" "holds_seats tk" "\<lambda>_. False" b_seats b_seats]
  by (fastforce simp: seats_inv_def in_iff_sel holds_seats_def sum_rows_def)

lemma seats_inv_new_transport:
  assumes "seats_inv e d" "transport_row_ok r" "t_seats_taken r = 0" "sel (transports d) k = None"
  shows "seats_inv e (d\<lparr>transports := ins k r (transports d)\<rparr>)"
proof -
  have "transport_row_ok r' \<and> t_seats_taken r' = sum_rows (holds_seats tk) b_seats (transport_bookings d)"
    if "sel (ins k r (transports d)) tk = Some r'" for tk r'
    using that assms no_seats_held [OF assms(1), of k] by (cases "tk = k") (auto simp: seats_inv_def)
  moreover have "booking_row_ok b \<and> sel (ins k r (transports d)) (b_transport_id b) \<noteq> None
      \<and> uuid_cast e (b_transport_id b) = Some (b_transport_id b)" if "sel (transport_bookings d) kb = Some b" for kb b
    using assms(1) that by (fastforce simp: seats_inv_def sel_ins split: option.splits)
  ultimately show ?thesis using assms by (auto simp: seats_inv_def pkey_ins)
qed

lemma all_or_nothing_kept:
  "all_or_nothing spec w res w' \<Longrightarrow> P (base w) \<Longrightarrow> (\<And>a d. spec a d \<Longrightarrow> P d) \<Longrightarrow> wenv w' = wenv w \<and> P (base w')"
  by (auto simp: all_or_nothing_def)

lemma seats_step_inv:
  assumes "seats_step w w'" and "uuid_ok (wenv w)" and "seats_inv (wenv w) (base w)"
  shows "wenv w' = wenv w \<and> seats_inv (wenv w') (base w')"
  using assms(1)
proof cases
  case (created tp r1)
  have "all_or_nothing (\<lambda>a d. seats_inv (wenv w) d) w r1 w'"
    by (rule pool_stmt_all_or_nothing [OF created [unfolded TransportRepository_Create_def]])
      (use assms(3) in \<open>auto simp: pg_int4_Inr pg_text_Inr Let_def intro!: seats_inv_new_transport split: if_splits\<close>)
  from all_or_nothing_kept [where P = "seats_inv (wenv w)", OF this assms(3)] show ?thesis by simp
next
  case (booked x y n r2)
  from all_or_nothing_kept [where P = "seats_inv (wenv w)", OF server_t.BookSeats_all_or_nothing [OF booked assms(2)] assms(3)]
    books_inv [OF _ assms(3,2)] show ?thesis by fastforce
next
  case (cancelled x r2)
  from all_or_nothing_kept [where P = "seats_inv (wenv w)", OF server_t.CancelBooking_all_or_nothing [OF cancelled assms(2)] assms(3)]
    cancels_inv [OF _ assms(3)] show ?thesis by fastforce
qed

lemma seats_steps_inv:
  assumes "seats_step\<^sup>*\<^sup>* w w'" and "uuid_ok (wenv w)" and "seats_inv (wenv w) (base w)"
  shows "wenv w' = wenv w \<and> seats_inv (wenv w') (base w')"
  using assms(1)
proof (induction rule: rtranclp_induct)
  case (step w1 w2)
  from step(3) assms(2) have "uuid_ok (wenv w1)" "seats_inv (wenv w1) (base w1)" "wenv w1 = wenv w" by metis+
  with seats_step_inv [OF step(2)] show ?case by metis
qed (use assms(3) in simp)

text \<open>A booking that is not live stays as it is.\<close>

lemma dead_booking_stays:
  assumes "seats_step w w'" and "uuid_ok (wenv w)"
    and "sel (transport_bookings (base w)) k = Some b" and "b_status b \<noteq> BookingBooked"
  shows "sel (transport_bookings (base w')) k = Some b"
  using assms(1)
proof cases
  case (created tp r1)
  then show ?thesis using assms(3)
    by (auto simp: TransportRepository_Create_def run_pool_stmt pg_int4_Inr pg_text_Inr Let_def
        split: option.splits sum.splits if_splits)
next
  case (booked x y n r2)
  from server_t.BookSeats_all_or_nothing [OF booked assms(2)] assms(3) show ?thesis
    by (auto simp: all_or_nothing_def books_def sel_ins)
next
  case (cancelled x r2)
  from server_t.CancelBooking_all_or_nothing [OF cancelled assms(2)] assms(3,4) show ?thesis
    by (auto simp: all_or_nothing_def cancels_def sel_upd split: if_splits)
qed

section \<open>Properties of the seats\<close>

text \<open>C24: the books balance. Over any sequence of registrations, bookings of any number of seats and
  cancellations, with any faults and lost acknowledgements among them, the seats taken on a vehicle
  are exactly the seats of its live bookings and never exceed its capacity.\<close>

theorem seats_never_overbooked:
  assumes "seats_step\<^sup>*\<^sup>* w w'" and "uuid_ok (wenv w)" and "seats_inv (wenv w) (base w)"
    and "sel (transports (base w')) tk = Some r"
  shows "t_seats_taken r = sum_rows (holds_seats tk) b_seats (transport_bookings (base w'))
    \<and> 0 \<le> t_seats_taken r \<and> t_seats_taken r \<le> t_capacity r"
  using seats_steps_inv [OF assms(1-3)] assms(4) unfolding seats_inv_def transport_row_ok_def by metis


text \<open>C25: seats come back exactly once. A successful cancellation found the booking live, frees exactly
  its seats (the floor at zero never cuts anything off) and records the release; and however the
  bookings go on from there, no later cancellation of the same booking succeeds or changes anything.\<close>

theorem cancel_refunds_once:
  assumes "run (TransportRepository_CancelBooking server_transports x) w = (Inr (b, tp), w1)"
    and "uuid_ok (wenv w)" and "seats_inv (wenv w) (base w)"
    and "seats_step\<^sup>*\<^sup>* w1 w2"
    and "run (TransportRepository_CancelBooking server_transports x) w2 = (res, w3)"
  shows "(\<exists>tr. sel (transports (base w)) (bk_TransportID b) = Some tr
      \<and> sel (transports (base w1)) (bk_TransportID b)
          = Some (tr\<lparr>t_seats_taken := t_seats_taken tr - bk_Seats b, t_version := Suc (t_version tr),
                     t_updated_at := clock (wenv w) (pc w)\<rparr>)
      \<and> (\<forall>tk. tk \<noteq> bk_TransportID b \<longrightarrow> sel (transports (base w1)) tk = sel (transports (base w)) tk))
    \<and> (\<exists>err. res = Inl err) \<and> base w3 = base w2"
proof -
  let ?t = "clock (wenv w) (pc w)"
  from server_t.CancelBooking_all_or_nothing [OF assms(1,2)] have
    "cancels (wenv w) ?t (base w) x (b, tp) (base w1)" and e1: "wenv w1 = wenv w" by (auto simp: all_or_nothing_def)
  then obtain k ek br tk tr where k: "uuid_cast (wenv w) x = Some k" "sel (transport_bookings (base w)) k = Some br"
    "b_status br = BookingBooked" and tk: "uuid_cast (wenv w) (b_transport_id br) = Some tk"
    "sel (transports (base w)) tk = Some tr" and b: "b = scanBooking (k, cancel_row ?t br)"
    and w1: "base w1 = cancelled_state k tk ek br tr ?t (base w)" by (auto simp: cancels_def)
  from assms(3) k tk have tkb: "b_transport_id br = tk" by (auto simp: seats_inv_def)
  have le: "b_seats br \<le> t_seats_taken tr" using live_seats_taken [OF assms(3) k(2,3)] tk tkb by simp
  have 1: "sel (transports (base w1)) tk = Some (tr\<lparr>t_seats_taken := t_seats_taken tr - b_seats br,
      t_version := Suc (t_version tr), t_updated_at := ?t\<rparr>)"
    using w1 tk le by (simp add: release_seats_def max_def)
  have "sel (transport_bookings (base w1)) k = Some (cancel_row ?t br)" using w1 k by simp
  with assms(4) have 2: "wenv w2 = wenv w \<and> sel (transport_bookings (base w2)) k = Some (cancel_row ?t br)"
  proof (induction rule: rtranclp_induct)
    case (step w3 w4)
    from seats_step.simps [of w3 w4] step(2) have "wenv w4 = wenv w3"
      using server_t.BookSeats_all_or_nothing server_t.CancelBooking_all_or_nothing step assms(2)
      by (fastforce simp: all_or_nothing_def TransportRepository_Create_def run_pool_stmt
          split: option.splits sum.splits if_splits)
    with dead_booking_stays [OF step(2), of k] step assms(2) show ?case by auto
  qed (use e1 in simp)
  have "(\<exists>err. res = Inl err) \<and> base w3 = base w2"
    using server_t.CancelBooking_all_or_nothing [OF assms(5)] 2 assms(2) k
    by (auto simp: all_or_nothing_def cancels_def)
  with 1 tk tkb b w1 show ?thesis by auto
qed


section \<open>Witnesses\<close>

text \<open>A bus with three seats, two of them booked, and an incident.\<close>

definition sample_bus :: transport_row where
  "sample_bus = \<lparr>t_call_sign = ''BUS-1'', t_kind = KindBus, t_capacity = 3, t_seats_taken = 2,
     t_status = TransportAvailable, t_lat = Fin 0, t_lng = Fin 0, t_version = 1, t_created_at = 0, t_updated_at = 0\<rparr>"

definition fire :: incident_row where
  "fire = \<lparr>i_reporter_id = ''u1'', i_title = ''Fire'', i_description = '''', i_severity = SeverityHigh,
     i_status = StatusReported, i_report_count = 1, i_lat = Fin 0, i_lng = Fin 0, i_created_at = 0, i_updated_at = 0\<rparr>"

definition seats_db :: db where
  "seats_db = empty_db\<lparr>incidents := [(''i1'', fire)], transports := [(''t1'', sample_bus)],
     transport_bookings := [(''b1'', new_booking ''t1'' ''i1'' 2 0)]\<rparr>"

lemma seats_db_inv: "seats_inv sample_env seats_db"
  by (auto simp: seats_inv_def seats_db_def empty_db_def pkey_def transport_row_ok_def booking_row_ok_def sample_bus_def
      new_booking_def all_transport_status_def all_transport_kind_def all_booking_status_def holds_seats_def
      plain_text_def byte_def split: if_splits)

definition seat_book :: "string \<Rightarrow> int \<Rightarrow> world \<Rightarrow> (go_error + Booking \<times> Transport) \<times> world" where
  "seat_book x n w = run (TransportRepository_BookSeats server_transports x ''i1'' n) w"

definition seat_cancel :: "world \<Rightarrow> (go_error + Booking \<times> Transport) \<times> world" where
  "seat_cancel w = run (TransportRepository_CancelBooking server_transports ''b1'') w"

definition seats_after :: "world \<Rightarrow> int option" where
  "seats_after w = map_option t_seats_taken (sel (transports (base w)) ''t1'')"

lemma seat_runs:
  "seats_after (snd (seat_book ''t1'' 1 (start seats_db))) = Some 3"
  "seats_after (snd (seat_cancel (snd (seat_book ''t1'' 1 (start seats_db))))) = Some 1"
  "map_sum (\<lambda>e. e) (\<lambda>r. bk_Seats (fst r)) (fst (seat_cancel (start seats_db))) = Inr 2"
  by code_simp+

lemma seats_never_overbooked_witness:
  "\<exists>r. sel (transports (base (snd (seat_cancel (snd (seat_book ''t1'' 1 (start seats_db))))))) ''t1'' = Some r
     \<and> t_seats_taken r = 1 \<and> t_seats_taken r
       = sum_rows (holds_seats ''t1'') b_seats (transport_bookings (base (snd (seat_cancel (snd (seat_book ''t1'' 1 (start seats_db)))))))"
proof -
  let ?w1 = "snd (seat_book ''t1'' 1 (start seats_db))" let ?w2 = "snd (seat_cancel ?w1)"
  from seat_runs(2) obtain r where r: "sel (transports (base ?w2)) ''t1'' = Some r" "t_seats_taken r = 1"
    by (auto simp: seats_after_def)
  have "seats_step\<^sup>*\<^sup>* (start seats_db) ?w2"
    using seats_step.booked [OF surjective_pairing, where w = "start seats_db" and x = "''t1''" and y = "''i1''" and n = 1]
      seats_step.cancelled [OF surjective_pairing, where w = ?w1 and x = "''b1''"]
    unfolding seat_book_def seat_cancel_def by (meson rtranclp.rtrancl_into_rtrancl rtranclp.rtrancl_refl)
  from seats_never_overbooked [OF this _ _ r(1)] r seats_db_inv show ?thesis by simp
qed


lemma cancel_refunds_once_witness:
  "(\<exists>err. fst (seat_cancel (snd (seat_cancel (start seats_db)))) = Inl err)
   \<and> base (snd (seat_cancel (snd (seat_cancel (start seats_db))))) = base (snd (seat_cancel (start seats_db)))"
proof -
  let ?r = "seat_cancel (start seats_db)"
  from seat_runs(3) obtain b tp where "fst ?r = Inr (b, tp)" by (cases "fst ?r") auto
  then have "run (TransportRepository_CancelBooking server_transports ''b1'') (start seats_db) = (Inr (b, tp), snd ?r)"
    by (simp add: seat_cancel_def prod_eq_iff)
  from cancel_refunds_once [OF this _ _ rtranclp.rtrancl_refl surjective_pairing] seats_db_inv show ?thesis
    by (simp add: seat_cancel_def)
qed


end
