(* ===== verification/Incidents.thy ===== *)
theory Incidents
  imports Interfaces
begin

text \<open>
  The incident module (\<^verbatim>\<open>internal/incident\<close>): the lifecycle state machine, the deduplication of
  reports, the four cascades dispatch drives, the service and the handlers. \<open>incident_tracker\<close>
  is interpreted on the repository.
\<close>

section \<open>The model\<close>

record Incident =
  inc_ID :: string
  inc_ReporterID :: string
  inc_Title :: string
  inc_Description :: string
  inc_Severity :: string
  inc_Status :: string
  inc_ReportCount :: nat
  inc_Latitude :: float64
  inc_Longitude :: float64
  inc_CreatedAt :: time
  inc_UpdatedAt :: time
  inc_DistanceMeters :: float64

definition scanIncident :: "uuid \<times> incident_row \<Rightarrow> Incident" where
  "scanIncident kr = (case kr of (k, r) \<Rightarrow>
     \<lparr>inc_ID = k, inc_ReporterID = i_reporter_id r, inc_Title = i_title r,
      inc_Description = i_description r, inc_Severity = i_severity r, inc_Status = i_status r,
      inc_ReportCount = i_report_count r, inc_Latitude = i_lat r, inc_Longitude = i_lng r,
      inc_CreatedAt = i_created_at r, inc_UpdatedAt = i_updated_at r, inc_DistanceMeters = Fin 0\<rparr>)"

lemma scanIncident_simps [simp]:
  "inc_ID (scanIncident (k, r)) = k" "inc_Status (scanIncident (k, r)) = i_status r"
  "inc_ReportCount (scanIncident (k, r)) = i_report_count r"
  "inc_Severity (scanIncident (k, r)) = i_severity r"
  by (simp_all add: scanIncident_def)

section \<open>The repository\<close>

subsection \<open>The cascades dispatch drives\<close>

definition IncidentRepository_StatusTx :: "string \<Rightarrow> ('m, string) tx" where
  "IncidentRepository_StatusTx incidentID = bind
     (tx_stmt (cast_uuid incidentID (\<lambda>i. reading (\<lambda>e d.
        map_sum id i_status (one_row (sel (incidents d) i))))))
     (\<lambda>res. case res of
        Inl err \<Rightarrow> if errors_Is err ErrNoRows then throw (E Incident_ErrIncidentNotFound) else throw err
      | Inr status \<Rightarrow> ok status)"

text \<open>\<open>UPDATE incidents SET status = st, updated_at = now() WHERE id = i AND status IN (from)\<close>\<close>

definition update_incident_if :: "string list \<Rightarrow> string \<Rightarrow> uuid \<Rightarrow> nat stmt" where
  "update_incident_if from st i = (\<lambda>e n t d.
     let hit = (\<lambda>r. i_status r \<in> set from);
         d' = d\<lparr>incidents := upd i (\<lambda>r. if hit r then set_incident st t r else r) (incidents d)\<rparr>
     in case sel (incidents d) i of
       None \<Rightarrow> Inr (0, d', {})
     | Some r \<Rightarrow> if hit r
         then if incident_row_ok (set_incident st t r) then Inr (1, d', {RowIncident i})
              else Inl check_violation
         else Inr (0, d', {}))"

definition IncidentRepository_MarkDispatchedTx :: "string \<Rightarrow> ('m, unit) tx" where
  "IncidentRepository_MarkDispatchedTx incidentID = bindE
     (tx_stmt (cast_uuid incidentID (update_incident_if [StatusReported, StatusVerified] StatusDispatched)))
     (\<lambda>_. ok ())"

definition IncidentRepository_ResolveIfDispatchedTx :: "string \<Rightarrow> ('m, unit) tx" where
  "IncidentRepository_ResolveIfDispatchedTx incidentID = bindE
     (tx_stmt (cast_uuid incidentID (update_incident_if [StatusDispatched] StatusResolved)))
     (\<lambda>_. ok ())"

definition IncidentRepository_RevertToVerifiedTx :: "string \<Rightarrow> ('m, unit) tx" where
  "IncidentRepository_RevertToVerifiedTx incidentID = bindE
     (tx_stmt (cast_uuid incidentID (update_incident_if [StatusDispatched] StatusVerified)))
     (\<lambda>_. ok ())"

definition IncidentRepository_tracker :: "'m IncidentTracker" where
  "IncidentRepository_tracker = \<lparr>StatusTx = IncidentRepository_StatusTx,
     MarkDispatchedTx = IncidentRepository_MarkDispatchedTx,
     ResolveIfDispatchedTx = IncidentRepository_ResolveIfDispatchedTx,
     RevertToVerifiedTx = IncidentRepository_RevertToVerifiedTx\<rparr>"

subsection \<open>The module's own statements\<close>

definition IncidentRepository_Create :: "Incident \<Rightarrow> ('m, Incident) tx" where
  "IncidentRepository_Create inc = pool_stmt
     (pg_text [inc_Title inc, inc_Description inc, inc_Severity inc]
       (cast_uuid (inc_ReporterID inc) (\<lambda>rep e n t d.
         let k = gen_uuid e n;
             r = \<lparr>i_reporter_id = rep, i_title = inc_Title inc, i_description = inc_Description inc,
                  i_severity = inc_Severity inc, i_status = StatusReported, i_report_count = 1,
                  i_lat = inc_Latitude inc, i_lng = inc_Longitude inc,
                  i_created_at = t, i_updated_at = t\<rparr>
         in if \<not> incident_row_ok r then Inl check_violation
            else if sel (incidents d) k \<noteq> None then Inl unique_violation
            else if sel (users d) rep = None then Inl foreign_key_violation
            else Inr (inc\<lparr>inc_ID := k, inc_Status := StatusReported, inc_ReportCount := 1,
                          inc_CreatedAt := t, inc_UpdatedAt := t\<rparr>,
                      d\<lparr>incidents := ins k r (incidents d)\<rparr>, {RowIncident k}))))"

definition IncidentRepository_GetByID :: "string \<Rightarrow> ('m, Incident) tx" where
  "IncidentRepository_GetByID incidentID = pool_stmt (cast_uuid incidentID (\<lambda>i. reading (\<lambda>e d.
     map_sum id (\<lambda>r. scanIncident (i, r)) (one_row (sel (incidents d) i)))))"

definition IncidentRepository_List :: "int \<Rightarrow> int \<Rightarrow> ('m, Incident list) tx" where
  "IncidentRepository_List limit offset = pool_stmt (reading (\<lambda>e d.
     map_sum id (map scanIncident)
       (pg_page limit offset (sort_key (\<lambda>(i, r). - i_created_at r) (incidents d)))))"

definition IncidentRepository_UpdateStatus :: "string \<Rightarrow> string \<Rightarrow> ('m, Incident) tx" where
  "IncidentRepository_UpdateStatus incidentID status =
     pool_stmt (pg_text [status] (cast_uuid incidentID (\<lambda>i e n t d. case sel (incidents d) i of
       None \<Rightarrow> Inl ErrNoRows
     | Some r \<Rightarrow> if incident_row_ok (set_incident status t r)
         then Inr (scanIncident (i, set_incident status t r),
                   d\<lparr>incidents := upd i (set_incident status t) (incidents d)\<rparr>, {RowIncident i})
         else Inl check_violation)))"

definition IncidentRepository_FindWithinRadius ::
    "float64 \<Rightarrow> float64 \<Rightarrow> float64 \<Rightarrow> int \<Rightarrow> ('m, Incident list) tx" where
  "IncidentRepository_FindWithinRadius lat lng radiusMeters limit = pool_stmt (reading (\<lambda>e d.
     map_sum id (map (\<lambda>(i, r). (scanIncident (i, r))
         \<lparr>inc_DistanceMeters := Fin (st_distance e (i_lat r, i_lng r) (lat, lng))\<rparr>))
       (pg_page limit 0
         (sort_key (\<lambda>(i, r). st_distance e (i_lat r, i_lng r) (lat, lng))
           (filter (\<lambda>(i, r). st_dwithin e (i_lat r, i_lng r) (lat, lng) radiusMeters) (incidents d))))))"

text \<open>The report that a new one duplicates: active, recent, near, and the nearest such.\<close>

definition active_incident :: "string \<Rightarrow> bool" where
  "active_incident s \<longleftrightarrow> s \<in> set [StatusReported, StatusVerified, StatusDispatched]"

definition dedupe_matches ::
    "env \<Rightarrow> time \<Rightarrow> float64 \<Rightarrow> float64 \<Rightarrow> float64 \<Rightarrow> int \<Rightarrow> db \<Rightarrow> (uuid \<times> incident_row) list" where
  "dedupe_matches e t lat lng radiusMeters windowMinutes d =
     sort_key (\<lambda>(i, r). knn_distance e (i_lat r, i_lng r) (lat, lng))
       (filter (\<lambda>(i, r). active_incident (i_status r)
            \<and> i_created_at r > t - seconds (60 * windowMinutes)
            \<and> st_dwithin e (i_lat r, i_lng r) (lat, lng) radiusMeters) (incidents d))"

definition merge_report :: "time \<Rightarrow> incident_row \<Rightarrow> incident_row" where
  "merge_report t r = r\<lparr>i_report_count := Suc (i_report_count r), i_updated_at := t\<rparr>"

definition IncidentRepository_TryDedupe ::
    "float64 \<Rightarrow> float64 \<Rightarrow> float64 \<Rightarrow> int \<Rightarrow> ('m, Incident) tx" where
  "IncidentRepository_TryDedupe lat lng radiusMeters windowMinutes = pool_stmt (\<lambda>e n t d.
     case dedupe_matches e t lat lng radiusMeters windowMinutes d of
       [] \<Rightarrow> Inl ErrNoRows
     | (i, r) # _ \<Rightarrow> Inr (scanIncident (i, merge_report t r),
         d\<lparr>incidents := upd i (merge_report t) (incidents d)\<rparr>, {RowIncident i}))"

section \<open>The contract dispatch relies on\<close>

lemma update_incident_if_Inr:
  "update_incident_if from st i e n t d = Inr (a, d', ls) \<Longrightarrow>
     d' = d\<lparr>incidents := upd i (\<lambda>r. if i_status r \<in> set from then set_incident st t r else r) (incidents d)\<rparr>
     \<and> (\<forall>r. sel (incidents d) i = Some r \<longrightarrow> i_status r \<in> set from \<longrightarrow> RowIncident i \<in> ls)"
  by (auto simp: update_incident_if_def Let_def split: option.splits if_splits)

lemma cascade_ok:
  assumes "run (bindE (tx_stmt (cast_uuid x (update_incident_if from st))) (\<lambda>_. ok ())) w = (Inr (), w')"
  shows "\<exists>i. uuid_cast (wenv w) x = Some i \<and> moves_incident_if (set from) i st w w'"
  using assms
  by (auto simp: run_bindE_Inr tx_stmt_Inr cast_uuid_Inr moves_incident_if_def dest!: update_incident_if_Inr)

lemma repo_status_ok:
  assumes "run (IncidentRepository_StatusTx x) w = (Inr st, w')"
  shows "\<exists>i r. uuid_cast (wenv w) x = Some i \<and> sel (incidents (view w)) i = Some r \<and> st = i_status r
        \<and> reads_only w w'"
  using assms
  by (auto simp: IncidentRepository_StatusTx_def run_bind tx_stmt_Inr cast_uuid_Inr reading_Inr reads_only_def
      one_row_def split: prod.splits sum.splits if_splits option.splits)

lemma incident_repo_tx_only [simp]:
  "tx_only (IncidentRepository_StatusTx x)" "tx_only (IncidentRepository_MarkDispatchedTx x)"
  "tx_only (IncidentRepository_ResolveIfDispatchedTx x)" "tx_only (IncidentRepository_RevertToVerifiedTx x)"
  by (auto simp: IncidentRepository_StatusTx_def IncidentRepository_MarkDispatchedTx_def
      IncidentRepository_ResolveIfDispatchedTx_def IncidentRepository_RevertToVerifiedTx_def
      intro!: tx_only_bind tx_only_bindE split: sum.split)

lemma tracker_simps [simp]:
  "StatusTx IncidentRepository_tracker = IncidentRepository_StatusTx"
  "MarkDispatchedTx IncidentRepository_tracker = IncidentRepository_MarkDispatchedTx"
  "ResolveIfDispatchedTx IncidentRepository_tracker = IncidentRepository_ResolveIfDispatchedTx"
  "RevertToVerifiedTx IncidentRepository_tracker = IncidentRepository_RevertToVerifiedTx"
  by (simp_all add: IncidentRepository_tracker_def)

lemmas dispatched_cascade = cascade_ok [of _ "[StatusReported, StatusVerified]" StatusDispatched, simplified list.set,
    folded IncidentRepository_MarkDispatchedTx_def]

lemmas resolve_cascade = cascade_ok [of _ "[StatusDispatched]" StatusResolved, simplified list.set,
    folded IncidentRepository_ResolveIfDispatchedTx_def]

lemmas revert_cascade = cascade_ok [of _ "[StatusDispatched]" StatusVerified, simplified list.set,
    folded IncidentRepository_RevertToVerifiedTx_def]

interpretation incident_repo: incident_tracker IncidentRepository_tracker
  by (unfold_locales, unfold tracker_simps)
    (rule incident_repo_tx_only repo_status_ok dispatched_cascade resolve_cascade revert_cascade, assumption?)+

section \<open>The service\<close>

text \<open>The lifecycle state machine. A status that is no key has no entry, and so no transition.\<close>

definition incident_allowedTransitions :: "string \<Rightarrow> string list option" where
  "incident_allowedTransitions = map_of
     [(StatusReported, [StatusVerified, StatusCancelled]),
      (StatusVerified, [StatusDispatched, StatusCancelled]),
      (StatusDispatched, [StatusResolved, StatusCancelled]),
      (StatusResolved, []),
      (StatusCancelled, [])]"

definition incident_canTransition :: "string \<Rightarrow> string \<Rightarrow> bool" where
  "incident_canTransition from to =
     list_ex (\<lambda>allowed. allowed = to) (case incident_allowedTransitions from of None \<Rightarrow> [] | Some ts \<Rightarrow> ts)"

record CreateIncidentInput =
  cii_ReporterID :: string
  cii_Title :: string
  cii_Description :: string
  cii_Severity :: string
  cii_Latitude :: float64
  cii_Longitude :: float64

definition dedupeRadiusMeters :: float64 where "dedupeRadiusMeters = Fin 100"
definition dedupeWindowMinutes :: int where "dedupeWindowMinutes = 15"

definition IncidentService_Create :: "CreateIncidentInput \<Rightarrow> ('m, Incident \<times> bool) tx" where
  "IncidentService_Create i =
     (if \<not> validSeverities (cii_Severity i) then throw (E Incident_ErrInvalidSeverity)
      else case ValidateLatLng (cii_Latitude i) (cii_Longitude i) of
        Inl err \<Rightarrow> throw err
      | Inr _ \<Rightarrow> bind
          (IncidentRepository_TryDedupe (cii_Latitude i) (cii_Longitude i) dedupeRadiusMeters dedupeWindowMinutes)
          (\<lambda>res. case res of
             Inr dup \<Rightarrow> ok (dup, True)
           | Inl err \<Rightarrow>
               if \<not> errors_Is err ErrNoRows then throw (Wrapped (''dedupe check: '' @ err_Error err) err)
               else bind
                 (IncidentRepository_Create \<lparr>inc_ID = '''', inc_ReporterID = cii_ReporterID i,
                    inc_Title = cii_Title i, inc_Description = cii_Description i,
                    inc_Severity = cii_Severity i, inc_Status = '''', inc_ReportCount = 0,
                    inc_Latitude = cii_Latitude i, inc_Longitude = cii_Longitude i,
                    inc_CreatedAt = 0, inc_UpdatedAt = 0, inc_DistanceMeters = Fin 0\<rparr>)
                 (\<lambda>res. case res of
                    Inl err \<Rightarrow> throw (Wrapped (''create incident: '' @ err_Error err) err)
                  | Inr inc \<Rightarrow> ok (inc, False))))"

definition IncidentService_GetByID :: "string \<Rightarrow> ('m, Incident) tx" where
  "IncidentService_GetByID incidentID = bind (IncidentRepository_GetByID incidentID) (\<lambda>res. case res of
     Inl err \<Rightarrow> if errors_Is err ErrNoRows then throw (E Incident_ErrIncidentNotFound) else throw err
   | Inr inc \<Rightarrow> ok inc)"

definition IncidentService_List :: "int \<Rightarrow> int \<Rightarrow> ('m, Incident list) tx" where
  "IncidentService_List limit offset = IncidentRepository_List limit offset"

definition IncidentService_Nearby :: "float64 \<Rightarrow> float64 \<Rightarrow> float64 \<Rightarrow> int \<Rightarrow> ('m, Incident list) tx" where
  "IncidentService_Nearby lat lng radiusMeters limit = (case ValidateLatLng lat lng of
     Inl err \<Rightarrow> throw err
   | Inr _ \<Rightarrow>
       if f_le radiusMeters (Fin 0) \<or> f_gt radiusMeters (Fin 100000) then throw (E Incident_ErrInvalidRadius)
       else let limit = (if limit \<le> 0 \<or> limit > 500 then 100 else limit)
         in IncidentRepository_FindWithinRadius lat lng radiusMeters limit)"

definition IncidentService_UpdateStatus :: "string \<Rightarrow> string \<Rightarrow> ('m, Incident) tx" where
  "IncidentService_UpdateStatus incidentID newStatus =
     (if incident_allowedTransitions newStatus = None then throw (E Incident_ErrInvalidStatus)
      else bind (IncidentRepository_GetByID incidentID) (\<lambda>res. case res of
        Inl err \<Rightarrow> if errors_Is err ErrNoRows then throw (E Incident_ErrIncidentNotFound) else throw err
      | Inr inc \<Rightarrow>
          if \<not> incident_canTransition (inc_Status inc) newStatus
          then throw (Wrapped (sentinel_text Incident_ErrIllegalTransition @ '': '' @ inc_Status inc
                 @ '' -> '' @ newStatus) (E Incident_ErrIllegalTransition))
          else IncidentRepository_UpdateStatus incidentID newStatus))"

section \<open>The handlers\<close>

record CreateIncidentRequest =
  cir_Title :: string
  cir_Description :: string
  cir_Severity :: string
  cir_Latitude :: float64
  cir_Longitude :: float64

definition IncidentHandler_Create ::
    "string \<Rightarrow> go_error + CreateIncidentRequest \<Rightarrow> ('m world_scheme, Incident response) script" where
  "IncidentHandler_Create userID body = (case body of
     Inl err \<Rightarrow> Done (common_Error 400 (err_Error err) ''VALIDATION_ERROR'')
   | Inr req \<Rightarrow> respond
       (IncidentService_Create \<lparr>cii_ReporterID = userID, cii_Title = cir_Title req,
          cii_Description = cir_Description req, cii_Severity = cir_Severity req,
          cii_Latitude = cir_Latitude req, cii_Longitude = cir_Longitude req\<rparr>)
       (\<lambda>err. if errors_Is err (E Incident_ErrInvalidSeverity) \<or> errors_Is err (E Geo_ErrInvalidCoordinates)
              then common_Error 400 (err_Error err) ''VALIDATION_ERROR''
              else common_Error 500 ''could not create incident'' ''INTERNAL_ERROR'')
       (\<lambda>(inc, deduped).
          if deduped then common_Success 200 ''duplicate report merged into existing incident'' inc
          else common_Success 201 ''incident reported'' inc))"

definition IncidentHandler_GetByID :: "string \<Rightarrow> ('m world_scheme, Incident response) script" where
  "IncidentHandler_GetByID incidentID = respond (IncidentService_GetByID incidentID)
     (\<lambda>err. if errors_Is err (E Incident_ErrIncidentNotFound)
            then common_Error 404 ''incident not found'' ''NOT_FOUND''
            else common_Error 500 ''could not fetch incident'' ''INTERNAL_ERROR'')
     (\<lambda>inc. common_Success 200 ''incident'' inc)"

definition IncidentHandler_List :: "query \<Rightarrow> ('m world_scheme, Incident list response) script" where
  "IncidentHandler_List q = respond
     (IncidentService_List (ClampInt (q ''limit'') 20 1 100) (ClampInt (q ''offset'') 0 0 1000000))
     (\<lambda>err. common_Error 500 ''could not list incidents'' ''INTERNAL_ERROR'')
     (\<lambda>incs. common_Success 200 ''incidents'' incs)"

text \<open>\<open>strconv.ParseFloat\<close> is an argument: it may return any value of the type, \<open>NaN\<close> included.\<close>

definition IncidentHandler_Nearby ::
    "(string \<Rightarrow> float64 option) \<Rightarrow> query \<Rightarrow> ('m world_scheme, Incident list response) script" where
  "IncidentHandler_Nearby ParseFloat q =
     (case (ParseFloat (q ''lat''), ParseFloat (q ''lng'')) of
        (Some lat, Some lng) \<Rightarrow>
          let raw = q ''radius'';
              radius = (if raw \<noteq> '''' then (case ParseFloat raw of Some r \<Rightarrow> r | None \<Rightarrow> Fin 5000) else Fin 5000)
          in respond (IncidentService_Nearby lat lng radius 100)
            (\<lambda>err. if errors_Is err (E Geo_ErrInvalidCoordinates) \<or> errors_Is err (E Incident_ErrInvalidRadius)
                   then common_Error 400 (err_Error err) ''VALIDATION_ERROR''
                   else common_Error 500 ''could not search incidents'' ''INTERNAL_ERROR'')
            (\<lambda>incs. common_Success 200 ''nearby incidents'' incs)
      | _ \<Rightarrow> Done (common_Error 400 ''lat and lng query params are required'' ''VALIDATION_ERROR''))"

definition IncidentHandler_UpdateStatus ::
    "string \<Rightarrow> go_error + string \<Rightarrow> ('m world_scheme, Incident response) script" where
  "IncidentHandler_UpdateStatus incidentID body = (case body of
     Inl err \<Rightarrow> Done (common_Error 400 (err_Error err) ''VALIDATION_ERROR'')
   | Inr status \<Rightarrow> respond (IncidentService_UpdateStatus incidentID status)
       (\<lambda>err. if errors_Is err (E Incident_ErrIncidentNotFound)
              then common_Error 404 ''incident not found'' ''NOT_FOUND''
              else if errors_Is err (E Incident_ErrIllegalTransition)
              then common_Error 409 (err_Error err) ''ILLEGAL_TRANSITION''
              else if errors_Is err (E Incident_ErrInvalidStatus)
              then common_Error 400 (err_Error err) ''VALIDATION_ERROR''
              else common_Error 500 ''could not update status'' ''INTERNAL_ERROR'')
       (\<lambda>inc. common_Success 200 ''status updated'' inc))"

end
