(* ===== verification/Dispatches.thy ===== *)
theory Dispatches
  imports Units Incidents Outbox Sample
begin

text \<open>
  The dispatch module's model and repository (\<^verbatim>\<open>internal/dispatch\<close>, \<^verbatim>\<open>model.go\<close>, \<^verbatim>\<open>repository.go\<close>,
  \<^verbatim>\<open>reassign.go\<close>): the lifecycle state machine and the four transactions that move units between
  incidents. They are functions of the interface values the constructor is given; their lemmas
  are proved from the interfaces' contracts and used at the repositories the server wires in.
\<close>

section \<open>The lifecycle\<close>

record Dispatch =
  dis_ID :: string
  dis_IncidentID :: string
  dis_UnitID :: string
  dis_Status :: string
  dis_CreatedAt :: time
  dis_UpdatedAt :: time

definition allowedDispatchTransitions :: "string \<Rightarrow> string list option" where
  "allowedDispatchTransitions = map_of
     [(DispatchReserved, [DispatchEnRoute, DispatchCancelled]),
      (DispatchEnRoute, [DispatchOnScene, DispatchCancelled]),
      (DispatchOnScene, [DispatchCompleted, DispatchCancelled]),
      (DispatchCompleted, []),
      (DispatchCancelled, [])]"

definition IsValidDispatchStatus :: "string \<Rightarrow> bool" where
  "IsValidDispatchStatus s = (s = DispatchReserved \<or> s = DispatchEnRoute \<or> s = DispatchOnScene
     \<or> s = DispatchCompleted \<or> s = DispatchCancelled)"

definition CanTransitionDispatch :: "string \<Rightarrow> string \<Rightarrow> bool" where
  "CanTransitionDispatch from to =
     list_ex (\<lambda>s. s = to) (case allowedDispatchTransitions from of None \<Rightarrow> [] | Some ts \<Rightarrow> ts)"

definition IsActiveDispatch :: "string \<Rightarrow> bool" where
  "IsActiveDispatch status = (status = DispatchReserved \<or> status = DispatchEnRoute \<or> status = DispatchOnScene)"

definition UnitStatusForDispatch :: "string \<Rightarrow> string" where
  "UnitStatusForDispatch dispatchStatus =
     (if dispatchStatus = DispatchReserved then UnitReserved
      else if dispatchStatus = DispatchEnRoute then UnitEnRoute
      else if dispatchStatus = DispatchOnScene then UnitOnScene
      else UnitAvailable)"

definition scanDispatch :: "uuid \<times> dispatch_row \<Rightarrow> Dispatch" where
  "scanDispatch kr = (case kr of (k, r) \<Rightarrow>
     \<lparr>dis_ID = k, dis_IncidentID = d_incident_id r, dis_UnitID = d_unit_id r, dis_Status = d_status r,
      dis_CreatedAt = d_created_at r, dis_UpdatedAt = d_updated_at r\<rparr>)"

lemma scanDispatch_simps [simp]:
  "dis_ID (scanDispatch (k, r)) = k" "dis_IncidentID (scanDispatch (k, r)) = d_incident_id r"
  "dis_UnitID (scanDispatch (k, r)) = d_unit_id r" "dis_Status (scanDispatch (k, r)) = d_status r"
  by (simp_all add: scanDispatch_def)

section \<open>The repository\<close>

record 'm DispatchRepository =
  dr_units :: "'m UnitReserver"
  dr_incidents :: "'m IncidentTracker"
  dr_events :: "'m EventWriter"

subsection \<open>Its statements on the dispatches table\<close>

definition new_dispatch :: "uuid \<Rightarrow> uuid \<Rightarrow> time \<Rightarrow> dispatch_row" where
  "new_dispatch i u t = \<lparr>d_incident_id = i, d_unit_id = u, d_status = DispatchReserved,
     d_created_at = t, d_updated_at = t\<rparr>"

lemma new_dispatch_simps [simp]:
  "d_incident_id (new_dispatch i u t) = i" "d_unit_id (new_dispatch i u t) = u"
  "d_status (new_dispatch i u t) = DispatchReserved"
  by (simp_all add: new_dispatch_def)

text \<open>The insert is refused by the primary key, by the index that allows a unit one active
  dispatch, and by the foreign keys.\<close>

definition insert_dispatch :: "string \<Rightarrow> string \<Rightarrow> ('m, Dispatch) tx" where
  "insert_dispatch incidentID unitID = tx_stmt (cast_uuid incidentID (\<lambda>i. cast_uuid unitID (\<lambda>u e n t d.
     let k = gen_uuid e n; r = new_dispatch i u t
     in if sel (dispatches d) k \<noteq> None \<or> count_rows (active_on u) (dispatches d) > 0
        then Inl unique_violation
        else if \<not> dispatch_fk d r then Inl foreign_key_violation
        else Inr (scanDispatch (k, r), d\<lparr>dispatches := ins k r (dispatches d)\<rparr>, {RowDispatch k, IdxActive u}))))"

definition lock_dispatch :: "string \<Rightarrow> ('m, Dispatch) tx" where
  "lock_dispatch dispatchID = tx_stmt (cast_uuid dispatchID (\<lambda>k e n t d. case sel (dispatches d) k of
     None \<Rightarrow> Inl ErrNoRows | Some r \<Rightarrow> Inr (scanDispatch (k, r), d, {RowDispatch k})))"

definition set_dispatch :: "string \<Rightarrow> time \<Rightarrow> dispatch_row \<Rightarrow> dispatch_row" where
  "set_dispatch st t r = r\<lparr>d_status := st, d_updated_at := t\<rparr>"

lemma set_dispatch_simps [simp]:
  "d_status (set_dispatch st t r) = st" "d_unit_id (set_dispatch st t r) = d_unit_id r"
  "d_incident_id (set_dispatch st t r) = d_incident_id r"
  by (simp_all add: set_dispatch_def)

text \<open>An update of one dispatch's status: the CHECK, and the index when the row becomes active.\<close>

definition update_dispatch :: "string \<Rightarrow> uuid \<Rightarrow> (uuid \<times> dispatch_row) option stmt" where
  "update_dispatch st k = (\<lambda>e n t d. case sel (dispatches d) k of
     None \<Rightarrow> Inr (None, d, {})
   | Some r \<Rightarrow>
       if \<not> dispatch_row_ok (set_dispatch st t r) then Inl check_violation
       else if active_status st \<and> \<not> active_status (d_status r)
          \<and> count_rows (active_on (d_unit_id r)) (dispatches d) > 0 then Inl unique_violation
       else Inr (Some (k, set_dispatch st t r),
          d\<lparr>dispatches := upd k (set_dispatch st t) (dispatches d)\<rparr>,
          {RowDispatch k} \<union> (if active_status st then {IdxActive (d_unit_id r)} else {})))"

definition update_dispatch_returning :: "string \<Rightarrow> string \<Rightarrow> ('m, Dispatch) tx" where
  "update_dispatch_returning newStatus dispatchID = bindE
     (tx_stmt (pg_text [newStatus] (cast_uuid dispatchID (update_dispatch newStatus))))
     (\<lambda>row. case row of None \<Rightarrow> throw ErrNoRows | Some kr \<Rightarrow> ok (scanDispatch kr))"

definition cancel_dispatch :: "string \<Rightarrow> ('m, unit) tx" where
  "cancel_dispatch dispatchID =
     bindE (tx_stmt (cast_uuid dispatchID (update_dispatch DispatchCancelled))) (\<lambda>_. ok ())"

definition count_active :: "string \<Rightarrow> ('m, nat) tx" where
  "count_active incidentID = tx_stmt (cast_uuid incidentID (\<lambda>i. reading (\<lambda>e d.
     Inr (count_rows (active_for i) (dispatches d)))))"

subsection \<open>Reserve\<close>

definition not_dispatchable :: "string \<Rightarrow> bool" where
  "not_dispatchable incStatus = (incStatus = StatusResolved \<or> incStatus = StatusCancelled)"

text \<open>The insert with its error translation, which the two reservation paths and \<open>Reassign\<close> share
  word for word.\<close>

definition record_assignment :: "string \<Rightarrow> string \<Rightarrow> ('m, Dispatch) tx" where
  "record_assignment incidentID unitID = bind (insert_dispatch incidentID unitID) (\<lambda>res. case res of
     Inl err \<Rightarrow> if pg_code_is ''23505'' err then throw (E Dispatch_ErrUnitNotAvailable) else throw err
   | Inr d \<Rightarrow> ok d)"

definition created_payload :: "Dispatch \<Rightarrow> payload" where
  "created_payload d = [(''dispatchId'', JStr (dis_ID d)), (''incidentId'', JStr (dis_IncidentID d)),
     (''unitId'', JStr (dis_UnitID d))]"

definition reserve_body :: "'m DispatchRepository \<Rightarrow> string \<Rightarrow> string \<Rightarrow> ('m, Dispatch) tx" where
  "reserve_body R incidentID unitID =
     bindE (LockForReserveTx (dr_units R) unitID) (\<lambda>unitStatus.
     if unitStatus \<noteq> UnitAvailable then throw (E Dispatch_ErrUnitNotAvailable) else
     bindE (StatusTx (dr_incidents R) incidentID) (\<lambda>incStatus.
     if not_dispatchable incStatus then throw (E Dispatch_ErrIncidentNotDispatchable) else
     bindE (MarkReservedTx (dr_units R) unitID) (\<lambda>_.
     bindE (record_assignment incidentID unitID) (\<lambda>d.
     bindE (MarkDispatchedTx (dr_incidents R) incidentID) (\<lambda>_.
     bindE (WriteTx (dr_events R) AggregateDispatch (dis_ID d) EventDispatchCreated (created_payload d)) (\<lambda>_.
     ok d))))))"

definition DispatchRepository_Reserve :: "'m DispatchRepository \<Rightarrow> string \<Rightarrow> string \<Rightarrow> ('m, Dispatch) tx" where
  "DispatchRepository_Reserve R incidentID unitID = in_tx (reserve_body R incidentID unitID)"

subsection \<open>ReserveOptimistic\<close>

definition maxOptimisticRetries :: nat where "maxOptimisticRetries = 3"

text \<open>One attempt: \<open>None\<close> is the lost compare-and-swap, which returns without committing.\<close>

definition try_body :: "'m DispatchRepository \<Rightarrow> string \<Rightarrow> string \<Rightarrow> ('m, Dispatch option ending) tx" where
  "try_body R incidentID unitID =
     bindE (ReadVersionTx (dr_units R) unitID) (\<lambda>(status, version).
     if status \<noteq> UnitAvailable then throw (E Dispatch_ErrUnitNotAvailable) else
     bindE (StatusTx (dr_incidents R) incidentID) (\<lambda>incStatus.
     if not_dispatchable incStatus then throw (E Dispatch_ErrIncidentNotDispatchable) else
     bindE (MarkReservedCASTx (dr_units R) unitID version) (\<lambda>won.
     if \<not> won then ok (Return None) else
     bindE (record_assignment incidentID unitID) (\<lambda>d.
     bindE (MarkDispatchedTx (dr_incidents R) incidentID) (\<lambda>_.
     bindE (WriteTx (dr_events R) AggregateDispatch (dis_ID d) EventDispatchCreated (created_payload d)) (\<lambda>_.
     ok (Commit (Some d))))))))"

definition tryReserveOptimistic :: "'m DispatchRepository \<Rightarrow> string \<Rightarrow> string \<Rightarrow> ('m, Dispatch option) tx" where
  "tryReserveOptimistic R incidentID unitID = in_tx_or (try_body R incidentID unitID)"

fun optimistic_loop :: "nat \<Rightarrow> 'm DispatchRepository \<Rightarrow> string \<Rightarrow> string \<Rightarrow> ('m, Dispatch) tx" where
  "optimistic_loop 0 R incidentID unitID = throw (E Dispatch_ErrReservationConflict)"
| "optimistic_loop (Suc left) R incidentID unitID =
     bindE (tryReserveOptimistic R incidentID unitID) (\<lambda>r. case r of
       Some d \<Rightarrow> ok d | None \<Rightarrow> optimistic_loop left R incidentID unitID)"

definition DispatchRepository_ReserveOptimistic ::
    "'m DispatchRepository \<Rightarrow> string \<Rightarrow> string \<Rightarrow> ('m, Dispatch) tx" where
  "DispatchRepository_ReserveOptimistic R incidentID unitID =
     optimistic_loop maxOptimisticRetries R incidentID unitID"

subsection \<open>Reads\<close>

definition DispatchRepository_GetByID :: "string \<Rightarrow> ('m, Dispatch) tx" where
  "DispatchRepository_GetByID dispatchID = pool_stmt (cast_uuid dispatchID (\<lambda>k. reading (\<lambda>e d.
     map_sum id (\<lambda>r. scanDispatch (k, r)) (one_row (sel (dispatches d) k)))))"

definition DispatchRepository_ListByIncident :: "string \<Rightarrow> ('m, Dispatch list) tx" where
  "DispatchRepository_ListByIncident incidentID = pool_stmt (cast_uuid incidentID (\<lambda>i. reading (\<lambda>e d.
     Inr (map scanDispatch (sort_key (\<lambda>(k, r). - d_created_at r)
       (filter (\<lambda>(k, r). d_incident_id r = i) (dispatches d)))))))"

subsection \<open>AdvanceStatus\<close>

definition not_found_dispatch :: "('m, Dispatch) tx \<Rightarrow> ('m, Dispatch) tx" where
  "not_found_dispatch m = bind m (\<lambda>res. case res of
     Inl err \<Rightarrow> if errors_Is err ErrNoRows then throw (E Dispatch_ErrDispatchNotFound) else throw err
   | Inr d \<Rightarrow> ok d)"

definition completed_payload :: "Dispatch \<Rightarrow> nat \<Rightarrow> payload" where
  "completed_payload d active = created_payload d @ [(''incidentResolved'', JBool (active = 0))]"

definition advance_body :: "'m DispatchRepository \<Rightarrow> string \<Rightarrow> string \<Rightarrow> ('m, Dispatch) tx" where
  "advance_body R dispatchID newStatus =
     bindE (not_found_dispatch (lock_dispatch dispatchID)) (\<lambda>cur.
     if \<not> CanTransitionDispatch (dis_Status cur) newStatus
     then throw (E Dispatch_ErrIllegalDispatchTransition) else
     bindE (update_dispatch_returning newStatus dispatchID) (\<lambda>d.
     bindE (SetStatusTx (dr_units R) (dis_UnitID cur) (UnitStatusForDispatch newStatus)) (\<lambda>_.
     if newStatus = DispatchCompleted then
       bindE (count_active (dis_IncidentID cur)) (\<lambda>active.
       bindE (if active = 0 then ResolveIfDispatchedTx (dr_incidents R) (dis_IncidentID cur) else ok ()) (\<lambda>_.
       bindE (WriteTx (dr_events R) AggregateDispatch (dis_ID d) EventDispatchCompleted
                (completed_payload d active)) (\<lambda>_. ok d)))
     else ok d)))"

definition DispatchRepository_AdvanceStatus ::
    "'m DispatchRepository \<Rightarrow> string \<Rightarrow> string \<Rightarrow> ('m, Dispatch) tx" where
  "DispatchRepository_AdvanceStatus R dispatchID newStatus = in_tx (advance_body R dispatchID newStatus)"

subsection \<open>Reassign\<close>

text \<open>The unit rows are locked in ascending id order; the incoming unit is re-read under its lock.\<close>

definition lock_units :: "'m DispatchRepository \<Rightarrow> string \<Rightarrow> string \<Rightarrow> ('m, unit) tx" where
  "lock_units R oldUnitID newUnitID =
     (if oldUnitID = newUnitID then bindE (LockForReserveTx (dr_units R) oldUnitID) (\<lambda>_. ok ())
      else let (first, second) = (if newUnitID < oldUnitID then (newUnitID, oldUnitID) else (oldUnitID, newUnitID))
        in bindE (LockForReserveTx (dr_units R) first) (\<lambda>_.
           bindE (LockForReserveTx (dr_units R) second) (\<lambda>_.
           bindE (LockForReserveTx (dr_units R) newUnitID) (\<lambda>newStatus.
           if newStatus \<noteq> UnitAvailable then throw (E Dispatch_ErrUnitNotAvailable) else ok ()))))"

definition reassigned_payload :: "Dispatch \<Rightarrow> Dispatch \<Rightarrow> payload" where
  "reassigned_payload nd old = created_payload nd @ [(''replacedDispatchId'', JStr (dis_ID old)),
     (''previousIncidentId'', JStr (dis_IncidentID old)), (''previousUnitId'', JStr (dis_UnitID old))]"

definition reassign_body ::
    "'m DispatchRepository \<Rightarrow> string \<Rightarrow> string \<Rightarrow> string \<Rightarrow> string \<Rightarrow> ('m, Dispatch) tx" where
  "reassign_body R oldDispatchID newIncidentID newUnitID eventType =
     bindE (not_found_dispatch (lock_dispatch oldDispatchID)) (\<lambda>old.
     if \<not> IsActiveDispatch (dis_Status old) then throw (E Dispatch_ErrIllegalDispatchTransition) else
     bindE (lock_units R (dis_UnitID old) newUnitID) (\<lambda>_.
     bindE (StatusTx (dr_incidents R) newIncidentID) (\<lambda>incStatus.
     if not_dispatchable incStatus then throw (E Dispatch_ErrIncidentNotDispatchable) else
     bindE (cancel_dispatch oldDispatchID) (\<lambda>_.
     bindE (if dis_UnitID old \<noteq> newUnitID
            then bindE (SetStatusTx (dr_units R) (dis_UnitID old) UnitAvailable) (\<lambda>_.
                 MarkReservedTx (dr_units R) newUnitID)
            else ok ()) (\<lambda>_.
     bindE (record_assignment newIncidentID newUnitID) (\<lambda>nd.
     bindE (MarkDispatchedTx (dr_incidents R) newIncidentID) (\<lambda>_.
     bindE (if dis_IncidentID old \<noteq> newIncidentID
            then bindE (count_active (dis_IncidentID old)) (\<lambda>stillActive.
                 if stillActive = 0 then RevertToVerifiedTx (dr_incidents R) (dis_IncidentID old) else ok ())
            else ok ()) (\<lambda>_.
     bindE (WriteTx (dr_events R) AggregateDispatch (dis_ID nd) eventType (reassigned_payload nd old)) (\<lambda>_.
     ok nd)))))))))"

definition DispatchRepository_Reassign ::
    "'m DispatchRepository \<Rightarrow> string \<Rightarrow> string \<Rightarrow> string \<Rightarrow> string \<Rightarrow> ('m, Dispatch) tx" where
  "DispatchRepository_Reassign R oldDispatchID newIncidentID newUnitID eventType =
     in_tx (reassign_body R oldDispatchID newIncidentID newUnitID eventType)"

subsection \<open>FindPreemptable\<close>

record Preemptable =
  pre_DispatchID :: string
  pre_UnitID :: string
  pre_IncidentID :: string
  pre_Severity :: string
  pre_CallSign :: string
  pre_DistanceMeters :: float64

definition severity_rank :: "string \<Rightarrow> nat" where
  "severity_rank s = (if s = ''critical'' then 4 else if s = ''high'' then 3 else if s = ''medium'' then 2 else 1)"

text \<open>The join, the filter on strictly lower severity, the order by distance and the limit.\<close>

definition preemptable_rows :: "env \<Rightarrow> db \<Rightarrow> string \<Rightarrow> float64 \<Rightarrow> float64 \<Rightarrow> (real \<times> Preemptable) list" where
  "preemptable_rows e d severity lat lng = List.map_filter (\<lambda>(k, r).
     case (sel (incidents d) (d_incident_id r), sel (units d) (d_unit_id r)) of
       (Some i, Some u) \<Rightarrow>
         if active_status (d_status r) \<and> severity_rank (i_severity i) < severity_rank severity
         then let dist = st_distance e (u_lat u, u_lng u) (lat, lng)
           in Some (dist, \<lparr>pre_DispatchID = k, pre_UnitID = d_unit_id r, pre_IncidentID = d_incident_id r,
                pre_Severity = i_severity i, pre_CallSign = u_call_sign u, pre_DistanceMeters = Fin dist\<rparr>)
         else None
     | _ \<Rightarrow> None) (dispatches d)"

definition DispatchRepository_FindPreemptable ::
    "string \<Rightarrow> float64 \<Rightarrow> float64 \<Rightarrow> int \<Rightarrow> ('m, Preemptable list) tx" where
  "DispatchRepository_FindPreemptable severity lat lng limit = pool_stmt (pg_text [severity] (reading (\<lambda>e d.
     map_sum id (map snd) (pg_page limit 0 (sort_key fst (preemptable_rows e d severity lat lng))))))"

section \<open>What the transactions write\<close>

text \<open>The abstract specification: each transaction as one function on the database.\<close>

definition put_unit :: "uuid \<Rightarrow> string \<Rightarrow> time \<Rightarrow> db \<Rightarrow> db" where
  "put_unit u st t d = d\<lparr>units := upd u (set_unit st t) (units d)\<rparr>"

definition put_incident :: "string set \<Rightarrow> uuid \<Rightarrow> string \<Rightarrow> time \<Rightarrow> db \<Rightarrow> db" where
  "put_incident from i st t d =
     d\<lparr>incidents := upd i (\<lambda>r. if i_status r \<in> from then set_incident st t r else r) (incidents d)\<rparr>"

definition add_dispatch :: "uuid \<Rightarrow> uuid \<Rightarrow> uuid \<Rightarrow> time \<Rightarrow> db \<Rightarrow> db" where
  "add_dispatch k i u t d = d\<lparr>dispatches := ins k (new_dispatch i u t) (dispatches d)\<rparr>"

definition put_dispatch :: "uuid \<Rightarrow> string \<Rightarrow> time \<Rightarrow> db \<Rightarrow> db" where
  "put_dispatch k st t d = d\<lparr>dispatches := upd k (set_dispatch st t) (dispatches d)\<rparr>"

lemmas put_defs = put_unit_def put_incident_def add_dispatch_def put_dispatch_def add_event_def

definition assigned :: "uuid \<Rightarrow> int \<Rightarrow> uuid \<Rightarrow> uuid \<Rightarrow> time \<Rightarrow> db \<Rightarrow> db" where
  "assigned k ek i u t d =
     add_event ek (new_event AggregateDispatch k EventDispatchCreated
         (created_payload (scanDispatch (k, new_dispatch i u t))) t)
      (put_incident {StatusReported, StatusVerified} i StatusDispatched t
        (add_dispatch k i u t (put_unit u UnitReserved t d)))"

definition advanced :: "uuid \<Rightarrow> dispatch_row \<Rightarrow> string \<Rightarrow> int \<Rightarrow> time \<Rightarrow> db \<Rightarrow> db" where
  "advanced k r new ek t d =
     (let d1 = put_unit (d_unit_id r) (UnitStatusForDispatch new) t (put_dispatch k new t d);
          left = count_rows (active_for (d_incident_id r)) (dispatches d1)
      in if new = DispatchCompleted
         then add_event ek (new_event AggregateDispatch k EventDispatchCompleted
             (completed_payload (scanDispatch (k, set_dispatch new t r)) left) t)
           (if left = 0 then put_incident {StatusDispatched} (d_incident_id r) StatusResolved t d1 else d1)
         else d1)"

definition reassigned ::
    "uuid \<Rightarrow> dispatch_row \<Rightarrow> uuid \<Rightarrow> uuid \<Rightarrow> uuid \<Rightarrow> string \<Rightarrow> int \<Rightarrow> time \<Rightarrow> db \<Rightarrow> db" where
  "reassigned old r nk i u ev ek t d =
     (let d1 = put_dispatch old DispatchCancelled t d;
          d2 = (if d_unit_id r = u then d1
                else put_unit u UnitReserved t (put_unit (d_unit_id r) UnitAvailable t d1));
          d3 = put_incident {StatusReported, StatusVerified} i StatusDispatched t (add_dispatch nk i u t d2);
          d4 = (if d_incident_id r \<noteq> i \<and> count_rows (active_for (d_incident_id r)) (dispatches d3) = 0
                then put_incident {StatusDispatched} (d_incident_id r) StatusVerified t d3 else d3)
      in add_event ek (new_event AggregateDispatch nk ev
           (reassigned_payload (scanDispatch (nk, new_dispatch i u t)) (scanDispatch (old, r))) t) d4)"

section \<open>The statements, run\<close>

lemma insert_dispatch_Inr:
  "run (insert_dispatch x y) w = (Inr dis, w') \<Longrightarrow>
     \<exists>i u. uuid_cast (wenv w) x = Some i \<and> uuid_cast (wenv w) y = Some u
      \<and> sel (dispatches (view w)) (gen_uuid (wenv w) (pc w)) = None
      \<and> count_rows (active_on u) (dispatches (view w)) = 0
      \<and> dispatch_fk (view w) (new_dispatch i u (txnow w))
      \<and> dis = scanDispatch (gen_uuid (wenv w) (pc w), new_dispatch i u (txnow w))
      \<and> view w' = add_dispatch (gen_uuid (wenv w) (pc w)) i u (txnow w) (view w)"
  by (auto simp: insert_dispatch_def tx_stmt_Inr cast_uuid_Inr Let_def add_dispatch_def split: if_splits)

lemma insert_dispatch_tx_only [simp]: "tx_only (insert_dispatch x y)"
  by (simp add: insert_dispatch_def)

lemma record_assignment_tx_only [simp]: "tx_only (record_assignment x y)"
  by (auto simp: record_assignment_def intro!: tx_only_bind split: sum.split)

lemma record_assignment_Inr:
  "run (record_assignment x y) w = (Inr dis, w') \<Longrightarrow> run (insert_dispatch x y) w = (Inr dis, w')"
  by (auto simp: record_assignment_def run_bind split: prod.splits sum.splits if_splits)

lemma lock_dispatch_Inr:
  "run (not_found_dispatch (lock_dispatch x)) w = (Inr dis, w') \<Longrightarrow>
     \<exists>k r. uuid_cast (wenv w) x = Some k \<and> sel (dispatches (view w)) k = Some r
      \<and> dis = scanDispatch (k, r) \<and> view w' = view w"
  by (auto simp: not_found_dispatch_def lock_dispatch_def run_bind tx_stmt_Inr cast_uuid_Inr
      split: prod.splits sum.splits if_splits option.splits)

lemma lock_dispatch_tx_only [simp]: "tx_only (not_found_dispatch (lock_dispatch x))"
  by (auto simp: not_found_dispatch_def lock_dispatch_def intro!: tx_only_bind split: sum.split)

lemma update_dispatch_Inr:
  "update_dispatch st k e n t d = Inr (a, d', ls) \<Longrightarrow>
     d' = put_dispatch k st t d \<and> a = map_option (\<lambda>r. (k, set_dispatch st t r)) (sel (dispatches d) k)"
  by (auto simp: update_dispatch_def put_dispatch_def upd_absent split: option.splits if_splits)

lemma update_dispatch_Some:
  "update_dispatch st k e n t d = Inr (Some kr, d', ls) \<Longrightarrow>
     \<exists>r. sel (dispatches d) k = Some r \<and> kr = (k, set_dispatch st t r) \<and> d' = put_dispatch k st t d"
  by (auto simp: update_dispatch_def put_dispatch_def split: option.splits if_splits)

lemma update_returning_Inr:
  "run (update_dispatch_returning st x) w = (Inr dis, w') \<Longrightarrow>
     \<exists>k r. uuid_cast (wenv w) x = Some k \<and> sel (dispatches (view w)) k = Some r
      \<and> dis = scanDispatch (k, set_dispatch st (txnow w) r)
      \<and> view w' = put_dispatch k st (txnow w) (view w)"
  by (auto simp: update_dispatch_returning_def run_bindE_Inr tx_stmt_Inr pg_text_def cast_uuid_Inr
      split: option.splits if_splits dest!: update_dispatch_Some)

lemma update_returning_tx_only [simp]: "tx_only (update_dispatch_returning st x)"
  by (auto simp: update_dispatch_returning_def intro!: tx_only_bindE split: option.split)

lemma cancel_dispatch_Inr:
  "run (cancel_dispatch x) w = (Inr u, w') \<Longrightarrow>
     \<exists>k. uuid_cast (wenv w) x = Some k \<and> view w' = put_dispatch k DispatchCancelled (txnow w) (view w)"
  by (auto simp: cancel_dispatch_def run_bindE_Inr tx_stmt_Inr cast_uuid_Inr dest!: update_dispatch_Inr)

lemma cancel_dispatch_tx_only [simp]: "tx_only (cancel_dispatch x)"
  by (auto simp: cancel_dispatch_def intro!: tx_only_bindE)

lemma count_active_Inr:
  "run (count_active x) w = (Inr n, w') \<Longrightarrow>
     \<exists>i. uuid_cast (wenv w) x = Some i \<and> n = count_rows (active_for i) (dispatches (view w)) \<and> view w' = view w"
  by (auto simp: count_active_def tx_stmt_Inr cast_uuid_Inr reading_Inr)

lemma count_active_tx_only [simp]: "tx_only (count_active x)"
  by (simp add: count_active_def)

lemmas dispatch_stmt_tx_only = insert_dispatch_tx_only record_assignment_tx_only lock_dispatch_tx_only
  update_returning_tx_only cancel_dispatch_tx_only count_active_tx_only

text \<open>What a successful body of either reservation path checked and wrote.\<close>

definition reserves :: "env \<Rightarrow> time \<Rightarrow> db \<Rightarrow> string \<Rightarrow> string \<Rightarrow> Dispatch \<Rightarrow> db \<Rightarrow> bool" where
  "reserves e t d x y dis d' \<longleftrightarrow> (\<exists>i u k ek ir ur. uuid_cast e x = Some i \<and> uuid_cast e y = Some u
    \<and> sel (incidents d) i = Some ir \<and> \<not> not_dispatchable (i_status ir)
    \<and> sel (units d) u = Some ur \<and> u_status ur = UnitAvailable
    \<and> sel (dispatches d) k = None \<and> uuid_cast e k = Some k
    \<and> count_rows (active_on u) (dispatches d) = 0 \<and> sel (outbox_events d) ek = None
    \<and> dis = scanDispatch (k, new_dispatch i u t)
    \<and> d' = assigned k ek i u t d)"

text \<open>The ids a dispatch row holds are canonical: they were written by a cast.\<close>

definition canonical :: "env \<Rightarrow> db \<Rightarrow> bool" where
  "canonical e d \<longleftrightarrow> (\<forall>k r. sel (dispatches d) k = Some r \<longrightarrow>
     uuid_cast e (d_unit_id r) = Some (d_unit_id r) \<and> uuid_cast e (d_incident_id r) = Some (d_incident_id r))"

text \<open>A caller's spelling of an incident id never hides that it is the one dispatch \<open>x\<close> serves.\<close>

definition spelled_alike :: "env \<Rightarrow> db \<Rightarrow> string \<Rightarrow> string \<Rightarrow> bool" where
  "spelled_alike e d x inc \<longleftrightarrow> (\<forall>k r. uuid_cast e x = Some k \<longrightarrow> sel (dispatches d) k = Some r
     \<longrightarrow> uuid_cast e inc = Some (d_incident_id r) \<longrightarrow> inc = d_incident_id r)"

lemma spelled_alike_canonical: "uuid_cast e inc = Some inc \<Longrightarrow> spelled_alike e d x inc"
  by (simp add: spelled_alike_def)

definition advances :: "env \<Rightarrow> time \<Rightarrow> db \<Rightarrow> string \<Rightarrow> string \<Rightarrow> Dispatch \<Rightarrow> db \<Rightarrow> bool" where
  "advances e t d x new dis d' \<longleftrightarrow> (\<exists>k r ek. uuid_cast e x = Some k \<and> sel (dispatches d) k = Some r
    \<and> CanTransitionDispatch (d_status r) new \<and> dis = scanDispatch (k, set_dispatch new t r)
    \<and> (new = DispatchCompleted \<longrightarrow> sel (outbox_events d) ek = None)
    \<and> d' = advanced k r new ek t d)"

definition reassigns ::
    "env \<Rightarrow> time \<Rightarrow> db \<Rightarrow> string \<Rightarrow> string \<Rightarrow> string \<Rightarrow> string \<Rightarrow> Dispatch \<Rightarrow> db \<Rightarrow> bool" where
  "reassigns e t d x inc y ev dis d' \<longleftrightarrow> (\<exists>k r nk i ek ir ur. uuid_cast e x = Some k
    \<and> sel (dispatches d) k = Some r \<and> IsActiveDispatch (d_status r)
    \<and> uuid_cast e inc = Some i \<and> sel (incidents d) i = Some ir
    \<and> \<not> not_dispatchable (i_status ir) \<and> uuid_cast e y = Some y
    \<and> sel (units d) y = Some ur \<and> (d_unit_id r \<noteq> y \<longrightarrow> u_status ur = UnitAvailable)
    \<and> sel (dispatches d) nk = None \<and> uuid_cast e nk = Some nk
    \<and> count_rows (active_on y) (dispatches (put_dispatch k DispatchCancelled t d)) = 0
    \<and> sel (outbox_events d) ek = None
    \<and> dis = scanDispatch (nk, new_dispatch i y t)
    \<and> d' = reassigned k r nk i y ev ek t d)"

section \<open>The transactions, from the interfaces' contracts\<close>

locale dispatch_deps =
  unit_reserver "dr_units R" + incident_tracker "dr_incidents R" + event_writer "dr_events R"
  for R :: "'m DispatchRepository"
begin

lemma moves_unit_put: "moves_unit u st w w' \<Longrightarrow> view w' = put_unit u st (txnow w) (view w)"
  by (simp add: moves_unit_def put_unit_def)

lemma moves_incident_put: "moves_incident_if from i st w w' \<Longrightarrow> view w' = put_incident from i st (txnow w) (view w)"
  by (simp add: moves_incident_if_def put_incident_def)

text \<open>What the interface calls keep of the transaction's frame.\<close>

lemma frames:
  "run (LockForReserveTx (dr_units R) x) w = (r1, w') \<Longrightarrow> wenv w' = wenv w \<and> txnow w' = txnow w"
  "run (ReadVersionTx (dr_units R) x) w = (r2, w') \<Longrightarrow> wenv w' = wenv w \<and> txnow w' = txnow w"
  "run (MarkReservedTx (dr_units R) x) w = (r3, w') \<Longrightarrow> wenv w' = wenv w \<and> txnow w' = txnow w"
  "run (MarkReservedCASTx (dr_units R) x v) w = (r4, w') \<Longrightarrow> wenv w' = wenv w \<and> txnow w' = txnow w"
  "run (SetStatusTx (dr_units R) x st) w = (r3, w') \<Longrightarrow> wenv w' = wenv w \<and> txnow w' = txnow w"
  "run (StatusTx (dr_incidents R) x) w = (r1, w') \<Longrightarrow> wenv w' = wenv w \<and> txnow w' = txnow w"
  "run (MarkDispatchedTx (dr_incidents R) x) w = (r3, w') \<Longrightarrow> wenv w' = wenv w \<and> txnow w' = txnow w"
  "run (ResolveIfDispatchedTx (dr_incidents R) x) w = (r3, w') \<Longrightarrow> wenv w' = wenv w \<and> txnow w' = txnow w"
  "run (RevertToVerifiedTx (dr_incidents R) x) w = (r3, w') \<Longrightarrow> wenv w' = wenv w \<and> txnow w' = txnow w"
  "run (insert_dispatch x y) w = (r5, w') \<Longrightarrow> wenv w' = wenv w \<and> txnow w' = txnow w"
  "run (not_found_dispatch (lock_dispatch x)) w = (r5, w') \<Longrightarrow> wenv w' = wenv w \<and> txnow w' = txnow w"
  "run (update_dispatch_returning st x) w = (r5, w') \<Longrightarrow> wenv w' = wenv w \<and> txnow w' = txnow w"
  "run (cancel_dispatch x) w = (r3, w') \<Longrightarrow> wenv w' = wenv w \<and> txnow w' = txnow w"
  "run (count_active x) w = (r6, w') \<Longrightarrow> wenv w' = wenv w \<and> txnow w' = txnow w"
  using dispatch_stmt_tx_only by (auto dest: tx_onlyD [rotated])

lemma reserve_body_tx_only [simp]: "tx_only (reserve_body R x y)"
  unfolding reserve_body_def by (intro tx_only_bindE) (auto intro!: tx_only_bindE)

lemma try_body_tx_only [simp]: "tx_only (try_body R x y)"
  unfolding try_body_def by (intro tx_only_bindE) (auto intro!: tx_only_bindE split: prod.split)

lemma advance_body_tx_only [simp]: "tx_only (advance_body R x st)"
  unfolding advance_body_def by (intro tx_only_bindE) (auto intro!: tx_only_bindE)

lemma lock_units_tx_only [simp]: "tx_only (lock_units R x y)"
  unfolding lock_units_def Let_def by (auto intro!: tx_only_bindE)

lemma reassign_body_tx_only [simp]: "tx_only (reassign_body R x i u ev)"
  unfolding reassign_body_def by (intro tx_only_bindE) (auto intro!: tx_only_bindE)

end

context dispatch_deps
begin

lemma assignment_tail:
  assumes "run (bindE (record_assignment x y) (\<lambda>dis. bindE (MarkDispatchedTx (dr_incidents R) x) (\<lambda>_.
      bindE (WriteTx (dr_events R) AggregateDispatch (dis_ID dis) ev (pl dis)) (\<lambda>_. ok (f dis))))) w = (Inr b, w')"
    and "uuid_ok (wenv w)"
  shows "\<exists>i u k ek. uuid_cast (wenv w) x = Some i \<and> uuid_cast (wenv w) y = Some u
    \<and> sel (dispatches (view w)) k = None \<and> uuid_cast (wenv w) k = Some k
    \<and> count_rows (active_on u) (dispatches (view w)) = 0
    \<and> dispatch_fk (view w) (new_dispatch i u (txnow w)) \<and> sel (outbox_events (view w)) ek = None
    \<and> b = f (scanDispatch (k, new_dispatch i u (txnow w)))
    \<and> view w' = add_event ek (new_event AggregateDispatch k ev
          (pl (scanDispatch (k, new_dispatch i u (txnow w)))) (txnow w))
        (put_incident {StatusReported, StatusVerified} i StatusDispatched (txnow w)
          (add_dispatch k i u (txnow w) (view w)))"
proof -
  let ?k = "gen_uuid (wenv w) (pc w)" and ?t = "txnow w"
  from assms(1) obtain dis w1 w2 where
    a: "run (record_assignment x y) w = (Inr dis, w1)" and
    m: "run (MarkDispatchedTx (dr_incidents R) x) w1 = (Inr (), w2)" and
    e: "run (WriteTx (dr_events R) AggregateDispatch (dis_ID dis) ev (pl dis)) w2 = (Inr (), w')" and
    b: "b = f dis"
    by (auto simp: run_bindE_Inr)
  note ins = record_assignment_Inr [OF a]
  from insert_dispatch_Inr [OF ins] obtain i u where
    i: "uuid_cast (wenv w) x = Some i" "uuid_cast (wenv w) y = Some u" and
    fresh: "sel (dispatches (view w)) ?k = None" "count_rows (active_on u) (dispatches (view w)) = 0"
      "dispatch_fk (view w) (new_dispatch i u ?t)" and
    dis: "dis = scanDispatch (?k, new_dispatch i u ?t)" and
    v1: "view w1 = add_dispatch ?k i u ?t (view w)" by blast
  note f1 = frames(10) [OF ins]
  from dispatched_ok [OF m] i f1 have
    v2: "view w2 = put_incident {StatusReported, StatusVerified} i StatusDispatched ?t (view w1)"
    by (auto dest: moves_incident_put)
  from frames(7) [OF m] f1 have f2: "wenv w2 = wenv w" "txnow w2 = ?t" by simp_all
  have ck: "uuid_cast (wenv w) ?k = Some ?k" using assms(2) by (simp add: uuid_ok_def)
  from write_ok [OF e] f2 dis ck obtain ek where
    "sel (outbox_events (view w2)) ek = None"
    "view w' = add_event ek (new_event AggregateDispatch ?k ev (pl dis) ?t) (view w2)"
    by (auto simp: add_event_def)
  moreover have "outbox_events (view w2) = outbox_events (view w)"
    by (simp add: v1 v2 put_incident_def add_dispatch_def)
  ultimately show ?thesis using i fresh dis v1 v2 b ck by (intro exI [of _ i] exI [of _ u] exI [of _ ?k] exI [of _ ek]) simp
qed

lemma assignment_reserves:
  assumes t: "run (bindE (record_assignment x y) (\<lambda>dis. bindE (MarkDispatchedTx (dr_incidents R) x) (\<lambda>_.
      bindE (WriteTx (dr_events R) AggregateDispatch (dis_ID dis) EventDispatchCreated (created_payload dis))
        (\<lambda>_. ok (f dis))))) w1 = (Inr b, w')"
    and w1: "view w1 = put_unit u UnitReserved (txnow w) (view w)" "wenv w1 = wenv w" "txnow w1 = txnow w"
    and e: "uuid_ok (wenv w)" and y: "uuid_cast (wenv w) y = Some u" and x: "uuid_cast (wenv w) x = Some i"
    and ir: "sel (incidents (view w)) i = Some ir" "\<not> not_dispatchable (i_status ir)"
    and ur: "sel (units (view w)) u = Some ur" "u_status ur = UnitAvailable"
  shows "\<exists>dis. reserves (wenv w) (txnow w) (view w) x y dis (view w') \<and> b = f dis"
proof -
  from assignment_tail [OF t] w1 e obtain i' u' k ek where
    c: "uuid_cast (wenv w) x = Some i'" "uuid_cast (wenv w) y = Some u'" and
    r: "sel (dispatches (view w1)) k = None" "uuid_cast (wenv w) k = Some k"
      "count_rows (active_on u') (dispatches (view w1)) = 0" "sel (outbox_events (view w1)) ek = None"
      "b = f (scanDispatch (k, new_dispatch i' u' (txnow w)))"
      "view w' = add_event ek (new_event AggregateDispatch k EventDispatchCreated
          (created_payload (scanDispatch (k, new_dispatch i' u' (txnow w)))) (txnow w))
        (put_incident {StatusReported, StatusVerified} i' StatusDispatched (txnow w)
          (add_dispatch k i' u' (txnow w) (view w1)))"
    by auto
  from c x y have "i' = i" "u' = u" by simp_all
  with r w1 x y ir ur show ?thesis
    by (intro exI [of _ "scanDispatch (k, new_dispatch i u (txnow w))"])
      (auto simp: reserves_def assigned_def put_unit_def)
qed

lemma reserve_body_Inr:
  assumes "run (reserve_body R x y) w = (Inr dis, w')" and "uuid_ok (wenv w)"
  shows "reserves (wenv w) (txnow w) (view w) x y dis (view w')"
proof -
  from assms(1) obtain st w1 w2 w3 where
    l: "run (LockForReserveTx (dr_units R) y) w = (Inr st, w1)" "st = UnitAvailable" and
    s: "\<exists>inc. run (StatusTx (dr_incidents R) x) w1 = (Inr inc, w2) \<and> \<not> not_dispatchable inc" and
    m: "run (MarkReservedTx (dr_units R) y) w2 = (Inr (), w3)" and
    t: "run (bindE (record_assignment x y) (\<lambda>dis. bindE (MarkDispatchedTx (dr_incidents R) x) (\<lambda>_.
      bindE (WriteTx (dr_events R) AggregateDispatch (dis_ID dis) EventDispatchCreated (created_payload dis))
        (\<lambda>_. ok dis)))) w3 = (Inr dis, w')"
    unfolding reserve_body_def run_bindE_Inr by (auto simp: run_bindE_Inr split: if_splits)
  from s obtain inc where s: "run (StatusTx (dr_incidents R) x) w1 = (Inr inc, w2)" "\<not> not_dispatchable inc"
    by blast
  from lock_ok [OF l(1)] l(2) obtain u ur where u: "uuid_cast (wenv w) y = Some u"
    "sel (units (view w)) u = Some ur" "u_status ur = UnitAvailable" "view w1 = view w"
    by (auto simp: reads_only_def)
  note f1 = frames(1) [OF l(1)] and f2 = frames(6) [OF s(1)] and f3 = frames(3) [OF m]
  from status_ok [OF s(1)] s(2) f1 u(4) obtain i ir where i: "uuid_cast (wenv w) x = Some i"
    "sel (incidents (view w)) i = Some ir" "\<not> not_dispatchable (i_status ir)" "view w2 = view w"
    by (auto simp: reads_only_def)
  from mark_ok [OF m] f1 f2 u i have "view w3 = put_unit u UnitReserved (txnow w) (view w)"
    by (auto dest: moves_unit_put)
  from assignment_reserves [OF t this] f1 f2 f3 assms(2) u i show ?thesis by auto
qed

lemma try_body_Inr:
  assumes "run (try_body R x y) w = (Inr r, w')" and "uuid_ok (wenv w)"
  shows "r = Return None \<or> (\<exists>dis. r = Commit (Some dis) \<and> reserves (wenv w) (txnow w) (view w) x y dis (view w'))"
proof -
  from assms(1) obtain v w1 w2 w3 won where
    l: "run (ReadVersionTx (dr_units R) y) w = (Inr (UnitAvailable, v), w1)" and
    s: "\<exists>inc. run (StatusTx (dr_incidents R) x) w1 = (Inr inc, w2) \<and> \<not> not_dispatchable inc" and
    m: "run (MarkReservedCASTx (dr_units R) y v) w2 = (Inr won, w3)" and
    t: "run (if \<not> won then ok (Return None) else
      bindE (record_assignment x y) (\<lambda>dis. bindE (MarkDispatchedTx (dr_incidents R) x) (\<lambda>_.
      bindE (WriteTx (dr_events R) AggregateDispatch (dis_ID dis) EventDispatchCreated (created_payload dis))
        (\<lambda>_. ok (Commit (Some dis)))))) w3 = (Inr r, w')"
    unfolding try_body_def run_bindE_Inr by (force simp: run_bindE_Inr split: if_splits)
  show ?thesis
  proof (cases won)
    case False
    with t show ?thesis by simp
  next
    case True
    from s obtain inc where s: "run (StatusTx (dr_incidents R) x) w1 = (Inr inc, w2)" "\<not> not_dispatchable inc"
      by blast
    from read_version_ok [OF l] obtain u ur where u: "uuid_cast (wenv w) y = Some u"
      "sel (units (view w)) u = Some ur" "u_status ur = UnitAvailable" "view w1 = view w"
      by (auto simp: reads_only_def)
    note f1 = frames(2) [OF l] and f2 = frames(6) [OF s(1)] and f3 = frames(4) [OF m]
    from status_ok [OF s(1)] s(2) f1 u(4) obtain i ir where i: "uuid_cast (wenv w) x = Some i"
      "sel (incidents (view w)) i = Some ir" "\<not> not_dispatchable (i_status ir)" "view w2 = view w"
      by (auto simp: reads_only_def)
    from cas_ok [OF m] True f1 f2 u i have v3: "view w3 = put_unit u UnitReserved (txnow w) (view w)"
      by (auto dest: moves_unit_put)
    from t True have "run (bindE (record_assignment x y) (\<lambda>dis.
        bindE (MarkDispatchedTx (dr_incidents R) x) (\<lambda>_.
        bindE (WriteTx (dr_events R) AggregateDispatch (dis_ID dis) EventDispatchCreated (created_payload dis))
        (\<lambda>_. ok (Commit (Some dis)))))) w3 = (Inr r, w')" by simp
    from assignment_reserves [OF this v3] f1 f2 f3 assms(2) u i show ?thesis by auto
  qed
qed

end

context dispatch_deps
begin

lemma advance_body_Inr:
  assumes "run (advance_body R x new) w = (Inr dis, w')" and "uuid_ok (wenv w)" and can: "canonical (wenv w) (view w)"
  shows "advances (wenv w) (txnow w) (view w) x new dis (view w')"
proof -
  from assms(1) obtain cur w1 d1 w2 w3 where
    l: "run (not_found_dispatch (lock_dispatch x)) w = (Inr cur, w1)" "CanTransitionDispatch (dis_Status cur) new" and
    d: "run (update_dispatch_returning new x) w1 = (Inr d1, w2)" and
    u: "run (SetStatusTx (dr_units R) (dis_UnitID cur) (UnitStatusForDispatch new)) w2 = (Inr (), w3)" and
    t: "run (if new = DispatchCompleted then
       bindE (count_active (dis_IncidentID cur)) (\<lambda>active.
       bindE (if active = 0 then ResolveIfDispatchedTx (dr_incidents R) (dis_IncidentID cur) else ok ()) (\<lambda>_.
       bindE (WriteTx (dr_events R) AggregateDispatch (dis_ID d1) EventDispatchCompleted
                (completed_payload d1 active)) (\<lambda>_. ok d1)))
     else ok d1) w3 = (Inr dis, w')"
    unfolding advance_body_def run_bindE_Inr run_guard by auto
  note f1 = frames(11) [OF l(1)] and f2 = frames(12) [OF d] and f3 = frames(5) [OF u]
  from lock_dispatch_Inr [OF l(1)] obtain k r where k: "uuid_cast (wenv w) x = Some k"
    "sel (dispatches (view w)) k = Some r" "cur = scanDispatch (k, r)" "view w1 = view w" by blast
  with update_returning_Inr [OF d] f1 have
    v2: "view w2 = put_dispatch k new (txnow w) (view w)" and d1: "d1 = scanDispatch (k, set_dispatch new (txnow w) r)"
    by auto
  from can k have cu: "uuid_cast (wenv w) (d_unit_id r) = Some (d_unit_id r)"
    "uuid_cast (wenv w) (d_incident_id r) = Some (d_incident_id r)" by (auto simp: canonical_def)
  from set_ok [OF u] k cu f1 f2 v2 have v3: "view w3 = put_unit (d_unit_id r) (UnitStatusForDispatch new) (txnow w)
      (put_dispatch k new (txnow w) (view w))"
    by (auto dest: moves_unit_put)
  show ?thesis
  proof (cases "new = DispatchCompleted")
    case False
    with t k l(2) d1 v3 show ?thesis by (auto simp: advances_def advanced_def Let_def)
  next
    case True
    with t obtain n w4 w5 where
      c: "run (count_active (dis_IncidentID cur)) w3 = (Inr n, w4)" and
      rs: "run (if n = 0 then ResolveIfDispatchedTx (dr_incidents R) (dis_IncidentID cur) else ok ()) w4 = (Inr (), w5)" and
      e: "run (WriteTx (dr_events R) AggregateDispatch (dis_ID d1) EventDispatchCompleted (completed_payload d1 n)) w5
            = (Inr (), w')" and dis: "dis = d1"
      by (auto simp: run_bindE_Inr)
    note f4 = frames(14) [OF c]
    from count_active_Inr [OF c] k cu f1 f2 f3 have
      n: "n = count_rows (active_for (d_incident_id r)) (dispatches (view w3))" and v4: "view w4 = view w3" by auto
    have v5: "view w5 = (if n = 0 then put_incident {StatusDispatched} (d_incident_id r) StatusResolved (txnow w) (view w3)
        else view w3) \<and> wenv w5 = wenv w \<and> txnow w5 = txnow w"
    proof (cases "n = 0")
      case n0: True
      with rs have rs: "run (ResolveIfDispatchedTx (dr_incidents R) (dis_IncidentID cur)) w4 = (Inr (), w5)" by simp
      from resolve_ok [OF rs] frames(8) [OF rs] n0 k cu f1 f2 f3 f4 v4 show ?thesis
        by (auto dest: moves_incident_put)
    next
      case False
      with rs v4 f1 f2 f3 f4 show ?thesis by auto
    qed
    have ck: "uuid_cast (wenv w) k = Some k" using assms(2) k by (auto simp: uuid_ok_def)
    from write_ok [OF e] v5 d1 ck obtain ek where
      ek: "sel (outbox_events (view w5)) ek = None"
      "view w' = add_event ek (new_event AggregateDispatch k EventDispatchCompleted (completed_payload d1 n) (txnow w)) (view w5)"
      by (auto simp: add_event_def)
    have "outbox_events (view w5) = outbox_events (view w)"
      using v5 v3 by (simp add: put_defs split: if_splits)
    with ek k l(2) d1 v3 v5 n dis True show ?thesis
      by (auto simp: advances_def advanced_def Let_def)
  qed
qed

lemma lock_units_Inr:
  assumes "run (lock_units R old y) w = (Inr (), w')" and "uuid_cast (wenv w) old = Some old"
  shows "view w' = view w \<and> wenv w' = wenv w \<and> txnow w' = txnow w
    \<and> (old \<noteq> y \<longrightarrow> (\<exists>u ur. uuid_cast (wenv w) y = Some u \<and> sel (units (view w)) u = Some ur
          \<and> u_status ur = UnitAvailable))"
proof (cases "old = y")
  case True
  with assms(1) obtain st where l: "run (LockForReserveTx (dr_units R) old) w = (Inr st, w')"
    by (auto simp: lock_units_def run_bindE_Inr)
  from lock_ok [OF l] frames(1) [OF l] True show ?thesis by (auto simp: reads_only_def)
next
  case False
  with assms(1) obtain a b s1 s2 w1 w2 where
    l1: "run (LockForReserveTx (dr_units R) a) w = (Inr s1, w1)" and
    l2: "run (LockForReserveTx (dr_units R) b) w1 = (Inr s2, w2)" and
    l3: "run (LockForReserveTx (dr_units R) y) w2 = (Inr UnitAvailable, w')"
    by (auto simp: lock_units_def Let_def run_bindE_Inr split: if_splits)
  note f = frames(1) [OF l1] frames(1) [OF l2] frames(1) [OF l3]
  from lock_ok [OF l1] lock_ok [OF l2] f have "view w2 = view w \<and> wenv w2 = wenv w \<and> txnow w2 = txnow w"
    by (auto simp: reads_only_def)
  with lock_ok [OF l3] f show ?thesis by (auto simp: reads_only_def)
qed

end

context dispatch_deps
begin

lemma move_units_Inr:
  assumes "run (if old \<noteq> y then bindE (SetStatusTx (dr_units R) old UnitAvailable) (\<lambda>_.
      MarkReservedTx (dr_units R) y) else ok ()) w = (Inr (), w')"
    and "uuid_cast (wenv w) old = Some old"
  shows "wenv w' = wenv w \<and> txnow w' = txnow w \<and> (\<exists>u. (old \<noteq> y \<longrightarrow> uuid_cast (wenv w) y = Some u) \<and>
    view w' = (if old = y then view w else put_unit u UnitReserved (txnow w) (put_unit old UnitAvailable (txnow w) (view w))))"
proof (cases "old = y")
  case True
  with assms show ?thesis by simp
next
  case False
  with assms(1) obtain w1 where s: "run (SetStatusTx (dr_units R) old UnitAvailable) w = (Inr (), w1)"
    and m: "run (MarkReservedTx (dr_units R) y) w1 = (Inr (), w')"
    by (auto simp: run_bindE_Inr)
  from set_ok [OF s] mark_ok [OF m] frames(5) [OF s] frames(3) [OF m] assms(2) False show ?thesis
    by (auto dest!: moves_unit_put)
qed

lemma revert_old_Inr:
  assumes "run (if inc \<noteq> x then bindE (count_active inc) (\<lambda>n.
      if n = 0 then RevertToVerifiedTx (dr_incidents R) inc else ok ()) else ok ()) w = (Inr (), w')"
    and "uuid_cast (wenv w) inc = Some inc"
  shows "wenv w' = wenv w \<and> txnow w' = txnow w \<and>
    view w' = (if inc \<noteq> x \<and> count_rows (active_for inc) (dispatches (view w)) = 0
      then put_incident {StatusDispatched} inc StatusVerified (txnow w) (view w) else view w)"
proof (cases "inc = x")
  case True
  with assms(1) show ?thesis by simp
next
  case False
  with assms(1) obtain n w1 where c: "run (count_active inc) w = (Inr n, w1)" and
    r: "run (if n = 0 then RevertToVerifiedTx (dr_incidents R) inc else ok ()) w1 = (Inr (), w')"
    by (auto simp: run_bindE_Inr)
  from count_active_Inr [OF c] frames(14) [OF c] assms(2) have c': "n = count_rows (active_for inc) (dispatches (view w))"
    "view w1 = view w" "wenv w1 = wenv w" "txnow w1 = txnow w" by auto
  show ?thesis
  proof (cases "n = 0")
    case True
    with r have r: "run (RevertToVerifiedTx (dr_incidents R) inc) w1 = (Inr (), w')" by simp
    from revert_ok [OF r] frames(9) [OF r] True False c' assms(2) show ?thesis
      by (auto dest: moves_incident_put)
  next
    case n: False
    with r c' False show ?thesis by auto
  qed
qed

text \<open>The caller names the incoming unit by its canonical id, and does not name the outgoing
  incident by another spelling of its id.\<close>

lemma reassign_body_Inr:
  assumes "run (reassign_body R x inc y ev) w = (Inr dis, w')" and e: "uuid_ok (wenv w)"
    and can: "canonical (wenv w) (view w)"
    and y: "uuid_cast (wenv w) y = Some y" and inc: "spelled_alike (wenv w) (view w) x inc"
  shows "reassigns (wenv w) (txnow w) (view w) x inc y ev dis (view w')"
proof -
  let ?t = "txnow w"
  from assms(1) obtain old w1 w2 w3 w4 w5 st where
    l: "run (not_found_dispatch (lock_dispatch x)) w = (Inr old, w1)" "IsActiveDispatch (dis_Status old)" and
    lu: "run (lock_units R (dis_UnitID old) y) w1 = (Inr (), w2)" and
    s: "run (StatusTx (dr_incidents R) inc) w2 = (Inr st, w3)" "\<not> not_dispatchable st" and
    c: "run (cancel_dispatch x) w3 = (Inr (), w4)" and
    mv: "run (if dis_UnitID old \<noteq> y then bindE (SetStatusTx (dr_units R) (dis_UnitID old) UnitAvailable) (\<lambda>_.
      MarkReservedTx (dr_units R) y) else ok ()) w4 = (Inr (), w5)" and
    t: "run (bindE (record_assignment inc y) (\<lambda>nd.
     bindE (MarkDispatchedTx (dr_incidents R) inc) (\<lambda>_.
     bindE (if dis_IncidentID old \<noteq> inc
            then bindE (count_active (dis_IncidentID old)) (\<lambda>stillActive.
                 if stillActive = 0 then RevertToVerifiedTx (dr_incidents R) (dis_IncidentID old) else ok ())
            else ok ()) (\<lambda>_.
     bindE (WriteTx (dr_events R) AggregateDispatch (dis_ID nd) ev (reassigned_payload nd old)) (\<lambda>_.
     ok nd))))) w5 = (Inr dis, w')"
    unfolding reassign_body_def run_bindE_Inr run_guard not_not by (force simp: run_bindE_Inr)
  from lock_dispatch_Inr [OF l(1)] obtain k r where k: "uuid_cast (wenv w) x = Some k"
    "sel (dispatches (view w)) k = Some r" "old = scanDispatch (k, r)" "view w1 = view w" by blast
  from can k have cu: "uuid_cast (wenv w) (d_unit_id r) = Some (d_unit_id r)"
    "uuid_cast (wenv w) (d_incident_id r) = Some (d_incident_id r)" by (auto simp: canonical_def)
  note f1 = frames(11) [OF l(1)]
  from lock_units_Inr [OF lu] k cu f1 have lu': "view w2 = view w" "wenv w2 = wenv w" "txnow w2 = ?t"
    "d_unit_id r \<noteq> y \<Longrightarrow> \<exists>ur. sel (units (view w)) y = Some ur \<and> u_status ur = UnitAvailable"
    using y by auto
  note f3 = frames(6) [OF s(1)] and f4 = frames(13) [OF c]
  from status_ok [OF s(1)] s(2) lu' obtain i ir where i: "uuid_cast (wenv w) inc = Some i"
    and ir: "sel (incidents (view w)) i = Some ir" "\<not> not_dispatchable (i_status ir)" "view w3 = view w"
    by (auto simp: reads_only_def)
  have same: "dis_IncidentID old = inc \<longleftrightarrow> d_incident_id r = i"
    using inc i k cu by (auto simp: spelled_alike_def)
  from cancel_dispatch_Inr [OF c] k f3 lu' ir have v4: "view w4 = put_dispatch k DispatchCancelled ?t (view w)" by auto
  have "uuid_cast (wenv w4) (dis_UnitID old) = Some (dis_UnitID old)" using f3 f4 lu' k cu by simp
  from move_units_Inr [OF mv this] f3 f4 lu' k y v4 have
    v5: "view w5 = (if d_unit_id r = y then put_dispatch k DispatchCancelled ?t (view w)
       else put_unit y UnitReserved ?t (put_unit (d_unit_id r) UnitAvailable ?t (put_dispatch k DispatchCancelled ?t (view w))))"
    and f5: "wenv w5 = wenv w" "txnow w5 = ?t" by auto
  from t obtain nd w6 w7 w8 where
    a: "run (record_assignment inc y) w5 = (Inr nd, w6)" and
    m: "run (MarkDispatchedTx (dr_incidents R) inc) w6 = (Inr (), w7)" and
    rv: "run (if dis_IncidentID old \<noteq> inc then bindE (count_active (dis_IncidentID old)) (\<lambda>n.
         if n = 0 then RevertToVerifiedTx (dr_incidents R) (dis_IncidentID old) else ok ()) else ok ()) w7 = (Inr (), w8)" and
    wr: "run (WriteTx (dr_events R) AggregateDispatch (dis_ID nd) ev (reassigned_payload nd old)) w8 = (Inr (), w')" and
    dis: "dis = nd"
    unfolding run_bindE_Inr by (auto simp: run_bindE_Inr)
  note ins = record_assignment_Inr [OF a]
  from insert_dispatch_Inr [OF ins] obtain nk where
    fresh: "sel (dispatches (view w5)) nk = None" "count_rows (active_on y) (dispatches (view w5)) = 0"
      "dispatch_fk (view w5) (new_dispatch i y ?t)" and nd: "nd = scanDispatch (nk, new_dispatch i y ?t)" and
    v6: "view w6 = add_dispatch nk i y ?t (view w5)" and nk: "nk = gen_uuid (wenv w5) (pc w5)"
    using f5 y i by auto
  from nk f5 e have cnk: "uuid_cast (wenv w) nk = Some nk" by (simp add: uuid_ok_def)
  note f6 = frames(10) [OF ins] and f7 = frames(7) [OF m]
  from dispatched_ok [OF m] f6 f5 i have
    v7: "view w7 = put_incident {StatusReported, StatusVerified} i StatusDispatched ?t (view w6)"
    by (auto dest: moves_incident_put)
  have "uuid_cast (wenv w7) (dis_IncidentID old) = Some (dis_IncidentID old)" using f7 f6 f5 k cu by simp
  from revert_old_Inr [OF rv this] f7 f6 f5 k same have
    v8: "view w8 = (if d_incident_id r \<noteq> i \<and> count_rows (active_for (d_incident_id r)) (dispatches (view w7)) = 0
      then put_incident {StatusDispatched} (d_incident_id r) StatusVerified ?t (view w7) else view w7)"
      "wenv w8 = wenv w" "txnow w8 = ?t" by auto
  from write_ok [OF wr] v8 nd cnk obtain ek where
    ek: "sel (outbox_events (view w8)) ek = None"
    "view w' = add_event ek (new_event AggregateDispatch nk ev (reassigned_payload nd old) ?t) (view w8)"
    by (auto simp: add_event_def)
  have "view w' = reassigned k r nk i y ev ek ?t (view w)"
    unfolding ek(2) v8 v7 v6 v5 nd k(3) reassigned_def Let_def by simp
  moreover have "outbox_events (view w8) = outbox_events (view w)" and "units (view w5) = units (view w) \<or> d_unit_id r \<noteq> y"
    and "dispatches (view w5) = dispatches (put_dispatch k DispatchCancelled ?t (view w))"
    using v8 v7 v6 v5 by (auto simp: put_defs split: if_splits)
  moreover have "sel (units (view w)) y \<noteq> None"
    using lu'(4) fresh(3) calculation(3) by (auto simp: dispatch_fk_def new_dispatch_def)
  moreover have "sel (dispatches (view w)) nk = None" using fresh(1) calculation(4) by (simp add: put_defs sel_upd split: if_splits)
  ultimately show ?thesis
    using k l(2) i ir y lu'(4) cnk fresh(2) ek(1) nd dis unfolding reassigns_def by auto
qed

end

section \<open>The invariant\<close>

text \<open>
  A unit that is available has no active dispatch, a unit whose status says it is assigned has
  exactly one, and no unit has more; every dispatch names an existing unit and incident.
\<close>

definition assigned_status :: "string \<Rightarrow> bool" where
  "assigned_status s \<longleftrightarrow> s \<in> set [UnitReserved, UnitEnRoute, UnitOnScene]"

definition unit_consistent :: "(uuid, dispatch_row) table \<Rightarrow> uuid \<Rightarrow> unit_row \<Rightarrow> bool" where
  "unit_consistent t u r \<longleftrightarrow> (u_status r = UnitAvailable \<longrightarrow> count_rows (active_on u) t = 0)
     \<and> (assigned_status (u_status r) \<longrightarrow> count_rows (active_on u) t = 1)"

definition dispatch_inv :: "env \<Rightarrow> db \<Rightarrow> bool" where
  "dispatch_inv e d \<longleftrightarrow> pkey (units d) \<and> pkey (dispatches d) \<and> one_active (dispatches d)
     \<and> (\<forall>u r. sel (units d) u = Some r \<longrightarrow> unit_consistent (dispatches d) u r)
     \<and> (\<forall>k r. sel (dispatches d) k = Some r \<longrightarrow> dispatch_fk d r) \<and> canonical e d"

lemma assigned_status_simps [simp]:
  "assigned_status UnitReserved" "assigned_status UnitEnRoute" "assigned_status UnitOnScene"
  "\<not> assigned_status UnitAvailable" "\<not> assigned_status UnitOutOfService"
  by (simp_all add: assigned_status_def)

lemma dispatch_inv_empty: "dispatch_inv e empty_db"
  by (simp add: dispatch_inv_def empty_db_def one_active_def canonical_def)

lemma dispatch_inv_frame:
  "units d' = units d \<Longrightarrow> dispatches d' = dispatches d \<Longrightarrow>
     (\<And>i. sel (incidents d) i \<noteq> None \<Longrightarrow> sel (incidents d') i \<noteq> None) \<Longrightarrow> dispatch_inv e d \<Longrightarrow> dispatch_inv e d'"
  unfolding dispatch_inv_def canonical_def dispatch_fk_def by metis

lemma dispatch_inv_put_incident [intro]: "dispatch_inv e d \<Longrightarrow> dispatch_inv e (put_incident from i st t d)"
  by (erule dispatch_inv_frame [rotated -1]) (auto simp: put_incident_def sel_upd)

lemma dispatch_inv_add_event [intro]: "dispatch_inv e d \<Longrightarrow> dispatch_inv e (add_event ek ev d)"
  by (erule dispatch_inv_frame [rotated -1]) (auto simp: add_event_def)

lemma count_active_new [simp]:
  "count_rows (active_on v) (ins k (new_dispatch i u t) D)
     = count_rows (active_on v) D + (if v = u then 1 else 0)"
  by (auto simp: new_dispatch_def active_on_def)

text \<open>Taking a unit: it is marked reserved and gets its one active dispatch.\<close>

lemma inv_take:
  assumes "dispatch_inv e d" and "sel (units d) u \<noteq> None" and "sel (incidents d) i \<noteq> None"
    and "sel (dispatches d) k = None" and "count_rows (active_on u) (dispatches d) = 0"
    and "uuid_cast e u = Some u" and "uuid_cast e i = Some i"
  shows "dispatch_inv e (add_dispatch k i u t (put_unit u UnitReserved t d))"
  using assms
  by (auto simp: dispatch_inv_def add_dispatch_def put_unit_def one_active_def unit_consistent_def
      canonical_def dispatch_fk_def pkey_ins sel_upd sel_ins
      simp del: count_rows_ins split: if_splits option.splits)

lemma count_active_put:
  assumes "pkey D" and "sel D k = Some r"
  shows "count_rows (active_on v) (upd k (set_dispatch new t) D)
       + (if d_unit_id r = v \<and> active_status (d_status r) then 1 else 0)
     = count_rows (active_on v) D + (if d_unit_id r = v \<and> active_status new then 1 else 0)"
  using count_rows_upd [OF assms, of "active_on v" "set_dispatch new t"]
  by (simp add: active_on_def)

lemma CanTransition_active: "CanTransitionDispatch from to \<Longrightarrow> active_status from"
  by (auto simp: CanTransitionDispatch_def allowedDispatchTransitions_def split: if_splits option.splits)

lemma CanTransition_valid: "CanTransitionDispatch from to \<Longrightarrow> IsValidDispatchStatus to \<and> to \<noteq> DispatchReserved"
  by (auto simp: CanTransitionDispatch_def allowedDispatchTransitions_def IsValidDispatchStatus_def
      split: if_splits option.splits)

lemma IsActive_active: "IsActiveDispatch s = active_status s"
  by (auto simp: IsActiveDispatch_def active_status_def)

lemma mirror_status:
  "IsValidDispatchStatus new \<Longrightarrow>
     (active_status new \<longrightarrow> assigned_status (UnitStatusForDispatch new))
     \<and> (\<not> active_status new \<longrightarrow> UnitStatusForDispatch new = UnitAvailable)"
  by (auto simp: IsValidDispatchStatus_def UnitStatusForDispatch_def)

text \<open>Moving a dispatch on: its unit mirrors the phase, or is free once the dispatch has ended.\<close>

lemma inv_move:
  assumes inv: "dispatch_inv e d" and r: "sel (dispatches d) k = Some r" and a: "active_status (d_status r)"
    and v: "IsValidDispatchStatus new"
  shows "dispatch_inv e (put_unit (d_unit_id r) (UnitStatusForDispatch new) t (put_dispatch k new t d))"
proof -
  let ?D = "dispatches d" and ?D' = "upd k (set_dispatch new t) (dispatches d)"
  have p: "pkey ?D" using inv by (simp add: dispatch_inv_def)
  note cnt = count_active_put [OF p r, of _ new t]
  have other: "count_rows (active_on v) ?D' = count_rows (active_on v) ?D" if "v \<noteq> d_unit_id r" for v
    using cnt [of v] that by auto
  have one: "count_rows (active_on (d_unit_id r)) ?D = 1"
  proof -
    have "count_rows (active_on (d_unit_id r)) ?D > 0"
      using r a sel_Some_in [OF r] by (force simp: count_rows_pos active_on_def)
    moreover have "count_rows (active_on (d_unit_id r)) ?D \<le> 1"
      using inv by (simp add: dispatch_inv_def one_active_def)
    ultimately show ?thesis by linarith
  qed
  have here: "count_rows (active_on (d_unit_id r)) ?D' = (if active_status new then 1 else 0)"
    using cnt [of "d_unit_id r"] one a by auto
  have "one_active ?D'"
    unfolding one_active_def
  proof
    fix v show "count_rows (active_on v) ?D' \<le> 1"
      using other [of v] here inv by (cases "v = d_unit_id r") (auto simp: dispatch_inv_def one_active_def)
  qed
  moreover have "unit_consistent ?D' v r'" if "sel (upd (d_unit_id r) (set_unit (UnitStatusForDispatch new) t) (units d)) v = Some r'" for v r'
  proof (cases "v = d_unit_id r")
    case True
    with that mirror_status [OF v] here show ?thesis by (auto simp: unit_consistent_def)
  next
    case False
    with that inv other [OF False] show ?thesis by (auto simp: unit_consistent_def dispatch_inv_def)
  qed
  moreover have "uuid_cast e (d_unit_id r') = Some (d_unit_id r') \<and> uuid_cast e (d_incident_id r') = Some (d_incident_id r')
      \<and> sel (incidents d) (d_incident_id r') \<noteq> None \<and> sel (units d) (d_unit_id r') \<noteq> None"
    if "sel ?D' k' = Some r'" for k' r'
    using that inv by (cases "k' = k") (auto simp: dispatch_inv_def canonical_def dispatch_fk_def)
  ultimately show ?thesis using inv
    by (auto simp: dispatch_inv_def canonical_def put_unit_def put_dispatch_def dispatch_fk_def)
qed

text \<open>Handing a unit over to another incident: its dispatch ends and the next one begins at once.\<close>

lemma inv_handover:
  assumes inv: "dispatch_inv e d" and r: "sel (dispatches d) k = Some r" and a: "active_status (d_status r)"
    and i: "sel (incidents d) i \<noteq> None" "uuid_cast e i = Some i" and nk: "sel (dispatches d) nk = None"
  shows "dispatch_inv e (add_dispatch nk i (d_unit_id r) t (put_dispatch k DispatchCancelled t d))"
proof -
  let ?u = "d_unit_id r" and ?D = "dispatches d"
  let ?D' = "ins nk (new_dispatch i ?u t) (upd k (set_dispatch DispatchCancelled t) ?D)"
  have p: "pkey ?D" using inv by (simp add: dispatch_inv_def)
  have same: "count_rows (active_on v) ?D' = count_rows (active_on v) ?D" for v
    using count_active_put [OF p r, of v DispatchCancelled t] a by (auto simp del: count_rows_ins)
  have fk: "uuid_cast e (d_unit_id r') = Some (d_unit_id r') \<and> uuid_cast e (d_incident_id r') = Some (d_incident_id r')
      \<and> sel (incidents d) (d_incident_id r') \<noteq> None \<and> sel (units d) (d_unit_id r') \<noteq> None"
    if "sel ?D' k' = Some r'" for k' r'
  proof (cases "k' = nk")
    case True
    with that nk have "r' = new_dispatch i ?u t" by (simp add: sel_ins sel_upd split: if_splits)
    with i inv r show ?thesis by (auto simp: dispatch_inv_def canonical_def dispatch_fk_def)
  next
    case False
    with that inv show ?thesis
      by (cases "k' = k") (auto simp: dispatch_inv_def canonical_def dispatch_fk_def)
  qed
  have "pkey ?D'" using p nk by (intro pkey_ins) simp_all
  with inv fk same show ?thesis
    by (auto simp: dispatch_inv_def canonical_def add_dispatch_def put_dispatch_def dispatch_fk_def
        one_active_def unit_consistent_def simp del: count_rows_ins count_active_new)
qed

lemma inv_reserves: "reserves e t d x y dis d' \<Longrightarrow> uuid_ok e \<Longrightarrow> dispatch_inv e d \<Longrightarrow> dispatch_inv e d'"
  by (auto simp: reserves_def assigned_def uuid_ok_def intro!: dispatch_inv_add_event dispatch_inv_put_incident inv_take)

lemma inv_advances: "advances e t d x new dis d' \<Longrightarrow> dispatch_inv e d \<Longrightarrow> dispatch_inv e d'"
  by (auto simp: advances_def advanced_def Let_def intro!: dispatch_inv_add_event dispatch_inv_put_incident inv_move
      dest: CanTransition_active CanTransition_valid)

lemma inv_reassigns:
  assumes "reassigns e t d x inc y ev dis d'" and inv: "dispatch_inv e d" and e: "uuid_ok e"
  shows "dispatch_inv e d'"
proof -
  from assms(1) obtain k r nk i ek ir ur where
    k: "sel (dispatches d) k = Some r" "active_status (d_status r)" and
    i: "uuid_cast e inc = Some i" "sel (incidents d) i = Some ir" and
    y: "uuid_cast e y = Some y" "sel (units d) y = Some ur" and
    nk: "sel (dispatches d) nk = None" and
    c: "count_rows (active_on y) (dispatches (put_dispatch k DispatchCancelled t d)) = 0" and
    d': "d' = reassigned k r nk i y ev ek t d"
    unfolding reassigns_def IsActive_active by blast
  from e i have ci: "uuid_cast e i = Some i" by (auto simp: uuid_ok_def)
  have "dispatch_inv e (add_dispatch nk i y t (if d_unit_id r = y then put_dispatch k DispatchCancelled t d
      else put_unit y UnitReserved t (put_unit (d_unit_id r) UnitAvailable t (put_dispatch k DispatchCancelled t d))))"
  proof (cases "d_unit_id r = y")
    case True
    with inv_handover [OF inv k _ ci nk] i show ?thesis by auto
  next
    case False
    have "dispatch_inv e (put_unit (d_unit_id r) UnitAvailable t (put_dispatch k DispatchCancelled t d))"
      using inv_move [OF inv k, of DispatchCancelled t]
      by (simp add: IsValidDispatchStatus_def UnitStatusForDispatch_def)
    from inv_take [OF this, of y i nk t] False y i ci nk c show ?thesis by (simp add: put_defs)
  qed
  then show ?thesis
    unfolding d' reassigned_def Let_def by (auto intro!: dispatch_inv_add_event dispatch_inv_put_incident)
qed

lemma inv_canonical: "dispatch_inv e d \<Longrightarrow> canonical e d"
  by (simp add: dispatch_inv_def)

context dispatch_deps
begin

lemma Reserve_all_or_nothing:
  assumes "run (DispatchRepository_Reserve R x y) w = (res, w')" and "uuid_ok (wenv w)"
  shows "all_or_nothing (reserves (wenv w) (clock (wenv w) (pc w)) (base w) x y) w res w'"
  by (rule in_tx_all_or_nothing [OF assms(1) [unfolded DispatchRepository_Reserve_def] reserve_body_tx_only])
    (use reserve_body_Inr assms(2) in force)

lemma Advance_all_or_nothing:
  assumes "run (DispatchRepository_AdvanceStatus R x new) w = (res, w')" and "uuid_ok (wenv w)"
    and "canonical (wenv w) (base w)"
  shows "all_or_nothing (advances (wenv w) (clock (wenv w) (pc w)) (base w) x new) w res w'"
  by (rule in_tx_all_or_nothing [OF assms(1) [unfolded DispatchRepository_AdvanceStatus_def] advance_body_tx_only])
    (use advance_body_Inr assms(2,3) in force)

lemma Reassign_all_or_nothing:
  assumes "run (DispatchRepository_Reassign R x inc y ev) w = (res, w')" and "uuid_ok (wenv w)"
    and "canonical (wenv w) (base w)"
    and "uuid_cast (wenv w) y = Some y" "spelled_alike (wenv w) (base w) x inc"
  shows "all_or_nothing (reassigns (wenv w) (clock (wenv w) (pc w)) (base w) x inc y ev) w res w'"
  by (rule in_tx_all_or_nothing [OF assms(1) [unfolded DispatchRepository_Reassign_def] reassign_body_tx_only])
    (use reassign_body_Inr assms(2-) in force)

text \<open>One optimistic attempt, and the loop: whichever attempt ends it, the specification is that of
  \<open>Reserve\<close>, at the time that attempt began.\<close>

lemma try_cases:
  assumes "run (tryReserveOptimistic R x y) w = (res, w')" and "uuid_ok (wenv w)"
  shows "wenv w' = wenv w \<and> world.more w' = world.more w
    \<and> ((\<exists>e. res = Inl e) \<and> base w' = base w \<or> res = Inr None \<and> base w' = base w
    \<or> (\<exists>dis. reserves (wenv w) (clock (wenv w) (pc w)) (base w) x y dis (base w')
        \<and> (res = Inr (Some dis) \<or> res = Inl lost_ack)))"
  using assms(1) [unfolded tryReserveOptimistic_def] try_body_tx_only
proof (cases rule: in_tx_or_cases)
  case failed
  then show ?thesis by auto
next
  case (returned a w1)
  with try_body_Inr [OF returned(1)] assms(2) show ?thesis by auto
next
  case (committed a w1)
  with try_body_Inr [OF committed(1)] assms(2) show ?thesis by auto
qed

lemma optimistic_all_or_nothing:
  assumes "run (optimistic_loop n R x y) w = (res, w')" and "uuid_ok (wenv w)"
  shows "\<exists>t. all_or_nothing (reserves (wenv w) t (base w) x y) w res w'"
  using assms
proof (induction n arbitrary: w)
  case 0
  then show ?case by (auto simp: all_or_nothing_def)
next
  case (Suc n)
  obtain r w1 where r: "run (tryReserveOptimistic R x y) w = (r, w1)" by (cases "run (tryReserveOptimistic R x y) w")
  note c = try_cases [OF r Suc.prems(2)]
  show ?case
  proof (cases "r = Inr None")
    case True
    with Suc.prems r have "run (optimistic_loop n R x y) w1 = (res, w')" by (simp add: run_bindE)
    from Suc.IH [OF this] c True Suc.prems(2) show ?thesis by (auto simp: all_or_nothing_def)
  next
    case False
    with Suc.prems(1) r have "w' = w1" and "\<And>e. r = Inl e \<Longrightarrow> res = Inl e"
      and "\<And>dis. r = Inr (Some dis) \<Longrightarrow> res = Inr dis"
      by (auto simp: run_bindE split: sum.splits option.splits)
    with c False show ?thesis
      by (intro exI [of _ "clock (wenv w) (pc w)"]) (auto simp: all_or_nothing_def)
  qed
qed

end

section \<open>The repositories the server wires in\<close>

definition server_dispatches :: "'m DispatchRepository" where
  "server_dispatches = \<lparr>dr_units = UnitRepository_reserver, dr_incidents = IncidentRepository_tracker,
     dr_events = OutboxRepository_writer\<rparr>"

interpretation server: dispatch_deps server_dispatches
  unfolding server_dispatches_def dispatch_deps_def
  by (simp add: unit_repo.unit_reserver_axioms incident_repo.incident_tracker_axioms outbox_repo.event_writer_axioms)

end
