(* ===== verification/Dispatch_Props.thy ===== *)
theory Dispatch_Props
  imports Dispatches
begin

text \<open>
  The properties of the dispatch transactions at the repositories the server wires in: what each
  writes, what it refuses, the no-double-booking invariant over every sequence of them, the
  one-way lifecycle, and the agreement of the two reservation strategies.
\<close>

section \<open>Sequences of operations\<close>

text \<open>One call of a dispatch transaction, whatever it returns. The incoming unit and incident of a
  reassignment are named by canonical ids: the service takes them from rows it has read.\<close>

inductive dispatch_step :: "'m world_scheme \<Rightarrow> 'm world_scheme \<Rightarrow> bool" where
  reserve: "run (DispatchRepository_Reserve server_dispatches x y) w = (res, w') \<Longrightarrow> dispatch_step w w'"
| optimistic: "run (DispatchRepository_ReserveOptimistic server_dispatches x y) w = (res, w') \<Longrightarrow> dispatch_step w w'"
| advance: "run (DispatchRepository_AdvanceStatus server_dispatches x new) w = (res, w') \<Longrightarrow> dispatch_step w w'"
| reassign: "uuid_cast (wenv w) y = Some y \<Longrightarrow> uuid_cast (wenv w) inc = Some inc
    \<Longrightarrow> run (DispatchRepository_Reassign server_dispatches x inc y ev) w = (res, w') \<Longrightarrow> dispatch_step w w'"

text \<open>What a step did to the committed database.\<close>

inductive db_step :: "env \<Rightarrow> db \<Rightarrow> db \<Rightarrow> bool" for e where
  none: "db_step e d d"
| reserves: "reserves e t d x y dis d' \<Longrightarrow> db_step e d d'"
| advances: "advances e t d x new dis d' \<Longrightarrow> db_step e d d'"
| reassigns: "reassigns e t d x inc y ev dis d' \<Longrightarrow> db_step e d d'"

lemma dispatch_step_db:
  assumes "dispatch_step w w'" and "uuid_ok (wenv w)" and "canonical (wenv w) (base w)"
  shows "wenv w' = wenv w \<and> db_step (wenv w) (base w) (base w')"
  using assms(1)
proof cases
  case (reserve x y res)
  from server.Reserve_all_or_nothing [OF reserve assms(2)] show ?thesis
    by (auto simp: all_or_nothing_def intro: db_step.intros)
next
  case (optimistic x y res)
  from server.optimistic_all_or_nothing [OF optimistic [unfolded DispatchRepository_ReserveOptimistic_def] assms(2)]
  show ?thesis by (auto simp: all_or_nothing_def intro: db_step.intros)
next
  case (advance x new res)
  from server.Advance_all_or_nothing [OF advance assms(2,3)] show ?thesis
    by (auto simp: all_or_nothing_def intro: db_step.intros)
next
  case (reassign y inc x ev res)
  from server.Reassign_all_or_nothing [OF reassign(3) assms(2,3) reassign(1) spelled_alike_canonical [OF reassign(2)]] show ?thesis
    by (auto simp: all_or_nothing_def intro: db_step.intros)
qed

lemma db_step_inv: "db_step e d d' \<Longrightarrow> uuid_ok e \<Longrightarrow> dispatch_inv e d \<Longrightarrow> dispatch_inv e d'"
  by (induction rule: db_step.induct) (auto intro: inv_reserves inv_advances inv_reassigns)

lemma steps_inv:
  assumes "dispatch_step\<^sup>*\<^sup>* w w'" and "uuid_ok (wenv w)" and "dispatch_inv (wenv w) (base w)"
  shows "wenv w' = wenv w \<and> dispatch_inv (wenv w) (base w')"
  using assms(1)
proof (induction rule: rtranclp_induct)
  case base
  with assms(3) show ?case by simp
next
  case (step w1 w2)
  then have "uuid_ok (wenv w1)" "canonical (wenv w1) (base w1)"
    using assms(2) by (auto dest: inv_canonical)
  from dispatch_step_db [OF step(2) this] step(3) assms(2) show ?case by (auto intro: db_step_inv)
qed

text \<open>The lifecycle as a rank: a dispatch only climbs.\<close>

definition phase :: "string \<Rightarrow> nat" where
  "phase s = (if s = DispatchReserved then 0 else if s = DispatchEnRoute then 1
     else if s = DispatchOnScene then 2 else 3)"

definition later :: "dispatch_row \<Rightarrow> dispatch_row \<Rightarrow> bool" where
  "later r r' \<longleftrightarrow> d_unit_id r' = d_unit_id r \<and> d_incident_id r' = d_incident_id r
     \<and> d_created_at r' = d_created_at r
     \<and> (r' = r \<or> active_status (d_status r) \<and> phase (d_status r) < phase (d_status r'))"

lemma later_refl: "later r r"
  by (simp add: later_def)

lemma later_trans: "later r r1 \<Longrightarrow> later r1 r2 \<Longrightarrow> later r r2"
  by (auto simp: later_def)

lemma CanTransition_phase: "CanTransitionDispatch from to \<Longrightarrow> phase from < phase to"
  by (auto simp: CanTransitionDispatch_def allowedDispatchTransitions_def phase_def
      split: if_splits option.splits)

lemma later_set: "active_status (d_status r) \<Longrightarrow> phase (d_status r) < phase new \<Longrightarrow> later r (set_dispatch new t r)"
  by (simp add: later_def set_dispatch_def)

lemma later_put:
  "sel (dispatches d) k = Some r \<Longrightarrow> (k = k0 \<Longrightarrow> active_status (d_status r) \<and> phase (d_status r) < phase new) \<Longrightarrow>
     \<exists>r'. sel (dispatches (put_dispatch k0 new t d)) k = Some r' \<and> later r r'"
  by (auto simp: put_dispatch_def sel_upd later_refl intro: later_set)

lemma dispatches_frames [simp]:
  "dispatches (put_unit u st t d) = dispatches d" "dispatches (put_incident from i st t d) = dispatches d"
  "dispatches (add_event ek ev d) = dispatches d"
  by (simp_all add: put_defs)

lemma sel_add_dispatch: "sel (dispatches d) k = Some r \<Longrightarrow> sel (dispatches (add_dispatch nk i u t d)) k = Some r"
  by (simp add: add_dispatch_def sel_ins)

lemma db_step_later:
  assumes "db_step e d d'" and r: "sel (dispatches d) k = Some r"
  shows "\<exists>r'. sel (dispatches d') k = Some r' \<and> later r r'"
  using assms(1)
proof cases
  case none
  with r show ?thesis by (auto intro: later_refl)
next
  case (reserves t x y dis)
  with r show ?thesis by (auto simp: reserves_def assigned_def sel_add_dispatch intro: later_refl)
next
  case (advances t x new dis)
  then obtain k0 r0 ek where k0: "sel (dispatches d) k0 = Some r0" "CanTransitionDispatch (d_status r0) new"
    and d': "d' = advanced k0 r0 new ek t d" by (auto simp: advances_def)
  have "dispatches d' = dispatches (put_dispatch k0 new t d)" by (simp add: d' advanced_def Let_def)
  moreover have "k = k0 \<Longrightarrow> active_status (d_status r) \<and> phase (d_status r) < phase new"
    using k0 r CanTransition_active CanTransition_phase by auto
  ultimately show ?thesis using later_put [OF r] by simp
next
  case (reassigns t x inc y ev dis)
  then obtain k0 r0 nk i ek where k0: "sel (dispatches d) k0 = Some r0" "IsActiveDispatch (d_status r0)"
    and d': "d' = reassigned k0 r0 nk i y ev ek t d" unfolding reassigns_def by blast
  from k0(2) have "phase (d_status r0) < phase DispatchCancelled"
    by (auto simp: IsActiveDispatch_def phase_def)
  with k0 r have "k = k0 \<Longrightarrow> active_status (d_status r) \<and> phase (d_status r) < phase DispatchCancelled"
    by (simp add: IsActive_active)
  from later_put [OF r this] obtain r' where
    "sel (dispatches (put_dispatch k0 DispatchCancelled t d)) k = Some r'" "later r r'" by blast
  moreover have "dispatches d' = ins nk (new_dispatch i y t) (dispatches (put_dispatch k0 DispatchCancelled t d))"
    by (simp add: d' reassigned_def Let_def add_dispatch_def)
  ultimately show ?thesis by (auto simp: sel_ins)
qed

lemma steps_later:
  assumes "dispatch_step\<^sup>*\<^sup>* w w'" and "uuid_ok (wenv w)" and "dispatch_inv (wenv w) (base w)"
    and r: "sel (dispatches (base w)) k = Some r"
  shows "\<exists>r'. sel (dispatches (base w')) k = Some r' \<and> later r r'"
  using assms(1)
proof (induction rule: rtranclp_induct)
  case base
  with r show ?case by (auto intro: later_refl)
next
  case (step w1 w2)
  from steps_inv [OF step(1) assms(2,3)] have "uuid_ok (wenv w1)" "canonical (wenv w1) (base w1)"
    using assms(2) by (auto dest: inv_canonical)
  from dispatch_step_db [OF step(2) this] have "db_step (wenv w1) (base w1) (base w2)" by simp
  with step(3) show ?case by (auto dest!: db_step_later intro: later_trans)
qed

section \<open>Properties\<close>

text \<open>C1: no double booking. Over any sequence of reservations (both strategies), status changes and
  reassignments, with any faults and lost acknowledgements among them, every unit keeps at most
  one active dispatch; a unit that is available has none, and a unit marked reserved, en route or
  on scene has exactly one.\<close>

theorem no_double_booking:
  assumes "dispatch_step\<^sup>*\<^sup>* w w'" and "uuid_ok (wenv w)" and "dispatch_inv (wenv w) (base w)"
  shows "count_rows (active_on u) (dispatches (base w')) \<le> 1
    \<and> (\<forall>r. sel (units (base w')) u = Some r \<longrightarrow>
        (u_status r = UnitAvailable \<longrightarrow> count_rows (active_on u) (dispatches (base w')) = 0)
        \<and> (u_status r \<in> {UnitReserved, UnitEnRoute, UnitOnScene} \<longrightarrow>
             count_rows (active_on u) (dispatches (base w')) = 1))"
  using steps_inv [OF assms]
  by (auto simp: dispatch_inv_def one_active_def unit_consistent_def assigned_status_def)

text \<open>C7: the lifecycle runs one way. Over any sequence of operations a dispatch keeps its unit, its
  incident and its creation time, its status only moves forward, and once completed or cancelled
  its row never changes again.\<close>

theorem dispatch_lifecycle_one_way:
  assumes "dispatch_step\<^sup>*\<^sup>* w w'" and "uuid_ok (wenv w)" and "dispatch_inv (wenv w) (base w)"
    and "sel (dispatches (base w)) k = Some r"
  shows "\<exists>r'. sel (dispatches (base w')) k = Some r' \<and> d_unit_id r' = d_unit_id r
    \<and> d_incident_id r' = d_incident_id r \<and> phase (d_status r) \<le> phase (d_status r')
    \<and> (d_status r \<in> {DispatchCompleted, DispatchCancelled} \<longrightarrow> r' = r)"
  using steps_later [OF assms] by (auto simp: later_def)

text \<open>A successful \<open>Reserve\<close> is the assignment and nothing else: the unit was available and the
  incident open, and the committed database differs by the unit's mark and version, the one new
  dispatch, the incident's promotion (only from reported or verified) and the one event that
  reports it, all at the transaction's time.\<close>

theorem reserve_spec:
  assumes "run (DispatchRepository_Reserve server_dispatches x y) w = (Inr dis, w')" and "uuid_ok (wenv w)"
  shows "\<exists>i u k ek ir ur. uuid_cast (wenv w) x = Some i \<and> uuid_cast (wenv w) y = Some u
    \<and> sel (incidents (base w)) i = Some ir \<and> i_status ir \<notin> {StatusResolved, StatusCancelled}
    \<and> sel (units (base w)) u = Some ur \<and> u_status ur = UnitAvailable
    \<and> count_rows (active_on u) (dispatches (base w)) = 0
    \<and> sel (dispatches (base w)) k = None \<and> sel (outbox_events (base w)) ek = None
    \<and> dis = scanDispatch (k, new_dispatch i u (clock (wenv w) (pc w)))
    \<and> base w' = assigned k ek i u (clock (wenv w) (pc w)) (base w)"
  using all_or_nothing_Inr [OF server.Reserve_all_or_nothing [OF assms]]
  unfolding reserves_def not_dispatchable_def by blast

text \<open>C2: atomicity under faults. Whatever statement of \<open>Reserve\<close> fails, and whether or not the news
  of its commit arrives, the committed database is either untouched or carries the whole
  assignment; in particular a dispatch never appears without its event.\<close>

theorem reserve_atomic:
  assumes "run (DispatchRepository_Reserve server_dispatches x y) w = (Inl err, w')" and "uuid_ok (wenv w)"
  shows "base w' = base w
    \<or> err = lost_ack \<and> (\<exists>i u k ek. base w' = assigned k ek i u (clock (wenv w) (pc w)) (base w))"
  using server.Reserve_all_or_nothing [OF assms] by (auto simp: all_or_nothing_def reserves_def)

text \<open>C5: a successful \<open>AdvanceStatus\<close> made a move the state machine allows, moved the dispatch,
  mirrored the phase onto its unit (free once the dispatch has ended), and only on completion
  resolved the incident, exactly when no active dispatch was left for it, and wrote the event.\<close>

theorem advance_spec:
  assumes "run (DispatchRepository_AdvanceStatus server_dispatches x new) w = (Inr dis, w')"
    and "uuid_ok (wenv w)" and "dispatch_inv (wenv w) (base w)"
  shows "\<exists>k r ek. uuid_cast (wenv w) x = Some k \<and> sel (dispatches (base w)) k = Some r
    \<and> CanTransitionDispatch (d_status r) new
    \<and> dis = scanDispatch (k, set_dispatch new (clock (wenv w) (pc w)) r)
    \<and> base w' = advanced k r new ek (clock (wenv w) (pc w)) (base w)
    \<and> map_option u_status (sel (units (base w')) (d_unit_id r)) = Some (UnitStatusForDispatch new)
    \<and> (new \<noteq> DispatchCompleted \<longrightarrow> incidents (base w') = incidents (base w)
         \<and> outbox_events (base w') = outbox_events (base w))"
proof -
  from all_or_nothing_Inr [OF server.Advance_all_or_nothing [OF assms(1,2) inv_canonical [OF assms(3)]]]
  obtain k r ek where a: "uuid_cast (wenv w) x = Some k" "sel (dispatches (base w)) k = Some r"
    "CanTransitionDispatch (d_status r) new" "dis = scanDispatch (k, set_dispatch new (clock (wenv w) (pc w)) r)"
    "base w' = advanced k r new ek (clock (wenv w) (pc w)) (base w)" by (auto simp: advances_def)
  from assms(3) a(2) have "sel (units (base w)) (d_unit_id r) \<noteq> None"
    by (auto simp: dispatch_inv_def dispatch_fk_def)
  with a show ?thesis by (intro exI [of _ k] exI [of _ r] exI [of _ ek])
      (auto simp: advanced_def Let_def put_defs)
qed

text \<open>C6: a successful \<open>Reassign\<close> ends an active dispatch and begins its replacement in one step. A
  new unit was available and becomes reserved while the old one is freed; the incoming incident
  was open; an outgoing incident that loses its last active dispatch goes back to verified. When
  the unit stays the same the units table is not touched at all, so the unit keeps the status of
  the phase it was in although its new dispatch starts as reserved.\<close>

theorem reassign_spec:
  assumes "run (DispatchRepository_Reassign server_dispatches x inc y ev) w = (Inr dis, w')"
    and "uuid_ok (wenv w)" and "dispatch_inv (wenv w) (base w)"
    and "uuid_cast (wenv w) y = Some y" and "uuid_cast (wenv w) inc = Some inc"
  shows "\<exists>k r nk ek. uuid_cast (wenv w) x = Some k \<and> sel (dispatches (base w)) k = Some r
    \<and> active_status (d_status r) \<and> dis = scanDispatch (nk, new_dispatch inc y (clock (wenv w) (pc w)))
    \<and> base w' = reassigned k r nk inc y ev ek (clock (wenv w) (pc w)) (base w)
    \<and> (if d_unit_id r = y then units (base w') = units (base w)
       else map_option u_status (sel (units (base w)) y) = Some UnitAvailable
         \<and> map_option u_status (sel (units (base w')) y) = Some UnitReserved
         \<and> map_option u_status (sel (units (base w')) (d_unit_id r)) = Some UnitAvailable)"
proof -
  let ?t = "clock (wenv w) (pc w)"
  from all_or_nothing_Inr [OF server.Reassign_all_or_nothing
      [OF assms(1,2) inv_canonical [OF assms(3)] assms(4) spelled_alike_canonical [OF assms(5)]]] assms(5)
  obtain k r nk i ek ur where i: "uuid_cast (wenv w) inc = Some i" and
    a: "uuid_cast (wenv w) x = Some k" "sel (dispatches (base w)) k = Some r"
    "IsActiveDispatch (d_status r)" "sel (units (base w)) y = Some ur"
    "d_unit_id r \<noteq> y \<longrightarrow> u_status ur = UnitAvailable" "dis = scanDispatch (nk, new_dispatch i y ?t)"
    "base w' = reassigned k r nk i y ev ek ?t (base w)"
    unfolding reassigns_def by blast
  from i assms(5) have i: "i = inc" by simp
  note a = a [unfolded i]
  from assms(3) a(2) have old: "sel (units (base w)) (d_unit_id r) \<noteq> None"
    by (auto simp: dispatch_inv_def dispatch_fk_def)
  have u: "units (base w') = (if d_unit_id r = y then units (base w)
      else upd y (set_unit UnitReserved ?t) (upd (d_unit_id r) (set_unit UnitAvailable ?t) (units (base w))))"
    by (simp add: a(7) reassigned_def Let_def put_defs)
  from a u old show ?thesis
    by (intro exI [of _ k] exI [of _ r] exI [of _ nk] exI [of _ ek]) (auto simp: IsActive_active)
qed

text \<open>Cancelling strands an incident. When the last active dispatch of a dispatched incident is
  cancelled through \<open>AdvanceStatus\<close> the incident stays dispatched with no dispatch active for it;
  only completion and reassignment look at what is left.\<close>

theorem cancel_strands_incident:
  assumes "run (DispatchRepository_AdvanceStatus server_dispatches x DispatchCancelled) w = (Inr dis, w')"
    and "uuid_ok (wenv w)" and "dispatch_inv (wenv w) (base w)"
    and "sel (incidents (base w)) (dis_IncidentID dis) = Some ir" and "i_status ir = StatusDispatched"
    and "count_rows (active_for (dis_IncidentID dis)) (dispatches (base w)) = 1"
  shows "sel (incidents (base w')) (dis_IncidentID dis) = Some ir
    \<and> count_rows (active_for (dis_IncidentID dis)) (dispatches (base w')) = 0"
proof -
  let ?t = "clock (wenv w) (pc w)"
  from all_or_nothing_Inr [OF server.Advance_all_or_nothing [OF assms(1,2) inv_canonical [OF assms(3)]]]
  obtain k r ek where a: "sel (dispatches (base w)) k = Some r" "CanTransitionDispatch (d_status r) DispatchCancelled"
    "dis = scanDispatch (k, set_dispatch DispatchCancelled ?t r)"
    "base w' = advanced k r DispatchCancelled ek ?t (base w)" by (auto simp: advances_def)
  from assms(3) have p: "pkey (dispatches (base w))" by (simp add: dispatch_inv_def)
  have "active_for (d_incident_id r) r" using CanTransition_active [OF a(2)] by (simp add: active_for_def)
  with count_rows_upd [OF p a(1), of "active_for (d_incident_id r)" "set_dispatch DispatchCancelled ?t"] assms(4-6) a
  show ?thesis by (simp add: advanced_def Let_def put_defs active_for_def)
qed

section \<open>What is refused, and the two strategies\<close>

text \<open>The rows of the tables satisfy their CHECK constraints.\<close>

definition checked_rows :: "db \<Rightarrow> bool" where
  "checked_rows d \<longleftrightarrow> (\<forall>u r. sel (units d) u = Some r \<longrightarrow> unit_row_ok r)
     \<and> (\<forall>i r. sel (incidents d) i = Some r \<longrightarrow> incident_row_ok r)"

lemma unit_row_ok_set: "unit_row_ok r \<Longrightarrow> st \<in> set all_unit_status \<Longrightarrow> unit_row_ok (set_unit st t r)"
  by (simp add: unit_row_ok_def)

lemma incident_row_ok_set: "incident_row_ok r \<Longrightarrow> st \<in> set all_incident_status \<Longrightarrow> incident_row_ok (set_incident st t r)"
  by (simp add: incident_row_ok_def)

lemma status_members [simp]:
  "UnitReserved \<in> set all_unit_status" "UnitAvailable \<in> set all_unit_status"
  "StatusDispatched \<in> set all_incident_status"
  by (simp_all add: all_unit_status_def all_incident_status_def)

text \<open>The answer of a reservation in a run without faults, case by case.\<close>

definition reserve_answer :: "env \<Rightarrow> nat \<Rightarrow> db \<Rightarrow> string \<Rightarrow> string \<Rightarrow> go_error + Dispatch" where
  "reserve_answer e n d x y = (case uuid_cast e y of
     None \<Rightarrow> Inl invalid_text
   | Some u \<Rightarrow> (case sel (units d) u of
       None \<Rightarrow> Inl (E Unit_ErrUnitNotFound)
     | Some ur \<Rightarrow> if u_status ur \<noteq> UnitAvailable then Inl (E Dispatch_ErrUnitNotAvailable)
         else (case uuid_cast e x of
           None \<Rightarrow> Inl invalid_text
         | Some i \<Rightarrow> (case sel (incidents d) i of
             None \<Rightarrow> Inl (E Incident_ErrIncidentNotFound)
           | Some ir \<Rightarrow> if not_dispatchable (i_status ir) then Inl (E Dispatch_ErrIncidentNotDispatchable)
               else Inr (scanDispatch (gen_uuid e (n + 4), new_dispatch i u (clock e n)))))))"

lemma server_dispatches_simps [simp]:
  "dr_units server_dispatches = UnitRepository_reserver" "dr_incidents server_dispatches = IncidentRepository_tracker"
  "dr_events server_dispatches = OutboxRepository_writer"
  by (simp_all add: server_dispatches_def)

lemma event_texts [simp]: "text_ok AggregateDispatch" "text_ok EventDispatchCreated"
  by code_simp+

text \<open>The statements of a reservation in a run without faults.\<close>

lemma calm_lock:
  assumes "calm (wenv w)"
  shows "run (UnitRepository_LockForReserveTx y) w = (case uuid_cast (wenv w) y of
     None \<Rightarrow> (Inl invalid_text, ticked w)
   | Some u \<Rightarrow> (case sel (units (view w)) u of None \<Rightarrow> (Inl (E Unit_ErrUnitNotFound), ticked w)
      | Some r \<Rightarrow> (Inr (u_status r), (ticked w)\<lparr>locks := locks w \<union> {RowUnit u}\<rparr>)))"
  using assms by (simp add: UnitRepository_LockForReserveTx_def run_bind run_tx_stmt cast_uuid_def ticked_def
      split: option.split)

lemma calm_read_version:
  assumes "calm (wenv w)"
  shows "run (UnitRepository_ReadVersionTx y) w = (case uuid_cast (wenv w) y of
     None \<Rightarrow> (Inl invalid_text, ticked w)
   | Some u \<Rightarrow> (case sel (units (view w)) u of None \<Rightarrow> (Inl (E Unit_ErrUnitNotFound), ticked w)
      | Some r \<Rightarrow> (Inr (u_status r, u_version r), ticked w)))"
  using assms by (simp add: UnitRepository_ReadVersionTx_def run_bind run_tx_stmt cast_uuid_def reading_def
      one_row_def ticked_def split: option.split)

lemma calm_status:
  assumes "calm (wenv w)"
  shows "run (IncidentRepository_StatusTx x) w = (case uuid_cast (wenv w) x of
     None \<Rightarrow> (Inl invalid_text, ticked w)
   | Some i \<Rightarrow> (case sel (incidents (view w)) i of None \<Rightarrow> (Inl (E Incident_ErrIncidentNotFound), ticked w)
      | Some r \<Rightarrow> (Inr (i_status r), ticked w)))"
  using assms by (simp add: IncidentRepository_StatusTx_def run_bind run_tx_stmt cast_uuid_def reading_def
      one_row_def ticked_def split: option.split)

lemma calm_mark:
  assumes "calm (wenv w)" and "uuid_cast (wenv w) y = Some u" and "sel (units (view w)) u = Some r" and "unit_row_ok r"
  shows "run (UnitRepository_MarkReservedTx y) w = (Inr (),
     (ticked w)\<lparr>view := put_unit u UnitReserved (txnow w) (view w), locks := locks w \<union> {RowUnit u}\<rparr>)"
  using assms by (simp add: UnitRepository_MarkReservedTx_def run_bindE run_tx_stmt cast_uuid_def
      update_unit_status_def unit_row_ok_set put_unit_def ticked_def)

lemma calm_cas:
  assumes "calm (wenv w)" and "uuid_cast (wenv w) y = Some u" and "sel (units (view w)) u = Some r" and "unit_row_ok r"
  shows "run (UnitRepository_MarkReservedCASTx y (u_version r)) w = (Inr True,
     (ticked w)\<lparr>view := put_unit u UnitReserved (txnow w) (view w), locks := locks w \<union> {RowUnit u}\<rparr>)"
  using assms by (simp add: UnitRepository_MarkReservedCASTx_def run_bindE run_tx_stmt cast_uuid_def
      update_unit_status_def unit_row_ok_set put_unit_def ticked_def)

text \<open>The tail both strategies share.\<close>

lemma calm_assignment:
  assumes m: "m = pc w + 2" and c: "calm (wenv w)" and e: "uuid_ok (wenv w)"
    and x: "uuid_cast (wenv w) x = Some i" and y: "uuid_cast (wenv w) y = Some u"
    and i: "sel (incidents (view w)) i = Some ir" "incident_row_ok ir" and u: "sel (units (view w)) u \<noteq> None"
    and fresh: "sel (dispatches (view w)) (gen_uuid (wenv w) (pc w)) = None"
      "count_rows (active_on u) (dispatches (view w)) = 0" "sel (outbox_events (view w)) (nextval (wenv w) m) = None"
  shows "\<exists>w'. run (bindE (record_assignment x y) (\<lambda>dis. bindE (IncidentRepository_MarkDispatchedTx x) (\<lambda>_.
      bindE (OutboxRepository_WriteTx AggregateDispatch (dis_ID dis) EventDispatchCreated (created_payload dis))
        (\<lambda>_. ok (f dis))))) w = (Inr (f (scanDispatch (gen_uuid (wenv w) (pc w), new_dispatch i u (txnow w)))), w')
    \<and> view w' = add_event (nextval (wenv w) m) (new_event AggregateDispatch (gen_uuid (wenv w) (pc w))
        EventDispatchCreated (created_payload (scanDispatch (gen_uuid (wenv w) (pc w), new_dispatch i u (txnow w)))) (txnow w))
      (put_incident {StatusReported, StatusVerified} i StatusDispatched (txnow w)
        (add_dispatch (gen_uuid (wenv w) (pc w)) i u (txnow w) (view w)))"
proof -
  let ?k = "gen_uuid (wenv w) (pc w)" and ?t = "txnow w"
  let ?w1 = "(ticked w)\<lparr>view := add_dispatch ?k i u ?t (view w), locks := locks w \<union> {RowDispatch ?k, IdxActive u}\<rparr>"
  have k: "uuid_cast (wenv w) ?k = Some ?k" and plain: "plain_text ?k" "plain_text i" "plain_text u"
    using e x y by (auto simp: uuid_ok_def)
  have "run (record_assignment x y) w = (Inr (scanDispatch (?k, new_dispatch i u ?t)), ?w1)"
    using c x y fresh i u by (simp add: record_assignment_def insert_dispatch_def run_bind run_tx_stmt cast_uuid_def
        Let_def dispatch_fk_def add_dispatch_def ticked_def)
  then obtain w1 where 1: "run (record_assignment x y) w = (Inr (scanDispatch (?k, new_dispatch i u ?t)), w1)"
    "wenv w1 = wenv w" "pc w1 = Suc (pc w)" "txnow w1 = ?t" "view w1 = add_dispatch ?k i u ?t (view w)" by simp
  let ?hit = "i_status ir = StatusReported \<or> i_status ir = StatusVerified"
  have "run (IncidentRepository_MarkDispatchedTx x) w1 = (Inr (), (ticked w1)\<lparr>view :=
      put_incident {StatusReported, StatusVerified} i StatusDispatched ?t (view w1),
      locks := locks w1 \<union> (if ?hit then {RowIncident i} else {})\<rparr>)"
    using c x i 1 by (simp add: IncidentRepository_MarkDispatchedTx_def run_bindE run_tx_stmt cast_uuid_def
        update_incident_if_def Let_def put_incident_def add_dispatch_def incident_row_ok_set ticked_def)
  with 1 obtain w2 where 2: "run (IncidentRepository_MarkDispatchedTx x) w1 = (Inr (), w2)"
    "wenv w2 = wenv w" "pc w2 = pc w + 2" "txnow w2 = ?t"
    "view w2 = put_incident {StatusReported, StatusVerified} i StatusDispatched ?t (view w1)" by simp
  have "outbox_events (view w2) = outbox_events (view w)" using 1 2 by (simp add: put_defs)
  moreover have "list_all (json_ok \<circ> snd) (created_payload (scanDispatch (?k, new_dispatch i u ?t)))"
    using plain by (simp add: created_payload_def)
  ultimately obtain w3 where "run (OutboxRepository_WriteTx AggregateDispatch ?k EventDispatchCreated
      (created_payload (scanDispatch (?k, new_dispatch i u ?t)))) w2 = (Inr (), w3)"
    "view w3 = add_event (nextval (wenv w) m) (new_event AggregateDispatch ?k EventDispatchCreated
      (created_payload (scanDispatch (?k, new_dispatch i u ?t))) ?t) (view w2)"
    using calm_write [of w2 AggregateDispatch EventDispatchCreated ?k ?k] c k fresh(3) 2 m by auto
  with 1 2 show ?thesis by (simp add: run_bindE)
qed

text \<open>The ids the database will draw for the assignment are new.\<close>

definition fresh_ids :: "env \<Rightarrow> nat \<Rightarrow> db \<Rightarrow> bool" where
  "fresh_ids e n d \<longleftrightarrow> sel (dispatches d) (gen_uuid e (n + 4)) = None \<and> sel (outbox_events d) (nextval e (n + 6)) = None"

text \<open>The database after it.\<close>

definition reserve_effect :: "env \<Rightarrow> nat \<Rightarrow> db \<Rightarrow> string \<Rightarrow> string \<Rightarrow> db" where
  "reserve_effect e n d x y = (case reserve_answer e n d x y of
     Inl err \<Rightarrow> d
   | Inr dis \<Rightarrow> assigned (gen_uuid e (n + 4)) (nextval e (n + 6)) (dis_IncidentID dis) (dis_UnitID dis) (clock e n) d)"

text \<open>Both bodies lead here: the unit is available, the incident open.\<close>

lemma calm_reserves:
  assumes c: "calm (wenv w)" "uuid_ok (wenv w)" and inv: "dispatch_inv (wenv w) (base w)" "checked_rows (base w)"
    and fresh: "fresh_ids (wenv w) (pc w) (base w)"
    and y: "uuid_cast (wenv w) y = Some u" "sel (units (base w)) u = Some ur" "u_status ur = UnitAvailable"
    and x: "uuid_cast (wenv w) x = Some i" "sel (incidents (base w)) i = Some ir" "\<not> not_dispatchable (i_status ir)"
    and w1: "wenv w1 = wenv w" "pc w1 = pc w + 4" "txnow w1 = clock (wenv w) (pc w)"
      "view w1 = put_unit u UnitReserved (clock (wenv w) (pc w)) (base w)"
  shows "\<exists>w' dis. reserve_answer (wenv w) (pc w) (base w) x y = Inr dis
    \<and> run (bindE (record_assignment x y) (\<lambda>dis. bindE (IncidentRepository_MarkDispatchedTx x) (\<lambda>_.
      bindE (OutboxRepository_WriteTx AggregateDispatch (dis_ID dis) EventDispatchCreated (created_payload dis))
        (\<lambda>_. ok (f dis))))) w1 = (Inr (f dis), w') \<and> view w' = reserve_effect (wenv w) (pc w) (base w) x y"
proof -
  have "count_rows (active_on u) (dispatches (base w)) = 0"
    using inv(1) y by (auto simp: dispatch_inv_def unit_consistent_def)
  then obtain w' where "run (bindE (record_assignment x y) (\<lambda>dis. bindE (IncidentRepository_MarkDispatchedTx x) (\<lambda>_.
      bindE (OutboxRepository_WriteTx AggregateDispatch (dis_ID dis) EventDispatchCreated (created_payload dis))
        (\<lambda>_. ok (f dis))))) w1 = (Inr (f (scanDispatch (gen_uuid (wenv w1) (pc w1), new_dispatch i u (txnow w1)))), w')"
    "view w' = add_event (nextval (wenv w1) (pc w + 6)) (new_event AggregateDispatch (gen_uuid (wenv w1) (pc w1))
        EventDispatchCreated (created_payload (scanDispatch (gen_uuid (wenv w1) (pc w1), new_dispatch i u (txnow w1)))) (txnow w1))
      (put_incident {StatusReported, StatusVerified} i StatusDispatched (txnow w1)
        (add_dispatch (gen_uuid (wenv w1) (pc w1)) i u (txnow w1) (view w1)))"
    using calm_assignment [of "pc w + 6" w1 x i y u ir f] c inv(2) y x fresh w1
    by (auto simp: put_unit_def fresh_ids_def checked_rows_def)
  with x y w1 show ?thesis
    by (intro exI [of _ w'] exI [of _ "scanDispatch (gen_uuid (wenv w) (pc w + 4), new_dispatch i u (clock (wenv w) (pc w)))"])
      (simp add: reserve_answer_def reserve_effect_def assigned_def)
qed

lemma reserve_body_calm:
  assumes "calm (wenv w)" "uuid_ok (wenv w)" "dispatch_inv (wenv w) (base w)" "checked_rows (base w)"
    and "fresh_ids (wenv w) (pc w) (base w)"
  shows "\<exists>w'. run (reserve_body server_dispatches x y) (begun w) = (reserve_answer (wenv w) (pc w) (base w) x y, w')
    \<and> (\<forall>dis. reserve_answer (wenv w) (pc w) (base w) x y = Inr dis \<longrightarrow>
         view w' = reserve_effect (wenv w) (pc w) (base w) x y)"
proof (cases "\<exists>u ur i ir. uuid_cast (wenv w) y = Some u \<and> sel (units (base w)) u = Some ur \<and> u_status ur = UnitAvailable
    \<and> uuid_cast (wenv w) x = Some i \<and> sel (incidents (base w)) i = Some ir \<and> \<not> not_dispatchable (i_status ir)")
  case False
  then show ?thesis using assms(1)
    by (auto simp: reserve_body_def reserve_answer_def run_bindE calm_lock calm_status split: option.split)
next
  case True
  then obtain u ur i ir where y: "uuid_cast (wenv w) y = Some u" "sel (units (base w)) u = Some ur"
    "u_status ur = UnitAvailable" and
    x: "uuid_cast (wenv w) x = Some i" "sel (incidents (base w)) i = Some ir" "\<not> not_dispatchable (i_status ir)" by blast
  let ?t = "clock (wenv w) (pc w)"
  obtain w1 where 1: "run (UnitRepository_LockForReserveTx y) (begun w) = (Inr UnitAvailable, w1)"
    "wenv w1 = wenv w" "pc w1 = pc w + 2" "txnow w1 = ?t" "view w1 = base w"
    using calm_lock [of "begun w" y] assms(1) y by simp
  obtain w2 where 2: "run (IncidentRepository_StatusTx x) w1 = (Inr (i_status ir), w2)"
    "wenv w2 = wenv w" "pc w2 = pc w + 3" "txnow w2 = ?t" "view w2 = base w"
    using calm_status [of w1 x] assms(1) x 1 by simp
  obtain w3 where 3: "run (UnitRepository_MarkReservedTx y) w2 = (Inr (), w3)"
    "wenv w3 = wenv w" "pc w3 = pc w + 4" "txnow w3 = ?t" "view w3 = put_unit u UnitReserved ?t (base w)"
    using calm_mark [of w2 y u ur] assms(1,4) y 2 by (simp add: checked_rows_def)
  from calm_reserves [OF assms y x 3(2-5), of "\<lambda>dis. dis"] x(3) show ?thesis
    by (auto simp: reserve_body_def run_bindE 1(1) 2(1) 3(1))
qed

lemma try_body_calm:
  assumes "calm (wenv w)" "uuid_ok (wenv w)" "dispatch_inv (wenv w) (base w)" "checked_rows (base w)"
    and "fresh_ids (wenv w) (pc w) (base w)"
  shows "\<exists>w'. run (try_body server_dispatches x y) (begun w)
      = (map_sum id (\<lambda>dis. Commit (Some dis)) (reserve_answer (wenv w) (pc w) (base w) x y), w')
    \<and> (\<forall>dis. reserve_answer (wenv w) (pc w) (base w) x y = Inr dis \<longrightarrow>
         view w' = reserve_effect (wenv w) (pc w) (base w) x y)"
proof (cases "\<exists>u ur i ir. uuid_cast (wenv w) y = Some u \<and> sel (units (base w)) u = Some ur \<and> u_status ur = UnitAvailable
    \<and> uuid_cast (wenv w) x = Some i \<and> sel (incidents (base w)) i = Some ir \<and> \<not> not_dispatchable (i_status ir)")
  case False
  then show ?thesis using assms(1)
    by (auto simp: try_body_def reserve_answer_def run_bindE calm_read_version calm_status split: option.split)
next
  case True
  then obtain u ur i ir where y: "uuid_cast (wenv w) y = Some u" "sel (units (base w)) u = Some ur"
    "u_status ur = UnitAvailable" and
    x: "uuid_cast (wenv w) x = Some i" "sel (incidents (base w)) i = Some ir" "\<not> not_dispatchable (i_status ir)" by blast
  let ?t = "clock (wenv w) (pc w)"
  obtain w1 where 1: "run (UnitRepository_ReadVersionTx y) (begun w) = (Inr (UnitAvailable, u_version ur), w1)"
    "wenv w1 = wenv w" "pc w1 = pc w + 2" "txnow w1 = ?t" "view w1 = base w"
    using calm_read_version [of "begun w" y] assms(1) y by simp
  obtain w2 where 2: "run (IncidentRepository_StatusTx x) w1 = (Inr (i_status ir), w2)"
    "wenv w2 = wenv w" "pc w2 = pc w + 3" "txnow w2 = ?t" "view w2 = base w"
    using calm_status [of w1 x] assms(1) x 1 by simp
  obtain w3 where 3: "run (UnitRepository_MarkReservedCASTx y (u_version ur)) w2 = (Inr True, w3)"
    "wenv w3 = wenv w" "pc w3 = pc w + 4" "txnow w3 = ?t" "view w3 = put_unit u UnitReserved ?t (base w)"
    using calm_cas [of w2 y u ur] assms(1,4) y 2 by (simp add: checked_rows_def)
  from calm_reserves [OF assms y x 3(2-5), of "\<lambda>dis. Commit (Some dis)"] x(3) show ?thesis
    by (auto simp: try_body_def run_bindE 1(1) 2(1) 3(1))
qed

lemma run_in_tx_or_calm:
  assumes "calm (wenv w)" and "tx_only body" and "run body (begun w) = (r, w1)"
  shows "\<exists>w'. run (in_tx_or body) w = (map_sum id (\<lambda>e. case e of Return a \<Rightarrow> a | Commit a \<Rightarrow> a) r, w')
    \<and> base w' = (case r of Inr (Commit a) \<Rightarrow> view w1 | _ \<Rightarrow> base w)"
proof -
  from tx_onlyD [OF assms(2,3)] have f: "base w1 = base w" "wenv w1 = wenv w" by simp_all
  with assms show ?thesis
    by (cases r) (auto simp: in_tx_or_def run_simps begun_def split: ending.split)
qed

text \<open>C3: every answer of \<open>Reserve\<close>. In a run without faults it returns, for each way the request can
  be wrong, the error of that case and leaves the database as it was, and otherwise the dispatch
  and the assignment.\<close>

theorem reserve_total:
  assumes "calm (wenv w)" "uuid_ok (wenv w)" "dispatch_inv (wenv w) (base w)" "checked_rows (base w)"
    and "fresh_ids (wenv w) (pc w) (base w)"
  shows "\<exists>w'. run (DispatchRepository_Reserve server_dispatches x y) w
      = (reserve_answer (wenv w) (pc w) (base w) x y, w')
    \<and> base w' = reserve_effect (wenv w) (pc w) (base w) x y"
proof -
  from reserve_body_calm [OF assms] obtain w1 where
    b: "run (reserve_body server_dispatches x y) (begun w) = (reserve_answer (wenv w) (pc w) (base w) x y, w1)" and
    v: "\<And>dis. reserve_answer (wenv w) (pc w) (base w) x y = Inr dis \<Longrightarrow>
         view w1 = reserve_effect (wenv w) (pc w) (base w) x y" by blast
  from run_in_tx_calm [OF assms(1) server.reserve_body_tx_only b] v show ?thesis
    by (auto simp: DispatchRepository_Reserve_def reserve_effect_def split: sum.splits)
qed

text \<open>C4: the two strategies agree. Where nobody interferes, the optimistic reservation (read the
  version, compare and swap, retry) gives the same answer and the same database as the
  pessimistic one (lock, re-check), in its first attempt.\<close>

theorem strategies_agree:
  assumes "calm (wenv w)" "uuid_ok (wenv w)" "dispatch_inv (wenv w) (base w)" "checked_rows (base w)"
    and "fresh_ids (wenv w) (pc w) (base w)"
  shows "fst (run (DispatchRepository_ReserveOptimistic server_dispatches x y) w)
       = fst (run (DispatchRepository_Reserve server_dispatches x y) w)
    \<and> base (snd (run (DispatchRepository_ReserveOptimistic server_dispatches x y) w))
       = base (snd (run (DispatchRepository_Reserve server_dispatches x y) w))"
proof -
  let ?a = "reserve_answer (wenv w) (pc w) (base w) x y"
  from reserve_body_calm [OF assms] obtain w1 where
    b: "run (reserve_body server_dispatches x y) (begun w) = (?a, w1)" and
    v: "\<And>dis. ?a = Inr dis \<Longrightarrow> view w1 = reserve_effect (wenv w) (pc w) (base w) x y" by blast
  from try_body_calm [OF assms] obtain w2 where
    c: "run (try_body server_dispatches x y) (begun w) = (map_sum id (\<lambda>dis. Commit (Some dis)) ?a, w2)" and
    u: "\<And>dis. ?a = Inr dis \<Longrightarrow> view w2 = reserve_effect (wenv w) (pc w) (base w) x y" by blast
  note P = run_in_tx_calm [OF assms(1) server.reserve_body_tx_only b, folded DispatchRepository_Reserve_def]
  from run_in_tx_or_calm [OF assms(1) server.try_body_tx_only c] obtain w3 where
    O: "run (tryReserveOptimistic server_dispatches x y) w = (map_sum id Some ?a, w3)"
      "base w3 = (case ?a of Inr dis \<Rightarrow> view w2 | Inl err \<Rightarrow> base w)"
    by (cases ?a) (auto simp: tryReserveOptimistic_def)
  have "optimistic_loop maxOptimisticRetries R x y = bindE (tryReserveOptimistic R x y) (\<lambda>r. case r of
       Some d \<Rightarrow> ok d | None \<Rightarrow> optimistic_loop (Suc (Suc 0)) R x y)" for R :: "'a DispatchRepository"
    unfolding maxOptimisticRetries_def numeral_3_eq_3 by (simp only: optimistic_loop.simps)
  then show ?thesis using P O u v
    by (cases ?a) (auto simp: DispatchRepository_ReserveOptimistic_def run_bindE)
qed

section \<open>Witnesses\<close>

text \<open>Two units and two incidents.\<close>

definition sample_unit :: "string \<Rightarrow> unit_row" where
  "sample_unit cs = \<lparr>u_call_sign = cs, u_type = UnitTypeAmbulance, u_status = UnitAvailable,
     u_lat = Fin 0, u_lng = Fin 0, u_version = 1, u_created_at = 0, u_updated_at = 0\<rparr>"

definition sample_incident :: "string \<Rightarrow> incident_row" where
  "sample_incident sev = \<lparr>i_reporter_id = ''r1'', i_title = ''fire'', i_description = '''', i_severity = sev,
     i_status = StatusReported, i_report_count = 1, i_lat = Fin 0, i_lng = Fin 0, i_created_at = 0, i_updated_at = 0\<rparr>"

definition sample_db :: db where
  "sample_db = empty_db\<lparr>units := [(''u1'', sample_unit ''AMB-1''), (''u2'', sample_unit ''AMB-2'')],
     incidents := [(''i1'', sample_incident SeverityLow), (''i2'', sample_incident SeverityCritical)]\<rparr>"

lemma sample_db_inv: "dispatch_inv sample_env sample_db"
  by (auto simp: dispatch_inv_def sample_db_def empty_db_def one_active_def canonical_def unit_consistent_def
      sample_unit_def pkey_def split: if_splits)

lemma sample_db_checked: "checked_rows sample_db"
  by (auto simp: checked_rows_def sample_db_def empty_db_def sample_unit_def sample_incident_def unit_row_ok_def
      incident_row_ok_def all_unit_type_def all_unit_status_def all_severity_def all_incident_status_def
      split: if_splits)

definition after_reserve :: "(go_error + Dispatch) \<times> world" where
  "after_reserve = run (DispatchRepository_Reserve server_dispatches ''i1'' ''u1'') (start sample_db)"

definition sample_dispatch_id :: uuid where "sample_dispatch_id = ''id-xxxx''"

lemma after_reserve_facts:
  "fst after_reserve = Inr (scanDispatch (sample_dispatch_id, new_dispatch ''i1'' ''u1'' 0))"
  "sel (dispatches (base (snd after_reserve))) sample_dispatch_id = Some (new_dispatch ''i1'' ''u1'' 0)"
  "map_option u_status (sel (units (base (snd after_reserve))) ''u1'') = Some UnitReserved"
  "map_option i_status (sel (incidents (base (snd after_reserve))) ''i1'') = Some StatusDispatched"
  "count_rows (active_for ''i1'') (dispatches (base (snd after_reserve))) = 1"
  by code_simp+

lemma reserve_run: "run (DispatchRepository_Reserve server_dispatches ''i1'' ''u1'') (start sample_db)
    = (fst after_reserve, snd after_reserve)"
  by (simp add: after_reserve_def)

lemma reserve_reach: "dispatch_step\<^sup>*\<^sup>* (start sample_db) (snd after_reserve)"
  using dispatch_step.reserve [OF reserve_run] by blast

lemma after_reserve_inv: "wenv (snd after_reserve) = sample_env \<and> dispatch_inv sample_env (base (snd after_reserve))"
  using steps_inv [OF reserve_reach] sample_db_inv by simp

lemma no_double_booking_witness:
  "count_rows (active_on ''u1'') (dispatches (base (snd after_reserve))) = 1"
proof -
  obtain r where r: "sel (units (base (snd after_reserve))) ''u1'' = Some r" "u_status r = UnitReserved"
    using after_reserve_facts(3) by auto
  have "uuid_ok (wenv (start sample_db))" "dispatch_inv (wenv (start sample_db)) (base (start sample_db))"
    using sample_db_inv by simp_all
  from no_double_booking [OF reserve_reach this, of "''u1''"] r show ?thesis by simp
qed

definition after_cancel :: "(go_error + Dispatch) \<times> world" where
  "after_cancel = run (DispatchRepository_AdvanceStatus server_dispatches sample_dispatch_id DispatchCancelled)
     (snd after_reserve)"

lemma after_cancel_facts:
  "map_sum (\<lambda>e. ()) dis_IncidentID (fst after_cancel) = Inr ''i1''"
  by code_simp

lemma after_cancel_Inr: "\<exists>dis. run (DispatchRepository_AdvanceStatus server_dispatches sample_dispatch_id DispatchCancelled)
    (snd after_reserve) = (Inr dis, snd after_cancel) \<and> dis_IncidentID dis = ''i1''"
  using after_cancel_facts by (cases "fst after_cancel") (auto simp: after_cancel_def prod_eq_iff)

lemma dispatch_lifecycle_one_way_witness:
  "\<exists>r'. sel (dispatches (base (snd after_cancel))) sample_dispatch_id = Some r' \<and> d_unit_id r' = ''u1''
     \<and> d_incident_id r' = ''i1''"
proof -
  obtain dis where "run (DispatchRepository_AdvanceStatus server_dispatches sample_dispatch_id DispatchCancelled)
    (snd after_reserve) = (Inr dis, snd after_cancel)" using after_cancel_Inr by blast
  from dispatch_step.advance [OF this] have "dispatch_step\<^sup>*\<^sup>* (snd after_reserve) (snd after_cancel)" by blast
  from dispatch_lifecycle_one_way [OF this _ _ after_reserve_facts(2)] after_reserve_inv show ?thesis by auto
qed

lemma reserve_spec_witness:
  "\<exists>k ek. base (snd after_reserve) = assigned k ek ''i1'' ''u1'' 0 sample_db"
proof -
  have "run (DispatchRepository_Reserve server_dispatches ''i1'' ''u1'') (start sample_db)
    = (Inr (scanDispatch (sample_dispatch_id, new_dispatch ''i1'' ''u1'' 0)), snd after_reserve)"
    using reserve_run after_reserve_facts(1) by simp
  from reserve_spec [OF this] show ?thesis by (auto simp: seconds_def plain_text_def byte_def)
qed

lemma cancel_strands_incident_witness:
  "\<exists>ir. sel (incidents (base (snd after_cancel))) ''i1'' = Some ir \<and> i_status ir = StatusDispatched
     \<and> count_rows (active_for ''i1'') (dispatches (base (snd after_cancel))) = 0"
proof -
  obtain dis where r: "run (DispatchRepository_AdvanceStatus server_dispatches sample_dispatch_id DispatchCancelled)
    (snd after_reserve) = (Inr dis, snd after_cancel)" "dis_IncidentID dis = ''i1''" using after_cancel_Inr by blast
  obtain ir where ir: "sel (incidents (base (snd after_reserve))) ''i1'' = Some ir" "i_status ir = StatusDispatched"
    using after_reserve_facts(4) by auto
  from cancel_strands_incident [OF r(1) _ _ _ ir(2)] r(2) ir after_reserve_inv after_reserve_facts(5)
  show ?thesis by auto
qed

lemma advance_spec_witness:
  "map_option u_status (sel (units (base (snd after_cancel))) ''u1'') = Some UnitAvailable"
proof -
  obtain dis where r: "run (DispatchRepository_AdvanceStatus server_dispatches sample_dispatch_id DispatchCancelled)
    (snd after_reserve) = (Inr dis, snd after_cancel)" using after_cancel_Inr by blast
  have c: "uuid_cast sample_env sample_dispatch_id = Some sample_dispatch_id" by code_simp
  from advance_spec [OF r] after_reserve_inv after_reserve_facts(2) c show ?thesis
    by (auto simp: UnitStatusForDispatch_def)
qed

text \<open>The connection drops at the insert, after the unit has been marked.\<close>

definition faulty_start :: world where
  "faulty_start = (start sample_db)\<lparr>wenv := sample_env\<lparr>flt := (\<lambda>n. if n = 4 then Some (Other ''conn reset'') else None)\<rparr>\<rparr>"

definition after_fault :: "(go_error + Dispatch) \<times> world" where
  "after_fault = run (DispatchRepository_Reserve server_dispatches ''i1'' ''u1'') faulty_start"

lemma reserve_atomic_witness: "base (snd after_fault) = sample_db"
proof -
  have "fst after_fault = Inl (Other ''conn reset'')" by code_simp
  then have "run (DispatchRepository_Reserve server_dispatches ''i1'' ''u1'') faulty_start
      = (Inl (Other ''conn reset''), snd after_fault)" by (simp add: after_fault_def prod_eq_iff)
  moreover have "uuid_ok (wenv faulty_start)"
    by (simp add: faulty_start_def)
  moreover have "base faulty_start = sample_db" by (simp add: faulty_start_def)
  ultimately show ?thesis using reserve_atomic [of "''i1''" "''u1''" faulty_start] by (simp add: lost_ack_def)
qed

text \<open>The critical incident takes the unit of the minor one; then the unit is replaced.\<close>

definition after_preempt :: "(go_error + Dispatch) \<times> world" where
  "after_preempt = run (DispatchRepository_Reassign server_dispatches sample_dispatch_id ''i2'' ''u1'' EventDispatchPreempted)
     (snd after_reserve)"

definition after_reroute :: "(go_error + Dispatch) \<times> world" where
  "after_reroute = run (DispatchRepository_Reassign server_dispatches sample_dispatch_id ''i1'' ''u2'' EventDispatchRerouted)
     (snd after_reserve)"

lemma reassign_spec_witness:
  "units (base (snd after_preempt)) = units (base (snd after_reserve))
   \<and> map_option u_status (sel (units (base (snd after_reroute))) ''u2'') = Some UnitReserved
   \<and> map_option u_status (sel (units (base (snd after_reroute))) ''u1'') = Some UnitAvailable"
proof -
  have p: "map_sum (\<lambda>e. ()) (\<lambda>dis. ()) (fst after_preempt) = Inr ()" by code_simp
  have q: "map_sum (\<lambda>e. ()) (\<lambda>dis. ()) (fst after_reroute) = Inr ()" by code_simp
  from p obtain d1 where p: "run (DispatchRepository_Reassign server_dispatches sample_dispatch_id ''i2'' ''u1''
      EventDispatchPreempted) (snd after_reserve) = (Inr d1, snd after_preempt)"
    by (cases "fst after_preempt") (auto simp: after_preempt_def prod_eq_iff)
  from q obtain d2 where q: "run (DispatchRepository_Reassign server_dispatches sample_dispatch_id ''i1'' ''u2''
      EventDispatchRerouted) (snd after_reserve) = (Inr d2, snd after_reroute)"
    by (cases "fst after_reroute") (auto simp: after_reroute_def prod_eq_iff)
  have c: "uuid_cast sample_env sample_dispatch_id = Some sample_dispatch_id" "uuid_cast sample_env ''u1'' = Some ''u1''"
    "uuid_cast sample_env ''u2'' = Some ''u2''" "uuid_cast sample_env ''i1'' = Some ''i1''"
    "uuid_cast sample_env ''i2'' = Some ''i2''" by code_simp+
  from reassign_spec [OF p] reassign_spec [OF q] after_reserve_inv after_reserve_facts(2) c
  show ?thesis by auto
qed

lemma sample_fresh: "fresh_ids (wenv (start sample_db)) (pc (start sample_db)) (base (start sample_db))"
  by (simp add: fresh_ids_def sample_db_def empty_db_def)

lemma reserve_total_witness:
  "\<exists>w'. run (DispatchRepository_Reserve server_dispatches ''nope'' ''u1'') (start sample_db)
     = (Inl (E Incident_ErrIncidentNotFound), w') \<and> base w' = sample_db"
proof -
  have a: "reserve_answer sample_env 0 sample_db ''nope'' ''u1'' = Inl (E Incident_ErrIncidentNotFound)"
    by code_simp
  then have "reserve_effect sample_env 0 sample_db ''nope'' ''u1'' = sample_db" by (simp add: reserve_effect_def)
  with a reserve_total [of "start sample_db" "''nope''" "''u1''"] sample_db_inv sample_db_checked sample_fresh
  show ?thesis by simp
qed

lemma strategies_agree_witness:
  "fst (run (DispatchRepository_ReserveOptimistic server_dispatches ''i1'' ''u1'') (start sample_db))
     = Inr (scanDispatch (sample_dispatch_id, new_dispatch ''i1'' ''u1'' 0))"
  using strategies_agree [of "start sample_db" "''i1''" "''u1''"] sample_db_inv sample_db_checked sample_fresh
    after_reserve_facts(1)
  by (simp add: after_reserve_def)

end
