(* ===== verification/Presence.thy ===== *)
theory Presence
  imports Cache Sample
begin

text \<open>
  The presence module (\<^verbatim>\<open>internal/presence\<close>): heartbeats as self-expiring Redis strings, and a
  geospatial index of last positions that never expires and is cross-checked against them on every
  read. \<open>geo_redis\<close> adds the index and the process's own clock to the Redis of the cache layer;
  what Redis does with a position (the cell it is stored in, the distance it computes, the range it
  accepts) is part of the state, so every such Redis is covered.
\<close>

section \<open>The data\<close>

record stored =
  st_Lat :: float64
  st_Lng :: float64
  st_TS :: int \<comment> \<open>Unix seconds\<close>

record Presence =
  pr_UnitID :: string
  pr_Latitude :: float64
  pr_Longitude :: float64
  pr_LastSeen :: time
  pr_AgeSeconds :: real

record NearbyUnit =
  nu_UnitID :: string
  nu_Latitude :: float64
  nu_Longitude :: float64
  nu_DistanceMeters :: float64

text \<open>The JSON of a heartbeat, or bytes this code did not write, with what decoding them yields.\<close>

datatype presence_json = StoredJSON stored | ForeignBytes "stored option"

definition stored_Marshal :: "stored \<Rightarrow> presence_json option" where
  "stored_Marshal s = (if finite64 (st_Lat s) \<and> finite64 (st_Lng s) then Some (StoredJSON s) else None)"

fun stored_Unmarshal :: "presence_json \<Rightarrow> stored option" where
  "stored_Unmarshal (StoredJSON s) = Some s"
| "stored_Unmarshal (ForeignBytes v) = v"

interpretation presence_json: json_codec stored_Marshal stored_Unmarshal
  by unfold_locales (auto simp: stored_Marshal_def split: if_splits)

definition keyPrefix :: string where "keyPrefix = ''presence:unit:''"

definition presence_key :: "string \<Rightarrow> string" where
  "presence_key unitID = keyPrefix @ unitID"

text \<open>Durations in nanoseconds.\<close>

definition HeartbeatInterval :: int where "HeartbeatInterval = 10 * 1000000000"
definition presence_TTL :: int where "presence_TTL = 3 * HeartbeatInterval"

section \<open>Redis with a geospatial index\<close>

type_synonym geo_point = "float64 \<times> float64" \<comment> \<open>latitude, longitude\<close>

record geo_redis = "presence_json redis" +
  zset :: "(string \<times> geo_point) list" \<comment> \<open>\<open>presence:geo\<close>: the member and the position given\<close>
  geo_accepts :: "geo_point \<Rightarrow> bool" \<comment> \<open>the range Redis takes, narrower than a coordinate's\<close>
  geo_cell :: "geo_point \<Rightarrow> geo_point" \<comment> \<open>what the 52-bit geohash of a position decodes to\<close>
  geo_dist :: "geo_point \<Rightarrow> geo_point \<Rightarrow> real" \<comment> \<open>in metres, as it is reported\<close>
  now_clock :: "nat \<Rightarrow> time" \<comment> \<open>the process's clock as call \<open>n\<close> is prepared or answered\<close>

type_synonym ('m, 'a) geo = "((presence_json, 'm geo_redis_ext) redis_ext world_scheme, 'a) script"

text \<open>A call on both structures: a refused one does nothing, a mute one loses only its answer.\<close>

definition geo_call :: "((presence_json, 'm geo_redis_ext) redis_ext world_scheme \<Rightarrow> time \<Rightarrow>
    (go_error + 'r) \<times> (string \<Rightarrow> (presence_json \<times> time) option) \<times> (string \<times> geo_point) list)
    \<Rightarrow> ('m, go_error + 'r) geo" where
  "geo_call f = Stmt (\<lambda>w. let n = calls w; w' = w\<lparr>calls := Suc n\<rparr> in
     if refuses w n then (w', throw (Other ''redis: refused''))
     else case f w (rclock w n) of (a, s, z) \<Rightarrow>
       (w'\<lparr>strs := s, zset := z\<rparr>, if mute w n then throw (Other ''redis: no answer'') else Done a))"

lemma run_geo_call [run_simps]:
  "run (geo_call f) w = (let n = calls w in
     if refuses w n then (Inl (Other ''redis: refused''), w\<lparr>calls := Suc n\<rparr>)
     else case f w (rclock w n) of (a, s, z) \<Rightarrow>
       (if mute w n then Inl (Other ''redis: no answer'') else a, w\<lparr>calls := Suc n, strs := s, zset := z\<rparr>))"
  by (auto simp: geo_call_def run_Stmt Let_def split: prod.split)

text \<open>\<open>GEOADD\<close> of one member: refused out of range, otherwise the member moves.\<close>

definition zput :: "string \<Rightarrow> geo_point \<Rightarrow> (string \<times> geo_point) list \<Rightarrow> (string \<times> geo_point) list" where
  "zput m p z = (if m \<in> fst ` set z then map (\<lambda>(k, q). if k = m then (k, p) else (k, q)) z else z @ [(m, p)])"

definition geo_error :: go_error where
  "geo_error = Other ''ERR invalid longitude,latitude pair''"

section \<open>The service\<close>

text \<open>Reading the process's clock.\<close>

definition time_Now :: "('m, time) geo" where
  "time_Now = Stmt (\<lambda>w. (w, Done (now_clock w (calls w))))"

lemma run_time_Now [run_simps]: "run time_Now w = (now_clock w (calls w), w)"
  by (simp add: time_Now_def run_Stmt)

definition Presence_Heartbeat :: "string \<Rightarrow> float64 \<Rightarrow> float64 \<Rightarrow> ('m, go_error + unit) geo" where
  "Presence_Heartbeat unitID lat lng = (case ValidateLatLng lat lng of
     Inl err \<Rightarrow> throw err
   | Inr _ \<Rightarrow> bind time_Now (\<lambda>now.
       case stored_Marshal \<lparr>st_Lat = lat, st_Lng = lng, st_TS = now div 1000000\<rparr> of
         None \<Rightarrow> throw (Other ''json: unsupported value'')
       | Some raw \<Rightarrow> geo_call (\<lambda>w t.
           let s = (strs w)(presence_key unitID \<mapsto> (raw, expires t presence_TTL))
           in if geo_accepts w (lat, lng) then (Inr (), s, zput unitID (lat, lng) (zset w))
              else (Inl geo_error, s, zset w))))"

definition Presence_Get :: "string \<Rightarrow> ('m, go_error + Presence option) geo" where
  "Presence_Get unitID = bind (geo_call (\<lambda>w t. (Inr (live t (strs w (presence_key unitID))), strs w, zset w)))
     (\<lambda>r. case r of
        Inl err \<Rightarrow> throw err
      | Inr None \<Rightarrow> ok None
      | Inr (Some raw) \<Rightarrow> (case stored_Unmarshal raw of
          None \<Rightarrow> throw (Other ''invalid character in presence value'')
        | Some st \<Rightarrow> bind time_Now (\<lambda>now.
            let seen = seconds (st_TS st)
            in ok (Some \<lparr>pr_UnitID = unitID, pr_Latitude = st_Lat st, pr_Longitude = st_Lng st,
                 pr_LastSeen = seen, pr_AgeSeconds = real_of_int (now - seen) / 1000000\<rparr>))))"

definition Presence_IsPresent :: "string \<Rightarrow> ('m, bool) geo" where
  "Presence_IsPresent unitID = bind
     (geo_call (\<lambda>w t. (Inr (if live t (strs w (presence_key unitID)) = None then 0 else 1 :: nat), strs w, zset w)))
     (\<lambda>r. case r of Inl err \<Rightarrow> Done True | Inr n \<Rightarrow> Done (n > 0))"

text \<open>The pipeline of \<open>EXISTS\<close> commands; the result is the map of the ids it was asked about.\<close>

definition Presence_FilterPresent :: "string list \<Rightarrow> ('m, string \<Rightarrow> bool) geo" where
  "Presence_FilterPresent unitIDs =
     (if unitIDs = [] then Done (\<lambda>_. False)
      else bind (geo_call (\<lambda>w t. (Inr (\<lambda>x. live t (strs w (presence_key x)) \<noteq> None), strs w, zset w)))
        (\<lambda>r. case r of
           Inl err \<Rightarrow> Done (\<lambda>x. x \<in> set unitIDs)
         | Inr here \<Rightarrow> Done (\<lambda>x. x \<in> set unitIDs \<and> here x)))"

record GeoLocation =
  gl_Name :: string
  gl_Latitude :: float64
  gl_Longitude :: float64
  gl_Dist :: float64

text \<open>\<open>GEOSEARCH ... BYRADIUS r m ASC COUNT n WITHCOORD WITHDIST\<close>. A radius that is not a finite,
  non-negative number is refused.\<close>

definition located :: "(geo_point \<Rightarrow> geo_point) \<Rightarrow> (geo_point \<Rightarrow> geo_point \<Rightarrow> real) \<Rightarrow> geo_point
    \<Rightarrow> string \<times> geo_point \<Rightarrow> GeoLocation" where
  "located cell gdist centre mp = (case mp of (m, p) \<Rightarrow>
     \<lparr>gl_Name = m, gl_Latitude = fst (cell p), gl_Longitude = snd (cell p), gl_Dist = Fin (gdist (cell p) centre)\<rparr>)"

definition geosearch :: "geo_point \<Rightarrow> real \<Rightarrow> nat \<Rightarrow> (geo_point \<Rightarrow> geo_point)
    \<Rightarrow> (geo_point \<Rightarrow> geo_point \<Rightarrow> real) \<Rightarrow> (string \<times> geo_point) list \<Rightarrow> GeoLocation list" where
  "geosearch centre r n cell gdist z = take n (map (located cell gdist centre)
     (sort_key (\<lambda>(m, p). gdist (cell p) centre) (filter (\<lambda>(m, p). gdist (cell p) centre \<le> r) z)))"

definition redis_GeoSearch :: "float64 \<Rightarrow> float64 \<Rightarrow> float64 \<Rightarrow> int \<Rightarrow> ('m, go_error + GeoLocation list) geo" where
  "redis_GeoSearch lat lng radius count = geo_call (\<lambda>w t.
     (case radius of
        Fin r \<Rightarrow> if 0 \<le> r \<and> geo_accepts w (lat, lng)
          then Inr (geosearch (lat, lng) r (nat count) (geo_cell w) (geo_dist w) (zset w)) else Inl geo_error
      | _ \<Rightarrow> Inl geo_error, strs w, zset w))"

definition redis_ZRem :: "string list \<Rightarrow> ('m, go_error + unit) geo" where
  "redis_ZRem ms = geo_call (\<lambda>w t. (Inr (), strs w, filter (\<lambda>(m, p). m \<notin> set ms) (zset w)))"

definition nearby :: "GeoLocation \<Rightarrow> NearbyUnit" where
  "nearby l = \<lparr>nu_UnitID = gl_Name l, nu_Latitude = gl_Latitude l, nu_Longitude = gl_Longitude l,
     nu_DistanceMeters = gl_Dist l\<rparr>"

text \<open>The loop over the hits: the live ones up to the limit, and the dark ones to evict.\<close>

fun split_live :: "(string \<Rightarrow> bool) \<Rightarrow> nat \<Rightarrow> GeoLocation list \<Rightarrow> NearbyUnit list \<times> string list
    \<Rightarrow> NearbyUnit list \<times> string list" where
  "split_live alive limit [] (out, stale) = (out, stale)"
| "split_live alive limit (l # ls) (out, stale) =
     (if \<not> alive (gl_Name l) then split_live alive limit ls (out, stale @ [gl_Name l])
      else split_live alive limit ls (if length out < limit then out @ [nearby l] else out, stale))"

definition Presence_NearbyLive :: "float64 \<Rightarrow> float64 \<Rightarrow> float64 \<Rightarrow> int \<Rightarrow> ('m, go_error + NearbyUnit list) geo" where
  "Presence_NearbyLive lat lng radiusMeters limit = (case ValidateLatLng lat lng of
     Inl err \<Rightarrow> throw err
   | Inr _ \<Rightarrow>
       let limit = (if limit \<le> 0 then 5 else limit)
       in bindE (redis_GeoSearch lat lng radiusMeters (limit * 2)) (\<lambda>locs.
         if locs = [] then ok []
         else bind (Presence_FilterPresent (map gl_Name locs)) (\<lambda>alive.
           case split_live alive (nat limit) locs ([], []) of (out, stale) \<Rightarrow>
             if stale \<noteq> [] then bind (redis_ZRem stale) (\<lambda>_. ok out) else ok out)))"

section \<open>The handlers\<close>

definition PresenceHandler_Heartbeat ::
    "Actor \<Rightarrow> string \<Rightarrow> go_error + float64 \<times> float64 \<Rightarrow> ('m, (string \<times> int \<times> int) response) geo" where
  "PresenceHandler_Heartbeat actor unitID body = (case body of
     Inl err \<Rightarrow> Done (common_Error 400 ''latitude and longitude are required'' ''VALIDATION_ERROR'')
   | Inr (lat, lng) \<Rightarrow>
       if \<not> Actor_OwnsUnit actor unitID
       then Done (common_Error 403 ''you may only send heartbeats for your own unit'' ''FORBIDDEN'')
       else respond (Presence_Heartbeat unitID lat lng)
         (\<lambda>err. if errors_Is err (E Geo_ErrInvalidCoordinates)
                then common_Error 400 ''coordinates out of range'' ''VALIDATION_ERROR''
                else common_Error 503 ''could not record heartbeat'' ''PRESENCE_UNAVAILABLE'')
         (\<lambda>_. common_Success 200 ''heartbeat recorded''
            (unitID, HeartbeatInterval div 1000000000, presence_TTL div 1000000000)))"

definition PresenceHandler_GetPresence :: "string \<Rightarrow> ('m, Presence response) geo" where
  "PresenceHandler_GetPresence unitID = bind (Presence_Get unitID) (\<lambda>r. Done (case r of
     Inl err \<Rightarrow> common_Error 503 ''presence store unavailable'' ''PRESENCE_UNAVAILABLE''
   | Inr None \<Rightarrow> common_Error 404 ''unit has gone dark (no heartbeat within TTL)'' ''NOT_PRESENT''
   | Inr (Some p) \<Rightarrow> common_Success 200 ''unit is present'' p))"

definition PresenceHandler_NearbyLive ::
    "(string \<Rightarrow> float64 option) \<Rightarrow> query \<Rightarrow> ('m, (nat \<times> NearbyUnit list) response) geo" where
  "PresenceHandler_NearbyLive ParseFloat q =
     (case (ParseFloat (q ''lat''), ParseFloat (q ''lng'')) of
        (Some lat, Some lng) \<Rightarrow>
          let radius = f_of_int (ClampInt (q ''radius'') 5000 1 100000);
              limit = ClampInt (q ''limit'') 5 1 50
          in respond (Presence_NearbyLive lat lng radius limit)
            (\<lambda>err. if errors_Is err (E Geo_ErrInvalidCoordinates)
                   then common_Error 400 ''coordinates out of range'' ''VALIDATION_ERROR''
                   else common_Error 503 ''presence store unavailable'' ''PRESENCE_UNAVAILABLE'')
            (\<lambda>us. common_Success 200 ''live units nearby'' (length us, us))
      | _ \<Rightarrow> Done (common_Error 400 ''lat and lng are required'' ''VALIDATION_ERROR''))"

section \<open>What the calls do\<close>

lemma split_live_eq:
  "split_live alive n ls (out, stale) =
     (out @ take (n - length out) (map nearby (filter (\<lambda>l. alive (gl_Name l)) ls)),
      stale @ map gl_Name (filter (\<lambda>l. \<not> alive (gl_Name l)) ls))"
proof (induction ls arbitrary: out stale)
  case (Cons l ls)
  have "take (n - length out) (x # xs) = (if length out < n then x # take (n - Suc (length out)) xs else [])" for x :: NearbyUnit and xs
    by (auto simp: take_Cons')
  with Cons show ?case by auto
qed simp

text \<open>Every call of this module leaves the database and the request's environment alone.\<close>

definition outside_db :: "('m world_scheme, 'a) script \<Rightarrow> bool" where
  "outside_db m \<longleftrightarrow> (\<forall>w r w'. run m w = (r, w') \<longrightarrow> base w' = base w \<and> view w' = view w \<and> wenv w' = wenv w \<and> pc w' = pc w)"

lemma outside_db_bind: "outside_db m \<Longrightarrow> (\<And>a. outside_db (k a)) \<Longrightarrow> outside_db (bind m k)"
  unfolding outside_db_def run_bind by (fastforce split: prod.splits)

lemma outside_db_bindE: "outside_db m \<Longrightarrow> (\<And>a. outside_db (k a)) \<Longrightarrow> outside_db (bindE m k)"
  unfolding bindE_def by (rule outside_db_bind) (auto simp: outside_db_def split: sum.split)

lemma outside_db_simps [simp]: "outside_db (Done a)" "outside_db (geo_call f)" "outside_db time_Now"
  by (auto simp: outside_db_def run_simps Let_def split: prod.splits if_splits)

lemma presence_outside_db:
  "outside_db (Presence_Heartbeat u lat lng)" "outside_db (Presence_FilterPresent us)"
  "outside_db (Presence_NearbyLive lat lng r n)"
proof -
  show f: "outside_db (Presence_FilterPresent us)" for us
    by (auto simp: Presence_FilterPresent_def intro!: outside_db_bind split: sum.split)
  show "outside_db (Presence_Heartbeat u lat lng)"
    by (auto simp: Presence_Heartbeat_def intro!: outside_db_bind split: sum.split option.split)
  have "outside_db (redis_ZRem ms)" "outside_db (redis_GeoSearch lat lng r c)" for ms c
    by (simp_all add: redis_ZRem_def redis_GeoSearch_def)
  with f show "outside_db (Presence_NearbyLive lat lng r n)"
    by (auto simp: Presence_NearbyLive_def Let_def intro!: outside_db_bind outside_db_bindE split: sum.split prod.split)
qed

lemma geosearch_facts:
  "length (geosearch c r n cell gd z) \<le> n"
  "l \<in> set (geosearch c r n cell gd z) \<Longrightarrow> \<exists>p. (gl_Name l, p) \<in> set z \<and> gd (cell p) c \<le> r \<and> gl_Dist l = Fin (gd (cell p) c)
     \<and> gl_Latitude l = fst (cell p) \<and> gl_Longitude l = snd (cell p)"
  "sorted_wrt (\<lambda>a b. f_le (gl_Dist a) (gl_Dist b)) (geosearch c r n cell gd z)"
proof -
  let ?s = "sort_key (\<lambda>(m, p). gd (cell p) c) (filter (\<lambda>(m, p). gd (cell p) c \<le> r) z)"
  show "length (geosearch c r n cell gd z) \<le> n" by (simp add: geosearch_def)
  show "\<exists>p. (gl_Name l, p) \<in> set z \<and> gd (cell p) c \<le> r \<and> gl_Dist l = Fin (gd (cell p) c)
     \<and> gl_Latitude l = fst (cell p) \<and> gl_Longitude l = snd (cell p)" if "l \<in> set (geosearch c r n cell gd z)"
    using that in_set_takeD [of l n "map (located cell gd c) ?s"] by (fastforce simp: geosearch_def located_def)
  have "sorted (map (\<lambda>(m, p). gd (cell p) c) ?s)" by simp
  then have "sorted_wrt (\<lambda>a b. (case a of (m, p) \<Rightarrow> gd (cell p) c) \<le> (case b of (m, p) \<Rightarrow> gd (cell p) c)) ?s"
    by (simp add: sorted_map)
  then have "sorted_wrt (\<lambda>a b. f_le (gl_Dist a) (gl_Dist b)) (map (located cell gd c) ?s)"
    unfolding sorted_wrt_map by (rule sorted_wrt_mono_rel [rotated]) (auto simp: located_def)
  then show "sorted_wrt (\<lambda>a b. f_le (gl_Dist a) (gl_Dist b)) (geosearch c r n cell gd z)"
    by (simp add: geosearch_def sorted_wrt_take)
qed

text \<open>What a search finds when Redis answers: who is alive is read at the second call.\<close>

definition alive_at :: "time \<Rightarrow> (string \<Rightarrow> (presence_json \<times> time) option) \<Rightarrow> string \<Rightarrow> bool" where
  "alive_at t s unitID \<longleftrightarrow> live t (s (presence_key unitID)) \<noteq> None"

lemma alive_at_iff: "alive_at t s unitID \<longleftrightarrow> (\<exists>b dl. s (presence_key unitID) = Some (b, dl) \<and> t \<le> dl)"
  by (auto simp: alive_at_def live_def split: option.splits if_splits)

section \<open>The seam dispatch sees\<close>

text \<open>\<open>dispatch.LiveLocator\<close>: what the candidate search relies on is that a lookup, whatever it
  returns, is no part of any transaction.\<close>

record 'm LiveLocator =
  NearbyLive :: "float64 \<Rightarrow> float64 \<Rightarrow> float64 \<Rightarrow> int \<Rightarrow> ('m, NearbyUnit list) tx"

locale live_locator =
  fixes L :: "'m LiveLocator"
  assumes locator_outside_db: "outside_db (NearbyLive L lat lng r n)"

definition Presence_locator :: "((presence_json, 'm geo_redis_ext) redis_ext) LiveLocator" where
  "Presence_locator = \<lparr>NearbyLive = Presence_NearbyLive\<rparr>"

interpretation presence: live_locator Presence_locator
  by unfold_locales (simp add: Presence_locator_def presence_outside_db)

section \<open>Properties\<close>

text \<open>A heartbeat buys exactly thirty seconds. After a heartbeat that was recorded, a read of the
  unit's presence that reaches Redis no later than thirty seconds on Redis's clock finds it, with
  the position that was reported; any later one finds it gone, though nothing was written in
  between.\<close>

theorem heartbeat_lasts_thirty_seconds:
  assumes "run (Presence_Heartbeat x lat lng) w = (Inr (), w1)"
    and "strs w2 (presence_key x) = strs w1 (presence_key x)"
    and "run (Presence_Get x) w2 = (res, w3)" and "\<not> refuses w2 (calls w2)" and "\<not> mute w2 (calls w2)"
  shows "if rclock w2 (calls w2) \<le> rclock w (calls w) + seconds 30
    then \<exists>p. res = Inr (Some p) \<and> pr_UnitID p = x \<and> pr_Latitude p = lat \<and> pr_Longitude p = lng
      \<and> pr_LastSeen p \<le> now_clock w (calls w) \<and> now_clock w (calls w) < pr_LastSeen p + seconds 1
    else res = Inr None"
proof -
  have e: "expires t presence_TTL = t + seconds 30" for t
    by (simp add: expires_def presence_TTL_def HeartbeatInterval_def seconds_def)
  let ?st = "\<lparr>st_Lat = lat, st_Lng = lng, st_TS = now_clock w (calls w) div 1000000\<rparr>"
  from assms(1) have "strs w1 (presence_key x) = Some (StoredJSON ?st, rclock w (calls w) + seconds 30)"
    by (auto simp: Presence_Heartbeat_def run_simps Let_def stored_Marshal_def e split: sum.splits if_splits option.splits)
  with assms(2) have s: "strs w2 (presence_key x) = Some (StoredJSON ?st, rclock w (calls w) + seconds 30)" by simp
  have "seconds (n div 1000000) \<le> n \<and> n < seconds (n div 1000000) + seconds 1" for n
    unfolding seconds_def
    using div_mult_mod_eq [of n 1000000] pos_mod_bound [of 1000000 n] pos_mod_sign [of 1000000 n] by linarith
  with assms(3-5) s show ?thesis
    by (auto simp: Presence_Get_def run_simps Let_def live_def split: if_splits)
qed

text \<open>C32: what a live search returns. When Redis answers both of its calls, the result is the limit
  nearest of the units alive at the second call among the twice as many hits nearest to the point;
  so every unit returned has reported within its time, they come nearest first, within the radius,
  no more than asked for, and the database is not touched. Fewer than asked for may come back while
  further live units are in range, when dark ones crowd the first hits; those are evicted, so
  that they cannot crowd the next search.\<close>

theorem nearby_live_spec:
  assumes "run (Presence_NearbyLive lat lng (Fin r) limit) w = (Inr us, w')" and "0 < limit"
    and "\<not> refuses w (calls w)" "\<not> mute w (calls w)"
    and "\<not> refuses w (Suc (calls w))" "\<not> mute w (Suc (calls w))"
  shows "let hits = geosearch (lat, lng) r (nat (2 * limit)) (geo_cell w) (geo_dist w) (zset w);
             alive = alive_at (rclock w (Suc (calls w))) (strs w)
    in us = take (nat limit) (map nearby (filter (\<lambda>l. alive (gl_Name l)) hits))
    \<and> (\<forall>u\<in>set us. alive (nu_UnitID u) \<and> f_le (nu_DistanceMeters u) (Fin r))
    \<and> sorted_wrt (\<lambda>a b. f_le (nu_DistanceMeters a) (nu_DistanceMeters b)) us
    \<and> int (length us) \<le> limit \<and> base w' = base w
    \<and> (\<not> refuses w (Suc (Suc (calls w))) \<longrightarrow>
         (\<forall>l\<in>set hits. \<not> alive (gl_Name l) \<longrightarrow> gl_Name l \<notin> fst ` set (zset w')))"
proof -
  let ?z = "geosearch (lat, lng) r (nat (2 * limit)) (geo_cell w) (geo_dist w) (zset w)"
  let ?a = "alive_at (rclock w (Suc (calls w))) (strs w)"
  let ?l = "filter (\<lambda>l. ?a (gl_Name l)) ?z"
  have lim: "limit * 2 = 2 * limit" by simp
  let ?b = "\<lambda>x. x \<in> set (map gl_Name ?z) \<and> ?a x"
  have same: "filter (\<lambda>l. ?b (gl_Name l)) ?z = ?l" "filter (\<lambda>l. \<not> ?b (gl_Name l)) ?z = filter (\<lambda>l. \<not> ?a (gl_Name l)) ?z"
    by (auto intro: filter_cong)
  let ?stale = "map gl_Name (filter (\<lambda>l. \<not> ?a (gl_Name l)) ?z)"
  from assms have v: "ValidateLatLng lat lng = Inr ()" by (auto simp: Presence_NearbyLive_def split: sum.splits)
  have g: "run (redis_GeoSearch lat lng (Fin r) (limit * 2)) w
      = (if 0 \<le> r \<and> geo_accepts w (lat, lng) then Inr ?z else Inl geo_error, w\<lparr>calls := Suc (calls w)\<rparr>)"
    using assms(3,4) by (simp add: redis_GeoSearch_def run_simps Let_def lim)
  from assms(1,2) v g have acc: "0 \<le> r \<and> geo_accepts w (lat, lng)"
    by (auto simp: Presence_NearbyLive_def run_bindE split: if_splits)
  let ?w1 = "w\<lparr>calls := Suc (calls w)\<rparr>" and ?w2 = "w\<lparr>calls := Suc (Suc (calls w))\<rparr>"
  have f: "run (Presence_FilterPresent (map gl_Name ?z)) ?w1 = (?b, ?w2)" if "?z \<noteq> []"
    using that assms(5,6) by (simp add: Presence_FilterPresent_def run_simps Let_def alive_at_def)
  have us: "us = take (nat limit) (map nearby ?l)"
    and w': "?z = [] \<and> w' = ?w1 \<or> ?stale = [] \<and> w' = ?w2 \<or> w' = snd (run (redis_ZRem ?stale) ?w2)"
  proof -
    show "us = take (nat limit) (map nearby ?l)"
      using assms(1,2) v g acc f same
      by (cases "?z = []") (auto simp: Presence_NearbyLive_def run_bindE run_bind Let_def split_live_eq split: if_splits prod.splits)
    show "?z = [] \<and> w' = ?w1 \<or> ?stale = [] \<and> w' = ?w2 \<or> w' = snd (run (redis_ZRem ?stale) ?w2)"
      using assms(1,2) v g acc f same
      by (cases "?z = []") (auto simp: Presence_NearbyLive_def run_bindE run_bind Let_def split_live_eq split: if_splits prod.splits)
  qed
  have m: "l \<in> set ?z" "?a (gl_Name l)" if "l \<in> set (take (nat limit) ?l)" for l
    using in_set_takeD [OF that] by auto
  have 1: "?a (nu_UnitID u) \<and> f_le (nu_DistanceMeters u) (Fin r)" if "u \<in> set us" for u
  proof -
    from that us obtain l where "u = nearby l" "l \<in> set (take (nat limit) ?l)" by (auto simp: take_map)
    with m [of l] geosearch_facts(2) [of l] show ?thesis by (force simp: nearby_def)
  qed
  have "sorted_wrt (\<lambda>a b. f_le (gl_Dist a) (gl_Dist b)) (take (nat limit) ?l)"
    by (intro sorted_wrt_take sorted_wrt_filter geosearch_facts(3))
  then have 2: "sorted_wrt (\<lambda>a b. f_le (nu_DistanceMeters a) (nu_DistanceMeters b)) us"
    by (simp add: us take_map sorted_wrt_map nearby_def)
  have 3: "int (length us) \<le> limit" using us assms(2) by simp
  have 4: "base w' = base w" using presence_outside_db(3) assms(1) unfolding outside_db_def by blast
  have 5: "gl_Name l \<notin> fst ` set (zset w')"
    if "\<not> refuses w (Suc (Suc (calls w)))" "l \<in> set ?z" "\<not> ?a (gl_Name l)" for l
    using w' that by (auto simp: redis_ZRem_def run_geo_call Let_def filter_empty_conv)
  from us 1 2 3 4 5 show ?thesis unfolding Let_def by blast
qed

section \<open>Witnesses\<close>

text \<open>A Redis with one unit that reports and one that has gone dark.\<close>

definition geo_start :: geo_redis where
  "geo_start = \<lparr>base = empty_db, view = empty_db, locks = {}, pc = 0, txnow = 0, wenv = sample_env,
     strs = [presence_key ''u1'' \<mapsto> (StoredJSON \<lparr>st_Lat = Fin 1, st_Lng = Fin 1, st_TS = 0\<rparr>, seconds 30)],
     calls = 0, refuses = (\<lambda>n. False), mute = (\<lambda>n. False), rclock = (\<lambda>n. seconds (int n)),
     rand_Float64 = (\<lambda>n. Fin 0), zset = [(''u1'', (Fin 1, Fin 1)), (''u2'', (Fin 0, Fin 0))],
     geo_accepts = (\<lambda>p. True), geo_cell = id, geo_dist = flat_distance, now_clock = (\<lambda>n. seconds (int n))\<rparr>"

definition sample_beat :: "(go_error + unit) \<times> geo_redis" where
  "sample_beat = run (Presence_Heartbeat ''u2'' (Fin 2) (Fin 3)) geo_start"

lemma sample_beat_facts: "fst sample_beat = Inr ()" "calls (snd sample_beat) = 1"
  "rclock (snd sample_beat) 1 = seconds 1" "\<not> refuses (snd sample_beat) 1" "\<not> mute (snd sample_beat) 1"
  by (simp_all add: sample_beat_def geo_start_def Presence_Heartbeat_def run_simps Let_def stored_Marshal_def
      ValidateLatLng_def finite64_def)

lemma heartbeat_lasts_thirty_seconds_witness:
  "\<exists>p. fst (run (Presence_Get ''u2'') (snd sample_beat)) = Inr (Some p) \<and> pr_Latitude p = Fin 2"
proof -
  have "run (Presence_Heartbeat ''u2'' (Fin 2) (Fin 3)) geo_start = (Inr (), snd sample_beat)"
    using sample_beat_facts(1) by (simp add: sample_beat_def prod_eq_iff)
  from heartbeat_lasts_thirty_seconds [OF this refl surjective_pairing] sample_beat_facts
  show ?thesis by (auto simp: geo_start_def seconds_def)
qed

lemma nearby_live_spec_witness:
  "map nu_UnitID (case fst (run (Presence_NearbyLive (Fin 0) (Fin 0) (Fin 100) 1) geo_start) of Inr us \<Rightarrow> us | _ \<Rightarrow> []) = [''u1'']
   \<and> ''u2'' \<notin> fst ` set (zset (snd (run (Presence_NearbyLive (Fin 0) (Fin 0) (Fin 100) 1) geo_start)))"
proof -
  let ?r = "run (Presence_NearbyLive (Fin 0) (Fin 0) (Fin 100) 1) geo_start"
  let ?hits = "geosearch (Fin 0, Fin 0) 100 2 id flat_distance [(''u1'', (Fin 1, Fin 1)), (''u2'', (Fin 0, Fin 0))]"
  have h: "map gl_Name ?hits = [''u2'', ''u1'']"
    by (simp add: geosearch_def located_def flat_distance_def)
  have a: "alive_at (seconds 1) (strs geo_start) ''u1''" "\<not> alive_at (seconds 1) (strs geo_start) ''u2''"
    by (simp_all add: alive_at_iff geo_start_def presence_key_def seconds_def)
  have "\<exists>us. fst ?r = Inr us"
    by (simp add: Presence_NearbyLive_def run_bindE run_bind redis_GeoSearch_def run_geo_call Let_def geo_start_def
        ValidateLatLng_def Presence_FilterPresent_def split_live_eq redis_ZRem_def split: prod.split)
  then obtain us where f: "fst ?r = Inr us" ..
  then have us: "?r = (Inr us, snd ?r)" by (simp add: prod_eq_iff)
  note n = nearby_live_spec [OF us]
  have g: "calls geo_start = 0" "geo_cell geo_start = id" "geo_dist geo_start = flat_distance" "rclock geo_start (Suc 0) = seconds 1"
    "zset geo_start = [(''u1'', (Fin 1, Fin 1)), (''u2'', (Fin 0, Fin 0))]" "\<And>n. \<not> refuses geo_start n" "\<And>n. \<not> mute geo_start n"
    by (simp_all add: geo_start_def)
  obtain h1 h2 where hh: "?hits = [h1, h2]" "gl_Name h1 = ''u2''" "gl_Name h2 = ''u1''" using h by auto
  from n have "us = [nearby h2] \<and> ''u2'' \<notin> fst ` set (zset (snd ?r))" using hh a by (auto simp: Let_def g)
  with f hh(3) show ?thesis by (simp add: nearby_def)
qed


end
