(* ===== verification/Dispatch_Service.thy ===== *)
theory Dispatch_Service
  imports Dispatch_Props Scoring Presence
begin

text \<open>
  The dispatch service and its handlers (\<^verbatim>\<open>service.go\<close>, \<^verbatim>\<open>reassign_service.go\<close>, \<^verbatim>\<open>handler.go\<close>,
  \<^verbatim>\<open>reassign_handler.go\<close> of \<^verbatim>\<open>internal/dispatch\<close>): the choice of strategy, the hybrid candidate search
  over live and registered positions, rerouting and preemption as retries over candidates, and the
  HTTP mapping. Live positions come through the presence seam.
\<close>

section \<open>The service\<close>

record 'm DispatchService =
  ds_dispatches :: "'m DispatchRepository"
  ds_live :: "'m LiveLocator option" \<comment> \<open>\<open>None\<close> is the nil interface\<close>

datatype ReserveStrategy = StrategyPessimistic | StrategyOptimistic

definition DispatchService_Reserve ::
    "'m DispatchService \<Rightarrow> string \<Rightarrow> string \<Rightarrow> ReserveStrategy \<Rightarrow> ('m, Dispatch) tx" where
  "DispatchService_Reserve S incidentID unitID strategy = bind
     (case strategy of
        StrategyOptimistic \<Rightarrow> DispatchRepository_ReserveOptimistic (ds_dispatches S) incidentID unitID
      | StrategyPessimistic \<Rightarrow> DispatchRepository_Reserve (ds_dispatches S) incidentID unitID)
     (\<lambda>res. case res of
        Inl err \<Rightarrow>
          if errors_Is err (E Dispatch_ErrUnitNotFound) then throw (E Unit_ErrUnitNotFound)
          else if errors_Is err (E Dispatch_ErrUnitNotAvailable) then throw (E Dispatch_ErrUnitUnavailable)
          else if errors_Is err (E Dispatch_ErrIncidentNotFound) then throw (E Incident_ErrIncidentNotFound)
          else if errors_Is err (E Dispatch_ErrIncidentNotDispatchable)
          then throw (E Dispatch_ErrIncidentNotDispatchable)
          else if errors_Is err (E Dispatch_ErrReservationConflict) then throw (E Dispatch_ErrReservationConflict)
          else throw err
      | Inr d \<Rightarrow> ok d)"

definition DispatchService_GetDispatch :: "string \<Rightarrow> ('m, Dispatch) tx" where
  "DispatchService_GetDispatch x = bind (DispatchRepository_GetByID x) (\<lambda>res. case res of
     Inl err \<Rightarrow> if errors_Is err ErrNoRows then throw (E Dispatch_ErrDispatchNotFound) else throw err
   | Inr d \<Rightarrow> ok d)"

definition DispatchService_ListIncidentDispatches :: "string \<Rightarrow> ('m, Dispatch list) tx" where
  "DispatchService_ListIncidentDispatches incidentID = DispatchRepository_ListByIncident incidentID"

definition DispatchService_AdvanceStatus :: "'m DispatchService \<Rightarrow> string \<Rightarrow> string \<Rightarrow> ('m, Dispatch) tx" where
  "DispatchService_AdvanceStatus S dispatchID newStatus =
     (if \<not> IsValidDispatchStatus newStatus then throw (E Dispatch_ErrInvalidDispatchStatus)
      else bind (DispatchRepository_AdvanceStatus (ds_dispatches S) dispatchID newStatus) (\<lambda>res. case res of
        Inl err \<Rightarrow>
          if errors_Is err (E Dispatch_ErrDispatchNotFound) then throw (E Dispatch_ErrDispatchNotFound)
          else if errors_Is err (E Dispatch_ErrIllegalDispatchTransition)
          then throw (E Dispatch_ErrIllegalDispatchTransition)
          else throw err
      | Inr d \<Rightarrow> ok d))"

subsection \<open>Candidates\<close>

definition liveSearchRadiusMeters :: float64 where "liveSearchRadiusMeters = Fin 20000"

datatype PositionSource = PositionSourceLive | PositionSourceRegistry

text \<open>The map of the hydrated rows by id, the later of two equal ids winning as in a Go map.\<close>

definition by_id :: "Unit list \<Rightarrow> string \<Rightarrow> Unit option" where
  "by_id rows = map_of (rev (map (\<lambda>u. (un_ID u, u)) rows))"

definition at_position :: "NearbyUnit \<Rightarrow> Unit \<Rightarrow> Unit" where
  "at_position n u = u\<lparr>un_Latitude := nu_Latitude n, un_Longitude := nu_Longitude n,
     un_DistanceMeters := nu_DistanceMeters n\<rparr>"

fun walk_live :: "(string \<Rightarrow> Unit option) \<Rightarrow> int \<Rightarrow> NearbyUnit list \<Rightarrow> Unit list \<Rightarrow> Unit list" where
  "walk_live byID limit [] out = out"
| "walk_live byID limit (n # ns) out = (case byID (nu_UnitID n) of
     None \<Rightarrow> walk_live byID limit ns out
   | Some u \<Rightarrow> let out' = out @ [at_position n u]
       in if int (length out') = limit then out' else walk_live byID limit ns out')"

definition hydrateLive :: "NearbyUnit list \<Rightarrow> int \<Rightarrow> ('m world_scheme, Unit list option) script" where
  "hydrateLive ns limit = bind (UnitRepository_FindAvailableByIDs (map nu_UnitID ns)) (\<lambda>res. case res of
     Inl err \<Rightarrow> Done None
   | Inr rows \<Rightarrow> if rows = [] then Done None
       else let out = walk_live (by_id rows) limit ns []
         in Done (if out \<noteq> [] then Some out else None))"

definition registry_units :: "Incident \<Rightarrow> int \<Rightarrow> ('m, Unit list \<times> PositionSource) tx" where
  "registry_units inc limit = bindE
     (UnitRepository_FindNearestAvailable (inc_Latitude inc) (inc_Longitude inc) '''' limit)
     (\<lambda>us. ok (us, PositionSourceRegistry))"

definition candidateUnits :: "'m DispatchService \<Rightarrow> Incident \<Rightarrow> int \<Rightarrow> ('m, Unit list \<times> PositionSource) tx" where
  "candidateUnits S inc limit = (case ds_live S of
     None \<Rightarrow> registry_units inc limit
   | Some L \<Rightarrow> bind (NearbyLive L (inc_Latitude inc) (inc_Longitude inc) liveSearchRadiusMeters (limit * 3))
       (\<lambda>res. case res of
          Inl err \<Rightarrow> registry_units inc limit
        | Inr ns \<Rightarrow> if ns = [] then registry_units inc limit
            else bind (hydrateLive ns limit) (\<lambda>h. case h of
              None \<Rightarrow> registry_units inc limit
            | Some us \<Rightarrow> ok (us, PositionSourceLive))))"

definition rank_units :: "Need \<Rightarrow> Unit list \<Rightarrow> ScoredUnit list" where
  "rank_units need us = sort_SliceStable (\<lambda>a b. f_gt (su_Score a) (su_Score b))
     (map (\<lambda>u. case ScoreUnit u need of (sc, bd) \<Rightarrow> \<lparr>su_Unit = u, su_Score = sc, su_Breakdown = bd\<rparr>) us)"

definition DispatchService_Candidates ::
    "'m DispatchService \<Rightarrow> string \<Rightarrow> string \<Rightarrow> int \<Rightarrow> ('m, Incident \<times> ScoredUnit list \<times> PositionSource) tx" where
  "DispatchService_Candidates S incidentID preferredType limit = bind (IncidentRepository_GetByID incidentID)
     (\<lambda>res. case res of
        Inl err \<Rightarrow> if errors_Is err ErrNoRows then throw (E Incident_ErrIncidentNotFound) else throw err
      | Inr inc \<Rightarrow>
          let limit = (if limit \<le> 0 \<or> limit > 50 then 5 else limit)
          in bindE (candidateUnits S inc limit) (\<lambda>(us, source).
            ok (inc, rank_units \<lparr>nd_Severity = inc_Severity inc, nd_RequiredType = preferredType\<rparr> us, source)))"

subsection \<open>Reroute and preempt\<close>

definition reassignCandidateLimit :: int where "reassignCandidateLimit = 5"

text \<open>The retry loops: a candidate lost to somebody else is skipped, any other failure ends them.\<close>

primrec reroute_loop :: "'m DispatchService \<Rightarrow> string \<Rightarrow> Dispatch \<Rightarrow> Unit list \<Rightarrow> ('m, Dispatch) tx" where
  "reroute_loop S dispatchID old [] = throw (E Dispatch_ErrNoReassignCandidate)"
| "reroute_loop S dispatchID old (cand # cands) =
     (if un_ID cand = dis_UnitID old then reroute_loop S dispatchID old cands
      else bind (DispatchRepository_Reassign (ds_dispatches S) dispatchID (dis_IncidentID old) (un_ID cand)
                   EventDispatchRerouted)
        (\<lambda>res. case res of
           Inr d \<Rightarrow> ok d
         | Inl rerr \<Rightarrow> if errors_Is rerr (E Dispatch_ErrUnitNotAvailable) then reroute_loop S dispatchID old cands
             else throw rerr))"

definition DispatchService_Reroute :: "'m DispatchService \<Rightarrow> string \<Rightarrow> ('m, Dispatch) tx" where
  "DispatchService_Reroute S dispatchID = bind (DispatchRepository_GetByID dispatchID) (\<lambda>res. case res of
     Inl err \<Rightarrow> if errors_Is err ErrNoRows then throw (E Dispatch_ErrDispatchNotFound) else throw err
   | Inr old \<Rightarrow>
       if \<not> IsActiveDispatch (dis_Status old) then throw (E Dispatch_ErrIllegalDispatchTransition)
       else bindE (DispatchService_Candidates S (dis_IncidentID old) '''' reassignCandidateLimit)
         (\<lambda>(_, candidates, _). reroute_loop S dispatchID old (map su_Unit candidates)))"

primrec preempt_loop :: "'m DispatchService \<Rightarrow> string \<Rightarrow> Preemptable list \<Rightarrow> ('m, Dispatch) tx" where
  "preempt_loop S incidentID [] = throw (E Dispatch_ErrNoReassignCandidate)"
| "preempt_loop S incidentID (v # vs) =
     bind (DispatchRepository_Reassign (ds_dispatches S) (pre_DispatchID v) incidentID (pre_UnitID v)
             EventDispatchPreempted)
       (\<lambda>res. case res of
          Inr d \<Rightarrow> ok d
        | Inl rerr \<Rightarrow> if errors_Is rerr (E Dispatch_ErrIllegalDispatchTransition)
              \<or> errors_Is rerr (E Dispatch_ErrUnitNotAvailable)
            then preempt_loop S incidentID vs else throw rerr)"

definition find_incident :: "string \<Rightarrow> ('m, Incident) tx" where
  "find_incident incidentID = bind (IncidentRepository_GetByID incidentID) (\<lambda>res. case res of
     Inl err \<Rightarrow> if errors_Is err ErrNoRows then throw (E Incident_ErrIncidentNotFound) else throw err
   | Inr inc \<Rightarrow> ok inc)"

definition DispatchService_Preempt :: "'m DispatchService \<Rightarrow> string \<Rightarrow> ('m, Dispatch) tx" where
  "DispatchService_Preempt S incidentID = bindE (find_incident incidentID) (\<lambda>inc.
     if inc_Status inc = StatusResolved \<or> inc_Status inc = StatusCancelled
     then throw (E Dispatch_ErrIncidentNotDispatchable)
     else bindE (DispatchRepository_FindPreemptable (inc_Severity inc) (inc_Latitude inc) (inc_Longitude inc)
                   reassignCandidateLimit)
       (\<lambda>victims. preempt_loop S incidentID victims))"

definition DispatchService_PreemptableFor :: "string \<Rightarrow> ('m, Incident \<times> Preemptable list) tx" where
  "DispatchService_PreemptableFor incidentID = bindE (find_incident incidentID) (\<lambda>inc.
     bindE (DispatchRepository_FindPreemptable (inc_Severity inc) (inc_Latitude inc) (inc_Longitude inc)
              reassignCandidateLimit) (\<lambda>v. ok (inc, v)))"

section \<open>The handlers\<close>

definition DispatchHandler_Candidates :: "'m DispatchService \<Rightarrow> string \<Rightarrow> query
    \<Rightarrow> ('m world_scheme, (Incident \<times> ScoredUnit list \<times> PositionSource) response) script" where
  "DispatchHandler_Candidates S x q =
     (let limit = ClampInt (q ''limit'') 5 1 50; preferredType = q ''type''
      in if preferredType \<noteq> '''' \<and> \<not> unit_validUnitTypes preferredType
         then Done (common_Error 400 ''invalid unit type'' ''VALIDATION_ERROR'')
         else respond (DispatchService_Candidates S x preferredType limit)
           (\<lambda>err. if errors_Is err (E Incident_ErrIncidentNotFound)
                  then common_Error 404 ''incident not found'' ''NOT_FOUND''
                  else common_Error 500 ''could not fetch candidates'' ''INTERNAL_ERROR'')
           (\<lambda>r. common_Success 200 ''dispatch candidates'' r))"

definition quoted :: "string \<Rightarrow> string" where
  "quoted s = CHR 0x27 # s @ [CHR 0x27]"

definition DispatchHandler_Dispatch :: "'m DispatchService \<Rightarrow> string \<Rightarrow> query \<Rightarrow> go_error + string
    \<Rightarrow> ('m world_scheme, Dispatch response) script" where
  "DispatchHandler_Dispatch S x q body = (case body of
     Inl err \<Rightarrow> Done (common_Error 400 ''unitId is required'' ''VALIDATION_ERROR'')
   | Inr unitID \<Rightarrow>
       (case (if q ''strategy'' = '''' \<or> q ''strategy'' = ''pessimistic'' then Some StrategyPessimistic
              else if q ''strategy'' = ''optimistic'' then Some StrategyOptimistic else None) of
          None \<Rightarrow> Done (common_Error 400 (''strategy must be '' @ quoted ''pessimistic'' @ '' or '' @ quoted ''optimistic'')
            ''VALIDATION_ERROR'')
        | Some strategy \<Rightarrow> respond (DispatchService_Reserve S x unitID strategy)
            (\<lambda>err. if errors_Is err (E Incident_ErrIncidentNotFound)
                   then common_Error 404 ''incident not found'' ''NOT_FOUND''
                   else if errors_Is err (E Unit_ErrUnitNotFound)
                   then common_Error 404 ''unit not found'' ''NOT_FOUND''
                   else if errors_Is err (E Dispatch_ErrUnitUnavailable)
                   then common_Error 409 ''unit is no longer available'' ''CONFLICT''
                   else if errors_Is err (E Dispatch_ErrIncidentNotDispatchable)
                   then common_Error 409 ''incident cannot be dispatched'' ''CONFLICT''
                   else if errors_Is err (E Dispatch_ErrReservationConflict)
                   then common_Error 409 ''reservation conflicted, please retry'' ''CONFLICT''
                   else common_Error 500 ''could not dispatch unit'' ''INTERNAL_ERROR'')
            (\<lambda>d. common_Success 201 ''unit dispatched'' d)))"

definition DispatchHandler_ListByIncident :: "string \<Rightarrow> ('m world_scheme, Dispatch list response) script" where
  "DispatchHandler_ListByIncident x = respond (DispatchService_ListIncidentDispatches x)
     (\<lambda>err. common_Error 500 ''could not list dispatches'' ''INTERNAL_ERROR'')
     (\<lambda>ds. common_Success 200 ''incident dispatches'' ds)"

definition DispatchHandler_Get :: "string \<Rightarrow> ('m world_scheme, Dispatch response) script" where
  "DispatchHandler_Get x = respond (DispatchService_GetDispatch x)
     (\<lambda>err. if errors_Is err (E Dispatch_ErrDispatchNotFound)
            then common_Error 404 ''dispatch not found'' ''NOT_FOUND''
            else common_Error 500 ''could not fetch dispatch'' ''INTERNAL_ERROR'')
     (\<lambda>d. common_Success 200 ''dispatch'' d)"

definition DispatchHandler_AdvanceStatus :: "'m DispatchService \<Rightarrow> Actor \<Rightarrow> string \<Rightarrow> go_error + string
    \<Rightarrow> ('m world_scheme, Dispatch response) script" where
  "DispatchHandler_AdvanceStatus S actor x body = (case body of
     Inl err \<Rightarrow> Done (common_Error 400 ''status must be one of en_route, on_scene, completed, cancelled''
                       ''VALIDATION_ERROR'')
   | Inr status \<Rightarrow> bind (DispatchService_GetDispatch x) (\<lambda>res. case res of
       Inl err \<Rightarrow> Done (if errors_Is err (E Dispatch_ErrDispatchNotFound)
                        then common_Error 404 ''dispatch not found'' ''NOT_FOUND''
                        else common_Error 500 ''could not load dispatch'' ''INTERNAL_ERROR'')
     | Inr existing \<Rightarrow>
         if \<not> Actor_OwnsUnit actor (dis_UnitID existing)
         then Done (common_Error 403 ''you may only advance your own unit's dispatch'' ''FORBIDDEN'')
         else respond (DispatchService_AdvanceStatus S x status)
           (\<lambda>err. if errors_Is err (E Dispatch_ErrDispatchNotFound)
                  then common_Error 404 ''dispatch not found'' ''NOT_FOUND''
                  else if errors_Is err (E Dispatch_ErrIllegalDispatchTransition)
                  then common_Error 409 ''illegal status transition'' ''CONFLICT''
                  else if errors_Is err (E Dispatch_ErrInvalidDispatchStatus)
                  then common_Error 400 ''invalid dispatch status'' ''VALIDATION_ERROR''
                  else common_Error 500 ''could not update dispatch'' ''INTERNAL_ERROR'')
           (\<lambda>d. common_Success 200 ''dispatch updated'' d)))"

definition reassignError :: "go_error \<Rightarrow> 'd response" where
  "reassignError err =
     (if errors_Is err (E Dispatch_ErrDispatchNotFound) then common_Error 404 ''dispatch not found'' ''NOT_FOUND''
      else if errors_Is err (E Incident_ErrIncidentNotFound)
      then common_Error 404 ''incident not found'' ''NOT_FOUND''
      else if errors_Is err (E Dispatch_ErrIllegalDispatchTransition)
      then common_Error 409 ''dispatch is no longer active'' ''CONFLICT''
      else if errors_Is err (E Dispatch_ErrIncidentNotDispatchable)
      then common_Error 409 ''incident cannot be dispatched'' ''CONFLICT''
      else if errors_Is err (E Dispatch_ErrNoReassignCandidate)
      then common_Error 409 ''no suitable unit available to take over'' ''CONFLICT''
      else common_Error 500 ''could not reassign dispatch'' ''INTERNAL_ERROR'')"

definition DispatchHandler_Reroute ::
    "'m DispatchService \<Rightarrow> string \<Rightarrow> ('m world_scheme, Dispatch response) script" where
  "DispatchHandler_Reroute S x = respond (DispatchService_Reroute S x) reassignError
     (\<lambda>d. common_Success 201 ''dispatch rerouted to a new unit'' d)"

definition DispatchHandler_Preempt ::
    "'m DispatchService \<Rightarrow> string \<Rightarrow> ('m world_scheme, Dispatch response) script" where
  "DispatchHandler_Preempt S x = respond (DispatchService_Preempt S x) reassignError
     (\<lambda>d. common_Success 201 ''unit preempted from a lower-severity incident'' d)"

definition DispatchHandler_Preemptable ::
    "string \<Rightarrow> ('m world_scheme, (Incident \<times> Preemptable list) response) script" where
  "DispatchHandler_Preemptable x = respond (DispatchService_PreemptableFor x) reassignError
     (\<lambda>r. common_Success 200 ''units that could be preempted'' r)"

end
