(* ===== verification/Dispatch_Service_Props.thy ===== *)
theory Dispatch_Service_Props
  imports Dispatch_Service
begin

text \<open>
  The properties of the dispatch service: candidates are available units, ranked; rerouting and
  preemption are one reassignment or nothing; preemption strictly escalates, so it cannot cycle;
  and a responder moves only the dispatch of their own unit.
\<close>

section \<open>Candidates\<close>

text \<open>A unit of the answer stands for a row that is available.\<close>

definition free_unit :: "db \<Rightarrow> Unit \<Rightarrow> bool" where
  "free_unit d u \<longleftrightarrow> (\<exists>r. (un_ID u, r) \<in> set (units d) \<and> u_status r = UnitAvailable \<and> un_Type u = u_type r)"

lemma at_position_simps [simp]:
  "un_ID (at_position n u) = un_ID u" "un_Type (at_position n u) = un_Type u"
  "un_DistanceMeters (at_position n u) = nu_DistanceMeters n"
  by (simp_all add: at_position_def)

lemma free_unit_at [simp]: "free_unit d (at_position n u) = free_unit d u"
  by (simp add: free_unit_def)

lemma free_unit_scan:
  "(k, r) \<in> set (units d) \<Longrightarrow> u_status r = UnitAvailable \<Longrightarrow>
     free_unit d (scanUnit (k, r)) \<and> free_unit d ((scanUnit (k, r))\<lparr>un_DistanceMeters := x\<rparr>)"
  unfolding free_unit_def by (intro conjI exI [of _ r]) (auto simp: scanUnit_def)

lemma by_id_Some: "by_id rows x = Some u \<Longrightarrow> u \<in> set rows \<and> un_ID u = x"
  unfolding by_id_def by (drule map_of_SomeD) auto

lemma walk_live_from:
  "v \<in> set (walk_live f limit ns out) \<Longrightarrow> v \<in> set out \<or> (\<exists>n\<in>set ns. \<exists>u. f (nu_UnitID n) = Some u \<and> v = at_position n u)"
  by (induction f limit ns out rule: walk_live.induct) (auto simp: Let_def split: option.splits if_splits)

lemma walk_live_length: "int (length out) < limit \<Longrightarrow> int (length (walk_live f limit ns out)) \<le> limit"
  by (induction f limit ns out rule: walk_live.induct) (auto simp: Let_def split: option.splits)

lemma find_available_Inr:
  assumes "run (UnitRepository_FindAvailableByIDs xs) w = (res, w')"
  shows "base w' = base w \<and> wenv w' = wenv w \<and> (\<forall>rows u. res = Inr rows \<longrightarrow> u \<in> set rows \<longrightarrow> free_unit (base w) u)"
  using assms
  by (auto simp: UnitRepository_FindAvailableByIDs_def run_pool_stmt reading_def free_unit_scan
      split: option.splits sum.splits if_splits)

lemma find_nearest_Inr:
  assumes "run (UnitRepository_FindNearestAvailable lat lng ty limit) w = (res, w')"
  shows "base w' = base w \<and> wenv w' = wenv w
    \<and> (\<forall>us. res = Inr us \<longrightarrow> int (length us) \<le> limit \<and> (\<forall>u\<in>set us. free_unit (base w) u))"
proof -
  let ?q = "\<lambda>d. sort_key (\<lambda>(k, r). knn_distance (wenv w) (u_lat r, u_lng r) (lat, lng))
      (filter (\<lambda>(k, r). u_status r = UnitAvailable \<and> (ty = '''' \<or> u_type r = ty)) (units d))"
  from assms have b: "base w' = base w \<and> wenv w' = wenv w"
    by (auto simp: UnitRepository_FindNearestAvailable_def run_pool_stmt pg_text_def reading_def
        split: option.splits sum.splits if_splits)
  have "int (length us) \<le> limit \<and> (\<forall>u\<in>set us. free_unit (base w) u)" if "res = Inr us" for us
  proof -
    from that assms have us: "us = map (\<lambda>(k, r). (scanUnit (k, r))
        \<lparr>un_DistanceMeters := Fin (st_distance (wenv w) (u_lat r, u_lng r) (lat, lng))\<rparr>) (page (nat limit) 0 (?q (base w)))"
      and "0 \<le> limit"
      by (auto simp: UnitRepository_FindNearestAvailable_def run_pool_stmt pg_text_def reading_def pg_page_def
          split: option.splits sum.splits if_splits)
    with length_page [of "nat limit" 0 "?q (base w)"] set_page [of "nat limit" 0 "?q (base w)"] show ?thesis
      by (auto simp: free_unit_scan)
  qed
  with b show ?thesis by blast
qed

lemma hydrate_run:
  assumes "run (hydrateLive ns limit) w = (h, w')" and "0 < limit"
  shows "base w' = base w \<and> wenv w' = wenv w
    \<and> (\<forall>us. h = Some us \<longrightarrow> int (length us) \<le> limit \<and> (\<forall>u\<in>set us. free_unit (base w) u
         \<and> (\<exists>n\<in>set ns. un_ID u = nu_UnitID n \<and> un_DistanceMeters u = nu_DistanceMeters n)))"
proof -
  obtain r w1 where f: "run (UnitRepository_FindAvailableByIDs (map nu_UnitID ns)) w = (r, w1)"
    by (cases "run (UnitRepository_FindAvailableByIDs (map nu_UnitID ns)) w")
  note a = find_available_Inr [OF f]
  have w: "w' = w1" using assms(1) f by (auto simp: hydrateLive_def run_bind Let_def split: sum.splits if_splits)
  have "int (length us) \<le> limit \<and> (\<forall>u\<in>set us. free_unit (base w) u
      \<and> (\<exists>n\<in>set ns. un_ID u = nu_UnitID n \<and> un_DistanceMeters u = nu_DistanceMeters n))" if h: "h = Some us" for us
  proof -
    from assms(1) f h obtain rows where rows: "r = Inr rows" and us: "us = walk_live (by_id rows) limit ns []"
      by (auto simp: hydrateLive_def run_bind Let_def split: sum.splits if_splits)
    have "free_unit (base w) u \<and> (\<exists>n\<in>set ns. un_ID u = nu_UnitID n \<and> un_DistanceMeters u = nu_DistanceMeters n)"
      if "u \<in> set us" for u
      using walk_live_from [of u "by_id rows" limit ns "[]"] that us a rows by (fastforce dest: by_id_Some)
    with walk_live_length [of "[]" limit] assms(2) us show ?thesis by auto
  qed
  with a w show ?thesis by blast
qed

text \<open>The service's two seams: the repository's contracts, and a locator outside every transaction.\<close>

locale dispatch_service =
  repo: dispatch_deps "ds_dispatches S" for S :: "'m DispatchService" +
  assumes live_seam: "ds_live S = Some L \<Longrightarrow> live_locator L"
begin

lemma candidateUnits_run:
  assumes "run (candidateUnits S inc limit) w = (res, w')" and "0 < limit"
  shows "base w' = base w \<and> wenv w' = wenv w
    \<and> (\<forall>us src. res = Inr (us, src) \<longrightarrow> int (length us) \<le> limit \<and> (\<forall>u\<in>set us. free_unit (base w) u)
         \<and> (ds_live S = None \<longrightarrow> src = PositionSourceRegistry))"
proof -
  have reg: "base w2 = base w1 \<and> wenv w2 = wenv w1
      \<and> (\<forall>us src. r = Inr (us, src) \<longrightarrow> int (length us) \<le> limit \<and> (\<forall>u\<in>set us. free_unit (base w1) u)
           \<and> src = PositionSourceRegistry)"
    if "run (registry_units inc limit) w1 = (r, w2)" for w1 w2 :: "'m world_scheme" and r
    using that find_nearest_Inr by (fastforce simp: registry_units_def run_bindE split: prod.splits sum.splits)
  show ?thesis
  proof (cases "ds_live S")
    case None
    with assms(1) reg [of w] show ?thesis by (simp add: candidateUnits_def)
  next
    case (Some L)
    obtain r1 w1 where n: "run (NearbyLive L (inc_Latitude inc) (inc_Longitude inc) liveSearchRadiusMeters (limit * 3)) w
        = (r1, w1)"
      by (cases "run (NearbyLive L (inc_Latitude inc) (inc_Longitude inc) liveSearchRadiusMeters (limit * 3)) w")
    with live_locator.locator_outside_db [OF live_seam [OF Some]] have f1: "base w1 = base w" "wenv w1 = wenv w"
      unfolding outside_db_def by blast+
    show ?thesis
    proof (cases "\<exists>ns. r1 = Inr ns \<and> ns \<noteq> []")
      case False
      with assms(1) Some n have "run (registry_units inc limit) w1 = (res, w')"
        by (auto simp: candidateUnits_def run_bind split: sum.splits if_splits)
      from reg [OF this] f1 Some show ?thesis by simp
    next
      case True
      then obtain ns where ns: "r1 = Inr ns" "ns \<noteq> []" by blast
      obtain h w2 where h: "run (hydrateLive ns limit) w1 = (h, w2)" by (cases "run (hydrateLive ns limit) w1")
      note a = hydrate_run [OF h assms(2)]
      show ?thesis
      proof (cases h)
        case None
        with assms(1) Some n ns h have "run (registry_units inc limit) w2 = (res, w')"
          by (simp add: candidateUnits_def run_bind)
        from reg [OF this] f1 a Some show ?thesis by simp
      next
        case us: (Some us)
        with assms(1) Some n ns h have "res = Inr (us, PositionSourceLive)" "w' = w2"
          by (simp_all add: candidateUnits_def run_bind)
        with a us f1 Some show ?thesis by auto
      qed
    qed
  qed
qed

lemma Candidates_run:
  assumes "run (DispatchService_Candidates S x ty limit) w = (res, w')"
  shows "base w' = base w \<and> wenv w' = wenv w
    \<and> (\<forall>inc cs src. res = Inr (inc, cs, src) \<longrightarrow> (\<exists>i ir us. uuid_cast (wenv w) x = Some i
         \<and> sel (incidents (base w)) i = Some ir \<and> inc = scanIncident (i, ir)
         \<and> cs = rank_units \<lparr>nd_Severity = i_severity ir, nd_RequiredType = ty\<rparr> us
         \<and> int (length us) \<le> (if limit \<le> 0 \<or> limit > 50 then 5 else limit) \<and> (\<forall>u\<in>set us. free_unit (base w) u)))"
proof -
  obtain r1 w1 where g: "run (IncidentRepository_GetByID x) w = (r1, w1)" by (cases "run (IncidentRepository_GetByID x) w")
  then have f1: "base w1 = base w" "wenv w1 = wenv w"
    and i: "\<forall>inc. r1 = Inr inc \<longrightarrow> (\<exists>i ir. uuid_cast (wenv w) x = Some i \<and> sel (incidents (base w)) i = Some ir
        \<and> inc = scanIncident (i, ir))"
    by (auto simp: IncidentRepository_GetByID_def run_pool_stmt cast_uuid_Inr reading_Inr one_row_def
        split: option.splits sum.splits if_splits)
  show ?thesis
  proof (cases r1)
    case (Inl err)
    with assms g f1 show ?thesis by (auto simp: DispatchService_Candidates_def run_bind split: if_splits)
  next
    case (Inr inc)
    let ?l = "if limit \<le> 0 \<or> limit > 50 then 5 else limit"
    obtain r2 w2 where c: "run (candidateUnits S inc ?l) w1 = (r2, w2)" by (cases "run (candidateUnits S inc ?l) w1")
    have "0 < ?l" by simp
    note a = candidateUnits_run [OF c this]
    from assms g Inr c have "w' = w2" and "map_sum id (\<lambda>(us, src). (inc,
        rank_units \<lparr>nd_Severity = inc_Severity inc, nd_RequiredType = ty\<rparr> us, src)) r2 = res"
      by (auto simp: DispatchService_Candidates_def run_bind run_bindE Let_def split: sum.splits)
    moreover from i Inr obtain k ir where "uuid_cast (wenv w) x = Some k" "sel (incidents (base w)) k = Some ir"
      "inc = scanIncident (k, ir)" by blast
    ultimately show ?thesis using a f1
      by (cases r2) (auto simp: scanIncident_def)
  qed
qed

end

definition server_dispatch_service :: "((presence_json, 'm geo_redis_ext) redis_ext) DispatchService" where
  "server_dispatch_service = \<lparr>ds_dispatches = server_dispatches, ds_live = Some Presence_locator\<rparr>"

lemma server_dispatch_service_simps [simp]:
  "ds_dispatches server_dispatch_service = server_dispatches" "ds_live server_dispatch_service = Some Presence_locator"
  by (simp_all add: server_dispatch_service_def)

interpretation server_ds: dispatch_service server_dispatch_service
  by (intro dispatch_service.intro dispatch_service_axioms.intro)
    (auto simp: server.dispatch_deps_axioms presence.live_locator_axioms)


section \<open>Rerouting and preemption\<close>

text \<open>A \<open>UUID\<close> column holds canonical ids.\<close>

definition uuid_columns :: "env \<Rightarrow> db \<Rightarrow> bool" where
  "uuid_columns e d \<longleftrightarrow> (\<forall>k\<in>keys (units d) \<union> keys (dispatches d). uuid_cast e k = Some k)"

lemma free_unit_canonical: "free_unit d u \<Longrightarrow> uuid_columns e d \<Longrightarrow> uuid_cast e (un_ID u) = Some (un_ID u)"
  by (force simp: free_unit_def uuid_columns_def keys_def)

lemma lost_ack_is [simp]: "\<not> errors_Is lost_ack (E s)"
  by (simp add: lost_ack_def)

context dispatch_service
begin

lemma reroute_loop_run:
  assumes "run (reroute_loop S x old us) w = (res, w')" and "uuid_ok (wenv w)" "canonical (wenv w) (base w)"
    and "uuid_cast (wenv w) (dis_IncidentID old) = Some (dis_IncidentID old)"
    and "\<forall>u\<in>set us. uuid_cast (wenv w) (un_ID u) = Some (un_ID u)"
  shows "wenv w' = wenv w \<and> ((\<exists>err. res = Inl err) \<and> base w' = base w
    \<or> (\<exists>u\<in>set us. \<exists>t dis. un_ID u \<noteq> dis_UnitID old \<and> (res = Inr dis \<or> res = Inl lost_ack)
         \<and> reassigns (wenv w) t (base w) x (dis_IncidentID old) (un_ID u) EventDispatchRerouted dis (base w')))"
  using assms
proof (induction us arbitrary: w)
  case Nil
  then show ?case by auto
next
  case (Cons u us)
  show ?case
  proof (cases "un_ID u = dis_UnitID old")
    case True
    with Cons.prems Cons.IH [of w] show ?thesis by auto
  next
    case False
    let ?m = "DispatchRepository_Reassign (ds_dispatches S) x (dis_IncidentID old) (un_ID u) EventDispatchRerouted"
    obtain r w1 where m: "run ?m w = (r, w1)" by (cases "run ?m w")
    have "uuid_cast (wenv w) (un_ID u) = Some (un_ID u)" using Cons.prems(5) by simp
    note a = repo.Reassign_all_or_nothing [OF m Cons.prems(2,3) this spelled_alike_canonical [OF Cons.prems(4)]]
    show ?thesis
    proof (cases "\<exists>err. r = Inl err \<and> errors_Is err (E Dispatch_ErrUnitNotAvailable)")
      case True
      then obtain err where err: "r = Inl err" "errors_Is err (E Dispatch_ErrUnitNotAvailable)" by blast
      with a have b: "base w1 = base w" "wenv w1 = wenv w" by (auto simp: all_or_nothing_def)
      from Cons.prems(1) False m err have "run (reroute_loop S x old us) w1 = (res, w')" by (simp add: run_bind)
      from Cons.IH [OF this] b Cons.prems(2-) show ?thesis by fastforce
    next
      case other: False
      with Cons.prems(1) False m have "res = r" "w' = w1" by (auto simp: run_bind split: sum.splits if_splits)
      with a False show ?thesis by (auto simp: all_or_nothing_def)
    qed
  qed
qed

lemma preempt_loop_run:
  assumes "run (preempt_loop S x vs) w = (res, w')" and "uuid_ok (wenv w)" "canonical (wenv w) (base w)"
    and "\<forall>v\<in>set vs. uuid_cast (wenv w) (pre_UnitID v) = Some (pre_UnitID v)
      \<and> spelled_alike (wenv w) (base w) (pre_DispatchID v) x"
  shows "wenv w' = wenv w \<and> ((\<exists>err. res = Inl err) \<and> base w' = base w
    \<or> (\<exists>v\<in>set vs. \<exists>t dis. (res = Inr dis \<or> res = Inl lost_ack)
         \<and> reassigns (wenv w) t (base w) (pre_DispatchID v) x (pre_UnitID v) EventDispatchPreempted dis (base w')))"
  using assms
proof (induction vs arbitrary: w)
  case Nil
  then show ?case by auto
next
  case (Cons v vs)
  let ?m = "DispatchRepository_Reassign (ds_dispatches S) (pre_DispatchID v) x (pre_UnitID v) EventDispatchPreempted"
  obtain r w1 where m: "run ?m w = (r, w1)" by (cases "run ?m w")
  have v: "uuid_cast (wenv w) (pre_UnitID v) = Some (pre_UnitID v)" "spelled_alike (wenv w) (base w) (pre_DispatchID v) x"
    using Cons.prems(4) by simp_all
  note a = repo.Reassign_all_or_nothing [OF m Cons.prems(2,3) v]
  show ?case
  proof (cases "\<exists>err. r = Inl err \<and> (errors_Is err (E Dispatch_ErrIllegalDispatchTransition)
      \<or> errors_Is err (E Dispatch_ErrUnitNotAvailable))")
    case True
    then obtain err where err: "r = Inl err" "errors_Is err (E Dispatch_ErrIllegalDispatchTransition)
      \<or> errors_Is err (E Dispatch_ErrUnitNotAvailable)" by blast
    with a have b: "base w1 = base w" "wenv w1 = wenv w" by (auto simp: all_or_nothing_def)
    from Cons.prems(1) m err have "run (preempt_loop S x vs) w1 = (res, w')" by (auto simp: run_bind)
    from Cons.IH [OF this] b Cons.prems(2-) show ?thesis by fastforce
  next
    case other: False
    with Cons.prems(1) m have "res = r" "w' = w1" by (auto simp: run_bind split: sum.splits if_splits)
    with a show ?thesis by (auto simp: all_or_nothing_def)
  qed
qed

end


text \<open>What the two endpoints do with the dispatch, the candidates and the rows they read.\<close>

lemma get_dispatch_run:
  assumes "run (DispatchRepository_GetByID x) w = (res, w')"
  shows "base w' = base w \<and> wenv w' = wenv w \<and> (\<forall>old. res = Inr old \<longrightarrow> (\<exists>k r. uuid_cast (wenv w) x = Some k
    \<and> sel (dispatches (base w)) k = Some r \<and> old = scanDispatch (k, r)))"
  using assms
  by (auto simp: DispatchRepository_GetByID_def run_pool_stmt cast_uuid_Inr reading_Inr one_row_def
      split: option.splits sum.splits if_splits)

lemma rank_units_set: "su_Unit ` set (rank_units need us) = set us"
  by (force simp: rank_units_def split: prod.splits)

context dispatch_service
begin

lemma Reroute_run:
  assumes "run (DispatchService_Reroute S x) w = (res, w')" and e: "uuid_ok (wenv w)" "canonical (wenv w) (base w)"
    and "uuid_columns (wenv w) (base w)"
  shows "wenv w' = wenv w \<and> ((\<exists>err. res = Inl err) \<and> base w' = base w
    \<or> (\<exists>k r y t dis. uuid_cast (wenv w) x = Some k \<and> sel (dispatches (base w)) k = Some r \<and> y \<noteq> d_unit_id r
         \<and> (res = Inr dis \<or> res = Inl lost_ack)
         \<and> reassigns (wenv w) t (base w) x (d_incident_id r) y EventDispatchRerouted dis (base w')))"
proof -
  obtain r1 w1 where g: "run (DispatchRepository_GetByID x) w = (r1, w1)" by (cases "run (DispatchRepository_GetByID x) w")
  note f1 = get_dispatch_run [OF g]
  show ?thesis
  proof (cases "\<exists>old. r1 = Inr old \<and> IsActiveDispatch (dis_Status old)")
    case False
    with assms(1) g f1 show ?thesis by (auto simp: DispatchService_Reroute_def run_bind split: sum.splits if_splits)
  next
    case True
    then obtain old where old: "r1 = Inr old" "IsActiveDispatch (dis_Status old)" by blast
    with f1 obtain k r where k: "uuid_cast (wenv w) x = Some k" "sel (dispatches (base w)) k = Some r"
      "old = scanDispatch (k, r)" by blast
    let ?c = "DispatchService_Candidates S (dis_IncidentID old) '''' reassignCandidateLimit"
    obtain r2 w2 where c: "run ?c w1 = (r2, w2)" by (cases "run ?c w1")
    note f2 = Candidates_run [OF c]
    show ?thesis
    proof (cases r2)
      case (Inl err)
      with assms(1) g old c f1 f2 show ?thesis by (auto simp: DispatchService_Reroute_def run_bind run_bindE)
    next
      case (Inr ics)
      then obtain inc cs src where ics: "r2 = Inr (inc, cs, src)" by (cases ics) auto
      with assms(1) g old c have l: "run (reroute_loop S x old (map su_Unit cs)) w2 = (res, w')"
        by (simp add: DispatchService_Reroute_def run_bind run_bindE)
      from f2 ics obtain us need where us: "cs = rank_units need us" "\<forall>u\<in>set us. free_unit (base w) u"
        using f1 by auto
      have b: "base w2 = base w" "wenv w2 = wenv w" using f1 f2 by simp_all
      have "uuid_cast (wenv w2) (un_ID u) = Some (un_ID u)" if "u \<in> set (map su_Unit cs)" for u
        using that us rank_units_set [of need us] b assms(4) by (auto dest: free_unit_canonical)
      moreover have "uuid_cast (wenv w2) (dis_IncidentID old) = Some (dis_IncidentID old)"
        using e(2) k b by (auto simp: canonical_def)
      ultimately show ?thesis using reroute_loop_run [OF l] e k b by fastforce
    qed
  qed
qed

lemma Preempt_run:
  assumes "run (DispatchService_Preempt S x) w = (res, w')" and e: "uuid_ok (wenv w)" "canonical (wenv w) (base w)"
    and cols: "uuid_columns (wenv w) (base w)" and p: "pkey (dispatches (base w))"
  shows "wenv w' = wenv w \<and> ((\<exists>err. res = Inl err) \<and> base w' = base w
    \<or> (\<exists>i ir k r jr t dis. uuid_cast (wenv w) x = Some i \<and> sel (incidents (base w)) i = Some ir
         \<and> sel (dispatches (base w)) k = Some r \<and> active_status (d_status r)
         \<and> sel (incidents (base w)) (d_incident_id r) = Some jr
         \<and> severity_rank (i_severity jr) < severity_rank (i_severity ir)
         \<and> (res = Inr dis \<or> res = Inl lost_ack)
         \<and> reassigns (wenv w) t (base w) k x (d_unit_id r) EventDispatchPreempted dis (base w')))"
proof -
  obtain r1 w1 where g: "run (find_incident x) w = (r1, w1)" by (cases "run (find_incident x) w")
  then have f1: "base w1 = base w" "wenv w1 = wenv w"
    and i: "\<forall>inc. r1 = Inr inc \<longrightarrow> (\<exists>i ir. uuid_cast (wenv w) x = Some i \<and> sel (incidents (base w)) i = Some ir
        \<and> inc = scanIncident (i, ir))"
    by (auto simp: find_incident_def run_bind IncidentRepository_GetByID_def run_pool_stmt cast_uuid_Inr reading_Inr
        one_row_def split: option.splits sum.splits if_splits prod.splits)
  show ?thesis
  proof (cases "\<exists>inc. r1 = Inr inc \<and> \<not> (inc_Status inc = StatusResolved \<or> inc_Status inc = StatusCancelled)")
    case False
    with assms(1) g f1 show ?thesis by (auto simp: DispatchService_Preempt_def run_bindE split: sum.splits if_splits)
  next
    case True
    then obtain inc where inc: "r1 = Inr inc" "\<not> (inc_Status inc = StatusResolved \<or> inc_Status inc = StatusCancelled)"
      by blast
    with i obtain ik ir where ik: "uuid_cast (wenv w) x = Some ik" "sel (incidents (base w)) ik = Some ir"
      "inc = scanIncident (ik, ir)" by blast
    let ?q = "DispatchRepository_FindPreemptable (inc_Severity inc) (inc_Latitude inc) (inc_Longitude inc) reassignCandidateLimit"
    obtain r2 w2 where q: "run ?q w1 = (r2, w2)" by (cases "run ?q w1")
    then have f2: "base w2 = base w" "wenv w2 = wenv w" using f1
      by (auto simp: DispatchRepository_FindPreemptable_def run_pool_stmt pg_text_def reading_def
          split: option.splits sum.splits if_splits)
    show ?thesis
    proof (cases r2)
      case (Inl err)
      with assms(1) g inc q f2 show ?thesis by (auto simp: DispatchService_Preempt_def run_bindE)
    next
      case (Inr vs)
      with assms(1) g inc q have l: "run (preempt_loop S x vs) w2 = (res, w')"
        by (simp add: DispatchService_Preempt_def run_bindE)
      have row: "\<exists>k r. pre_DispatchID v = k \<and> sel (dispatches (base w)) k = Some r \<and> active_status (d_status r)
          \<and> pre_UnitID v = d_unit_id r \<and> (\<exists>jr. sel (incidents (base w)) (d_incident_id r) = Some jr
          \<and> severity_rank (i_severity jr) < severity_rank (i_severity ir))" if v: "v \<in> set vs" for v
      proof -
        from q Inr have "vs = map snd (page 5 0 (sort_key fst (preemptable_rows (wenv w) (base w) (inc_Severity inc)
            (inc_Latitude inc) (inc_Longitude inc))))"
          using f1 by (auto simp: DispatchRepository_FindPreemptable_def run_pool_stmt pg_text_def reading_def pg_page_def
              reassignCandidateLimit_def split: option.splits sum.splits if_splits)
        with v set_page obtain dd where "(dd, v) \<in> set (preemptable_rows (wenv w) (base w) (inc_Severity inc)
            (inc_Latitude inc) (inc_Longitude inc))" by fastforce
        then show ?thesis using ik(3) p
          by (auto simp: preemptable_rows_def List.map_filter_def scanIncident_def in_iff_sel Let_def
              split: option.splits if_splits)
      qed
      have "uuid_cast (wenv w2) (pre_UnitID v) = Some (pre_UnitID v) \<and> spelled_alike (wenv w2) (base w2) (pre_DispatchID v) x"
        if "v \<in> set vs" for v
      proof -
        from row [OF that] obtain k r jr where v: "pre_DispatchID v = k" "pre_UnitID v = d_unit_id r"
          "sel (dispatches (base w)) k = Some r" "sel (incidents (base w)) (d_incident_id r) = Some jr"
          "severity_rank (i_severity jr) < severity_rank (i_severity ir)" by blast
        have "uuid_cast (wenv w) k = Some k" using cols v(3) sel_Some_keys by (force simp: uuid_columns_def)
        moreover have "d_incident_id r \<noteq> ik" using v(4,5) ik(2) by auto
        ultimately show ?thesis using v e(2) f2 ik(1) by (auto simp: spelled_alike_def canonical_def)
      qed
      with preempt_loop_run [OF l] e f2 have "wenv w' = wenv w \<and> ((\<exists>err. res = Inl err) \<and> base w' = base w
        \<or> (\<exists>v\<in>set vs. \<exists>t dis. (res = Inr dis \<or> res = Inl lost_ack)
            \<and> reassigns (wenv w) t (base w) (pre_DispatchID v) x (pre_UnitID v) EventDispatchPreempted dis (base w')))"
        by simp
      moreover have "\<exists>i ir k r jr t dis. uuid_cast (wenv w) x = Some i \<and> sel (incidents (base w)) i = Some ir
         \<and> sel (dispatches (base w)) k = Some r \<and> active_status (d_status r)
         \<and> sel (incidents (base w)) (d_incident_id r) = Some jr
         \<and> severity_rank (i_severity jr) < severity_rank (i_severity ir)
         \<and> (res = Inr dis \<or> res = Inl lost_ack)
         \<and> reassigns (wenv w) t (base w) k x (d_unit_id r) EventDispatchPreempted dis (base w')"
        if "v \<in> set vs" "res = Inr dis \<or> res = Inl lost_ack"
          "reassigns (wenv w) t (base w) (pre_DispatchID v) x (pre_UnitID v) EventDispatchPreempted dis (base w')" for v t dis
      proof -
        from row [OF that(1)] obtain k r jr where v: "pre_DispatchID v = k" "pre_UnitID v = d_unit_id r"
          "sel (dispatches (base w)) k = Some r" "active_status (d_status r)"
          "sel (incidents (base w)) (d_incident_id r) = Some jr"
          "severity_rank (i_severity jr) < severity_rank (i_severity ir)" by blast
        with that(2,3) ik show ?thesis by metis
      qed
      ultimately show ?thesis by blast
    qed
  qed
qed

end

section \<open>What reassigning does to the dispatches\<close>

lemma reassigned_dispatches:
  "dispatches (reassigned k r nk i u ev ek t d)
     = ins nk (new_dispatch i u t) (upd k (set_dispatch DispatchCancelled t) (dispatches d))"
  by (simp add: reassigned_def Let_def put_defs)

lemma keys_units_reassigned: "keys (units (reassigned k r nk i u ev ek t d)) = keys (units d)"
  by (simp add: reassigned_def Let_def put_defs)

lemma severity_put:
  "map_option i_severity (sel (incidents (put_incident from i st t d)) j) = map_option i_severity (sel (incidents d) j)"
  by (simp add: put_incident_def sel_upd option.map_comp) (rule impI, rule option.map_cong, simp_all)

lemma severity_reassigned:
  "map_option i_severity (sel (incidents (reassigned k r nk i u ev ek t d)) j)
     = map_option i_severity (sel (incidents d) j)"
proof -
  have 1: "incidents (add_event ek' ev' d') = incidents d'" "incidents (add_dispatch nk i u t d') = incidents d'"
    "incidents (put_unit u' st t d') = incidents d'" "incidents (put_dispatch k' st t d') = incidents d'"
    for ek' ev' d' u' st k' by (simp_all add: put_defs)
  show ?thesis by (simp add: reassigned_def Let_def 1 severity_put)
qed

lemma reassigns_columns:
  "reassigns e t d x inc y ev dis d' \<Longrightarrow> uuid_columns e d \<Longrightarrow> uuid_columns e d'"
  by (auto simp: reassigns_def uuid_columns_def keys_units_reassigned reassigned_dispatches)

section \<open>The potential of the active dispatches\<close>

text \<open>How urgent the work is that the active dispatches do, in total.\<close>

definition urgency :: "db \<Rightarrow> dispatch_row \<Rightarrow> int" where
  "urgency d r = (case sel (incidents d) (d_incident_id r) of
     Some ir \<Rightarrow> int (severity_rank (i_severity ir)) | None \<Rightarrow> 1)"

definition is_active :: "dispatch_row \<Rightarrow> bool" where
  "is_active r \<longleftrightarrow> active_status (d_status r)"

definition total_urgency :: "db \<Rightarrow> int" where
  "total_urgency d = sum_rows is_active (urgency d) (dispatches d)"

lemma urgency_range: "1 \<le> urgency d r \<and> urgency d r \<le> 4"
  by (auto simp: urgency_def severity_rank_def split: option.split)

lemma urgency_reassigned: "urgency (reassigned k r nk i u ev ek t d) = urgency d"
proof
  fix r' show "urgency (reassigned k r nk i u ev ek t d) r' = urgency d r'"
    using severity_reassigned [of k r nk i u ev ek t d "d_incident_id r'"]
    by (auto simp: urgency_def split: option.splits)
qed

text \<open>A hand-over to a strictly more severe incident keeps the number of active dispatches and
  raises their total urgency.\<close>

lemma handover_escalates:
  assumes "pkey (dispatches d)" and "sel (dispatches d) k = Some r" "active_status (d_status r)"
    and "sel (incidents d) (d_incident_id r) = Some jr" "sel (incidents d) i = Some ir"
    and "severity_rank (i_severity jr) < severity_rank (i_severity ir)"
  shows "count_rows is_active (dispatches (reassigned k r nk i u ev ek t d)) = count_rows is_active (dispatches d)
    \<and> total_urgency d < total_urgency (reassigned k r nk i u ev ek t d)"
proof
  show "count_rows is_active (dispatches (reassigned k r nk i u ev ek t d)) = count_rows is_active (dispatches d)"
    using count_rows_upd [OF assms(1,2), of is_active "set_dispatch DispatchCancelled t"] assms(3)
    by (simp add: reassigned_dispatches is_active_def)
  show "total_urgency d < total_urgency (reassigned k r nk i u ev ek t d)"
    using sum_rows_upd [OF assms(1,2), of is_active "urgency d" "set_dispatch DispatchCancelled t"] assms(3-)
    by (simp add: total_urgency_def urgency_reassigned reassigned_dispatches is_active_def urgency_def)
qed

text \<open>A preemption that answered with a dispatch.\<close>

inductive preempt_step ::
    "(presence_json, 'm geo_redis_ext) redis_ext world_scheme \<Rightarrow> (presence_json, 'm geo_redis_ext) redis_ext world_scheme \<Rightarrow> bool"
where
  preempted: "run (DispatchService_Preempt server_dispatch_service x) w = (Inr dis, w') \<Longrightarrow> preempt_step w w'"

inductive_cases preempt_stepE: "preempt_step w w'"

definition preempt_ready :: "'m world_scheme \<Rightarrow> bool" where
  "preempt_ready w \<longleftrightarrow> uuid_ok (wenv w) \<and> dispatch_inv (wenv w) (base w) \<and> uuid_columns (wenv w) (base w)"

lemma preempt_step_escalates:
  assumes "preempt_step w w'" and "preempt_ready w"
  shows "preempt_ready w' \<and> count_rows is_active (dispatches (base w')) = count_rows is_active (dispatches (base w))
    \<and> total_urgency (base w) < total_urgency (base w')"
proof -
  from assms(1) obtain x dis where r: "run (DispatchService_Preempt server_dispatch_service x) w = (Inr dis, w')"
    by (elim preempt_stepE)
  have p: "uuid_ok (wenv w)" "canonical (wenv w) (base w)" "uuid_columns (wenv w) (base w)" "pkey (dispatches (base w))"
    "dispatch_inv (wenv w) (base w)"
    using assms(2) by (auto simp: preempt_ready_def dispatch_inv_def)
  from server_ds.Preempt_run [OF r p(1-4)] obtain i ir k q jr t where w: "wenv w' = wenv w" and
    i: "uuid_cast (wenv w) x = Some i" "sel (incidents (base w)) i = Some ir" and
    k: "sel (dispatches (base w)) k = Some q" "active_status (d_status q)"
      "sel (incidents (base w)) (d_incident_id q) = Some jr" "severity_rank (i_severity jr) < severity_rank (i_severity ir)" and
    re: "reassigns (wenv w) t (base w) k x (d_unit_id q) EventDispatchPreempted dis (base w')"
    by auto
  have "uuid_cast (wenv w) k = Some k" using p(3) sel_Some_keys [OF k(1)] by (simp add: uuid_columns_def)
  with re i k(1) obtain nk ek where "base w' = reassigned k q nk i (d_unit_id q) EventDispatchPreempted ek t (base w)"
    by (auto simp: reassigns_def)
  with handover_escalates [OF p(4) k(1-3) i(2) k(4)] w p inv_reassigns [OF re p(5,1)] reassigns_columns [OF re p(3)]
  show ?thesis by (simp add: preempt_ready_def)
qed

section \<open>The ranking of candidates\<close>

lemma rank_units_scores:
  "c \<in> set (rank_units need us) \<Longrightarrow> (su_Score c, su_Breakdown c) = ScoreUnit (su_Unit c) need"
  by (auto simp: rank_units_def split: prod.splits)

lemma length_sort_SliceStable [simp]: "length (sort_SliceStable lt xs) = length xs"
proof -
  have "length (place_before lt x ys) = Suc (length ys)" for x ys by (induction ys) auto
  then show ?thesis by (induction xs) auto
qed

lemma rank_units_length: "length (rank_units need us) = length us"
  by (simp add: rank_units_def)

lemma rank_units_sorted:
  assumes "\<And>u. u \<in> set us \<Longrightarrow> f_le (Fin 0) (un_DistanceMeters u)"
  shows "sorted_wrt (\<lambda>a b. f_le (su_Score b) (su_Score a)) (rank_units need us)"
proof -
  let ?f = "\<lambda>u. case ScoreUnit u need of (sc, bd) \<Rightarrow> \<lparr>su_Unit = u, su_Score = sc, su_Breakdown = bd\<rparr>"
  have "finite64 (su_Score c)" if c: "c \<in> set (map ?f us)" for c
  proof -
    from c obtain u where u: "u \<in> set us" "c = ?f u" by auto
    from score_unit_unit [OF assms [OF u(1)], of need] obtain s where "fst (ScoreUnit u need) = Fin s" by metis
    with u(2) show ?thesis by (simp add: finite64_def split: prod.splits)
  qed
  from sort_SliceStable_ranked [where score = su_Score, OF this] show ?thesis unfolding rank_units_def by blast
qed

section \<open>Properties\<close>

text \<open>C16: what a candidate search answers. Whatever the live lookup did (it may be down, empty or
  stale, and the search then falls back to the registered positions), every candidate is a unit
  whose row is available, scored for the incident's severity and the type asked for, at most as
  many as asked for (five, when asked for none or for more than fifty), best first where the
  distances are sane, and the database is not touched.\<close>

theorem candidates_available:
  assumes "run (DispatchService_Candidates server_dispatch_service x ty limit) w = (Inr (inc, cs, src), w')"
  shows "base w' = base w \<and> int (length cs) \<le> (if limit \<le> 0 \<or> limit > 50 then 5 else limit)
    \<and> (\<exists>i ir. uuid_cast (wenv w) x = Some i \<and> sel (incidents (base w)) i = Some ir \<and> inc = scanIncident (i, ir))
    \<and> (\<forall>c\<in>set cs. free_unit (base w) (su_Unit c)
         \<and> (su_Score c, su_Breakdown c) = ScoreUnit (su_Unit c) \<lparr>nd_Severity = inc_Severity inc, nd_RequiredType = ty\<rparr>)
    \<and> ((\<forall>c\<in>set cs. f_le (Fin 0) (un_DistanceMeters (su_Unit c)))
         \<longrightarrow> sorted_wrt (\<lambda>a b. f_le (su_Score b) (su_Score a)) cs)"
proof -
  from server_ds.Candidates_run [OF assms] obtain i ir us where w: "base w' = base w"
    and i: "uuid_cast (wenv w) x = Some i" "sel (incidents (base w)) i = Some ir" "inc = scanIncident (i, ir)"
    and cs: "cs = rank_units \<lparr>nd_Severity = i_severity ir, nd_RequiredType = ty\<rparr> us"
    and us: "int (length us) \<le> (if limit \<le> 0 \<or> limit > 50 then 5 else limit)" "\<forall>u\<in>set us. free_unit (base w) u"
    by auto
  let ?need = "\<lparr>nd_Severity = i_severity ir, nd_RequiredType = ty\<rparr>"
  note s = rank_units_scores [of _ ?need us] rank_units_set [of ?need us] rank_units_length [of ?need us] rank_units_sorted [of us ?need]
  have "free_unit (base w) (su_Unit c) \<and> (su_Score c, su_Breakdown c) = ScoreUnit (su_Unit c) ?need" if "c \<in> set cs" for c
    using that us(2) s(1,2) unfolding cs by (metis imageI)
  moreover have "sorted_wrt (\<lambda>a b. f_le (su_Score b) (su_Score a)) cs"
    if d: "\<forall>c\<in>set cs. f_le (Fin 0) (un_DistanceMeters (su_Unit c))"
  proof -
    have "f_le (Fin 0) (un_DistanceMeters u)" if "u \<in> set us" for u
      using d that s(2) unfolding cs by (metis imageE)
    with s(4) show ?thesis unfolding cs by blast
  qed
  ultimately show ?thesis using w i us(1) s(3) cs by (simp add: scanIncident_def)
qed

text \<open>C15: rerouting is one reassignment or nothing. It either fails and leaves the database as it
  was, or moves the one active dispatch it was asked about to another unit, which was available,
  for the same incident; only the news of it can be lost.\<close>

theorem reroute_spec:
  assumes "run (DispatchService_Reroute server_dispatch_service x) w = (res, w')"
    and "uuid_ok (wenv w)" "dispatch_inv (wenv w) (base w)" "uuid_columns (wenv w) (base w)"
  shows "(\<exists>err. res = Inl err) \<and> base w' = base w
    \<or> (\<exists>k r nk y yr ek t. uuid_cast (wenv w) x = Some k \<and> sel (dispatches (base w)) k = Some r
        \<and> active_status (d_status r) \<and> y \<noteq> d_unit_id r
        \<and> sel (units (base w)) y = Some yr \<and> u_status yr = UnitAvailable \<and> sel (dispatches (base w)) nk = None
        \<and> (res = Inr (scanDispatch (nk, new_dispatch (d_incident_id r) y t)) \<or> res = Inl lost_ack)
        \<and> base w' = reassigned k r nk (d_incident_id r) y EventDispatchRerouted ek t (base w))"
proof -
  have c: "canonical (wenv w) (base w)" using assms(3) by (rule inv_canonical)
  show ?thesis
  proof (cases "(\<exists>err. res = Inl err) \<and> base w' = base w")
    case False
    with server_ds.Reroute_run [OF assms(1,2) c assms(4)] obtain k r y t dis where
      k: "uuid_cast (wenv w) x = Some k" "sel (dispatches (base w)) k = Some r" "y \<noteq> d_unit_id r"
      and res: "res = Inr dis \<or> res = Inl lost_ack"
      and re: "reassigns (wenv w) t (base w) x (d_incident_id r) y EventDispatchRerouted dis (base w')" by blast
    have "uuid_cast (wenv w) (d_incident_id r) = Some (d_incident_id r)" using c k by (simp add: canonical_def)
    with re k obtain nk yr ek where "active_status (d_status r)" "sel (units (base w)) y = Some yr"
      "u_status yr = UnitAvailable" "sel (dispatches (base w)) nk = None"
      "dis = scanDispatch (nk, new_dispatch (d_incident_id r) y t)"
      "base w' = reassigned k r nk (d_incident_id r) y EventDispatchRerouted ek t (base w)"
      unfolding reassigns_def IsActive_active by auto
    with k res show ?thesis by metis
  qed blast
qed

text \<open>C10: whom a preemption takes a unit from. It either fails and leaves the database as it was, or
  ends one active dispatch of an incident that is strictly less severe than the one asked for and
  gives that dispatch's unit to it; the units table is not touched.\<close>

theorem preempt_spec:
  assumes "run (DispatchService_Preempt server_dispatch_service x) w = (res, w')"
    and "uuid_ok (wenv w)" "dispatch_inv (wenv w) (base w)" "uuid_columns (wenv w) (base w)"
  shows "(\<exists>err. res = Inl err) \<and> base w' = base w
    \<or> (\<exists>i ir k r jr nk ek t. uuid_cast (wenv w) x = Some i \<and> sel (incidents (base w)) i = Some ir
        \<and> sel (dispatches (base w)) k = Some r \<and> active_status (d_status r)
        \<and> sel (incidents (base w)) (d_incident_id r) = Some jr
        \<and> severity_rank (i_severity jr) < severity_rank (i_severity ir) \<and> \<not> not_dispatchable (i_status ir)
        \<and> (res = Inr (scanDispatch (nk, new_dispatch i (d_unit_id r) t)) \<or> res = Inl lost_ack)
        \<and> base w' = reassigned k r nk i (d_unit_id r) EventDispatchPreempted ek t (base w)
        \<and> units (base w') = units (base w))"
proof -
  have c: "canonical (wenv w) (base w)" "pkey (dispatches (base w))" using assms(3) by (simp_all add: dispatch_inv_def)
  show ?thesis
  proof (cases "(\<exists>err. res = Inl err) \<and> base w' = base w")
    case False
    with server_ds.Preempt_run [OF assms(1,2) c(1) assms(4) c(2)] obtain i ir k r jr t dis where
      f: "uuid_cast (wenv w) x = Some i" "sel (incidents (base w)) i = Some ir"
      "sel (dispatches (base w)) k = Some r" "active_status (d_status r)"
      "sel (incidents (base w)) (d_incident_id r) = Some jr" "severity_rank (i_severity jr) < severity_rank (i_severity ir)"
      and res: "res = Inr dis \<or> res = Inl lost_ack"
      and re: "reassigns (wenv w) t (base w) k x (d_unit_id r) EventDispatchPreempted dis (base w')" by blast
    have "uuid_cast (wenv w) k = Some k" using assms(4) sel_Some_keys [OF f(3)] by (simp add: uuid_columns_def)
    with re f obtain nk ek where n: "dis = scanDispatch (nk, new_dispatch i (d_unit_id r) t)" "\<not> not_dispatchable (i_status ir)"
      "base w' = reassigned k r nk i (d_unit_id r) EventDispatchPreempted ek t (base w)"
      by (auto simp: reassigns_def)
    then have "units (base w') = units (base w)" by (simp add: reassigned_def Let_def put_defs)
    with n f res show ?thesis by metis
  qed blast
qed

text \<open>C9: preemption cannot cycle. Each one moves a unit to strictly more severe work, so a run of
  preemptions ends: there are at most three for each active dispatch.\<close>

theorem preemption_terminates:
  assumes "(preempt_step ^^ n) w w'" and "preempt_ready w"
  shows "n \<le> 3 * count_rows is_active (dispatches (base w))"
proof -
  have "preempt_ready w' \<and> count_rows is_active (dispatches (base w')) = count_rows is_active (dispatches (base w))
    \<and> total_urgency (base w) + int n \<le> total_urgency (base w')"
    using assms
  proof (induction n arbitrary: w')
    case (Suc n)
    from Suc.prems(1) obtain w1 where "(preempt_step ^^ n) w w1" "preempt_step w1 w'" by auto
    with Suc.IH [of w1] Suc.prems(2) preempt_step_escalates [of w1 w'] show ?case by force
  qed simp
  with sum_rows_between [of 1 "urgency (base w)" 4 is_active "dispatches (base w)"]
    sum_rows_between [of 1 "urgency (base w')" 4 is_active "dispatches (base w')"] urgency_range
  show ?thesis unfolding total_urgency_def by fastforce
qed

text \<open>C17: a status change through the API by anyone but an operator or administrator moves only the
  dispatch of the unit the caller is bound to, and only when the caller is a responder.\<close>

theorem responder_moves_own_unit:
  assumes "run (DispatchHandler_AdvanceStatus server_dispatch_service actor x body) w = (res, w')"
    and "\<not> Actor_Is actor [RoleOperator, RoleAdmin]" and "uuid_ok (wenv w)" "canonical (wenv w) (base w)"
    and "base w' \<noteq> base w"
  shows "act_Role actor = RoleResponder \<and> (\<exists>status t k r dis. body = Inr status \<and> uuid_cast (wenv w) x = Some k
    \<and> sel (dispatches (base w)) k = Some r \<and> d_unit_id r = act_UnitID actor
    \<and> advances (wenv w) t (base w) x status dis (base w'))"
proof -
  obtain status where body: "body = Inr status"
    using assms(1,5) by (cases body) (auto simp: DispatchHandler_AdvanceStatus_def)
  obtain r1 w1 where g: "run (DispatchRepository_GetByID x) w = (r1, w1)" by (cases "run (DispatchRepository_GetByID x) w")
  note f = get_dispatch_run [OF g]
  show ?thesis
  proof (cases r1)
    case (Inl err)
    with assms(1,5) body g f show ?thesis
      by (auto simp: DispatchHandler_AdvanceStatus_def DispatchService_GetDispatch_def run_bind split: if_splits)
  next
    case (Inr old)
    with f obtain k r where k: "uuid_cast (wenv w) x = Some k" "sel (dispatches (base w)) k = Some r" "old = scanDispatch (k, r)"
      by blast
    obtain r2 w2 where a: "run (DispatchRepository_AdvanceStatus server_dispatches x status) w1 = (r2, w2)"
      by (cases "run (DispatchRepository_AdvanceStatus server_dispatches x status) w1")
    from assms(1,5) body g f Inr k(3) have own: "Actor_OwnsUnit actor (d_unit_id r)"
      by (auto simp: DispatchHandler_AdvanceStatus_def DispatchService_GetDispatch_def run_bind split: if_splits)
    from assms(1,5) body g f Inr a have w2: "base w' = base w2"
      by (auto simp: DispatchHandler_AdvanceStatus_def DispatchService_GetDispatch_def DispatchService_AdvanceStatus_def
          run_bind run_respond split: if_splits sum.splits)
    from server.Advance_all_or_nothing [OF a] f assms(3-5) w2 obtain t dis where
      "advances (wenv w) t (base w) x status dis (base w')" by (auto simp: all_or_nothing_def)
    with own k body assms(2) show ?thesis by (auto simp: Actor_OwnsUnit_def)
  qed
qed


section \<open>Witnesses\<close>

text \<open>The minor incident holds the one unit; the critical one is waiting. Nobody reports live.\<close>

definition ds_start :: "db \<Rightarrow> geo_redis" where
  "ds_start d = geo_start\<lparr>base := d, view := d, pc := 10, zset := []\<rparr>"

lemma ds_start_simps [simp]: "base (ds_start d) = d" "wenv (ds_start d) = sample_env"
  by (simp_all add: ds_start_def geo_start_def)

definition busy_db :: db where
  "busy_db = base (snd after_reserve)"

lemma busy_facts: "keys (units busy_db) = {''u1'', ''u2''}" "keys (dispatches busy_db) = {sample_dispatch_id}"
  "count_rows is_active (dispatches busy_db) = 1"
  "sel (dispatches busy_db) sample_dispatch_id = Some (new_dispatch ''i1'' ''u1'' 0)"
  by code_simp+

lemma busy_ready: "preempt_ready (ds_start busy_db)"
proof -
  have "uuid_cast sample_env sample_dispatch_id = Some sample_dispatch_id" by code_simp
  moreover have "uuid_cast sample_env ''u1'' = Some ''u1''" "uuid_cast sample_env ''u2'' = Some ''u2''" by code_simp+
  ultimately have "uuid_columns sample_env busy_db"
    by (simp add: uuid_columns_def busy_facts del: sample_env_simps)
  with after_reserve_inv show ?thesis by (simp add: preempt_ready_def busy_db_def)
qed

lemma busy_inv: "uuid_ok (wenv (ds_start busy_db))" "dispatch_inv (wenv (ds_start busy_db)) (base (ds_start busy_db))"
  "uuid_columns (wenv (ds_start busy_db)) (base (ds_start busy_db))" "canonical (wenv (ds_start busy_db)) (base (ds_start busy_db))"
  using busy_ready by (simp_all add: preempt_ready_def inv_canonical)

definition after_rescue :: "(go_error + Dispatch) \<times> geo_redis" where
  "after_rescue = run (DispatchService_Preempt server_dispatch_service ''i2'') (ds_start busy_db)"

lemma after_rescue_answer: "map_sum (\<lambda>e. ()) dis_UnitID (fst after_rescue) = Inr ''u1''"
  by code_simp


lemma preempt_run: "\<exists>dis. run (DispatchService_Preempt server_dispatch_service ''i2'') (ds_start busy_db)
    = (Inr dis, snd after_rescue)"
  using after_rescue_answer by (cases "fst after_rescue") (auto simp: after_rescue_def prod_eq_iff)

lemma preempt_spec_witness:
  "units (base (snd after_rescue)) = units busy_db
   \<and> (\<exists>k r. sel (dispatches busy_db) k = Some r \<and> active_status (d_status r))"
proof -
  from preempt_run obtain dis where r: "run (DispatchService_Preempt server_dispatch_service ''i2'') (ds_start busy_db)
    = (Inr dis, snd after_rescue)" by blast
  from preempt_spec [OF r busy_inv(1-3)] show ?thesis by auto
qed

lemma preemption_terminates_witness:
  "preempt_step (ds_start busy_db) (snd after_rescue) \<and> (1::nat) \<le> 3 * count_rows is_active (dispatches busy_db)"
proof -
  from preempt_run have s: "preempt_step (ds_start busy_db) (snd after_rescue)" by (blast intro: preempted)
  then have "(preempt_step ^^ 1) (ds_start busy_db) (snd after_rescue)"
    by (simp del: relpowp.simps One_nat_def)
  from preemption_terminates [OF this busy_ready] s show ?thesis by simp
qed

text \<open>The first unit's crew reports that it is on its way; the other crew may not.\<close>

definition crew :: "string \<Rightarrow> Actor" where
  "crew u = \<lparr>act_UserID = ''r1'', act_Username = ''r1'', act_Role = RoleResponder, act_UnitID = u, act_ShelterID = ''''\<rparr>"

definition after_report :: "Dispatch response \<times> geo_redis" where
  "after_report = run (DispatchHandler_AdvanceStatus server_dispatch_service (crew ''u1'') sample_dispatch_id
     (Inr DispatchEnRoute)) (ds_start busy_db)"

lemma after_report_moves: "map_option d_status (sel (dispatches (base (snd after_report))) sample_dispatch_id)
    = Some DispatchEnRoute"
  by code_simp

lemma responder_moves_own_unit_witness:
  "\<exists>dis t. advances sample_env t busy_db sample_dispatch_id DispatchEnRoute dis (base (snd after_report))"
proof -
  have "run (DispatchHandler_AdvanceStatus server_dispatch_service (crew ''u1'') sample_dispatch_id (Inr DispatchEnRoute))
      (ds_start busy_db) = (fst after_report, snd after_report)" by (simp add: after_report_def)
  moreover have "\<not> Actor_Is (crew ''u1'') [RoleOperator, RoleAdmin]" by (simp add: crew_def)
  moreover have "base (snd after_report) \<noteq> base (ds_start busy_db)"
    using after_report_moves busy_facts(4) by (auto simp: new_dispatch_def)
  ultimately show ?thesis using responder_moves_own_unit [of "crew ''u1''"] busy_inv(1,4) by (fastforce simp del: sample_env_simps)
qed

text \<open>Asked for an alternative, the search falls back to the registry and finds the other unit.\<close>

definition after_lookup :: "(go_error + Dispatch) \<times> geo_redis" where
  "after_lookup = run (DispatchRepository_GetByID sample_dispatch_id) (ds_start busy_db)"

definition reroute_incident :: "(go_error + Incident) \<times> geo_redis" where
  "reroute_incident = run (IncidentRepository_GetByID ''i1'') (snd after_lookup)"

definition reroute_units :: "(go_error + Unit list \<times> PositionSource) \<times> geo_redis" where
  "reroute_units = run (candidateUnits server_dispatch_service (projr (fst reroute_incident)) 5) (snd reroute_incident)"

lemma reroute_facts: "fst after_lookup = Inr (scanDispatch (sample_dispatch_id, new_dispatch ''i1'' ''u1'' 0))"
  "map_sum (\<lambda>e. ()) inc_ID (fst reroute_incident) = Inr ''i1''"
  "map_sum (\<lambda>e. ()) (map un_ID \<circ> fst) (fst reroute_units) = Inr [''u2'']"
  by code_simp+

lemma reroute_runs:
  "\<exists>inc u. run (IncidentRepository_GetByID ''i1'') (snd after_lookup) = (Inr inc, snd reroute_incident)
     \<and> run (candidateUnits server_dispatch_service inc 5) (snd reroute_incident)
         = (Inr ([u], PositionSourceRegistry), snd reroute_units) \<and> un_ID u = ''u2''"
proof -
  obtain inc where inc: "fst reroute_incident = Inr inc"
    using reroute_facts(2) by (cases "fst reroute_incident") auto
  obtain us src where us: "fst reroute_units = Inr (us, src)"
    using reroute_facts(3) by (cases "fst reroute_units") auto
  with reroute_facts(3) obtain u where u: "us = [u]" "un_ID u = ''u2''" by auto
  have "fst (map_sum id snd (fst reroute_units), ()) = Inr PositionSourceRegistry" by code_simp
  with us have "src = PositionSourceRegistry" by simp
  with us inc u show ?thesis
    by (intro exI [of _ inc] exI [of _ u]) (auto simp: reroute_incident_def reroute_units_def prod_eq_iff)
qed

lemma candidates_run: "\<exists>inc c. run (DispatchService_Candidates server_dispatch_service ''i1'' '''' 5) (snd after_lookup)
    = (Inr (inc, [c], PositionSourceRegistry), snd reroute_units) \<and> un_ID (su_Unit c) = ''u2''"
proof -
  from reroute_runs obtain inc u where
    r: "run (IncidentRepository_GetByID ''i1'') (snd after_lookup) = (Inr inc, snd reroute_incident)"
    "run (candidateUnits server_dispatch_service inc 5) (snd reroute_incident)
         = (Inr ([u], PositionSourceRegistry), snd reroute_units)" "un_ID u = ''u2''" by blast
  let ?need = "\<lparr>nd_Severity = inc_Severity inc, nd_RequiredType = ''''\<rparr>"
  obtain c where c: "rank_units ?need [u] = [c]" "su_Unit c = u"
    by (auto simp: rank_units_def split: prod.splits)
  with r show ?thesis by (simp add: DispatchService_Candidates_def run_bind run_bindE)
qed

lemma candidates_available_witness:
  "\<exists>c :: ScoredUnit. free_unit busy_db (su_Unit c) \<and> un_ID (su_Unit c) = ''u2''"
proof -
  from candidates_run obtain inc c where r: "run (DispatchService_Candidates server_dispatch_service ''i1'' '''' 5)
      (snd after_lookup) = (Inr (inc, [c], PositionSourceRegistry), snd reroute_units)" "un_ID (su_Unit c) = ''u2''" by blast
  have "run (DispatchRepository_GetByID sample_dispatch_id) (ds_start busy_db) = (fst after_lookup, snd after_lookup)"
    by (simp add: after_lookup_def)
  then have "base (snd after_lookup) = busy_db" using get_dispatch_run by fastforce
  with candidates_available [OF r(1)] have "free_unit busy_db (su_Unit c)" by simp
  with r(2) show ?thesis by blast
qed

definition old_dispatch :: Dispatch where
  "old_dispatch = scanDispatch (sample_dispatch_id, new_dispatch ''i1'' ''u1'' 0)"

lemma swap_answer: "map_sum (\<lambda>e. ()) dis_UnitID (fst (run (DispatchRepository_Reassign server_dispatches sample_dispatch_id
    ''i1'' ''u2'' EventDispatchRerouted) (snd reroute_units))) = Inr ''u2''"
  by code_simp

lemma reroute_spec_witness:
  "\<exists>dis w'. run (DispatchService_Reroute server_dispatch_service sample_dispatch_id) (ds_start busy_db) = (Inr dis, w')
     \<and> dis_UnitID dis \<noteq> ''u1'' \<and> dis_IncidentID dis = ''i1''"
proof -
  from candidates_run obtain inc c where c: "run (DispatchService_Candidates server_dispatch_service ''i1'' '''' 5)
      (snd after_lookup) = (Inr (inc, [c], PositionSourceRegistry), snd reroute_units)" "un_ID (su_Unit c) = ''u2''" by blast
  have g: "run (DispatchRepository_GetByID sample_dispatch_id) (ds_start busy_db)
      = (Inr (scanDispatch (sample_dispatch_id, new_dispatch ''i1'' ''u1'' 0)), snd after_lookup)"
    using reroute_facts(1) by (simp add: after_lookup_def prod_eq_iff)
  obtain r w' where s0: "run (DispatchRepository_Reassign server_dispatches sample_dispatch_id ''i1'' ''u2''
      EventDispatchRerouted) (snd reroute_units) = (r, w')" by (rule prod.exhaust)
  then obtain dis where s: "r = Inr dis" using swap_answer by (cases r) simp_all
  have "run (DispatchService_Reroute server_dispatch_service sample_dispatch_id) (ds_start busy_db) = (Inr dis, w')"
    using c g s0 s by (simp add: DispatchService_Reroute_def run_bind run_bindE reassignCandidateLimit_def IsActive_active)
  from reroute_spec [OF this busy_inv(1-3)] this busy_facts(4) show ?thesis
    by (auto simp del: sample_env_simps) (simp_all add: sample_dispatch_id_def plain_text_def byte_def)
qed

end
