(* ===== verification/Relay.thy ===== *)
theory Relay
  imports Outbox Sample
begin

text \<open>
  The relay (\<^verbatim>\<open>internal/relay\<close>): it drains the outbox to the broker. The broker is a log of keyed
  messages; each send is answered (acknowledged, refused, or taken but not acknowledged) as a
  parameter says. \<open>publisher\<close> is interpreted on the relay's own publish function, and the drain
  loop carries a fuel that the termination theorem bounds.
\<close>

section \<open>The broker\<close>

record EventEnvelope =
  ee_ID :: int
  ee_EventType :: string
  ee_AggregateType :: string
  ee_AggregateID :: string
  ee_Payload :: payload
  ee_OccurredAt :: time

text \<open>A message value: the JSON of an envelope, or bytes that are none.\<close>

datatype wire = Encoded EventEnvelope | Garbage string

datatype broker_answer = Acked | Refused go_error | Unacked go_error

record kafka = world +
  topic :: "(string \<times> wire) list"
  sends :: nat
  broker :: "nat \<Rightarrow> broker_answer"

definition KafkaPublisher_Publish :: "string \<Rightarrow> wire \<Rightarrow> ('a kafka_ext, unit) tx" where
  "KafkaPublisher_Publish key value = Stmt (\<lambda>w.
     let n = sends w; w' = w\<lparr>sends := Suc n\<rparr>; sent = w'\<lparr>topic := topic w @ [(key, value)]\<rparr>
     in case broker w n of
       Acked \<Rightarrow> (sent, ok ())
     | Refused err \<Rightarrow> (w', throw err)
     | Unacked err \<Rightarrow> (sent, throw err))"

section \<open>The relay\<close>

definition envelope_of :: "OutboxEvent \<Rightarrow> EventEnvelope" where
  "envelope_of e = \<lparr>ee_ID = oe_ID e, ee_EventType = oe_EventType e,
     ee_AggregateType = oe_AggregateType e, ee_AggregateID = oe_AggregateID e,
     ee_Payload = oe_Payload e, ee_OccurredAt = oe_CreatedAt e\<rparr>"

definition Relay_publish :: "OutboxEvent \<Rightarrow> ('a kafka_ext, unit) tx" where
  "Relay_publish e = KafkaPublisher_Publish (oe_AggregateID e) (Encoded (envelope_of e))"

text \<open>\<open>drain\<close>: \<open>None\<close> when the fuel runs out, \<open>Some\<close> of the number of batches when it returns.\<close>

fun Relay_drain :: "nat \<Rightarrow> int \<Rightarrow> ('a kafka_ext world_scheme, nat option) script" where
  "Relay_drain 0 batch = Done None"
| "Relay_drain (Suc fuel) batch = bind (OutboxRepository_PublishBatch batch Relay_publish) (\<lambda>r. case r of
     Inl err \<Rightarrow> Done (Some 1)
   | Inr res \<Rightarrow> if int (pr_Claimed res) < batch then Done (Some 1)
       else bind (Relay_drain fuel batch) (\<lambda>n. Done (map_option Suc n)))"

definition delivered_to_kafka :: "'a kafka_ext world_scheme \<Rightarrow> OutboxEvent \<Rightarrow> bool" where
  "delivered_to_kafka w e \<longleftrightarrow> (oe_AggregateID e, Encoded (envelope_of e)) \<in> set (topic w)"

lemma run_Relay_publish: "run (Relay_publish e) w =
    (let sent = w\<lparr>sends := Suc (sends w), topic := topic w @ [(oe_AggregateID e, Encoded (envelope_of e))]\<rparr>
     in case broker w (sends w) of
       Acked \<Rightarrow> (Inr (), sent)
     | Refused err \<Rightarrow> (Inl err, w\<lparr>sends := Suc (sends w)\<rparr>)
     | Unacked err \<Rightarrow> (Inl err, sent))"
  by (simp add: Relay_publish_def KafkaPublisher_Publish_def run_Stmt Let_def split: broker_answer.split)

interpretation relay: publisher Relay_publish delivered_to_kafka
proof
  fix ev :: OutboxEvent and w r and w' :: "'a kafka_ext world_scheme"
  assume "run (Relay_publish ev) w = (r, w')"
  then show "base w' = base w \<and> view w' = view w \<and> wenv w' = wenv w \<and> txnow w' = txnow w \<and> locks w' = locks w"
    by (auto simp: run_Relay_publish Let_def split: broker_answer.splits)
next
  fix w w' :: "'a kafka_ext world_scheme" and ev
  assume "world.more w = world.more w'"
  then show "delivered_to_kafka w ev = delivered_to_kafka w' ev"
    by (cases w; cases w') (simp add: delivered_to_kafka_def kafka.defs)
next
  fix w w' :: "'a kafka_ext world_scheme" and ev
  assume "run (Relay_publish ev) w = (Inr (), w')"
  then show "delivered_to_kafka w' ev"
    by (auto simp: run_Relay_publish delivered_to_kafka_def Let_def split: broker_answer.splits)
next
  fix w w' :: "'a kafka_ext world_scheme" and ev ev' r
  assume "run (Relay_publish ev) w = (r, w')" and "delivered_to_kafka w ev'"
  then show "delivered_to_kafka w' ev'"
    by (auto simp: run_Relay_publish delivered_to_kafka_def Let_def split: broker_answer.splits)
qed

section \<open>One batch of the relay\<close>

definition claimed_by :: "int \<Rightarrow> 'm world_scheme \<Rightarrow> (int \<times> outbox_row) list" where
  "claimed_by batch w = page (nat batch) 0 (sort_key fst
     (filter (\<lambda>(k, r). due (clock (wenv w) (pc w)) r \<and> \<not> others_locked (wenv w) (Suc (pc w)) (RowOutbox k))
       (outbox_events (base w))))"

lemma claim_rows_claimed:
  "claim_rows batch (wenv w) (Suc (pc w)) (clock (wenv w) (pc w)) (base w) = Inr rows \<Longrightarrow>
     rows = claimed_by batch w \<and> 0 \<le> batch"
  by (auto simp: claim_rows_def claimed_by_def pg_page_def split: if_splits)

lemma claimed_by_in:
  assumes "(k, r) \<in> set (claimed_by batch w)"
  shows "(k, r) \<in> set (outbox_events (base w))" "due (clock (wenv w) (pc w)) r"
  using assms set_page by (fastforce simp: claimed_by_def)+

lemma claimed_by_distinct: "pkey (outbox_events (base w)) \<Longrightarrow> distinct (map fst (claimed_by batch w))"
  unfolding claimed_by_def
  by (rule distinct_page) (simp add: distinct_map_sort_key pkey_def distinct_map_filter)

text \<open>What the commit of a batch installs, whoever learns of it.\<close>

definition batch_effect :: "int \<Rightarrow> 'a kafka_ext world_scheme \<Rightarrow> 'a kafka_ext world_scheme
    \<Rightarrow> (OutboxEvent \<times> go_error option) list \<Rightarrow> bool" where
  "batch_effect batch w w' eos \<longleftrightarrow> map fst eos = map scanOutbox (claimed_by batch w)
     \<and> base w' = (base w)\<lparr>outbox_events := settle (clock (wenv w) (pc w)) eos (outbox_events (base w))\<rparr>
     \<and> (\<forall>ev. (ev, None) \<in> set eos \<longrightarrow> delivered_to_kafka w' ev)"

lemma PublishBatch_cases:
  assumes "run (OutboxRepository_PublishBatch batch Relay_publish) w = (r, w')"
  obtains (unchanged) e where "r = Inl e" "base w' = base w" "wenv w' = wenv w"
  | (committed) eos where "batch_effect batch w w' eos" "wenv w' = wenv w" "0 \<le> batch"
      "r = Inl lost_ack \<or> r = Inr \<lparr>pr_Claimed = length (claimed_by batch w), pr_Published = length (acked eos),
         pr_Failed = failed eos, pr_DeadLettered = died eos\<rparr>"
proof -
  have fr: "base w1 = base w \<and> wenv w1 = wenv w"
    if "run (publish_body batch Relay_publish) (begun w) = (r1, w1)" for r1 w1
    using relay.body_frame [OF that] by simp
  from assms have "run (in_tx (publish_body batch Relay_publish)) w = (r, w')"
    by (simp add: OutboxRepository_PublishBatch_def)
  then show ?thesis
  proof (rule in_tx_frame)
    fix r1 w1 assume "run (publish_body batch Relay_publish) (begun w) = (r1, w1)"
    from fr [OF this] show "base w1 = base w \<and> wenv w1 = wenv w" .
  next
    fix e assume "r = Inl e" "base w' = base w" "wenv w' = wenv w"
    then show ?thesis by (rule unchanged)
  next
    fix e r1 w1 assume "r = Inl e" "base w' = base w" "wenv w' = wenv w"
    then show ?thesis by (rule unchanged)
  next
    fix res w1 assume b: "run (publish_body batch Relay_publish) (begun w) = (Inr res, w1)"
      and v: "base w' = view w1" and r: "r = Inr res \<or> r = Inl lost_ack"
      and e: "wenv w' = wenv w" and m: "world.more w' = world.more w1"
    from relay.body_Inr [OF b] obtain rows eos where
      c: "claim_rows batch (wenv w) (Suc (pc w)) (clock (wenv w) (pc w)) (base w) = Inr rows" and
      s: "map fst eos = map scanOutbox rows"
        "view w1 = (base w)\<lparr>outbox_events := settle (clock (wenv w) (pc w)) eos (outbox_events (base w))\<rparr>"
        "res = \<lparr>pr_Claimed = length rows, pr_Published = length (acked eos), pr_Failed = failed eos,
             pr_DeadLettered = died eos\<rparr>"
        "\<forall>ev. (ev, None) \<in> set eos \<longrightarrow> delivered_to_kafka w1 ev" by auto
    from claim_rows_claimed [OF c] have rows: "rows = claimed_by batch w" "0 \<le> batch" by simp_all
    have "batch_effect batch w w' eos"
      using s rows v relay.delivered_more [OF m] by (simp add: batch_effect_def)
    then show ?thesis by (rule committed) (use e rows r s in auto)
  qed
qed

text \<open>Row by row.\<close>

lemma effect_distinct:
  assumes "batch_effect batch w w' eos" and "pkey (outbox_events (base w))"
  shows "distinct (map (\<lambda>eo. oe_ID (fst eo)) eos)"
proof -
  have "map (\<lambda>eo. oe_ID (fst eo)) eos = map oe_ID (map fst eos)" by simp
  also have "\<dots> = map (\<lambda>kr. oe_ID (scanOutbox kr)) (claimed_by batch w)"
    using assms(1) by (simp add: batch_effect_def)
  also have "\<dots> = map fst (claimed_by batch w)" by (rule map_cong) auto
  finally show ?thesis using claimed_by_distinct [OF assms(2)] by simp
qed

lemma effect_claimed:
  assumes "batch_effect batch w w' eos" and "(k, r) \<in> set (claimed_by batch w)"
  shows "\<exists>x. (scanOutbox (k, r), x) \<in> set eos"
proof -
  have "scanOutbox (k, r) \<in> set (map fst eos)" using assms by (auto simp: batch_effect_def)
  then show ?thesis by auto
qed

lemma effect_ids:
  assumes "batch_effect batch w w' eos"
  shows "oe_ID ` fst ` set eos = fst ` set (claimed_by batch w)"
proof -
  have "oe_ID ` fst ` set eos = oe_ID ` set (map fst eos)" by simp
  also have "\<dots> = oe_ID ` scanOutbox ` set (claimed_by batch w)"
    using assms by (simp add: batch_effect_def)
  also have "\<dots> = fst ` set (claimed_by batch w)" by (force simp: image_iff)
  finally show ?thesis .
qed

lemma effect_row:
  assumes "batch_effect batch w w' eos" and p: "pkey (outbox_events (base w))"
    and "sel (outbox_events (base w)) k = Some r"
  shows "if k \<in> fst ` set (claimed_by batch w)
    then due (clock (wenv w) (pc w)) r \<and>
      (sel (outbox_events (base w')) k = Some (publish_row (clock (wenv w) (pc w)) r)
         \<and> delivered_to_kafka w' (scanOutbox (k, r))
       \<or> (\<exists>err. sel (outbox_events (base w')) k = Some (fail_row (o_attempts r + 1) (truncateErr err)
            (backoffSeconds (o_attempts r + 1)) (o_attempts r + 1 \<ge> MaxPublishAttempts) (clock (wenv w) (pc w)) r)))
    else sel (outbox_events (base w')) k = Some r"
proof (cases "k \<in> fst ` set (claimed_by batch w)")
  case False
  then have "k \<notin> oe_ID ` fst ` set eos" using effect_ids [OF assms(1)] by simp
  from sel_settle_other [OF this] False assms show ?thesis by (simp add: batch_effect_def)
next
  case True
  then obtain r1 where kr1: "(k, r1) \<in> set (claimed_by batch w)" by auto
  from claimed_by_in [OF this] p have d: "due (clock (wenv w) (pc w)) r1" and "r1 = r"
    using assms(3) by (auto simp: in_iff_sel)
  with kr1 have kr: "(k, r) \<in> set (claimed_by batch w)" by simp
  from effect_claimed [OF assms(1) kr] obtain x where x: "(scanOutbox (k, r), x) \<in> set eos" by blast
  note dist = effect_distinct [OF assms(1) p]
  show ?thesis
  proof (cases x)
    case None
    with sel_settle_acked [OF dist, of "scanOutbox (k, r)"] x assms True d \<open>r1 = r\<close>
    show ?thesis by (simp add: batch_effect_def)
  next
    case (Some err)
    with sel_settle_failed [OF dist, of "scanOutbox (k, r)" err] x assms True d \<open>r1 = r\<close>
    show ?thesis by (auto simp: batch_effect_def)
  qed
qed

lemma effect_inv:
  assumes "batch_effect batch w w' eos" and "outbox_inv (outbox_events (base w))"
  shows "outbox_inv (outbox_events (base w'))"
proof -
  have p: "pkey (outbox_events (base w))" using assms(2) by (simp add: outbox_inv_def)
  have p': "pkey (outbox_events (base w'))" using assms(1) p by (simp add: batch_effect_def)
  have "outbox_row_inv r'" if r': "sel (outbox_events (base w')) k = Some r'" for k r'
  proof -
    have "sel (outbox_events (base w)) k \<noteq> None"
    proof
      assume n: "sel (outbox_events (base w)) k = None"
      then have "k \<notin> oe_ID ` fst ` set eos"
        using effect_ids [OF assms(1)] by (auto dest!: claimed_by_in(1) simp: in_iff_sel [OF p])
      from sel_settle_other [OF this] n r' assms(1) show False by (simp add: batch_effect_def)
    qed
    then obtain r where r: "sel (outbox_events (base w)) k = Some r" by blast
    with assms(2) have i: "outbox_row_inv r" by (simp add: outbox_inv_def)
    from effect_row [OF assms(1) p r] r' i show ?thesis
      by (auto split: if_splits dest: due_pending intro: outbox_row_inv_fail outbox_row_inv_publish)
  qed
  with p' show ?thesis by (simp add: outbox_inv_def)
qed

text \<open>The retry budget left in the table: what bounds the number of batches a drain can take.\<close>

definition row_budget :: "outbox_row \<Rightarrow> int" where
  "row_budget r = (if pending r then MaxPublishAttempts - o_attempts r else 0)"

definition budget :: "(int, outbox_row) table \<Rightarrow> int" where
  "budget t = sum_rows (\<lambda>r. True) row_budget t"

lemma outbox_row_inv_budget: "outbox_row_inv r \<Longrightarrow> 0 \<le> row_budget r"
  by (auto simp: row_budget_def outbox_row_inv_def pending_def)

lemma budget_nonneg: "outbox_inv t \<Longrightarrow> 0 \<le> budget t"
  unfolding budget_def by (rule sum_rows_nonneg) (auto simp: outbox_inv_def in_iff_sel outbox_row_inv_budget)

lemma map_fst_settle: "map fst (settle t eos tbl) = map fst tbl"
proof -
  have "map fst (fold (fail_event t) eos tbl) = map fst tbl"
    by (induction eos arbitrary: tbl)
      (auto simp: fail_event_def Let_def split: prod.splits option.splits)
  then show ?thesis by (simp add: settle_def)
qed

lemma budget_drops:
  assumes "batch_effect batch w w' eos" and "outbox_inv (outbox_events (base w))"
  shows "budget (outbox_events (base w')) + int (length (claimed_by batch w)) \<le> budget (outbox_events (base w))"
proof -
  let ?t = "outbox_events (base w)" and ?t' = "outbox_events (base w')" and ?c = "claimed_by batch w"
  have p: "pkey ?t" using assms(2) by (simp add: outbox_inv_def)
  have drop: "row_budget r' + (if k \<in> fst ` set ?c then 1 else 0) \<le> row_budget r"
    if r: "sel ?t k = Some r" and r': "sel ?t' k = Some r'" for k r r'
  proof (cases "k \<in> fst ` set ?c")
    case False
    with effect_row [OF assms(1) p r] r' show ?thesis by simp
  next
    case True
    with effect_row [OF assms(1) p r] have "pending r" by (auto dest: due_pending)
    moreover have "outbox_row_inv r" using assms(2) r by (simp add: outbox_inv_def)
    ultimately have "o_attempts r < MaxPublishAttempts"
      by (auto simp: outbox_row_inv_def pending_def)
    with True \<open>pending r\<close> effect_row [OF assms(1) p r] r' show ?thesis
      by (auto simp: row_budget_def pending_def publish_row_def fail_row_def)
  qed
  have "map fst ?t' = map fst ?t" using assms(1) by (simp add: batch_effect_def map_fst_settle)
  from total_drops [OF this p drop]
  have "budget ?t' + int (card (fst ` set ?c \<inter> keys ?t)) \<le> budget ?t" by (simp add: budget_def)
  moreover have "card (fst ` set ?c \<inter> keys ?t) = length ?c"
  proof -
    have "fst ` set ?c \<subseteq> keys ?t" using claimed_by_in(1) by (force simp: keys_def)
    then have "card (fst ` set ?c \<inter> keys ?t) = card (set (map fst ?c))" by (simp add: Int_absorb2)
    also have "\<dots> = length ?c" using claimed_by_distinct [OF p, of batch] by (metis distinct_card length_map)
    finally show ?thesis .
  qed
  ultimately show ?thesis by simp
qed

lemma batch_inv:
  assumes "run (OutboxRepository_PublishBatch batch Relay_publish) w = (res, w')"
    and "outbox_inv (outbox_events (base w))"
  shows "outbox_inv (outbox_events (base w'))"
  using assms(1) by (cases rule: PublishBatch_cases) (use assms(2) effect_inv in auto)

section \<open>Properties\<close>

text \<open>C18: the outbox never loses an event and never claims a publish that did not happen: however
  a batch of the relay ends (an error, a lost commit acknowledgement, a success), a row that it
  newly marks published has reached the broker, as the envelope of that row under its aggregate's
  key.\<close>

theorem published_was_delivered:
  assumes "run (OutboxRepository_PublishBatch batch Relay_publish) w = (res, w')"
    and "pkey (outbox_events (base w))"
    and "sel (outbox_events (base w)) k = Some r" and "o_published_at r = None"
    and "sel (outbox_events (base w')) k = Some r'" and "o_published_at r' \<noteq> None"
  shows "(o_aggregate_id r, Encoded (envelope_of (scanOutbox (k, r)))) \<in> set (topic w')"
  using assms(1)
proof (cases rule: PublishBatch_cases)
  case unchanged
  with assms show ?thesis by auto
next
  case (committed eos)
  from effect_row [OF committed(1) assms(2,3)] assms(4-6) show ?thesis
    by (auto simp: fail_row_def delivered_to_kafka_def split: if_splits)
qed

text \<open>C19: a successful batch settles exactly the rows it claimed, each on its own: whatever the
  broker answered for the others, a claimed row ends either published at the batch's time or with
  one more attempt, a bounded error text, the exponential backoff and, at the fifth failure, the
  dead mark; a row it did not claim is untouched, and the counts add up. No poison row keeps
  another claimed row from being settled.\<close>

theorem batch_settles_each_claimed_row:
  assumes "run (OutboxRepository_PublishBatch batch Relay_publish) w = (Inr res, w')"
    and "pkey (outbox_events (base w))"
    and "sel (outbox_events (base w)) k = Some r"
  shows "pr_Claimed res = length (claimed_by batch w) \<and> pr_Published res + pr_Failed res = pr_Claimed res
    \<and> (if k \<in> fst ` set (claimed_by batch w)
       then sel (outbox_events (base w')) k = Some (publish_row (clock (wenv w) (pc w)) r)
         \<or> (\<exists>msg. length msg \<le> 500 \<and> sel (outbox_events (base w')) k = Some (fail_row (o_attempts r + 1) msg
              (min 300 (2 ^ nat (max 1 (o_attempts r + 1)))) (o_attempts r + 1 \<ge> 5) (clock (wenv w) (pc w)) r))
       else sel (outbox_events (base w')) k = Some r)"
  using assms(1)
proof (cases rule: PublishBatch_cases)
  case unchanged
  then show ?thesis by simp
next
  case (committed eos)
  have "length eos = length (claimed_by batch w)"
    using committed(1) by (auto simp: batch_effect_def dest: arg_cong [of _ _ length])
  with committed(4) acked_failed [of eos] have counts: "pr_Claimed res = length (claimed_by batch w)"
    "pr_Published res + pr_Failed res = pr_Claimed res" by auto
  note row = effect_row [OF committed(1) assms(2,3), unfolded backoffSeconds_closed maxBackoffSeconds_def
      MaxPublishAttempts_def]
  show ?thesis
  proof (cases "k \<in> fst ` set (claimed_by batch w)")
    case True
    with row counts truncateErr_length show ?thesis by (simp only: if_True) blast
  next
    case False
    with row counts show ?thesis by simp
  qed
qed

text \<open>A row's retry state is always one of three: pending with attempts left, published, or dead
  after exactly five failed attempts. Every batch keeps this, however it ends.\<close>

theorem batch_keeps_outbox_inv:
  assumes "run (OutboxRepository_PublishBatch batch Relay_publish) w = (res, w')"
    and "outbox_inv (outbox_events (base w))"
  shows "outbox_inv (outbox_events (base w'))"
  using assms by (rule batch_inv)

text \<open>The drain loop ends. With a positive batch size it returns after at most one more batch
  than the retry budget left in the table divided by the batch size, however the clock moves and
  whatever the broker and the database answer, even when rows come due again while it runs.\<close>

theorem drain_terminates:
  assumes "0 < batch" and "outbox_inv (outbox_events (base w))"
    and "budget (outbox_events (base w)) div batch < int fuel"
  shows "\<exists>n w'. run (Relay_drain fuel batch) w = (Some n, w')
    \<and> int n \<le> budget (outbox_events (base w)) div batch + 1 \<and> outbox_inv (outbox_events (base w'))"
  using assms(2,3)
proof (induction fuel arbitrary: w)
  case 0
  then show ?case using budget_nonneg [OF 0(1)] assms(1) by (simp add: pos_imp_zdiv_neg_iff)
next
  case (Suc fuel)
  let ?b = "\<lambda>w :: 'a kafka_ext world_scheme. budget (outbox_events (base w))"
  obtain r w1 where r: "run (OutboxRepository_PublishBatch batch Relay_publish) w = (r, w1)"
    by (cases "run (OutboxRepository_PublishBatch batch Relay_publish) w")
  have inv: "outbox_inv (outbox_events (base w1))" by (rule batch_inv [OF r Suc.prems(1)])
  have b0: "0 \<le> ?b w div batch" using budget_nonneg [OF Suc.prems(1)] assms(1)
    by (simp add: pos_imp_zdiv_nonneg_iff)
  show ?case
  proof (cases "\<exists>res. r = Inr res \<and> \<not> int (pr_Claimed res) < batch")
    case False
    with r inv b0 show ?thesis by (auto simp: run_bind split: sum.splits)
  next
    case True
    then obtain res where res: "r = Inr res" "batch \<le> int (pr_Claimed res)" by auto
    from r obtain eos where e: "batch_effect batch w w1 eos" "pr_Claimed res = length (claimed_by batch w)"
      by (cases rule: PublishBatch_cases) (use res in auto)
    from budget_drops [OF e(1) Suc.prems(1)] e res have "?b w1 \<le> ?b w - batch" by simp
    then have d: "?b w1 div batch \<le> (?b w - batch) div batch" using assms(1) by (simp add: zdiv_mono1)
    also have "\<dots> = ?b w div batch - 1" 
      using assms(1) div_mult_self1 [of batch "?b w" "-1"] by simp
    finally have le: "?b w1 div batch \<le> ?b w div batch - 1" .
    with Suc.prems(2) have "?b w1 div batch < int fuel" by simp
    from Suc.IH [OF inv this] obtain n w' where
      "run (Relay_drain fuel batch) w1 = (Some n, w')" "int n \<le> ?b w1 div batch + 1"
      "outbox_inv (outbox_events (base w'))" by blast
    with r res le show ?thesis by (intro exI [of _ "Suc n"] exI [of _ w']) (simp add: run_bind)
  qed
qed

text \<open>A batch that claims fewer rows than it asked for leaves nothing due behind: every row that
  is still due at the batch's time is one that another worker held.\<close>

theorem short_batch_leaves_nothing_due:
  assumes "run (OutboxRepository_PublishBatch batch Relay_publish) w = (Inr res, w')"
    and "pkey (outbox_events (base w))"
    and "int (pr_Claimed res) < batch"
    and "sel (outbox_events (base w')) k = Some r'" and "due (clock (wenv w) (pc w)) r'"
  shows "others_locked (wenv w) (Suc (pc w)) (RowOutbox k)"
  using assms(1)
proof (cases rule: PublishBatch_cases)
  case unchanged
  then show ?thesis by simp
next
  case (committed eos)
  let ?t = "clock (wenv w) (pc w)"
  let ?sel = "\<lambda>(k, r). due ?t r \<and> \<not> others_locked (wenv w) (Suc (pc w)) (RowOutbox k)"
  have all: "set (claimed_by batch w) = set (filter ?sel (outbox_events (base w)))"
  proof -
    have "length (claimed_by batch w) < nat batch" using committed(4) assms(3) by simp
    then have "length (filter ?sel (outbox_events (base w))) \<le> nat batch"
      by (simp add: claimed_by_def page_def)
    then show ?thesis by (simp add: claimed_by_def page_def)
  qed
  have "sel (outbox_events (base w)) k \<noteq> None"
  proof
    assume "sel (outbox_events (base w)) k = None"
    moreover from this have "k \<notin> oe_ID ` fst ` set eos"
      using effect_ids [OF committed(1)] by (auto dest!: claimed_by_in(1) simp: in_iff_sel [OF assms(2)])
    ultimately show False using assms(4) committed(1) by (simp add: batch_effect_def sel_settle_other)
  qed
  then obtain r where r: "sel (outbox_events (base w)) k = Some r" by blast
  have "\<not> seconds (backoffSeconds n) \<le> 0" for n using backoffSeconds_bounds [of n] by (simp add: seconds_def)
  then have "k \<notin> fst ` set (claimed_by batch w)"
    using effect_row [OF committed(1) assms(2) r] assms(4,5)
    by (auto simp: due_def publish_row_def fail_row_def split: if_splits)
  with effect_row [OF committed(1) assms(2) r] assms(4,5) all in_iff_sel [OF assms(2), of k r] r
  show ?thesis by (force simp: image_iff)
qed

text \<open>The exception to that isolation. An error text that is not storable as text (the 500-byte
  cut may split a character) makes the record of the failure itself fail: the batch ends, nothing
  of it is kept, and the same row is first in line again.\<close>

theorem unstorable_error_blocks_batch:
  assumes "claimed_by batch w = (k, r) # rest" and "0 \<le> batch" and "calm (wenv w)"
    and "broker w (sends w) = Refused err" and "\<not> text_ok (truncateErr err)"
  shows "\<exists>w'. run (OutboxRepository_PublishBatch batch Relay_publish) w = (Inl bad_encoding, w')
    \<and> base w' = base w"
proof -
  have c: "claim_rows batch (wenv w) (Suc (pc w)) (clock (wenv w) (pc w)) (base w) = Inr ((k, r) # rest)"
    using assms(1,2) by (simp add: claim_rows_def claimed_by_def)
  have more: "sends (begun w) = sends w" "broker (begun w) = broker w"
    by (simp_all add: begun_def)
  have "\<exists>w1. run (publish_body batch Relay_publish) (begun w) = (Inl bad_encoding, w1) \<and> base w1 = base w"
    using assms(3-5) c more
    by (simp add: publish_body_def run_bindE run_bind run_tx_stmt claim_stmt_def run_Relay_publish
        markFailed_def pg_text_def Let_def)
  then show ?thesis
    by (auto simp: OutboxRepository_PublishBatch_def in_tx_def run_simps begun_def assms(3))
qed

section \<open>Witnesses\<close>

definition sample_event :: outbox_row where
  "sample_event = new_event AggregateVictim ''v1'' EventVictimAssigned [] 0"

definition kafka_start :: "db \<Rightarrow> (nat \<Rightarrow> broker_answer) \<Rightarrow> kafka" where
  "kafka_start d answers = \<lparr>base = d, view = d, locks = {}, pc = 0, txnow = 0, wenv = sample_env,
     topic = [], sends = 0, broker = answers\<rparr>"

text \<open>Two due events; the broker refuses the first send and takes the second.\<close>

definition sample_outbox :: kafka where
  "sample_outbox = kafka_start (empty_db\<lparr>outbox_events := [(1, sample_event), (2, sample_event)]\<rparr>)
     (\<lambda>n. if n = 0 then Refused (Other ''broker down'') else Acked)"

definition sample_batch :: "(go_error + PublishResult) \<times> kafka" where
  "sample_batch = run (OutboxRepository_PublishBatch 2 Relay_publish) sample_outbox"

lemma sample_outbox_inv: "outbox_inv (outbox_events (base sample_outbox))"
  by (auto simp: sample_outbox_def kafka_start_def outbox_inv_def sample_event_def outbox_row_inv_new pkey_def
      split: if_splits)

lemma sample_outbox_pkey: "pkey (outbox_events (base sample_outbox))"
  using sample_outbox_inv by (simp add: outbox_inv_def)

lemma sample_batch_rows:
  "fst sample_batch = Inr \<lparr>pr_Claimed = 2, pr_Published = 1, pr_Failed = 1, pr_DeadLettered = 0\<rparr>"
  "sel (outbox_events (base (snd sample_batch))) 2 = Some (publish_row 0 sample_event)"
  "sel (outbox_events (base sample_outbox)) 2 = Some sample_event"
  "o_published_at sample_event = None" "o_aggregate_id sample_event = ''v1''"
  by code_simp+

lemma sample_batch_run: "run (OutboxRepository_PublishBatch 2 Relay_publish) sample_outbox
    = (fst sample_batch, snd sample_batch)"
  by (simp add: sample_batch_def)

lemma published_was_delivered_witness:
  "(''v1'', Encoded (envelope_of (scanOutbox (2, sample_event)))) \<in> set (topic (snd sample_batch))"
  using published_was_delivered [OF sample_batch_run sample_outbox_pkey sample_batch_rows(3,4,2)]
    sample_batch_rows(5) by (simp add: publish_row_def)

lemma batch_settles_each_claimed_row_witness:
  "\<exists>msg. length msg \<le> 500 \<and> sel (outbox_events (base (snd sample_batch))) 1
     = Some (fail_row 1 msg 2 False 0 sample_event)"
proof -
  have r: "run (OutboxRepository_PublishBatch 2 Relay_publish) sample_outbox
      = (Inr \<lparr>pr_Claimed = 2, pr_Published = 1, pr_Failed = 1, pr_DeadLettered = 0\<rparr>, snd sample_batch)"
    using sample_batch_run sample_batch_rows(1) by simp
  have "sel (outbox_events (base sample_outbox)) 1 = Some sample_event"
    and "(1 \<in> fst ` set (claimed_by 2 sample_outbox)) = True"
    and "clock (wenv sample_outbox) (pc sample_outbox) = 0" and "o_attempts sample_event = 0"
    and "map_option o_published_at (sel (outbox_events (base (snd sample_batch))) 1) = Some None"
    by code_simp+
  with batch_settles_each_claimed_row [OF r sample_outbox_pkey, of 1 sample_event]
  show ?thesis by (auto simp: publish_row_def)
qed

lemma batch_keeps_outbox_inv_witness: "outbox_inv (outbox_events (base (snd sample_batch)))"
  by (rule batch_keeps_outbox_inv [OF sample_batch_run sample_outbox_inv])

lemma drain_terminates_witness:
  "\<exists>n w'. run (Relay_drain 6 2) sample_outbox = (Some n, w') \<and> int n \<le> 6
     \<and> outbox_inv (outbox_events (base w'))"
proof -
  have "budget (outbox_events (base sample_outbox)) = 10" by code_simp
  with drain_terminates [of 2 sample_outbox 6] sample_outbox_inv show ?thesis by simp
qed

definition contended_outbox :: kafka where
  "contended_outbox = sample_outbox\<lparr>wenv := sample_env\<lparr>others_locked := (\<lambda>n r. r = RowOutbox 1)\<rparr>\<rparr>"

definition sample_short :: "(go_error + PublishResult) \<times> kafka" where
  "sample_short = run (OutboxRepository_PublishBatch 2 Relay_publish) contended_outbox"

lemma sample_short_rows:
  "fst sample_short = Inr \<lparr>pr_Claimed = 1, pr_Published = 0, pr_Failed = 1, pr_DeadLettered = 0\<rparr>"
  "sel (outbox_events (base (snd sample_short))) 1 = Some sample_event"
  "due 0 sample_event" "clock (wenv contended_outbox) (pc contended_outbox) = 0"
  by code_simp+

lemma short_batch_leaves_nothing_due_witness:
  "due 0 sample_event \<and> others_locked (wenv contended_outbox) (Suc (pc contended_outbox)) (RowOutbox 1)"
proof -
  have r: "run (OutboxRepository_PublishBatch 2 Relay_publish) contended_outbox
      = (Inr \<lparr>pr_Claimed = 1, pr_Published = 0, pr_Failed = 1, pr_DeadLettered = 0\<rparr>, snd sample_short)"
    using sample_short_rows(1) by (simp add: sample_short_def prod_eq_iff)
  have p: "pkey (outbox_events (base contended_outbox))"
    using sample_outbox_pkey by (simp add: contended_outbox_def)
  from short_batch_leaves_nothing_due [OF r p _ sample_short_rows(2)] sample_short_rows(3,4) show ?thesis by simp
qed

text \<open>499 letters and a two-byte character: valid text, cut in the middle of the character.\<close>

definition split_error :: go_error where
  "split_error = Other (replicate 499 (CHR ''a'') @ [CHR 0xC3, CHR 0xA9])"

definition poisoned_outbox :: kafka where
  "poisoned_outbox = kafka_start (base sample_outbox) (\<lambda>n. Refused split_error)"

lemma unstorable_error_blocks_batch_witness:
  "text_ok (err_Error split_error) \<and>
   (\<exists>w'. run (OutboxRepository_PublishBatch 2 Relay_publish) poisoned_outbox = (Inl bad_encoding, w')
      \<and> base w' = base poisoned_outbox)"
proof -
  have "text_ok (err_Error split_error)" and "\<not> text_ok (truncateErr split_error)"
    and "claimed_by 2 poisoned_outbox = [(1, sample_event), (2, sample_event)]"
    by code_simp+
  moreover have "calm (wenv poisoned_outbox)" "broker poisoned_outbox (sends poisoned_outbox) = Refused split_error"
    by (simp_all add: poisoned_outbox_def kafka_start_def)
  ultimately show ?thesis using unstorable_error_blocks_batch [of 2 poisoned_outbox] by simp
qed

end
