(* ===== verification/Inbox.thy ===== *)
theory Inbox
  imports Relay
begin

text \<open>
  The consuming side's stores: the inbox (\<^verbatim>\<open>outbox/inbox_repository.go\<close>), whose dedup marker commits
  together with the side effect of an event, the two side effects (\<^verbatim>\<open>notification\<close>, \<^verbatim>\<open>audit\<close>) and
  the endpoints that read what they wrote. \<open>side_effect\<close> states what a consumer group may rely on;
  it is interpreted on both writers.
\<close>

section \<open>The inbox\<close>

text \<open>\<open>INSERT ... ON CONFLICT DO NOTHING\<close>: the number of rows it inserted.\<close>

definition claim_event :: "string \<Rightarrow> int \<Rightarrow> ('m, nat) tx" where
  "claim_event consumer eventID = tx_stmt (pg_text [consumer] (\<lambda>e n t d.
     if sel (processed_events d) (consumer, eventID) \<noteq> None then Inr (0, d, {})
     else Inr (1, d\<lparr>processed_events := ins (consumer, eventID) t (processed_events d)\<rparr>, {RowInbox consumer eventID})))"

definition process_body :: "string \<Rightarrow> int \<Rightarrow> ('m, unit) tx \<Rightarrow> ('m, bool ending) tx" where
  "process_body consumer eventID sideEffect = bindE (claim_event consumer eventID) (\<lambda>n.
     if n = 0 then ok (Return False) else bindE sideEffect (\<lambda>_. ok (Commit True)))"

definition InboxRepository_ProcessOnce :: "string \<Rightarrow> int \<Rightarrow> ('m, unit) tx \<Rightarrow> ('m, bool) tx" where
  "InboxRepository_ProcessOnce consumer eventID sideEffect = in_tx_or (process_body consumer eventID sideEffect)"

section \<open>Notifications\<close>

record Notification =
  no_ID :: int
  no_EventID :: int
  no_EventType :: string
  no_Message :: string
  no_CreatedAt :: time

definition NotificationWriter :: "int \<Rightarrow> string \<Rightarrow> string \<Rightarrow> ('m, unit) tx" where
  "NotificationWriter eventID eventType message = tx_stmt (pg_text [eventType, message] (\<lambda>e n t d.
     let k = nextval e n
     in if sel (notifications d) k \<noteq> None then Inl unique_violation
        else Inr ((), d\<lparr>notifications := ins k \<lparr>n_event_id = eventID, n_event_type = eventType,
               n_message = message, n_created_at = t\<rparr> (notifications d)\<rparr>, {RowNotification k})))"

definition scanNotification :: "int \<times> notification_row \<Rightarrow> Notification" where
  "scanNotification kr = (case kr of (k, r) \<Rightarrow> \<lparr>no_ID = k, no_EventID = n_event_id r,
     no_EventType = n_event_type r, no_Message = n_message r, no_CreatedAt = n_created_at r\<rparr>)"

definition NotificationRepository_ListRecent :: "int \<Rightarrow> ('m, Notification list) tx" where
  "NotificationRepository_ListRecent limit = pool_stmt (reading (\<lambda>e d. map_sum id (map scanNotification)
     (pg_page limit 0 (sort_key (\<lambda>(k, r). - k) (notifications d)))))"

definition NotificationService_ListRecent :: "int \<Rightarrow> ('m, Notification list) tx" where
  "NotificationService_ListRecent limit = NotificationRepository_ListRecent limit"

definition NotificationHandler_List :: "query \<Rightarrow> ('m world_scheme, Notification list response) script" where
  "NotificationHandler_List q = respond (NotificationService_ListRecent (ClampInt (q ''limit'') 20 1 200))
     (\<lambda>err. common_Error 500 ''could not list notifications'' ''INTERNAL_ERROR'')
     (\<lambda>items. common_Success 200 ''notifications'' items)"

section \<open>The audit trail\<close>

record Entry =
  en_ID :: int
  en_EventID :: int
  en_EventType :: string
  en_AggregateType :: string
  en_AggregateID :: string
  en_Payload :: payload
  en_OccurredAt :: time
  en_RecordedAt :: time

definition audited :: "int \<Rightarrow> (int, audit_row) table \<Rightarrow> bool" where
  "audited eventID t = list_ex (\<lambda>(k, r). a_event_id r = eventID) t"

definition audit_Writer :: "EventEnvelope \<Rightarrow> ('m, unit) tx" where
  "audit_Writer ev = tx_stmt (pg_text [ee_EventType ev, ee_AggregateType ev]
     (cast_uuid (ee_AggregateID ev) (\<lambda>aid e n t d.
       if \<not> list_all (json_ok \<circ> snd) (ee_Payload ev) then Inl (PgError ''22P05'')
       else if audited (ee_ID ev) (audit_log d) then Inr ((), d, {})
       else let k = nextval e n
         in if sel (audit_log d) k \<noteq> None then Inl unique_violation
            else Inr ((), d\<lparr>audit_log := ins k \<lparr>a_event_id = ee_ID ev, a_event_type = ee_EventType ev,
                   a_aggregate_type = ee_AggregateType ev, a_aggregate_id = aid, a_payload = ee_Payload ev,
                   a_occurred_at = ee_OccurredAt ev, a_recorded_at = t\<rparr> (audit_log d)\<rparr>, {RowAudit k}))))"

definition scanEntry :: "int \<times> audit_row \<Rightarrow> Entry" where
  "scanEntry kr = (case kr of (k, r) \<Rightarrow> \<lparr>en_ID = k, en_EventID = a_event_id r, en_EventType = a_event_type r,
     en_AggregateType = a_aggregate_type r, en_AggregateID = a_aggregate_id r, en_Payload = a_payload r,
     en_OccurredAt = a_occurred_at r, en_RecordedAt = a_recorded_at r\<rparr>)"

text \<open>The optional filter on an aggregate id casts it only for a row it is compared with; the planner
  may cast a constant parameter early, so an id that is no UUID is refused whenever it is given.\<close>

definition audit_List :: "string \<Rightarrow> string \<Rightarrow> int \<Rightarrow> ('m, Entry list) tx" where
  "audit_List aggregateType aggregateID limit = pool_stmt (pg_text [aggregateType, aggregateID] (reading (\<lambda>e d.
     if aggregateID \<noteq> '''' \<and> uuid_cast e aggregateID = None then Inl invalid_text
     else map_sum id (map scanEntry) (pg_page limit 0 (sort_key (\<lambda>(k, r). - k)
       (filter (\<lambda>(k, r). (aggregateType = '''' \<or> a_aggregate_type r = aggregateType)
          \<and> (aggregateID = '''' \<or> Some (a_aggregate_id r) = uuid_cast e aggregateID)) (audit_log d)))))))"

definition AuditHandler_List :: "query \<Rightarrow> ('m world_scheme, Entry list response) script" where
  "AuditHandler_List q = respond
     (audit_List (q ''aggregateType'') (q ''aggregateId'') (ClampInt (q ''limit'') 50 1 200))
     (\<lambda>err. common_Error 500 ''could not read audit log'' ''INTERNAL_ERROR'')
     (\<lambda>es. common_Success 200 ''audit trail'' es)"

section \<open>What a consumer group relies on\<close>

text \<open>Marker and effect rows agree: an event has exactly one row if its marker is there, none if not.\<close>

definition once_each :: "string \<Rightarrow> (db \<Rightarrow> int \<Rightarrow> nat) \<Rightarrow> db \<Rightarrow> bool" where
  "once_each name rows d \<longleftrightarrow> (\<forall>i. rows d i = (if sel (processed_events d) (name, i) = None then 0 else 1))"

text \<open>One event newly handled: its marker set and its effect written, together.\<close>

definition handled :: "(EventEnvelope \<Rightarrow> db \<Rightarrow> db \<Rightarrow> bool) \<Rightarrow> string \<Rightarrow> EventEnvelope \<Rightarrow> db \<Rightarrow> db \<Rightarrow> bool" where
  "handled writes name ev d d' \<longleftrightarrow> sel (processed_events d) (name, ee_ID ev) = None
     \<and> (\<exists>t. writes ev (d\<lparr>processed_events := ins (name, ee_ID ev) t (processed_events d)\<rparr>) d')"

locale side_effect =
  fixes effect :: "EventEnvelope \<Rightarrow> ('m, unit) tx"
    and writes :: "EventEnvelope \<Rightarrow> db \<Rightarrow> db \<Rightarrow> bool"
    and rows :: "db \<Rightarrow> int \<Rightarrow> nat"
  assumes effect_tx_only: "tx_only (effect ev)"
    and effect_writes: "run (effect ev) w = (Inr (), w') \<Longrightarrow> writes ev (view w) (view w')"
    and writes_one: "writes ev d d' \<Longrightarrow> rows d (ee_ID ev) = 0 \<Longrightarrow>
      rows d' i = rows d i + (if i = ee_ID ev then 1 else 0)"
    and writes_markers: "writes ev d d' \<Longrightarrow> processed_events d' = processed_events d"
    and rows_markers: "rows (d\<lparr>processed_events := t\<rparr>) = rows d"
begin

lemma handled_once: "handled writes name ev d d' \<Longrightarrow> once_each name rows d \<Longrightarrow> once_each name rows d'"
proof -
  assume h: "handled writes name ev d d'" and o: "once_each name rows d"
  from h obtain t where t: "sel (processed_events d) (name, ee_ID ev) = None"
    "writes ev (d\<lparr>processed_events := ins (name, ee_ID ev) t (processed_events d)\<rparr>) d'" by (auto simp: handled_def)
  have r: "rows d' i = rows d i + (if i = ee_ID ev then 1 else 0)" for i
    using writes_one [OF t(2), of i] o t(1) by (simp add: rows_markers once_each_def)
  have p: "processed_events d' = ins (name, ee_ID ev) t (processed_events d)"
    using writes_markers [OF t(2)] by simp
  show "once_each name rows d'"
    using o t(1) unfolding once_each_def p r by (auto simp: sel_ins split: option.splits)
qed

lemma handled_marker: "handled writes name ev d d' \<Longrightarrow> sel (processed_events d') (name, ee_ID ev) \<noteq> None"
  unfolding handled_def by (auto simp: writes_markers [where d' = d'])

lemma process_body_tx_only: "tx_only (process_body name i (effect ev))"
  unfolding process_body_def claim_event_def by (intro tx_only_bindE) (auto intro: tx_only_bindE effect_tx_only)

lemma process_body_Inr:
  assumes "run (process_body name (ee_ID ev) (effect ev)) w = (Inr en, w')"
  shows "en = Return False \<and> sel (processed_events (view w)) (name, ee_ID ev) \<noteq> None
    \<or> en = Commit True \<and> handled writes name ev (view w) (view w')"
proof -
  from assms obtain n w1 where c: "run (claim_event name (ee_ID ev)) w = (Inr n, w1)" and
    k: "n = 0 \<and> en = Return False \<or> n \<noteq> 0 \<and> en = Commit True \<and> run (effect ev) w1 = (Inr (), w')"
    by (auto simp: process_body_def run_bindE_Inr split: if_splits)
  from c have "n = 0 \<and> sel (processed_events (view w)) (name, ee_ID ev) \<noteq> None
    \<or> n = 1 \<and> sel (processed_events (view w)) (name, ee_ID ev) = None
        \<and> view w1 = (view w)\<lparr>processed_events := ins (name, ee_ID ev) (txnow w) (processed_events (view w))\<rparr>"
    by (auto simp: claim_event_def tx_stmt_Inr pg_text_Inr split: if_splits)
  with k show ?thesis using effect_writes [of ev w1 w'] by (auto simp: handled_def)
qed

text \<open>One attempt: it handles the event, finds it handled, or changes nothing.\<close>

lemma ProcessOnce_run:
  assumes "run (InboxRepository_ProcessOnce name (ee_ID ev) (effect ev)) w = (res, w')"
  shows "wenv w' = wenv w \<and> world.more w' = world.more w
    \<and> ((base w' = base w \<and> ((\<exists>err. res = Inl err) \<or> res = Inr False \<and> sel (processed_events (base w)) (name, ee_ID ev) \<noteq> None))
       \<or> handled writes name ev (base w) (base w') \<and> (res = Inr True \<or> res = Inl lost_ack))"
  using assms [unfolded InboxRepository_ProcessOnce_def] process_body_tx_only
proof (cases rule: in_tx_or_cases)
  case (failed e)
  then show ?thesis by simp
next
  case (returned a w1)
  with process_body_Inr [OF returned(1)] show ?thesis by simp
next
  case (committed a w1)
  with process_body_Inr [OF committed(1)] show ?thesis by auto
qed

end

subsection \<open>The two groups\<close>

definition notifications_of :: "db \<Rightarrow> int \<Rightarrow> nat" where
  "notifications_of d i = count_rows (\<lambda>r. n_event_id r = i) (notifications d)"

definition audits_of :: "db \<Rightarrow> int \<Rightarrow> nat" where
  "audits_of d i = count_rows (\<lambda>r. a_event_id r = i) (audit_log d)"

definition notifies :: "string \<Rightarrow> EventEnvelope \<Rightarrow> db \<Rightarrow> db \<Rightarrow> bool" where
  "notifies msg ev d d' \<longleftrightarrow> (\<exists>k t. sel (notifications d) k = None \<and> d' = d\<lparr>notifications := ins k
     \<lparr>n_event_id = ee_ID ev, n_event_type = ee_EventType ev, n_message = msg, n_created_at = t\<rparr> (notifications d)\<rparr>)"

definition audits :: "EventEnvelope \<Rightarrow> db \<Rightarrow> db \<Rightarrow> bool" where
  "audits ev d d' \<longleftrightarrow> (if audited (ee_ID ev) (audit_log d) then d' = d
     else \<exists>k t aid. sel (audit_log d) k = None \<and> d' = d\<lparr>audit_log := ins k
       \<lparr>a_event_id = ee_ID ev, a_event_type = ee_EventType ev, a_aggregate_type = ee_AggregateType ev,
        a_aggregate_id = aid, a_payload = ee_Payload ev, a_occurred_at = ee_OccurredAt ev, a_recorded_at = t\<rparr>
       (audit_log d)\<rparr>)"

lemma audited_count: "audited i t \<longleftrightarrow> 0 < count_rows (\<lambda>r. a_event_id r = i) t"
  by (auto simp: audited_def list_ex_iff count_rows_pos)

interpretation notifier: side_effect "\<lambda>ev. NotificationWriter (ee_ID ev) (ee_EventType ev) (msg ev)"
  "\<lambda>ev. notifies (msg ev) ev" notifications_of for msg :: "EventEnvelope \<Rightarrow> string"
proof
  fix ev :: EventEnvelope and w w' :: "'m world_scheme"
  assume "run (NotificationWriter (ee_ID ev) (ee_EventType ev) (msg ev)) w = (Inr (), w')"
  then show "notifies (msg ev) ev (view w) (view w')"
    by (auto simp: NotificationWriter_def tx_stmt_Inr pg_text_Inr notifies_def Let_def split: if_splits)
qed (auto simp: NotificationWriter_def notifies_def notifications_of_def)

interpretation auditor: side_effect audit_Writer audits audits_of
proof
  fix ev :: EventEnvelope and w w' :: "'m world_scheme"
  assume "run (audit_Writer ev) w = (Inr (), w')"
  then show "audits ev (view w) (view w')"
    by (auto simp: audit_Writer_def tx_stmt_Inr pg_text_Inr cast_uuid_Inr audits_def Let_def split: if_splits)
qed (auto simp: audit_Writer_def audits_def audits_of_def audited_count split: if_splits)

end
