(* ===== verification/Consumer.thy ===== *)
theory Consumer
  imports Inbox
begin

text \<open>
  The event consumer (\<^verbatim>\<open>internal/consumer\<close>, wired in \<^verbatim>\<open>cmd/consumer\<close>): fetch a message, handle it
  through the inbox with bounded retries, send it to the dead-letter topic when it cannot be handled,
  commit its offset. The consumer's world is a database and a broker whose topic is the dead-letter
  topic; the messages of the event topic are the arguments, in the order \<open>FetchMessage\<close> returns them.
\<close>

section \<open>The process\<close>

record message =
  msg_Key :: string
  msg_Value :: wire
  msg_Offset :: nat

record consuming = kafka +
  ctx_done :: "nat \<Rightarrow> bool" \<comment> \<open>the context is cancelled before wait \<open>n\<close> is over\<close>
  slept :: "int list" \<comment> \<open>the waits so far, in milliseconds\<close>
  commit_answer :: "nat \<Rightarrow> broker_answer"
  commits :: nat
  committed :: "nat list"

type_synonym ('m, 'a) consume = "('m consuming_ext kafka_ext world_scheme, 'a) script"

record 'm Consumer =
  cs_name :: string
  cs_effect :: "EventEnvelope \<Rightarrow> ('m consuming_ext kafka_ext, unit) tx"
  cs_dlq :: "(string \<Rightarrow> wire \<Rightarrow> ('m consuming_ext kafka_ext, unit) tx) option" \<comment> \<open>\<open>None\<close> is nil\<close>

definition maxAttempts :: nat where "maxAttempts = 3"
definition baseBackoff :: int where "baseBackoff = 500"

text \<open>\<open>select\<close> between the context and a timer: whether the context was first.\<close>

definition await :: "int \<Rightarrow> ('m, bool) consume" where
  "await ms = Stmt (\<lambda>w. (w\<lparr>slept := slept w @ [ms]\<rparr>, Done (ctx_done w (length (slept w)))))"

definition Consumer_deadLetter :: "'m Consumer \<Rightarrow> message \<Rightarrow> ('m, unit) consume" where
  "Consumer_deadLetter c m = (case cs_dlq c of
     None \<Rightarrow> Done ()
   | Some publish \<Rightarrow> bind (publish (msg_Key m) (msg_Value m)) (\<lambda>r. Done ()))"

text \<open>The attempts that are left; the number of the current one is counted from one.\<close>

fun attempt_loop :: "nat \<Rightarrow> 'm Consumer \<Rightarrow> message \<Rightarrow> EventEnvelope \<Rightarrow> ('m, unit) consume" where
  "attempt_loop 0 c m e = Consumer_deadLetter c m"
| "attempt_loop (Suc left) c m e =
     bind (InboxRepository_ProcessOnce (cs_name c) (ee_ID e) (cs_effect c e)) (\<lambda>r. case r of
       Inr processed \<Rightarrow> Done ()
     | Inl err \<Rightarrow>
         let attempt = maxAttempts - left
         in if attempt < maxAttempts
            then bind (await (int attempt * baseBackoff)) (\<lambda>done.
              if done then Done () else attempt_loop left c m e)
            else attempt_loop left c m e)"

definition Consumer_process :: "'m Consumer \<Rightarrow> message \<Rightarrow> ('m, unit) consume" where
  "Consumer_process c m = (case msg_Value m of
     Garbage raw \<Rightarrow> Consumer_deadLetter c m
   | Encoded e \<Rightarrow> attempt_loop maxAttempts c m e)"

text \<open>\<open>CommitMessages\<close>, whose error \<open>Run\<close> only logs.\<close>

definition commit_message :: "message \<Rightarrow> ('m, unit) consume" where
  "commit_message m = Stmt (\<lambda>w. let n = commits w; w' = w\<lparr>commits := Suc n\<rparr>
     in (case commit_answer w n of
           Refused err \<Rightarrow> w'
         | _ \<Rightarrow> w'\<lparr>committed := committed w @ [msg_Offset m]\<rparr>, Done ()))"

text \<open>\<open>Run\<close>, over the messages \<open>FetchMessage\<close> returns until it fails, and the error it fails with.\<close>

primrec Consumer_Run :: "'m Consumer \<Rightarrow> message list \<Rightarrow> go_error \<Rightarrow> ('m, go_error + unit) consume" where
  "Consumer_Run c [] err = throw err"
| "Consumer_Run c (m # ms) err =
     bind (Consumer_process c m) (\<lambda>_. bind (commit_message m) (\<lambda>_. Consumer_Run c ms err))"

definition NotificationMessage :: "EventEnvelope \<Rightarrow> string" where
  "NotificationMessage e =
     (if ee_EventType e = EventDispatchCreated then ''Unit dispatched (dispatch '' @ ee_AggregateID e @ '')''
      else if ee_EventType e = EventDispatchCompleted then ''Dispatch '' @ ee_AggregateID e @ '' completed''
      else if ee_EventType e = EventVictimAssigned
      then ''Victim '' @ ee_AggregateID e @ '' assigned to a shelter''
      else ee_EventType e @ '' ('' @ ee_AggregateID e @ '')'')"

section \<open>The two groups of \<^verbatim>\<open>cmd/consumer\<close>\<close>

definition notifierGroup :: string where "notifierGroup = ''crisislink-notifier''"
definition auditorGroup :: string where "auditorGroup = ''crisislink-auditor''"

definition notifier_consumer :: "'m Consumer" where
  "notifier_consumer = \<lparr>cs_name = notifierGroup,
     cs_effect = (\<lambda>e. NotificationWriter (ee_ID e) (ee_EventType e) (NotificationMessage e)),
     cs_dlq = Some KafkaPublisher_Publish\<rparr>"

definition auditor_consumer :: "'m Consumer" where
  "auditor_consumer = \<lparr>cs_name = auditorGroup, cs_effect = audit_Writer, cs_dlq = Some KafkaPublisher_Publish\<rparr>"

lemma consumer_simps [simp]:
  "cs_name notifier_consumer = notifierGroup" "cs_name auditor_consumer = auditorGroup"
  "cs_effect notifier_consumer e = NotificationWriter (ee_ID e) (ee_EventType e) (NotificationMessage e)"
  "cs_effect auditor_consumer e = audit_Writer e"
  "cs_dlq notifier_consumer = Some KafkaPublisher_Publish" "cs_dlq auditor_consumer = Some KafkaPublisher_Publish"
  by (simp_all add: notifier_consumer_def auditor_consumer_def)

end
