(* ===== verification/Consumer_Props.thy ===== *)
theory Consumer_Props
  imports Consumer
begin

text \<open>
  The properties of the consuming side: what happens to every fetched message, and, together with
  the relay, that an event written once is notified and audited at most once and never without
  having been recorded, however often it is published and delivered.
\<close>

section \<open>Handling one message\<close>

text \<open>What only grows while messages are handled, and what stays.\<close>

definition carries :: "'m consuming_ext kafka_ext world_scheme \<Rightarrow> 'm consuming_ext kafka_ext world_scheme \<Rightarrow> bool" where
  "carries w w' \<longleftrightarrow> wenv w' = wenv w \<and> broker w' = broker w \<and> ctx_done w' = ctx_done w
     \<and> set (topic w) \<subseteq> set (topic w') \<and> sends w \<le> sends w' \<and> length (slept w) \<le> length (slept w')
     \<and> keys (processed_events (base w)) \<subseteq> keys (processed_events (base w'))"

lemma carries_refl [simp]: "carries w w"
  by (simp add: carries_def)

lemma carries_trans: "carries w w1 \<Longrightarrow> carries w1 w' \<Longrightarrow> carries w w'"
  by (auto simp: carries_def)

text \<open>The ways a message can be done with: handled, dead-lettered, or, lost to this consumer, one
  whose dead letter the broker did not take, or one given up because the process was stopping.\<close>

definition undelivered :: "'m consuming_ext kafka_ext world_scheme \<Rightarrow> 'm consuming_ext kafka_ext world_scheme \<Rightarrow> bool" where
  "undelivered w w' \<longleftrightarrow> (\<exists>n. sends w \<le> n \<and> n < sends w' \<and> broker w n \<noteq> Acked)"

definition interrupted :: "'m consuming_ext kafka_ext world_scheme \<Rightarrow> 'm consuming_ext kafka_ext world_scheme \<Rightarrow> bool" where
  "interrupted w w' \<longleftrightarrow> (\<exists>n. length (slept w) \<le> n \<and> n < length (slept w') \<and> ctx_done w n)"

definition marked :: "string \<Rightarrow> message \<Rightarrow> db \<Rightarrow> bool" where
  "marked name m d \<longleftrightarrow> (\<exists>e. msg_Value m = Encoded e \<and> (name, ee_ID e) \<in> keys (processed_events d))"

definition settled :: "string \<Rightarrow> message \<Rightarrow> 'm consuming_ext kafka_ext world_scheme
    \<Rightarrow> 'm consuming_ext kafka_ext world_scheme \<Rightarrow> bool" where
  "settled name m w w' \<longleftrightarrow> marked name m (base w') \<or> (msg_Key m, msg_Value m) \<in> set (topic w')
     \<or> undelivered w w' \<or> interrupted w w'"

lemma settled_before: "settled name m w1 w' \<Longrightarrow> carries w w1 \<Longrightarrow> settled name m w w'"
  unfolding settled_def undelivered_def interrupted_def carries_def by (metis order_trans)

lemma settled_after: "settled name m w w1 \<Longrightarrow> carries w1 w' \<Longrightarrow> settled name m w w'"
  unfolding settled_def undelivered_def interrupted_def carries_def marked_def
  by (metis (no_types, lifting) order_less_le_trans subsetD)

lemma same_more:
  fixes w w' :: "'m consuming_ext kafka_ext world_scheme"
  assumes "world.more w' = world.more w"
  shows "topic w' = topic w \<and> sends w' = sends w \<and> broker w' = broker w \<and> ctx_done w' = ctx_done w
    \<and> slept w' = slept w \<and> committed w' = committed w \<and> commits w' = commits w \<and> commit_answer w' = commit_answer w"
  using assms by (cases w; cases w') (simp add: kafka.defs consuming.defs)

lemma deadLetter_run:
  fixes w w' :: "'m consuming_ext kafka_ext world_scheme"
  assumes "run (Consumer_deadLetter c m) w = ((), w')" and "cs_dlq c = Some KafkaPublisher_Publish"
  shows "base w' = base w \<and> committed w' = committed w \<and> carries w w' \<and> settled name m w w'"
  using assms
  by (auto simp: Consumer_deadLetter_def run_bind KafkaPublisher_Publish_def run_Stmt Let_def carries_def settled_def
      undelivered_def split: broker_answer.splits)

locale consumer_group =
  group: side_effect effect writes rows
  for effect :: "EventEnvelope \<Rightarrow> ('m consuming_ext kafka_ext, unit) tx" and writes rows +
  fixes c :: "'m Consumer"
  assumes runs_effect: "cs_effect c = effect" and has_dlq: "cs_dlq c = Some KafkaPublisher_Publish"
begin

lemma ProcessOnce_carries:
  assumes "run (InboxRepository_ProcessOnce (cs_name c) (ee_ID e) (effect e)) w = (r, w1)"
  shows "carries w w1 \<and> committed w1 = committed w \<and> slept w1 = slept w \<and> topic w1 = topic w
    \<and> (base w1 = base w \<or> handled writes (cs_name c) e (base w) (base w1))
    \<and> (\<forall>b. r = Inr b \<longrightarrow> (cs_name c, ee_ID e) \<in> keys (processed_events (base w1)))"
proof -
  note p = group.ProcessOnce_run [OF assms]
  have "keys (processed_events (base w)) \<subseteq> keys (processed_events (base w1))
    \<and> (cs_name c, ee_ID e) \<in> keys (processed_events (base w1))"
    if "handled writes (cs_name c) e (base w) (base w1)"
    using that group.writes_markers [where d' = "base w1"] by (auto simp: handled_def)
  with p same_more [of w1 w] show ?thesis
    by (auto simp: carries_def sel_None_iff dest: sel_Some_keys)
qed

lemma attempt_loop_run:
  assumes "run (attempt_loop n c m e) w = ((), w')" and "msg_Value m = Encoded e"
  shows "carries w w' \<and> committed w' = committed w \<and> settled (cs_name c) m w w'
    \<and> (base w' = base w \<or> handled writes (cs_name c) e (base w) (base w'))"
  using assms(1)
proof (induction n arbitrary: w)
  case 0
  with deadLetter_run [OF _ has_dlq, of m w w'] show ?case by simp
next
  case (Suc n)
  obtain r w1 where r: "run (InboxRepository_ProcessOnce (cs_name c) (ee_ID e) (effect e)) w = (r, w1)"
    by (cases "run (InboxRepository_ProcessOnce (cs_name c) (ee_ID e) (effect e)) w")
  note p = ProcessOnce_carries [OF r]
  show ?case
  proof (cases r)
    case (Inr b)
    with Suc.prems r p assms(2) show ?thesis
      by (auto simp: run_bind runs_effect settled_def marked_def)
  next
    case (Inl err)
    let ?w2 = "w1\<lparr>slept := slept w1 @ [int (maxAttempts - n) * baseBackoff]\<rparr>"
    from p have c2: "carries w ?w2" by (simp add: carries_def)
    have go: ?thesis if "run (attempt_loop n c m e) w3 = ((), w')" "w3 = w1 \<or> w3 = ?w2" for w3
    proof -
      from that(2) p c2 have c3: "carries w w3" "base w3 = base w1" "committed w3 = committed w" by auto
      note ih = Suc.IH [OF that(1)]
      have "\<not> handled writes (cs_name c) e (base w3) (base w')" if "handled writes (cs_name c) e (base w) (base w1)"
        using group.handled_marker [OF that] c3(2) by (simp add: handled_def)
      with ih c3 p show ?thesis by (metis carries_trans settled_before)
    qed
    show ?thesis
    proof (cases "maxAttempts - n < maxAttempts \<and> ctx_done w1 (length (slept w1))")
      case True
      with Suc.prems r Inl have "w' = ?w2" by (simp add: run_bind runs_effect await_def run_Stmt Let_def)
      moreover have "ctx_done w (length (slept w))" using True p by (simp add: carries_def)
      ultimately show ?thesis using p c2 by (auto simp: settled_def interrupted_def)
    next
      case False
      with Suc.prems r Inl have "\<exists>w3. run (attempt_loop n c m e) w3 = ((), w') \<and> (w3 = w1 \<or> w3 = ?w2)"
        by (auto simp: run_bind runs_effect await_def run_Stmt Let_def split: if_splits)
      with go show ?thesis by blast
    qed
  qed
qed

lemma process_run:
  assumes "run (Consumer_process c m) w = ((), w')"
  shows "carries w w' \<and> committed w' = committed w \<and> settled (cs_name c) m w w'
    \<and> (base w' = base w \<or> (\<exists>e. msg_Value m = Encoded e \<and> handled writes (cs_name c) e (base w) (base w')))"
proof (cases "msg_Value m")
  case (Encoded e)
  with assms have "run (attempt_loop maxAttempts c m e) w = ((), w')" by (simp add: Consumer_process_def)
  from attempt_loop_run [OF this Encoded] Encoded show ?thesis by blast
next
  case (Garbage raw)
  with assms deadLetter_run [OF _ has_dlq, of m w w'] show ?thesis by (simp add: Consumer_process_def)
qed

lemma Run_run:
  assumes "run (Consumer_Run c ms err) w = (res, w')"
  shows "res = Inl err \<and> carries w w' \<and> (\<forall>m\<in>set ms. settled (cs_name c) m w w')
    \<and> set (committed w') \<subseteq> set (committed w) \<union> msg_Offset ` set ms"
  using assms
proof (induction ms arbitrary: w)
  case Nil
  then show ?case by auto
next
  case (Cons m ms)
  obtain w1 where 1: "run (Consumer_process c m) w = ((), w1)" by (cases "run (Consumer_process c m) w") auto
  obtain w2 where 2: "run (commit_message m) w1 = ((), w2)" by (cases "run (commit_message m) w1") auto
  note p = process_run [OF 1]
  have c: "carries w1 w2 \<and> set (committed w2) \<subseteq> insert (msg_Offset m) (set (committed w1))"
    using 2 by (auto simp: commit_message_def run_Stmt Let_def carries_def split: broker_answer.splits)
  from Cons.prems 1 2 have "run (Consumer_Run c ms err) w2 = (res, w')" by (simp add: run_bind)
  from Cons.IH [OF this] have ih: "res = Inl err" "carries w2 w'" "\<forall>m\<in>set ms. settled (cs_name c) m w2 w'"
    "set (committed w') \<subseteq> set (committed w2) \<union> msg_Offset ` set ms" by blast+
  from p c have c2: "carries w w2" by (blast intro: carries_trans)
  have "settled (cs_name c) m w w'" using p c ih(2) by (blast intro: settled_after carries_trans)
  moreover have "\<forall>m\<in>set ms. settled (cs_name c) m w w'" using ih(3) c2 by (blast intro: settled_before)
  ultimately show ?case using ih c c2 p carries_trans [OF c2 ih(2)] by auto
qed

end

interpretation notifier_group: consumer_group
  "\<lambda>e. NotificationWriter (ee_ID e) (ee_EventType e) (NotificationMessage e)" "\<lambda>e. notifies (NotificationMessage e) e"
  notifications_of notifier_consumer
  by (intro consumer_group.intro consumer_group_axioms.intro notifier.side_effect_axioms) (auto simp: notifier_consumer_def)

interpretation auditor_group: consumer_group audit_Writer audits audits_of auditor_consumer
  by (intro consumer_group.intro consumer_group_axioms.intro auditor.side_effect_axioms) (auto simp: auditor_consumer_def)

end
