(* ===== verification/Pipeline.thy ===== *)
theory Pipeline
  imports Consumer_Props Dispatch_Props
begin

text \<open>
  The event pipeline as a whole: transactions record events, the relay publishes them, the two
  consumer groups handle whatever the topic holds, in any order and any number of times. A state is
  the database and the event topic; each step runs one component's own operation in a world of its
  own, with its own faults.
\<close>

section \<open>What a batch sends\<close>

context publisher
begin

text \<open>What every publish of the loop keeps of the rest of the world, the loop keeps.\<close>

lemma loop_more:
  assumes same: "\<And>w w'. world.more w = world.more w' \<Longrightarrow> P w \<Longrightarrow> P w'"
    and "\<And>ev w r w'. ev \<in> set evs \<Longrightarrow> run (publish ev) w = (r, w') \<Longrightarrow> P w \<Longrightarrow> P w'"
    and "run (publish_loop publish res ids evs) w = (r, w')" and "P w"
  shows "P w'"
  using assms(2-)
proof (induction evs arbitrary: res ids w)
  case Nil
  then show ?case by simp
next
  case (Cons ev evs)
  obtain p w1 where p: "run (publish ev) w = (p, w1)" by (cases "run (publish ev) w")
  from Cons.prems(1) [OF _ p] Cons.prems(3) have 1: "P w1" by simp
  note IH = Cons.IH [OF Cons.prems(1)]
  show ?case
  proof (cases p)
    case (Inr u)
    with Cons.prems(2) p 1 show ?thesis by (auto simp: run_bind intro: IH)
  next
    case (Inl err)
    obtain m w2 where m: "run (markFailed (oe_ID ev) (oe_Attempts ev) err) w1 = (m, w2)"
      by (cases "run (markFailed (oe_ID ev) (oe_Attempts ev) err) w1")
    from tx_onlyD [OF markFailed_tx_only m] same [of w1 w2] 1 have 2: "P w2" by simp
    with Inl p m Cons.prems(2) show ?thesis
      by (cases m) (auto simp: run_bind run_bindE intro: IH)
  qed
qed

lemma body_more:
  assumes same: "\<And>w w'. world.more w = world.more w' \<Longrightarrow> P w \<Longrightarrow> P w'"
    and "\<And>kr w r w'. kr \<in> set (outbox_events (view w0)) \<Longrightarrow> run (publish (scanOutbox kr)) w = (r, w')
      \<Longrightarrow> P w \<Longrightarrow> P w'"
    and "run (publish_body limit publish) w0 = (r, w')" and "P w0"
  shows "P w'"
proof -
  obtain c w1 where c: "run (tx_stmt (claim_stmt limit)) w0 = (c, w1)" by (cases "run (tx_stmt (claim_stmt limit)) w0")
  note f1 = tx_onlyD [OF tx_only_tx_stmt c]
  show ?thesis
  proof (cases c)
    case (Inl e)
    with assms(3,4) c f1 same [of w0 w1] show ?thesis by (simp add: publish_body_def run_bindE)
  next
    case (Inr evs)
    with c claim_Inr obtain rows where rows: "claim_rows limit (wenv w0) (pc w0) (txnow w0) (view w0) = Inr rows"
      and evs: "evs = map scanOutbox rows" by blast
    have sub: "set rows \<subseteq> set (outbox_events (view w0))" using claim_rows_in [OF rows] by auto
    obtain l w2 where l: "run (publish_loop publish (no_result\<lparr>pr_Claimed := length evs\<rparr>) [] evs) w1 = (l, w2)"
      by (cases "run (publish_loop publish (no_result\<lparr>pr_Claimed := length evs\<rparr>) [] evs) w1")
    have 1: "P w1" using same [of w0 w1] assms(4) f1 by simp
    have "P w'" if "ev \<in> set evs" "run (publish ev) w = (r, w')" "P w" for ev w r w'
    proof -
      from that(1) evs sub obtain kr where "ev = scanOutbox kr" "kr \<in> set (outbox_events (view w0))" by auto
      with assms(2) that(2,3) show ?thesis by blast
    qed
    from loop_more [of P, OF same this l 1] have 2: "P w2" .
    have "tx_only (if length ids > 0 then bindE (mark_published ids) (\<lambda>_. ok (res1\<lparr>pr_Published := length ids\<rparr>))
          else ok res1)" for ids and res1 :: PublishResult
      by (auto simp: mark_published_def intro!: tx_only_bindE)
    note f3 = tx_onlyD [OF this]
    from assms(3) c Inr l have "w' = w2 \<or> world.more w2 = world.more w'"
      by (auto simp: publish_body_def run_bindE simp del: length_greater_0_conv
          split: sum.splits dest!: f3 simp: prod.case_eq_if)
    with 2 same show ?thesis by blast
  qed
qed

end

definition wire_of :: "int \<times> outbox_row \<Rightarrow> string \<times> wire" where
  "wire_of kr = (o_aggregate_id (snd kr), Encoded (envelope_of (scanOutbox kr)))"

lemma PublishBatch_topic:
  fixes w w' :: "'a kafka_ext world_scheme"
  assumes "run (OutboxRepository_PublishBatch batch Relay_publish) w = (r, w')"
  shows "set (topic w') \<subseteq> set (topic w) \<union> wire_of ` set (outbox_events (base w))"
proof -
  define P where "P w1 \<longleftrightarrow> set (topic w1) \<subseteq> set (topic w) \<union> wire_of ` set (outbox_events (base w))"
    for w1 :: "'a kafka_ext world_scheme"
  have same: "P w2" if "world.more w1 = world.more w2" "P w1" for w1 w2
    using that by (cases w1; cases w2) (simp add: P_def kafka.defs)
  have step: "P w2" if "kr \<in> set (outbox_events (view (begun w)))" "run (Relay_publish (scanOutbox kr)) w1 = (r1, w2)" "P w1"
    for kr w1 r1 w2
  proof -
    have "(o_aggregate_id (snd kr), Encoded (envelope_of (scanOutbox kr))) \<in> wire_of ` set (outbox_events (base w))"
      using that(1) by (force simp: wire_of_def)
    with that(2,3) show ?thesis
      by (cases kr) (auto simp: run_Relay_publish P_def Let_def split: broker_answer.splits)
  qed
  have start: "P (begun w)" by (rule same [of w]) (simp_all add: P_def)
  have body: "P w1" if "run (publish_body batch Relay_publish) (begun w) = (r1, w1)" for r1 w1
    by (rule relay.body_more [of P, OF same step that start])
  from assms [unfolded OutboxRepository_PublishBatch_def] have "P w'"
  proof (rule in_tx_frame)
    fix r1 w1 assume "run (publish_body batch Relay_publish) (begun w) = (r1, w1)"
    from relay.body_frame [OF this] show "base w1 = base w \<and> wenv w1 = wenv w" by simp
  next
    assume m: "world.more w' = world.more w"
    have "P w" by (simp add: P_def)
    with same [OF m [symmetric]] show "P w'" .
  next
    fix r1 w1 assume b: "run (publish_body batch Relay_publish) (begun w) = (r1, w1)" and m: "world.more w' = world.more w1"
    from same [OF m [symmetric] body [OF b]] show "P w'" .
  next
    fix a w1 assume b: "run (publish_body batch Relay_publish) (begun w) = (Inr a, w1)" and m: "world.more w' = world.more w1"
    from same [OF m [symmetric] body [OF b]] show "P w'" .
  qed
  then show ?thesis by (simp add: P_def)
qed


section \<open>Steps of the pipeline\<close>

text \<open>What an event says does not change once it is recorded, only its bookkeeping does.\<close>

definition same_event :: "outbox_row \<Rightarrow> outbox_row \<Rightarrow> bool" where
  "same_event r r' \<longleftrightarrow> o_aggregate_type r' = o_aggregate_type r \<and> o_aggregate_id r' = o_aggregate_id r
     \<and> o_event_type r' = o_event_type r \<and> o_payload r' = o_payload r \<and> o_created_at r' = o_created_at r"

definition keeps_events :: "db \<Rightarrow> db \<Rightarrow> bool" where
  "keeps_events d d' \<longleftrightarrow> (pkey (outbox_events d) \<longrightarrow> pkey (outbox_events d'))
     \<and> (\<forall>k r. sel (outbox_events d) k = Some r \<longrightarrow> (\<exists>r'. sel (outbox_events d') k = Some r' \<and> same_event r r'))"

definition same_inbox :: "db \<Rightarrow> db \<Rightarrow> bool" where
  "same_inbox d d' \<longleftrightarrow> processed_events d' = processed_events d \<and> notifications d' = notifications d
     \<and> audit_log d' = audit_log d"

text \<open>A transaction of any module may record events; it never edits one, nor the consumers' tables.\<close>

inductive pipeline_step :: "db \<times> (string \<times> wire) list \<Rightarrow> db \<times> (string \<times> wire) list \<Rightarrow> bool" where
  record_events: "keeps_events d d' \<Longrightarrow> same_inbox d d' \<Longrightarrow> pipeline_step (d, tp) (d', tp)"
| publish: "run (OutboxRepository_PublishBatch batch Relay_publish) (w :: kafka) = (r, w')
    \<Longrightarrow> pipeline_step (base w, topic w) (base w', topic w')"
| notify: "(msg_Key m, msg_Value m) \<in> set tp
    \<Longrightarrow> run (Consumer_process notifier_consumer m) (v :: consuming) = ((), v')
    \<Longrightarrow> pipeline_step (base v, tp) (base v', tp)"
| audit: "(msg_Key m, msg_Value m) \<in> set tp
    \<Longrightarrow> run (Consumer_process auditor_consumer m) (v :: consuming) = ((), v')
    \<Longrightarrow> pipeline_step (base v, tp) (base v', tp)"

section \<open>The invariant\<close>

definition recorded :: "db \<Rightarrow> EventEnvelope \<Rightarrow> bool" where
  "recorded d e \<longleftrightarrow> (\<exists>r. sel (outbox_events d) (ee_ID e) = Some r \<and> e = envelope_of (scanOutbox (ee_ID e, r)))"

definition genuine_note :: "db \<Rightarrow> notification_row \<Rightarrow> bool" where
  "genuine_note d n \<longleftrightarrow> (\<exists>e. recorded d e \<and> n_event_id n = ee_ID e \<and> n_event_type n = ee_EventType e
     \<and> n_message n = NotificationMessage e)"

definition genuine_entry :: "db \<Rightarrow> audit_row \<Rightarrow> bool" where
  "genuine_entry d a \<longleftrightarrow> (\<exists>e. recorded d e \<and> a_event_id a = ee_ID e \<and> a_event_type a = ee_EventType e
     \<and> a_aggregate_type a = ee_AggregateType e \<and> a_payload a = ee_Payload e \<and> a_occurred_at a = ee_OccurredAt e)"

definition pipeline_inv :: "db \<times> (string \<times> wire) list \<Rightarrow> bool" where
  "pipeline_inv s \<longleftrightarrow> (case s of (d, tp) \<Rightarrow> pkey (outbox_events d)
     \<and> (\<forall>k e. (k, Encoded e) \<in> set tp \<longrightarrow> recorded d e)
     \<and> once_each notifierGroup notifications_of d \<and> once_each auditorGroup audits_of d
     \<and> (\<forall>k n. (k, n) \<in> set (notifications d) \<longrightarrow> genuine_note d n)
     \<and> (\<forall>k a. (k, a) \<in> set (audit_log d) \<longrightarrow> genuine_entry d a))"

lemma recorded_keeps:
  assumes "keeps_events d d'" and "recorded d e"
  shows "recorded d' e"
proof -
  from assms obtain r r' where r: "e = envelope_of (scanOutbox (ee_ID e, r))" and
    r': "sel (outbox_events d') (ee_ID e) = Some r'" "same_event r r'"
    unfolding recorded_def keeps_events_def by blast
  have "envelope_of (scanOutbox (ee_ID e, r')) = envelope_of (scanOutbox (ee_ID e, r))"
    using r'(2) by (simp add: envelope_of_def scanOutbox_def same_event_def)
  with r r' show ?thesis unfolding recorded_def by auto
qed

lemma pipeline_inv_keeps:
  "keeps_events d d' \<Longrightarrow> same_inbox d d' \<Longrightarrow> pipeline_inv (d, tp) \<Longrightarrow> pipeline_inv (d', tp)"
proof -
  assume k: "keeps_events d d'" and s: "same_inbox d d'" and i: "pipeline_inv (d, tp)"
  have "genuine_note d n \<Longrightarrow> genuine_note d' n" "genuine_entry d a \<Longrightarrow> genuine_entry d' a" for n a
    unfolding genuine_note_def genuine_entry_def using recorded_keeps [OF k] by blast+
  with k s i recorded_keeps [OF k] show "pipeline_inv (d', tp)"
    unfolding pipeline_inv_def same_inbox_def keeps_events_def once_each_def notifications_of_def audits_of_def
    by (simp only: prod.case) blast
qed

lemma wire_of_recorded: "pkey (outbox_events d) \<Longrightarrow> (k, Encoded e) \<in> wire_of ` set (outbox_events d) \<Longrightarrow> recorded d e"
  by (auto simp: wire_of_def recorded_def envelope_of_def in_iff_sel)

lemma batch_keeps_events:
  assumes "run (OutboxRepository_PublishBatch batch Relay_publish) w = (r, w')" and p: "pkey (outbox_events (base w))"
  shows "keeps_events (base w) (base w') \<and> same_inbox (base w) (base w')"
  using assms(1)
proof (cases rule: PublishBatch_cases)
  case (unchanged e)
  then show ?thesis by (simp add: keeps_events_def same_inbox_def same_event_def)
next
  case (committed eos)
  have "pkey (outbox_events (base w'))" "same_inbox (base w) (base w')"
    using committed(1) p by (simp_all add: batch_effect_def same_inbox_def)
  moreover have "\<exists>q'. sel (outbox_events (base w')) k = Some q' \<and> same_event q q'"
    if "sel (outbox_events (base w)) k = Some q" for k q
    using effect_row [OF committed(1) p that]
    by (auto simp: same_event_def publish_row_def fail_row_def split: if_splits)
  ultimately show ?thesis by (simp add: keeps_events_def)
qed

text \<open>One group's step keeps the other group's tables and markers.\<close>

lemma notify_effect:
  assumes "handled (\<lambda>e. notifies (NotificationMessage e) e) notifierGroup e d d'"
  shows "outbox_events d' = outbox_events d \<and> audit_log d' = audit_log d
    \<and> (\<forall>i. sel (processed_events d') (auditorGroup, i) = sel (processed_events d) (auditorGroup, i))
    \<and> (\<forall>k n. (k, n) \<in> set (notifications d') \<longrightarrow> (k, n) \<in> set (notifications d)
         \<or> n_event_id n = ee_ID e \<and> n_event_type n = ee_EventType e \<and> n_message n = NotificationMessage e)"
  using assms by (auto simp: handled_def notifies_def in_ins sel_ins notifierGroup_def auditorGroup_def split: option.split)

lemma audit_effect:
  assumes "handled audits auditorGroup e d d'"
  shows "outbox_events d' = outbox_events d \<and> notifications d' = notifications d
    \<and> (\<forall>i. sel (processed_events d') (notifierGroup, i) = sel (processed_events d) (notifierGroup, i))
    \<and> (\<forall>k a. (k, a) \<in> set (audit_log d') \<longrightarrow> (k, a) \<in> set (audit_log d)
         \<or> a_event_id a = ee_ID e \<and> a_event_type a = ee_EventType e \<and> a_aggregate_type a = ee_AggregateType e
           \<and> a_payload a = ee_Payload e \<and> a_occurred_at a = ee_OccurredAt e)"
  using assms
  by (auto simp: handled_def audits_def in_ins sel_ins notifierGroup_def auditorGroup_def split: option.split if_splits)


lemma notify_step_inv:
  assumes "(msg_Key m, msg_Value m) \<in> set tp" and "run (Consumer_process notifier_consumer m) v = ((), v')"
    and inv: "pipeline_inv (base v, tp)"
  shows "pipeline_inv (base v', tp)"
proof -
  from notifier_group.process_run [OF assms(2)] consider "base v' = base v"
    | e where "msg_Value m = Encoded e" "handled (\<lambda>e. notifies (NotificationMessage e) e) notifierGroup e (base v) (base v')"
    by auto
  then show ?thesis
  proof cases
    case 2
    note f = notify_effect [OF 2(2)]
    have "recorded (base v) e" using assms(1) inv 2(1) by (auto simp: pipeline_inv_def)
    then have "genuine_note (base v') n" if "(k, n) \<in> set (notifications (base v'))" for k n
      using f that inv unfolding pipeline_inv_def genuine_note_def recorded_def prod.case by metis
    moreover have "genuine_entry (base v') a" if "(k, a) \<in> set (audit_log (base v'))" for k a
      using f that inv unfolding pipeline_inv_def genuine_entry_def recorded_def prod.case by metis
    moreover have "once_each notifierGroup notifications_of (base v')"
      using notifier.handled_once [OF 2(2)] inv by (simp add: pipeline_inv_def)
    moreover have "once_each auditorGroup audits_of (base v')"
      using f inv by (simp add: pipeline_inv_def once_each_def audits_of_def)
    ultimately show ?thesis using f inv by (simp add: pipeline_inv_def recorded_def)
  qed (use inv in simp)
qed

lemma audit_step_inv:
  assumes "(msg_Key m, msg_Value m) \<in> set tp" and "run (Consumer_process auditor_consumer m) v = ((), v')"
    and inv: "pipeline_inv (base v, tp)"
  shows "pipeline_inv (base v', tp)"
proof -
  from auditor_group.process_run [OF assms(2)] consider "base v' = base v"
    | e where "msg_Value m = Encoded e" "handled audits auditorGroup e (base v) (base v')"
    by auto
  then show ?thesis
  proof cases
    case 2
    note f = audit_effect [OF 2(2)]
    have "recorded (base v) e" using assms(1) inv 2(1) by (auto simp: pipeline_inv_def)
    then have "genuine_entry (base v') a" if "(k, a) \<in> set (audit_log (base v'))" for k a
      using f that inv unfolding pipeline_inv_def genuine_entry_def recorded_def prod.case by metis
    moreover have "genuine_note (base v') n" if "(k, n) \<in> set (notifications (base v'))" for k n
      using f that inv unfolding pipeline_inv_def genuine_note_def recorded_def prod.case by metis
    moreover have "once_each auditorGroup audits_of (base v')"
      using auditor.handled_once [OF 2(2)] inv by (simp add: pipeline_inv_def)
    moreover have "once_each notifierGroup notifications_of (base v')"
      using f inv by (simp add: pipeline_inv_def once_each_def notifications_of_def)
    ultimately show ?thesis using f inv by (simp add: pipeline_inv_def recorded_def)
  qed (use inv in simp)
qed

lemma pipeline_step_inv: "pipeline_step s s' \<Longrightarrow> pipeline_inv s \<Longrightarrow> pipeline_inv s'"
proof (induction rule: pipeline_step.induct)
  case (record_events d d' tp)
  then show ?case by (rule pipeline_inv_keeps)
next
  case (publish batch w r w')
  have p: "pkey (outbox_events (base w))" using publish.prems by (simp add: pipeline_inv_def)
  note k = batch_keeps_events [OF publish.hyps p]
  have "recorded (base w') e" if "(k, Encoded e) \<in> set (topic w')" for k e
  proof -
    from that PublishBatch_topic [OF publish.hyps]
    have "(k, Encoded e) \<in> set (topic w) \<or> (k, Encoded e) \<in> wire_of ` set (outbox_events (base w))" by blast
    then have "recorded (base w) e" using wire_of_recorded [OF p] publish.prems by (auto simp: pipeline_inv_def)
    with k recorded_keeps show ?thesis by blast
  qed
  with pipeline_inv_keeps [of "base w" "base w'" "topic w"] k publish.prems show ?case
    by (simp add: pipeline_inv_def)
next
  case (notify m tp v v')
  then show ?case by (rule notify_step_inv)
next
  case (audit m tp v v')
  then show ?case by (rule audit_step_inv)
qed

lemma pipeline_steps_inv: "pipeline_step\<^sup>*\<^sup>* s s' \<Longrightarrow> pipeline_inv s \<Longrightarrow> pipeline_inv s'"
  by (induction rule: rtranclp_induct) (auto intro: pipeline_step_inv)

text \<open>Every dispatch transaction is such a recording step, so the pipeline's properties hold of
  histories in which dispatches are made, moved and reassigned.\<close>

lemma keeps_events_ins:
  "outbox_events d' = outbox_events d \<or> (\<exists>ek ev. sel (outbox_events d) ek = None \<and> outbox_events d' = ins ek ev (outbox_events d))
    \<Longrightarrow> keeps_events d d'"
  by (auto simp: keeps_events_def same_event_def pkey_ins sel_ins)

definition quiet :: "db \<Rightarrow> db \<Rightarrow> bool" where
  "quiet d d' \<longleftrightarrow> outbox_events d' = outbox_events d \<and> same_inbox d d'"

lemma quiet_puts [intro]:
  "quiet d d' \<Longrightarrow> quiet d (put_unit u st t d')" "quiet d d' \<Longrightarrow> quiet d (put_incident from i st t d')"
  "quiet d d' \<Longrightarrow> quiet d (add_dispatch k i u t d')" "quiet d d' \<Longrightarrow> quiet d (put_dispatch k st t d')" "quiet d d"
  "quiet d x \<Longrightarrow> quiet d y \<Longrightarrow> quiet d (if b then x else y)"
  by (simp_all add: quiet_def same_inbox_def put_unit_def put_incident_def add_dispatch_def put_dispatch_def)

lemma quiet_records: "quiet d d' \<Longrightarrow> keeps_events d d' \<and> same_inbox d d'"
  using keeps_events_ins [of d' d] by (simp add: quiet_def)

lemma quiet_add_event:
  "quiet d d' \<Longrightarrow> sel (outbox_events d) ek = None \<Longrightarrow> keeps_events d (add_event ek ev d') \<and> same_inbox d (add_event ek ev d')"
  using keeps_events_ins [of "add_event ek ev d'" d] by (auto simp: quiet_def same_inbox_def add_event_def)

lemma db_step_records:
  assumes "db_step e d d'"
  shows "keeps_events d d' \<and> same_inbox d d'"
  using assms
proof cases
  case none
  then show ?thesis using quiet_records by blast
next
  case reserves
  then show ?thesis by (auto simp only: reserves_def assigned_def intro!: quiet_add_event)
next
  case advances
  then obtain k r ek t new where d': "d' = advanced k r new ek t d"
    and ek: "new = DispatchCompleted \<longrightarrow> sel (outbox_events d) ek = None" unfolding advances_def by blast
  show ?thesis
  proof (cases "new = DispatchCompleted")
    case True
    with ek have "sel (outbox_events d) ek = None" by simp
    then show ?thesis unfolding d' advanced_def Let_def if_P [OF True]
      by (rule quiet_add_event [rotated]) blast
  next
    case False
    show ?thesis unfolding d' advanced_def Let_def if_not_P [OF False] by (rule quiet_records) blast
  qed
next
  case reassigns
  then obtain k r nk i y ev ek t where d': "d' = reassigned k r nk i y ev ek t d" and ek: "sel (outbox_events d) ek = None"
    unfolding reassigns_def by blast
  from ek show ?thesis unfolding d' reassigned_def Let_def
    by (rule quiet_add_event [rotated]) blast
qed

lemma dispatch_step_pipeline:
  "dispatch_step w w' \<Longrightarrow> uuid_ok (wenv w) \<Longrightarrow> canonical (wenv w) (base w) \<Longrightarrow> pipeline_step (base w, tp) (base w', tp)"
  using dispatch_step_db [of w w'] db_step_records by (blast intro: pipeline_step.record_events)

section \<open>Properties\<close>

text \<open>C21: exactly-once processing over at-least-once delivery. However often an event is published
  and its message delivered, to either consumer group, with any faults on the way, it has at most
  one notification and one audit entry; it has the notification exactly when its marker is set;
  and every notification and entry tells of an event that was recorded, in its words.\<close>

theorem events_processed_exactly_once:
  assumes "pipeline_step\<^sup>*\<^sup>* (d0, []) (d, tp)" and "pkey (outbox_events d0)"
    and "processed_events d0 = []" "notifications d0 = []" "audit_log d0 = []"
  shows "notifications_of d i \<le> 1 \<and> audits_of d i \<le> 1
    \<and> (notifications_of d i = 1 \<longleftrightarrow> sel (processed_events d) (notifierGroup, i) \<noteq> None)
    \<and> (audits_of d i = 1 \<longleftrightarrow> sel (processed_events d) (auditorGroup, i) \<noteq> None)
    \<and> (\<forall>k n. (k, n) \<in> set (notifications d) \<longrightarrow> genuine_note d n)
    \<and> (\<forall>k a. (k, a) \<in> set (audit_log d) \<longrightarrow> genuine_entry d a)"
proof -
  have "pipeline_inv (d0, [])"
    using assms(2-) by (simp add: pipeline_inv_def once_each_def notifications_of_def audits_of_def)
  from pipeline_steps_inv [OF assms(1) this]
  have "once_each notifierGroup notifications_of d" "once_each auditorGroup audits_of d"
    "\<forall>k n. (k, n) \<in> set (notifications d) \<longrightarrow> genuine_note d n" "\<forall>k a. (k, a) \<in> set (audit_log d) \<longrightarrow> genuine_entry d a"
    by (simp_all add: pipeline_inv_def)
  then show ?thesis by (simp add: once_each_def)
qed



text \<open>C23: delivery leads to notification. Where the database answers, one delivery of a message that
  can be stored leaves its event notified exactly once, whether it is the first or a repeated one,
  without waiting and without a dead letter.\<close>

theorem delivery_notifies:
  assumes "calm (wenv w)" and "msg_Value m = Encoded e"
    and "text_ok (ee_EventType e)" "text_ok (NotificationMessage e)"
    and "once_each notifierGroup notifications_of (base w)"
    and "sel (notifications (base w)) (nextval (wenv w) (pc w + 2)) = None"
  shows "\<exists>w'. run (Consumer_process notifier_consumer m) w = ((), w')
    \<and> notifications_of (base w') (ee_ID e) = 1 \<and> slept w' = slept w \<and> topic w' = topic w"
proof -
  let ?eff = "NotificationWriter (ee_ID e) (ee_EventType e) (NotificationMessage e)"
  have n: "text_ok notifierGroup" by (simp add: notifierGroup_def byte_in_def byte_def)
  have "\<exists>en w1. run (process_body notifierGroup (ee_ID e) ?eff) (begun w) = (Inr en, w1)"
    using assms n by (cases "sel (processed_events (base w)) (notifierGroup, ee_ID e)")
      (simp_all add: process_body_def claim_event_def NotificationWriter_def run_bindE run_tx_stmt pg_text_def Let_def)
  then obtain en w1 where "run (process_body notifierGroup (ee_ID e) ?eff) (begun w) = (Inr en, w1)" by blast
  moreover have "tx_only (process_body notifierGroup (ee_ID e) ?eff)" by (rule notifier.process_body_tx_only)
  ultimately obtain b w' where
    r: "run (InboxRepository_ProcessOnce notifierGroup (ee_ID e) ?eff) w = (Inr b, w')"
    using run_in_tx_or_calm [OF assms(1)] by (fastforce simp: InboxRepository_ProcessOnce_def)
  then have "run (Consumer_process notifier_consumer m) w = ((), w')"
    using assms(2) by (simp add: Consumer_process_def maxAttempts_def numeral_3_eq_3 run_bind)
  moreover have "notifications_of (base w') (ee_ID e) = 1"
  proof -
    from notifier_group.ProcessOnce_carries [of e w "Inr b" w'] r
    have p: "base w' = base w \<or> handled (\<lambda>e. notifies (NotificationMessage e) e) notifierGroup e (base w) (base w')"
      "(notifierGroup, ee_ID e) \<in> keys (processed_events (base w'))" by auto
    with assms(5) notifier.handled_once have "once_each notifierGroup notifications_of (base w')" by metis
    with p(2) show ?thesis by (simp add: once_each_def sel_None_iff)
  qed
  ultimately show ?thesis
    using notifier_group.ProcessOnce_carries [of e w "Inr b" w'] r by auto
qed

section \<open>Witnesses\<close>

text \<open>A recorded event, published, and a consumer to which its message is delivered twice.\<close>

definition pipe_db :: db where
  "pipe_db = empty_db\<lparr>outbox_events := [(7, sample_event)]\<rparr>"

definition pipe_published :: "(go_error + PublishResult) \<times> kafka" where
  "pipe_published = run (OutboxRepository_PublishBatch 2 Relay_publish) (kafka_start pipe_db (\<lambda>n. Acked))"

definition pipe_message :: message where
  "pipe_message = \<lparr>msg_Key = ''v1'', msg_Value = Encoded (envelope_of (scanOutbox (7, sample_event))), msg_Offset = 0\<rparr>"

text \<open>Its first commit of a transaction is not acknowledged.\<close>

definition consumer_start :: "db \<Rightarrow> consuming" where
  "consumer_start d = \<lparr>base = d, view = d, locks = {}, pc = 0, txnow = 0,
     wenv = sample_env\<lparr>ack_lost := (\<lambda>n. n = 3)\<rparr>, topic = [], sends = 0, broker = (\<lambda>n. Acked),
     ctx_done = (\<lambda>n. False), slept = [], commit_answer = (\<lambda>n. Acked), commits = 0, committed = []\<rparr>"

definition pipe_notified :: "(go_error + unit) \<times> consuming" where
  "pipe_notified = run (Consumer_Run notifier_consumer [pipe_message, pipe_message] (Other ''context canceled''))
     (consumer_start (base (snd pipe_published)))"

lemma pipe_facts: "(msg_Key pipe_message, msg_Value pipe_message) \<in> set (topic (snd pipe_published))"
  "committed (snd pipe_notified) = [0, 0]" "slept (snd pipe_notified) = [500]"
  "notifications_of (base (snd pipe_notified)) 7 = 1"
  by code_simp+


definition pipe_once :: "unit \<times> consuming" where
  "pipe_once = run (Consumer_process notifier_consumer pipe_message) (consumer_start (base (snd pipe_published)))"

lemma consumer_start_simps [simp]: "base (consumer_start d) = d" "wenv (consumer_start d) = sample_env\<lparr>ack_lost := (\<lambda>n. n = 3)\<rparr>"
  "pc (consumer_start d) = 0"
  by (simp_all add: consumer_start_def)

lemma pipe_steps: "pipeline_step\<^sup>*\<^sup>* (pipe_db, []) (base (snd pipe_once), topic (snd pipe_published))"
proof -
  have "run (OutboxRepository_PublishBatch 2 Relay_publish) (kafka_start pipe_db (\<lambda>n. Acked)) = (fst pipe_published, snd pipe_published)"
    by (simp add: pipe_published_def)
  from pipeline_step.publish [OF this]
  have "pipeline_step (pipe_db, []) (base (snd pipe_published), topic (snd pipe_published))" by (simp add: kafka_start_def)
  moreover have "run (Consumer_process notifier_consumer pipe_message) (consumer_start (base (snd pipe_published)))
      = ((), snd pipe_once)" by (simp add: pipe_once_def prod_eq_iff)
  from pipeline_step.notify [OF pipe_facts(1) this]
  have "pipeline_step (base (snd pipe_published), topic (snd pipe_published)) (base (snd pipe_once), topic (snd pipe_published))"
    by simp
  ultimately show ?thesis by (meson converse_rtranclp_into_rtranclp rtranclp.rtrancl_refl)
qed

lemma events_processed_exactly_once_witness:
  "pipeline_step\<^sup>*\<^sup>* (pipe_db, []) (base (snd pipe_once), topic (snd pipe_published))
    \<and> notifications_of (base (snd pipe_once)) 7 \<le> 1 \<and> audits_of (base (snd pipe_once)) 7 \<le> 1"
  using events_processed_exactly_once [OF pipe_steps, of 7] pipe_steps by (simp add: pipe_db_def empty_db_def pkey_def)


definition calm_consumer :: consuming where
  "calm_consumer = (consumer_start pipe_db)\<lparr>wenv := sample_env\<rparr>"

lemma delivery_notifies_witness:
  "\<exists>w'. run (Consumer_process notifier_consumer pipe_message) calm_consumer = ((), w') \<and> notifications_of (base w') 7 = 1"
proof -
  let ?e = "envelope_of (scanOutbox (7, sample_event))"
  have "text_ok (ee_EventType ?e)" "text_ok (NotificationMessage ?e)" "ee_ID ?e = 7" by code_simp+
  moreover have "once_each notifierGroup notifications_of (base calm_consumer)"
    "sel (notifications (base calm_consumer)) (nextval (wenv calm_consumer) (pc calm_consumer + 2)) = None"
    by (simp_all add: calm_consumer_def pipe_db_def empty_db_def once_each_def notifications_of_def)
  moreover have "calm (wenv calm_consumer)" by (simp add: calm_consumer_def)
  moreover have "msg_Value pipe_message = Encoded ?e" by (simp add: pipe_message_def)
  ultimately show ?thesis using delivery_notifies [of calm_consumer pipe_message ?e] by auto
qed

end
