(* ===== verification/Go_Strings.thy ===== *)
theory Go_Strings
  imports Common "HOL-Library.Sublist"
begin

text \<open>
  What the edge and configuration code uses of Go's \<^verbatim>\<open>strings\<close> and \<^verbatim>\<open>strconv\<close> packages, on byte
  strings: splitting and cutting at a byte, joining, trimming white space (every Unicode space in
  its UTF-8 encoding), lower case and decimal numbers.
\<close>

section \<open>Splitting\<close>

definition strings_HasPrefix :: "string \<Rightarrow> string \<Rightarrow> bool" where
  "strings_HasPrefix s p = prefix p s"

text \<open>\<open>strings.Cut\<close> at a single byte: what stands before and after its first occurrence.\<close>

definition strings_Cut :: "string \<Rightarrow> char \<Rightarrow> (string \<times> string) option" where
  "strings_Cut s c = (case dropWhile (\<lambda>x. x \<noteq> c) s of [] \<Rightarrow> None
     | _ # rest \<Rightarrow> Some (takeWhile (\<lambda>x. x \<noteq> c) s, rest))"

definition strings_SplitN2 :: "string \<Rightarrow> char \<Rightarrow> string list" where
  "strings_SplitN2 s c = (case strings_Cut s c of None \<Rightarrow> [s] | Some (a, b) \<Rightarrow> [a, b])"

fun strings_Split :: "string \<Rightarrow> char \<Rightarrow> string list" where
  "strings_Split [] c = [[]]"
| "strings_Split (x # xs) c =
     (if x = c then [] # strings_Split xs c
      else case strings_Split xs c of [] \<Rightarrow> [[x]] | p # ps \<Rightarrow> (x # p) # ps)"

fun strings_Join :: "string list \<Rightarrow> string \<Rightarrow> string" where
  "strings_Join [] sep = ''''"
| "strings_Join [s] sep = s"
| "strings_Join (s # ss) sep = s @ sep @ strings_Join ss sep"

lemma strings_Cut_append:
  "c \<notin> set a \<Longrightarrow> strings_Cut (a @ c # b) c = Some (a, b)"
proof -
  assume "c \<notin> set a"
  then have "dropWhile (\<lambda>x. x \<noteq> c) (a @ c # b) = c # b" "takeWhile (\<lambda>x. x \<noteq> c) (a @ c # b) = a"
    by (induction a) auto
  then show ?thesis by (simp add: strings_Cut_def)
qed

lemma strings_Cut_Some: "strings_Cut s c = Some (a, b) \<longleftrightarrow> s = a @ c # b \<and> c \<notin> set a"
proof
  assume "strings_Cut s c = Some (a, b)"
  then obtain x where d: "dropWhile (\<lambda>x. x \<noteq> c) s = x # b" and a: "a = takeWhile (\<lambda>x. x \<noteq> c) s"
    by (auto simp: strings_Cut_def split: list.splits)
  from d have "x = c" by (metis (mono_tags, lifting) hd_dropWhile list.sel(1) neq_Nil_conv)
  moreover have "s = takeWhile (\<lambda>x. x \<noteq> c) s @ dropWhile (\<lambda>x. x \<noteq> c) s" by simp
  ultimately have "s = a @ c # b" by (simp only: d a)
  moreover have "c \<notin> set a" by (auto simp: a dest: set_takeWhileD)
  ultimately show "s = a @ c # b \<and> c \<notin> set a" by simp
qed (simp add: strings_Cut_append)

lemma strings_SplitN2_pair: "strings_SplitN2 s c = [a, b] \<longleftrightarrow> s = a @ c # b \<and> c \<notin> set a"
proof -
  have "strings_SplitN2 s c = [a, b] \<longleftrightarrow> strings_Cut s c = Some (a, b)"
    by (auto simp: strings_SplitN2_def split: option.splits)
  then show ?thesis by (simp add: strings_Cut_Some)
qed

lemma strings_Split_nonempty [simp]: "strings_Split s c \<noteq> []"
  by (induction s) (auto split: list.splits)

section \<open>White space\<close>

text \<open>The runes of \<open>unicode.IsSpace\<close>, in UTF-8.\<close>

definition space_runes :: "string list" where
  "space_runes =
    [[CHR 0x09], [CHR 0x0A], [CHR 0x0B], [CHR 0x0C], [CHR 0x0D], [CHR 0x20], [CHR 0xC2, CHR 0x85],
     [CHR 0xC2, CHR 0xA0], [CHR 0xE1, CHR 0x9A, CHR 0x80], [CHR 0xE2, CHR 0x80, CHR 0x80],
     [CHR 0xE2, CHR 0x80, CHR 0x81], [CHR 0xE2, CHR 0x80, CHR 0x82],
     [CHR 0xE2, CHR 0x80, CHR 0x83], [CHR 0xE2, CHR 0x80, CHR 0x84],
     [CHR 0xE2, CHR 0x80, CHR 0x85], [CHR 0xE2, CHR 0x80, CHR 0x86],
     [CHR 0xE2, CHR 0x80, CHR 0x87], [CHR 0xE2, CHR 0x80, CHR 0x88],
     [CHR 0xE2, CHR 0x80, CHR 0x89], [CHR 0xE2, CHR 0x80, CHR 0x8A],
     [CHR 0xE2, CHR 0x80, CHR 0xA8], [CHR 0xE2, CHR 0x80, CHR 0xA9],
     [CHR 0xE2, CHR 0x80, CHR 0xAF], [CHR 0xE2, CHR 0x81, CHR 0x9F], [CHR 0xE3, CHR 0x80, CHR 0x80]]"

function trim_with :: "string list \<Rightarrow> string \<Rightarrow> string" where
  "trim_with ps s = (case find (\<lambda>p. p \<noteq> [] \<and> prefix p s) ps of
     None \<Rightarrow> s | Some p \<Rightarrow> trim_with ps (drop (length p) s))"
  by pat_completeness auto

termination
  by (relation "measure (\<lambda>(ps, s). length s)") (auto simp: find_Some_iff prefix_def)

declare trim_with.simps [simp del]

text \<open>A suffix of \<open>s\<close> is a prefix of \<open>rev s\<close>.\<close>

definition strings_TrimSpace :: "string \<Rightarrow> string" where
  "strings_TrimSpace s = rev (trim_with (map rev space_runes) (rev (trim_with space_runes s)))"

lemma trim_with_clean: "p \<in> set ps \<Longrightarrow> p \<noteq> [] \<Longrightarrow> \<not> prefix p (trim_with ps s)"
proof (induction ps s rule: trim_with.induct)
  case (1 ps s)
  show ?case
  proof (cases "find (\<lambda>p. p \<noteq> [] \<and> prefix p s) ps")
    case None
    then have "trim_with ps s = s" by (subst trim_with.simps) simp
    with None 1 show ?thesis by (auto simp: find_None_iff)
  next
    case (Some q)
    with 1 show ?thesis by (subst trim_with.simps) simp
  qed
qed

lemma trim_with_Nil [simp]: "trim_with ps [] = []"
proof -
  have "find (\<lambda>p. p \<noteq> [] \<and> prefix p []) ps = None" by (auto simp: find_None_iff)
  then show ?thesis by (subst trim_with.simps) simp
qed

lemma TrimSpace_Nil [simp]: "strings_TrimSpace [] = []"
  by (simp add: strings_TrimSpace_def)

section \<open>Lower case\<close>

text \<open>\<open>strings.ToLower\<close>: the ASCII fast path, and otherwise Unicode's case table, a parameter.\<close>

definition ascii_lower :: "char \<Rightarrow> char" where
  "ascii_lower c = (let n = (of_char c :: nat) in if 65 \<le> n \<and> n \<le> 90 then char_of (n + 32) else c)"

definition strings_ToLower :: "(string \<Rightarrow> string) \<Rightarrow> string \<Rightarrow> string" where
  "strings_ToLower unicode s =
     (if list_all (\<lambda>c. (of_char c :: nat) < 128) s then map ascii_lower s else unicode s)"

section \<open>Decimal numbers\<close>

definition digit :: "nat \<Rightarrow> char" where
  "digit d = char_of (48 + d)"

fun decimal :: "nat \<Rightarrow> string" where
  "decimal n = (if n < 10 then [digit n] else decimal (n div 10) @ [digit (n mod 10)])"

declare decimal.simps [simp del]

definition strconv_Itoa :: "int \<Rightarrow> string" where
  "strconv_Itoa n = (if n < 0 then ''-'' @ decimal (nat (- n)) else decimal (nat n))"

lemma digit_of_digit [simp]: "d < 10 \<Longrightarrow> digit_of (digit d) = Some d"
  by (simp add: digit_of_def digit_def Let_def)

lemma digits_of_append:
  "digits_of acc (xs @ [c]) = (case digits_of acc xs of None \<Rightarrow> None
     | Some n \<Rightarrow> map_option (\<lambda>d. 10 * n + d) (digit_of c))"
  by (induction xs arbitrary: acc) (auto split: option.splits)

lemma digits_of_decimal [simp]: "digits_of 0 (decimal n) = Some n"
proof (induction n rule: decimal.induct)
  case (1 n)
  then show ?case by (subst decimal.simps) (auto simp: digits_of_append)
qed

lemma decimal_neq_Nil [simp]: "decimal n \<noteq> []"
  by (subst decimal.simps) simp

lemma hd_decimal: "\<exists>d ds. d < 10 \<and> decimal n = digit d # ds"
proof (induction n rule: decimal.induct)
  case (1 n)
  show ?case
  proof (cases "n < 10")
    case True
    then show ?thesis by (subst decimal.simps) auto
  next
    case False
    with 1 obtain d ds where "d < 10" "decimal (n div 10) = digit d # ds" by blast
    with False show ?thesis by (subst decimal.simps) auto
  qed
qed

lemma digit_neq_sign: "d < 10 \<Longrightarrow> digit d \<noteq> CHR ''-'' \<and> digit d \<noteq> CHR ''+''"
  by (auto simp: digit_def dest!: arg_cong [where f = "of_char :: char \<Rightarrow> nat"])

text \<open>Printing an \<open>int\<close> and reading it back.\<close>

lemma Atoi_Itoa: "int64_ok n \<Longrightarrow> strconv_Atoi (strconv_Itoa n) = Some n"
proof -
  assume n: "int64_ok n"
  obtain d ds where d: "d < 10" and ds: "decimal (nat n) = digit d # ds" using hd_decimal by blast
  show ?thesis
  proof (cases "n < 0")
    case True
    with n show ?thesis by (simp add: strconv_Atoi_def strconv_Itoa_def)
  next
    case False
    with n d ds digit_neq_sign [OF d] digits_of_decimal [of "nat n"] show ?thesis
      by (simp add: strconv_Atoi_def strconv_Itoa_def)
  qed
qed

end
