(* ===== verification/Config.thy ===== *)
theory Config
  imports Go_Strings
begin

text \<open>
  The configuration (\<^verbatim>\<open>platform/config\<close>): the settings records, the defaults, the conventions of
  container platforms folded in after loading, and the refusal to start in release mode with a weak
  signing secret. Viper, which merges defaults, file and environment, is a parameter.
\<close>

section \<open>The settings\<close>

record ServerConfig =
  sv_Port :: int
  sv_Mode :: string
  sv_ReadTimeout :: int
  sv_WriteTimeout :: int
  sv_IdleTimeout :: int
  sv_ShutdownTimeout :: int

record DatabaseConfig =
  db_Host :: string
  db_Port :: int
  db_User :: string
  db_Password :: string
  db_DBName :: string
  db_SSLMode :: string
  db_MaxConns :: int
  db_MaxConnLifetimeMinutes :: int
  db_MaxConnIdleMinutes :: int

definition DatabaseConfig_DSN :: "DatabaseConfig \<Rightarrow> string" where
  "DatabaseConfig_DSN c = ''postgres://'' @ db_User c @ '':'' @ db_Password c @ ''@'' @ db_Host c
     @ '':'' @ strconv_Itoa (db_Port c) @ ''/'' @ db_DBName c @ ''?sslmode='' @ db_SSLMode c"

record JWTConfig =
  jc_SecretKey :: string
  jc_ExpiryHours :: int

record RedisConfig =
  rc_Host :: string
  rc_Port :: int
  rc_Password :: string
  rc_DB :: int

record KafkaConfig =
  kc_Brokers :: "string list"
  kc_Topic :: string
  kc_DLQTopic :: string

record GatewayConfig =
  gc_ListenAddr :: string
  gc_Upstreams :: "string list"
  gc_EdgeAuth :: bool

record CORSConfig =
  cc_AllowedOrigins :: "string list"
  cc_AllowedMethods :: "string list"
  cc_AllowedHeaders :: "string list"
  cc_ExposedHeaders :: "string list"
  cc_AllowCredentials :: bool
  cc_MaxAge :: int

record Config =
  cf_Server :: ServerConfig
  cf_Database :: DatabaseConfig
  cf_JWT :: JWTConfig
  cf_Redis :: RedisConfig
  cf_CORS :: CORSConfig
  cf_Kafka :: KafkaConfig
  cf_Gateway :: GatewayConfig

section \<open>Loading\<close>

datatype setting = SInt int | SStr string | SBool bool | SStrs "string list"

definition viper_defaults :: "(string \<times> setting) list" where
  "viper_defaults =
    [(''server.port'', SInt 8080), (''server.mode'', SStr ''debug''), (''server.read_timeout'', SInt 15),
     (''server.write_timeout'', SInt 15), (''server.idle_timeout'', SInt 60),
     (''server.shutdown_timeout'', SInt 30),
     (''database.host'', SStr ''127.0.0.1''), (''database.port'', SInt 15432),
     (''database.user'', SStr ''crisislink''), (''database.password'', SStr ''crisislink_dev_pw''),
     (''database.dbname'', SStr ''crisislink''), (''database.sslmode'', SStr ''disable''),
     (''database.maxConns'', SInt 10), (''database.maxConnLifetimeMinutes'', SInt 60),
     (''database.maxConnIdleMinutes'', SInt 5),
     (''jwt.secretkey'', SStr ''dev-secret-change-in-prod''), (''jwt.expiryHours'', SInt 24),
     (''redis.host'', SStr ''127.0.0.1''), (''redis.port'', SInt 6379), (''redis.password'', SStr ''''),
     (''redis.db'', SInt 0),
     (''kafka.brokers'', SStrs [''localhost:9092'']), (''kafka.topic'', SStr ''crisislink.events''),
     (''kafka.dlqTopic'', SStr ''crisislink.events.dlq''),
     (''gateway.listenAddr'', SStr '':8000''), (''gateway.upstreams'', SStrs [''http://127.0.0.1:8080'']),
     (''gateway.edgeAuth'', SBool False),
     (''cors.allowedOrigins'', SStrs [''http://localhost:3000'', ''http://localhost:5173'']),
     (''cors.allowedMethods'', SStrs [''GET'', ''POST'', ''PUT'', ''DELETE'', ''PATCH'', ''OPTIONS'']),
     (''cors.allowedHeaders'', SStrs [''Content-Type'', ''Authorization'', ''X-Request-ID'']),
     (''cors.exposedHeaders'', SStrs [''X-Request-ID'']), (''cors.allowCredentials'', SBool True),
     (''cors.maxAge'', SInt 86400)]"

text \<open>Viper: what reading the file at a path says, and the settings merged into a \<open>Config\<close>.\<close>

datatype config_read = ReadOk | ConfigFileNotFoundError | ReadFailed go_error

record viper =
  vp_ReadInConfig :: "string \<Rightarrow> config_read"
  vp_Unmarshal :: "(string \<times> setting) list \<Rightarrow> string \<Rightarrow> go_error + Config"

definition applyPlatformEnv :: "(string \<Rightarrow> string) \<Rightarrow> Config \<Rightarrow> Config" where
  "applyPlatformEnv getenv cfg =
     (let p = getenv ''PORT'';
          cfg1 = (if p \<noteq> '''' then case strconv_Atoi p of
                     Some n \<Rightarrow> if n > 0 then cfg\<lparr>cf_Server := (cf_Server cfg)\<lparr>sv_Port := n\<rparr>\<rparr> else cfg
                   | None \<Rightarrow> cfg
                  else cfg);
          v = getenv ''CORS_ORIGINS''
      in if v \<noteq> ''''
         then let origins = filter (\<lambda>s. s \<noteq> '''') (map strings_TrimSpace (strings_Split v (CHR '','')))
              in if length origins > 0
                 then cfg1\<lparr>cf_CORS := (cf_CORS cfg1)\<lparr>cc_AllowedOrigins := origins\<rparr>\<rparr> else cfg1
         else cfg1)"

definition devJWTSecret :: string where
  "devJWTSecret = ''dev-secret-change-in-prod''"

definition default_secret_refused :: go_error where
  "default_secret_refused = Other (''refusing to start in release mode with the default JWT secret: ''
     @ ''set jwt.secretkey (or JWT_SECRETKEY) to a strong random value'')"

definition short_secret_refused :: go_error where
  "short_secret_refused = Other ''jwt.secretkey must be at least 32 characters in release mode''"

definition Config_validateSecrets :: "Config \<Rightarrow> go_error + unit" where
  "Config_validateSecrets c =
     (if sv_Mode (cf_Server c) \<noteq> ''release'' then Inr ()
      else if jc_SecretKey (cf_JWT c) = '''' \<or> jc_SecretKey (cf_JWT c) = devJWTSecret
      then Inl default_secret_refused
      else if length (jc_SecretKey (cf_JWT c)) < 32 then Inl short_secret_refused
      else Inr ())"

definition LoadConfig :: "viper \<Rightarrow> (string \<Rightarrow> string) \<Rightarrow> string \<Rightarrow> go_error + Config" where
  "LoadConfig V getenv path = (case vp_ReadInConfig V path of
     ReadFailed err \<Rightarrow> Inl (Wrapped (''read config: '' @ err_Error err) err)
   | _ \<Rightarrow> (case vp_Unmarshal V viper_defaults path of
       Inl err \<Rightarrow> Inl (Wrapped (''unmarshal config: '' @ err_Error err) err)
     | Inr raw \<Rightarrow> let cfg = applyPlatformEnv getenv raw in
         (case Config_validateSecrets cfg of Inl err \<Rightarrow> Inl err | Inr _ \<Rightarrow> Inr cfg)))"

section \<open>What is loaded\<close>

text \<open>The \<open>mapstructure\<close> tags: how settings fill a \<open>Config\<close>; a missing one is a zero value.\<close>

definition int_at :: "(string \<times> setting) list \<Rightarrow> string \<Rightarrow> int" where
  "int_at s k = (case map_of s k of Some (SInt n) \<Rightarrow> n | _ \<Rightarrow> 0)"

definition str_at :: "(string \<times> setting) list \<Rightarrow> string \<Rightarrow> string" where
  "str_at s k = (case map_of s k of Some (SStr v) \<Rightarrow> v | _ \<Rightarrow> '''')"

definition bool_at :: "(string \<times> setting) list \<Rightarrow> string \<Rightarrow> bool" where
  "bool_at s k = (case map_of s k of Some (SBool b) \<Rightarrow> b | _ \<Rightarrow> False)"

definition strs_at :: "(string \<times> setting) list \<Rightarrow> string \<Rightarrow> string list" where
  "strs_at s k = (case map_of s k of Some (SStrs v) \<Rightarrow> v | _ \<Rightarrow> [])"

definition config_of :: "(string \<times> setting) list \<Rightarrow> Config" where
  "config_of s = \<lparr>
     cf_Server = \<lparr>sv_Port = int_at s ''server.port'', sv_Mode = str_at s ''server.mode'',
       sv_ReadTimeout = int_at s ''server.read_timeout'', sv_WriteTimeout = int_at s ''server.write_timeout'',
       sv_IdleTimeout = int_at s ''server.idle_timeout'',
       sv_ShutdownTimeout = int_at s ''server.shutdown_timeout''\<rparr>,
     cf_Database = \<lparr>db_Host = str_at s ''database.host'', db_Port = int_at s ''database.port'',
       db_User = str_at s ''database.user'', db_Password = str_at s ''database.password'',
       db_DBName = str_at s ''database.dbname'', db_SSLMode = str_at s ''database.sslmode'',
       db_MaxConns = int_at s ''database.maxConns'',
       db_MaxConnLifetimeMinutes = int_at s ''database.maxConnLifetimeMinutes'',
       db_MaxConnIdleMinutes = int_at s ''database.maxConnIdleMinutes''\<rparr>,
     cf_JWT = \<lparr>jc_SecretKey = str_at s ''jwt.secretkey'', jc_ExpiryHours = int_at s ''jwt.expiryHours''\<rparr>,
     cf_Redis = \<lparr>rc_Host = str_at s ''redis.host'', rc_Port = int_at s ''redis.port'',
       rc_Password = str_at s ''redis.password'', rc_DB = int_at s ''redis.db''\<rparr>,
     cf_CORS = \<lparr>cc_AllowedOrigins = strs_at s ''cors.allowedOrigins'',
       cc_AllowedMethods = strs_at s ''cors.allowedMethods'',
       cc_AllowedHeaders = strs_at s ''cors.allowedHeaders'',
       cc_ExposedHeaders = strs_at s ''cors.exposedHeaders'',
       cc_AllowCredentials = bool_at s ''cors.allowCredentials'', cc_MaxAge = int_at s ''cors.maxAge''\<rparr>,
     cf_Kafka = \<lparr>kc_Brokers = strs_at s ''kafka.brokers'', kc_Topic = str_at s ''kafka.topic'',
       kc_DLQTopic = str_at s ''kafka.dlqTopic''\<rparr>,
     cf_Gateway = \<lparr>gc_ListenAddr = str_at s ''gateway.listenAddr'',
       gc_Upstreams = strs_at s ''gateway.upstreams'', gc_EdgeAuth = bool_at s ''gateway.edgeAuth''\<rparr>\<rparr>"

text \<open>The port and the origins the environment asks for, if it asks for usable ones.\<close>

definition platform_port :: "(string \<Rightarrow> string) \<Rightarrow> int option" where
  "platform_port getenv = (case strconv_Atoi (getenv ''PORT'') of
     Some n \<Rightarrow> if n > 0 then Some n else None | None \<Rightarrow> None)"

definition platform_origins :: "(string \<Rightarrow> string) \<Rightarrow> string list" where
  "platform_origins getenv =
     filter (\<lambda>s. s \<noteq> '''') (map strings_TrimSpace (strings_Split (getenv ''CORS_ORIGINS'') (CHR '','')))"

lemma strconv_Atoi_Nil [simp]: "strconv_Atoi '''' = None"
  by (simp add: strconv_Atoi_def)

lemma platform_origins_unset [simp]: "getenv ''CORS_ORIGINS'' = '''' \<Longrightarrow> platform_origins getenv = []"
  by (simp add: platform_origins_def)

lemma applyPlatformEnv_eq:
  "applyPlatformEnv getenv cfg = cfg
     \<lparr>cf_Server := (cf_Server cfg)\<lparr>sv_Port :=
        (case platform_port getenv of Some n \<Rightarrow> n | None \<Rightarrow> sv_Port (cf_Server cfg))\<rparr>,
      cf_CORS := (cf_CORS cfg)\<lparr>cc_AllowedOrigins :=
        (if platform_origins getenv = [] then cc_AllowedOrigins (cf_CORS cfg) else platform_origins getenv)\<rparr>\<rparr>"
proof -
  define p where "p = getenv ''PORT''"
  define v where "v = getenv ''CORS_ORIGINS''"
  define os where "os = filter (\<lambda>s. s \<noteq> '''') (map strings_TrimSpace (strings_Split v (CHR '','')))"
  have none: "v = '''' \<Longrightarrow> os = []" by (simp add: os_def)
  have same: "(cf_Server cfg)\<lparr>sv_Port := sv_Port (cf_Server cfg)\<rparr> = cf_Server cfg"
    "(cf_CORS cfg)\<lparr>cc_AllowedOrigins := cc_AllowedOrigins (cf_CORS cfg)\<rparr> = cf_CORS cfg"
    "cfg\<lparr>cf_Server := cf_Server cfg\<rparr> = cfg" "cfg\<lparr>cf_CORS := cf_CORS cfg\<rparr> = cfg"
    by simp_all
  show ?thesis
    unfolding applyPlatformEnv_def platform_port_def platform_origins_def Let_def p_def [symmetric] v_def [symmetric]
      os_def [symmetric]
    using none by (cases "p = ''''"; cases "v = ''''"; cases "strconv_Atoi p"; cases "os = []") (simp_all add: same)
qed

lemma validateSecrets_ok_iff:
  "Config_validateSecrets c = Inr () \<longleftrightarrow>
     (sv_Mode (cf_Server c) = ''release'' \<longrightarrow> 32 \<le> length (jc_SecretKey (cf_JWT c)))"
  by (auto simp: Config_validateSecrets_def devJWTSecret_def)

text \<open>An origin of the list has no white space at its ends.\<close>

lemma TrimSpace_ends:
  assumes "p \<in> set space_runes"
  shows "\<not> suffix p (strings_TrimSpace s)"
proof -
  have "p \<noteq> []" using assms by (auto simp: space_runes_def)
  then have "\<not> prefix (rev p) (trim_with (map rev space_runes) (rev (trim_with space_runes s)))"
    using assms by (intro trim_with_clean) auto
  then show ?thesis by (simp add: strings_TrimSpace_def suffix_to_prefix)
qed

text \<open>C39: loading succeeds exactly when the file is readable or absent, viper can fill the settings
  and, in release mode, the signing secret has at least 32 bytes, so the public development secret
  is refused; then nothing but the port and the allowed origins differs from what viper filled in:
  a positive number in \<open>PORT\<close> is the port, and the non-blank elements of \<open>CORS_ORIGINS\<close>, trimmed,
  are the origins.\<close>

theorem load_config_spec:
  "LoadConfig V getenv path = Inr cfg \<longleftrightarrow>
     (\<forall>err. vp_ReadInConfig V path \<noteq> ReadFailed err)
     \<and> (\<exists>raw. vp_Unmarshal V viper_defaults path = Inr raw
        \<and> cfg = raw
            \<lparr>cf_Server := (cf_Server raw)\<lparr>sv_Port :=
               (case platform_port getenv of Some n \<Rightarrow> n | None \<Rightarrow> sv_Port (cf_Server raw))\<rparr>,
             cf_CORS := (cf_CORS raw)\<lparr>cc_AllowedOrigins :=
               (if platform_origins getenv = [] then cc_AllowedOrigins (cf_CORS raw)
                else platform_origins getenv)\<rparr>\<rparr>)
     \<and> (sv_Mode (cf_Server cfg) = ''release''
        \<longrightarrow> 32 \<le> length (jc_SecretKey (cf_JWT cfg)) \<and> jc_SecretKey (cf_JWT cfg) \<noteq> devJWTSecret)"
proof -
  have dev: "length devJWTSecret < 32" by (simp add: devJWTSecret_def)
  show ?thesis
  proof (cases "vp_Unmarshal V viper_defaults path")
    case (Inl err)
    then show ?thesis by (cases "vp_ReadInConfig V path") (auto simp: LoadConfig_def)
  next
    case (Inr raw)
    define c where "c = applyPlatformEnv getenv raw"
    have "LoadConfig V getenv path = Inr cfg \<longleftrightarrow>
        (\<forall>err. vp_ReadInConfig V path \<noteq> ReadFailed err) \<and> Config_validateSecrets c = Inr () \<and> c = cfg"
      by (cases "vp_ReadInConfig V path"; cases "Config_validateSecrets c")
         (simp_all add: LoadConfig_def Inr c_def)
    moreover have "Config_validateSecrets c = Inr () \<and> c = cfg \<longleftrightarrow>
        c = cfg \<and> (sv_Mode (cf_Server cfg) = ''release'' \<longrightarrow>
          32 \<le> length (jc_SecretKey (cf_JWT cfg)) \<and> jc_SecretKey (cf_JWT cfg) \<noteq> devJWTSecret)"
      using validateSecrets_ok_iff [of c] dev by auto
    ultimately show ?thesis
      unfolding Inr sum.inject c_def applyPlatformEnv_eq by blast
  qed
qed

definition release_raw :: Config where
  "release_raw = (config_of viper_defaults)
     \<lparr>cf_Server := (cf_Server (config_of viper_defaults))\<lparr>sv_Mode := ''release''\<rparr>,
      cf_JWT := (cf_JWT (config_of viper_defaults))\<lparr>jc_SecretKey := replicate 32 (CHR ''k'')\<rparr>\<rparr>"

definition release_viper :: viper where
  "release_viper = \<lparr>vp_ReadInConfig = (\<lambda>p. ConfigFileNotFoundError), vp_Unmarshal = (\<lambda>s p. Inr release_raw)\<rparr>"

definition release_config :: Config where
  "release_config = release_raw
     \<lparr>cf_Server := (cf_Server release_raw)\<lparr>sv_Port := 10000\<rparr>,
      cf_CORS := (cf_CORS release_raw)\<lparr>cc_AllowedOrigins := [''http://a'', ''http://b'']\<rparr>\<rparr>"

definition platform_env :: "string \<Rightarrow> string" where
  "platform_env k = (if k = ''PORT'' then ''10000''
     else if k = ''CORS_ORIGINS'' then '' http://a , ,http://b'' else '''')"

lemma load_config_spec_witness:
  "LoadConfig release_viper platform_env ''.'' = Inr release_config"
proof -
  have p: "platform_port platform_env = Some 10000"
    and q: "platform_origins platform_env = [''http://a'', ''http://b'']"
    by (code_simp, code_simp)
  have k: "jc_SecretKey (cf_JWT release_config) = replicate 32 (CHR ''k'')"
    by (simp add: release_config_def release_raw_def)
  have "length devJWTSecret = 25" by (simp add: devJWTSecret_def)
  then have l: "length (replicate 32 (CHR ''k'')) \<noteq> length devJWTSecret" by simp
  show ?thesis
  proof (rule load_config_spec [THEN iffD2], intro conjI exI [of _ release_raw] allI impI)
    show "vp_ReadInConfig release_viper ''.'' \<noteq> ReadFailed err" for err by (simp add: release_viper_def)
    show "vp_Unmarshal release_viper viper_defaults ''.'' = Inr release_raw" by (simp add: release_viper_def)
    show "jc_SecretKey (cf_JWT release_config) \<noteq> devJWTSecret" using l k by metis
    show "32 \<le> length (jc_SecretKey (cf_JWT release_config))" by (simp add: k)
  qed (simp_all add: p q release_config_def)
qed

end
