(* ===== verification/Auth.thy ===== *)
theory Auth
  imports Interfaces Config
begin

text \<open>
  The auth module (\<^verbatim>\<open>internal/auth\<close>): accounts, passwords, tokens, and the one operation that grants
  a role. The JWT and bcrypt libraries are parameters; what the code relies on of the first is
  \<open>jwt_documented\<close>. The world of a request gains the process's own clock, which the token's dates
  are taken from, and a counter for its readings and for bcrypt's salts.
\<close>

section \<open>Libraries and the process clock\<close>

record Claims =
  cl_UserID :: string
  cl_Username :: string
  cl_Role :: string
  cl_UnitID :: string
  cl_ShelterID :: string
  cl_ExpiresAt :: "int option" \<comment> \<open>seconds since the epoch\<close>
  cl_IssuedAt :: "int option"

datatype jwt_method = SigningMethodHMAC string | SigningMethodOther string

text \<open>\<open>jwt_ParseUnverified\<close> and \<open>jwt_Verify\<close> are the library's own decoding and signature check,
  which \<open>ParseWithClaims\<close> combines with the check of the dates at a given time.\<close>

record jwt_lib =
  jwt_SignedString :: "jwt_method \<Rightarrow> Claims \<Rightarrow> string \<Rightarrow> go_error + string"
  jwt_ParseWithClaims :: "string \<Rightarrow> int \<Rightarrow> (jwt_method \<Rightarrow> go_error + string) \<Rightarrow> go_error + (Claims \<times> bool)"
  jwt_ParseUnverified :: "string \<Rightarrow> (jwt_method \<times> Claims) option"
  jwt_Verify :: "jwt_method \<Rightarrow> string \<Rightarrow> string \<Rightarrow> bool"

record bcrypt_lib =
  bcrypt_GenerateFromPassword :: "nat \<Rightarrow> string \<Rightarrow> nat \<Rightarrow> go_error + string" \<comment> \<open>with the salt of draw \<open>n\<close>\<close>
  bcrypt_CompareHashAndPassword :: "string \<Rightarrow> string \<Rightarrow> go_error option"

record authing = world +
  wall :: "nat \<Rightarrow> int" \<comment> \<open>reading \<open>n\<close> of the process's clock, nanoseconds since the epoch\<close>
  looks :: nat

type_synonym ('m, 'a) auth = "('m authing_ext world_scheme, 'a) script"

definition clock_Now :: "('m, int) auth" where
  "clock_Now = Stmt (\<lambda>w. (w\<lparr>looks := Suc (looks w)\<rparr>, Done (wall w (looks w))))"

text \<open>A Go \<open>int64\<close> product, and \<open>jwt.NewNumericDate\<close>, which truncates to the second.\<close>

definition to_int64 :: "int \<Rightarrow> int" where
  "to_int64 n = (n + 2 ^ 63) mod 2 ^ 64 - 2 ^ 63"

definition time_Hour :: int where "time_Hour = 3600000000000"
definition time_Second :: int where "time_Second = 1000000000"

definition NewNumericDate :: "int \<Rightarrow> int" where
  "NewNumericDate t = t div time_Second"

text \<open>Claims that survive the token's JSON: well-formed UTF-8, and dates a double holds exactly.\<close>

definition date_ok :: "int option \<Rightarrow> bool" where
  "date_ok x = (case x of None \<Rightarrow> True | Some n \<Rightarrow> 0 \<le> n \<and> n < 2 ^ 53)"

definition claims_ok :: "Claims \<Rightarrow> bool" where
  "claims_ok c \<longleftrightarrow> list_all text_ok [cl_UserID c, cl_Username c, cl_Role c, cl_UnitID c, cl_ShelterID c]
     \<and> date_ok (cl_ExpiresAt c) \<and> date_ok (cl_IssuedAt c)"

text \<open>Claims as they are read back: each field that JSON keeps is the one written.\<close>

definition reads_back :: "Claims \<Rightarrow> Claims \<Rightarrow> bool" where
  "reads_back c c' \<longleftrightarrow>
     (\<forall>f \<in> {cl_UserID, cl_Username, cl_Role, cl_UnitID, cl_ShelterID}. text_ok (f c) \<longrightarrow> f c' = f c)
   \<and> (\<forall>f \<in> {cl_ExpiresAt, cl_IssuedAt}. date_ok (f c) \<longrightarrow> f c' = f c)"

definition claims_live :: "int \<Rightarrow> Claims \<Rightarrow> bool" where
  "claims_live now c = (case cl_ExpiresAt c of None \<Rightarrow> True | Some x \<Rightarrow> now < x * time_Second)"

text \<open>
  The documented behaviour of the JWT library: a signed token decodes to its method and claims, as
  far as JSON keeps them, and verifies under its key; \<open>ParseWithClaims\<close> accepts exactly the tokens that decode, for whose method
  the key function yields a key they verify under, and whose expiry has not passed.
\<close>

definition jwt_documented :: "jwt_lib \<Rightarrow> bool" where
  "jwt_documented J \<longleftrightarrow>
     (\<forall>m c k tok. jwt_SignedString J m c k = Inr tok \<longrightarrow>
        (\<exists>c'. jwt_ParseUnverified J tok = Some (m, c') \<and> reads_back c c') \<and> jwt_Verify J m tok k)
   \<and> (\<forall>tok now kf c v. jwt_ParseWithClaims J tok now kf = Inr (c, v) \<longrightarrow> v \<and> claims_live now c
        \<and> (\<exists>m k. jwt_ParseUnverified J tok = Some (m, c) \<and> kf m = Inr k \<and> jwt_Verify J m tok k))
   \<and> (\<forall>tok now kf m c k. jwt_ParseUnverified J tok = Some (m, c) \<longrightarrow> kf m = Inr k \<longrightarrow>
        jwt_Verify J m tok k \<longrightarrow> claims_live now c \<longrightarrow> jwt_ParseWithClaims J tok now kf = Inr (c, True))"

section \<open>Passwords\<close>

definition bcrypt_DefaultCost :: nat where "bcrypt_DefaultCost = 10"

definition HashPassword :: "bcrypt_lib \<Rightarrow> string \<Rightarrow> ('m, go_error + string) auth" where
  "HashPassword B password = Stmt (\<lambda>w. (w\<lparr>looks := Suc (looks w)\<rparr>,
     case bcrypt_GenerateFromPassword B (looks w) password bcrypt_DefaultCost of
       Inl err \<Rightarrow> throw (Wrapped (''failed to hash password: '' @ err_Error err) err)
     | Inr bytes \<Rightarrow> ok bytes))"

definition CheckPassword :: "bcrypt_lib \<Rightarrow> string \<Rightarrow> string \<Rightarrow> bool" where
  "CheckPassword B hashedPassword password =
     (bcrypt_CompareHashAndPassword B hashedPassword password = None)"

section \<open>Tokens\<close>

definition GenerateToken :: "jwt_lib \<Rightarrow> string \<Rightarrow> string \<Rightarrow> string \<Rightarrow> string \<Rightarrow> string \<Rightarrow> JWTConfig
    \<Rightarrow> ('m, go_error + string) auth" where
  "GenerateToken J userID username role unitID shelterID cfg = bind clock_Now (\<lambda>t1. bind clock_Now (\<lambda>t2.
     let claims = \<lparr>cl_UserID = userID, cl_Username = username, cl_Role = role, cl_UnitID = unitID,
           cl_ShelterID = shelterID,
           cl_ExpiresAt = Some (NewNumericDate (t1 + to_int64 (jc_ExpiryHours cfg * time_Hour))),
           cl_IssuedAt = Some (NewNumericDate t2)\<rparr>
     in case jwt_SignedString J (SigningMethodHMAC ''HS256'') claims (jc_SecretKey cfg) of
          Inl err \<Rightarrow> throw (Wrapped (''failed to sign token: '' @ err_Error err) err)
        | Inr signed \<Rightarrow> ok signed))"

text \<open>The key is handed out for an HMAC method only. \<open>token.Claims\<close> is the \<open>*Claims\<close> passed in, so
  the type assertion on it holds.\<close>

definition keyfunc :: "JWTConfig \<Rightarrow> jwt_method \<Rightarrow> go_error + string" where
  "keyfunc cfg m = (case m of
     SigningMethodHMAC alg \<Rightarrow> Inr (jc_SecretKey cfg)
   | SigningMethodOther alg \<Rightarrow> Inl (Other (''unexpected signing method: '' @ alg)))"

definition ValidateToken :: "jwt_lib \<Rightarrow> int \<Rightarrow> string \<Rightarrow> JWTConfig \<Rightarrow> go_error + Claims" where
  "ValidateToken J now tokenString cfg = (case jwt_ParseWithClaims J tokenString now (keyfunc cfg) of
     Inl err \<Rightarrow> Inl (Wrapped (''invalid token: '' @ err_Error err) err)
   | Inr (claims, valid) \<Rightarrow> if \<not> valid then Inl (Other ''invalid token claims'') else Inr claims)"

section \<open>Accounts\<close>

record User =
  us_ID :: string
  us_Username :: string
  us_Email :: string
  us_Password :: string
  us_Role :: string
  us_UnitID :: "string option"
  us_ShelterID :: "string option"
  us_CreatedAt :: time
  us_UpdatedAt :: time

definition scanUser :: "uuid \<times> user_row \<Rightarrow> User" where
  "scanUser kr = (case kr of (k, r) \<Rightarrow>
     \<lparr>us_ID = k, us_Username = usr_username r, us_Email = usr_email r, us_Password = usr_password r,
      us_Role = usr_role r, us_UnitID = usr_unit_id r, us_ShelterID = usr_shelter_id r,
      us_CreatedAt = usr_created_at r, us_UpdatedAt = usr_updated_at r\<rparr>)"

definition UserRepository_Create :: "User \<Rightarrow> ('m, User) tx" where
  "UserRepository_Create u =
     pool_stmt (pg_text [us_Username u, us_Email u, us_Password u, us_Role u] (\<lambda>e n t d.
       let k = gen_uuid e n;
           r = \<lparr>usr_username = us_Username u, usr_email = us_Email u, usr_password = us_Password u,
                usr_role = us_Role u, usr_unit_id = None, usr_shelter_id = None,
                usr_created_at = t, usr_updated_at = t\<rparr>
       in if \<not> user_row_ok r then Inl check_violation
          else if sel (users d) k \<noteq> None
             \<or> list_ex (\<lambda>(_, r'). usr_username r' = us_Username u \<or> usr_email r' = us_Email u) (users d)
          then Inl unique_violation
          else Inr (u\<lparr>us_ID := k, us_CreatedAt := t, us_UpdatedAt := t\<rparr>, d\<lparr>users := ins k r (users d)\<rparr>,
            {RowUser k, IdxUnique ''users.username'' (us_Username u), IdxUnique ''users.email'' (us_Email u)})))"

definition UserRepository_GetByEmail :: "string \<Rightarrow> ('m, User) tx" where
  "UserRepository_GetByEmail email = pool_stmt (pg_text [email] (reading (\<lambda>e d.
     map_sum id scanUser (one_row (find (\<lambda>(k, r). usr_email r = email) (users d))))))"

definition UserRepository_GetByID :: "string \<Rightarrow> ('m, User) tx" where
  "UserRepository_GetByID userID = pool_stmt (cast_uuid userID (\<lambda>u. reading (\<lambda>e d.
     map_sum id (\<lambda>r. scanUser (u, r)) (one_row (sel (users d) u)))))"

text \<open>A nullable \<open>$n::uuid\<close> parameter.\<close>

definition cast_opt :: "string option \<Rightarrow> (uuid option \<Rightarrow> 'a stmt) \<Rightarrow> 'a stmt" where
  "cast_opt s f = (case s of None \<Rightarrow> f None | Some x \<Rightarrow> cast_uuid x (\<lambda>u. f (Some u)))"

definition set_role :: "string \<Rightarrow> uuid option \<Rightarrow> uuid option \<Rightarrow> time \<Rightarrow> user_row \<Rightarrow> user_row" where
  "set_role role unitID shelterID t r =
     r\<lparr>usr_role := role, usr_unit_id := unitID, usr_shelter_id := shelterID, usr_updated_at := t\<rparr>"

definition update_role :: "string \<Rightarrow> uuid option \<Rightarrow> uuid option \<Rightarrow> uuid \<Rightarrow> (uuid \<times> user_row) option stmt" where
  "update_role role un sh k = (\<lambda>e n t d. case sel (users d) k of
       None \<Rightarrow> Inr (None, d, {})
     | Some r \<Rightarrow> if \<not> user_row_ok (set_role role un sh t r) then Inl check_violation
         else if \<not> user_fk d (set_role role un sh t r) then Inl foreign_key_violation
         else Inr (Some (k, set_role role un sh t r),
                   d\<lparr>users := upd k (set_role role un sh t) (users d)\<rparr>, {RowUser k}))"

definition UserRepository_UpdateRoleAndBindings ::
    "string \<Rightarrow> string \<Rightarrow> string option \<Rightarrow> string option \<Rightarrow> ('m, User) tx" where
  "UserRepository_UpdateRoleAndBindings userID role unitID shelterID = bindE
     (pool_stmt (pg_text [role] (cast_uuid userID (\<lambda>k. cast_opt unitID (\<lambda>un. cast_opt shelterID (\<lambda>sh.
        update_role role un sh k))))))
     (\<lambda>row. case row of None \<Rightarrow> throw ErrNoRows | Some kr \<Rightarrow> ok (scanUser kr))"

section \<open>The service\<close>

record AuthService =
  as_jwt :: jwt_lib
  as_bcrypt :: bcrypt_lib
  as_jwtCfg :: JWTConfig

definition deref :: "string option \<Rightarrow> string" where
  "deref p = (case p of None \<Rightarrow> '''' | Some s \<Rightarrow> s)"

definition AuthService_Register :: "AuthService \<Rightarrow> string \<Rightarrow> string \<Rightarrow> string
    \<Rightarrow> ('m, go_error + User \<times> string) auth" where
  "AuthService_Register s username email password =
     bindE (HashPassword (as_bcrypt s) password) (\<lambda>hash.
     bind (UserRepository_Create \<lparr>us_ID = '''', us_Username = username, us_Email = email,
             us_Password = hash, us_Role = RoleCitizen, us_UnitID = None, us_ShelterID = None,
             us_CreatedAt = 0, us_UpdatedAt = 0\<rparr>) (\<lambda>res. case res of
       Inl err \<Rightarrow> if pg_code_is ''23505'' err then throw (E Auth_ErrDuplicateUser)
                  else throw (Wrapped (''create user: '' @ err_Error err) err)
     | Inr u \<Rightarrow> bindE (GenerateToken (as_jwt s) (us_ID u) (us_Username u) (us_Role u)
                  (deref (us_UnitID u)) (deref (us_ShelterID u)) (as_jwtCfg s)) (\<lambda>token. ok (u, token))))"

definition AuthService_Login :: "AuthService \<Rightarrow> string \<Rightarrow> string \<Rightarrow> ('m, go_error + User \<times> string) auth" where
  "AuthService_Login s email password =
     bind (UserRepository_GetByEmail email) (\<lambda>res. case res of
       Inl err \<Rightarrow> throw (E Auth_ErrInvalidCredentials)
     | Inr u \<Rightarrow> if \<not> CheckPassword (as_bcrypt s) (us_Password u) password
         then throw (E Auth_ErrInvalidCredentials)
         else bindE (GenerateToken (as_jwt s) (us_ID u) (us_Username u) (us_Role u)
                  (deref (us_UnitID u)) (deref (us_ShelterID u)) (as_jwtCfg s)) (\<lambda>token. ok (u, token)))"

text \<open>The bindings a role keeps of those asked for, or the refusal.\<close>

definition role_bindings :: "string \<Rightarrow> string option \<Rightarrow> string option
    \<Rightarrow> go_error + (string option \<times> string option)" where
  "role_bindings role unitID shelterID =
     (if role = RoleResponder
      then if unitID = None \<or> unitID = Some '''' then Inl (E Auth_ErrBindingMissing) else Inr (unitID, None)
      else if role = RoleShelterManager
      then if shelterID = None \<or> shelterID = Some '''' then Inl (E Auth_ErrBindingMissing)
           else Inr (None, shelterID)
      else Inr (None, None))"

definition AuthService_AssignRole :: "string \<Rightarrow> string \<Rightarrow> string option \<Rightarrow> string option \<Rightarrow> ('m, User) tx" where
  "AuthService_AssignRole userID role unitID shelterID =
     (if \<not> authz_IsValid role then throw (E Auth_ErrInvalidRole)
      else case role_bindings role unitID shelterID of
        Inl err \<Rightarrow> throw err
      | Inr (un, sh) \<Rightarrow> bind (UserRepository_UpdateRoleAndBindings userID role un sh) (\<lambda>res. case res of
          Inl err \<Rightarrow> if errors_Is err ErrNoRows then throw (E Auth_ErrUserNotFound) else throw err
        | Inr u \<Rightarrow> ok u))"

section \<open>The handlers\<close>

text \<open>What a \<open>User\<close> is in a response: every field but the password hash, which is tagged \<open>json:"-"\<close>.\<close>

record user_json =
  uj_id :: string
  uj_username :: string
  uj_email :: string
  uj_role :: string
  uj_unitId :: "string option"
  uj_shelterId :: "string option"
  uj_createdAt :: time
  uj_updatedAt :: time

definition json_User :: "User \<Rightarrow> user_json" where
  "json_User u = \<lparr>uj_id = us_ID u, uj_username = us_Username u, uj_email = us_Email u,
     uj_role = us_Role u, uj_unitId = us_UnitID u, uj_shelterId = us_ShelterID u,
     uj_createdAt = us_CreatedAt u, uj_updatedAt = us_UpdatedAt u\<rparr>"

record RegisterRequest =
  rr_Username :: string
  rr_Email :: string
  rr_Password :: string

definition AuthHandler_Register :: "AuthService \<Rightarrow> go_error + RegisterRequest
    \<Rightarrow> ('m, (user_json \<times> string) response) auth" where
  "AuthHandler_Register s body = (case body of
     Inl err \<Rightarrow> Done (common_Error 400 (err_Error err) ''VALIDATION_ERROR'')
   | Inr req \<Rightarrow> respond (AuthService_Register s (rr_Username req) (rr_Email req) (rr_Password req))
       (\<lambda>err. if errors_Is err (E Auth_ErrDuplicateUser)
              then common_Error 409 ''username or email already exists'' ''DUPLICATE_USER''
              else common_Error 500 ''could not register user'' ''INTERNAL_ERROR'')
       (\<lambda>(u, token). common_Success 201 ''user registered successfully'' (json_User u, token)))"

record LoginRequest =
  lr_Email :: string
  lr_Password :: string

definition AuthHandler_Login :: "AuthService \<Rightarrow> go_error + LoginRequest
    \<Rightarrow> ('m, (user_json \<times> string) response) auth" where
  "AuthHandler_Login s body = (case body of
     Inl err \<Rightarrow> Done (common_Error 400 (err_Error err) ''VALIDATION_ERROR'')
   | Inr req \<Rightarrow> respond (AuthService_Login s (lr_Email req) (lr_Password req))
       (\<lambda>err. common_Error 401 ''invalid credentials'' ''INVALID_CREDENTIALS'')
       (\<lambda>(u, token). common_Success 200 ''login successful'' (json_User u, token)))"

record AssignRoleRequest =
  arr_Role :: string
  arr_UnitID :: "string option"
  arr_ShelterID :: "string option"

definition AuthHandler_AssignRole :: "string \<Rightarrow> go_error + AssignRoleRequest
    \<Rightarrow> ('m world_scheme, user_json response) script" where
  "AuthHandler_AssignRole userID body = (case body of
     Inl err \<Rightarrow> Done (common_Error 400 ''role is required'' ''VALIDATION_ERROR'')
   | Inr req \<Rightarrow> respond (AuthService_AssignRole userID (arr_Role req) (arr_UnitID req) (arr_ShelterID req))
       (\<lambda>err. if errors_Is err (E Auth_ErrInvalidRole)
              then common_Error 400 ''invalid role'' ''VALIDATION_ERROR''
              else if errors_Is err (E Auth_ErrBindingMissing)
              then common_Error 400 ''responder requires unitId; shelter_manager requires shelterId''
                     ''VALIDATION_ERROR''
              else if errors_Is err (E Auth_ErrUserNotFound)
              then common_Error 404 ''user not found'' ''NOT_FOUND''
              else common_Error 500 ''could not assign role'' ''INTERNAL_ERROR'')
       (\<lambda>u. common_Success 200 ''role assigned; user must re-login for it to take effect'' (json_User u)))"

end
