(* ===== verification/Auth_Sample.thy ===== *)
theory Auth_Sample
  imports Auth Sample
begin

text \<open>
  Concrete libraries for the witnesses of the auth theories: a token is the list of its fields and
  its key as netstrings, a password hash is the password behind a prefix. The token library is
  proved to behave as documented.
\<close>

section \<open>Netstrings\<close>

definition net :: "string \<Rightarrow> string" where
  "net s = strconv_Itoa (int (length s)) @ CHR '':'' # s"

definition unnet :: "string \<Rightarrow> (string \<times> string) option" where
  "unnet t = (case strings_Cut t (CHR '':'') of None \<Rightarrow> None
     | Some (a, b) \<Rightarrow> (case strconv_Atoi a of None \<Rightarrow> None | Some n \<Rightarrow> Some (take (nat n) b, drop (nat n) b)))"

fun unnets :: "nat \<Rightarrow> string \<Rightarrow> string list option" where
  "unnets 0 t = (if t = '''' then Some [] else None)"
| "unnets (Suc n) t = (case unnet t of None \<Rightarrow> None
     | Some (s, t') \<Rightarrow> map_option ((#) s) (unnets n t'))"

definition nets :: "string list \<Rightarrow> string" where
  "nets ss = concat (map net ss)"

lemma colon_not_in_decimal: "CHR '':'' \<notin> set (decimal n)"
proof (induction n rule: decimal.induct)
  case (1 n)
  have "digit d \<noteq> CHR '':''" if "d < 10" for d
    using that by (auto simp: digit_def dest!: arg_cong [where f = "of_char :: char \<Rightarrow> nat"])
  from this [of "n mod 10"] this [of n] 1 show ?case
    by (subst decimal.simps) auto
qed

lemma unnet_net: "length s < 2 ^ 63 \<Longrightarrow> unnet (net s @ t) = Some (s, t)"
proof -
  assume l: "length s < 2 ^ 63"
  then have "int64_ok (int (length s))"
    by (simp add: int64_ok_def)
  then have "strconv_Atoi (strconv_Itoa (int (length s))) = Some (int (length s))" by (rule Atoi_Itoa)
  moreover have "strings_Cut (strconv_Itoa (int (length s)) @ CHR '':'' # (s @ t)) (CHR '':'')
      = Some (strconv_Itoa (int (length s)), s @ t)"
    by (rule strings_Cut_append) (simp add: strconv_Itoa_def colon_not_in_decimal)
  ultimately show ?thesis by (simp add: unnet_def net_def)
qed

lemma unnets_nets: "list_all (\<lambda>s. length s < 2 ^ 63) ss \<Longrightarrow> unnets (length ss) (nets ss) = Some ss"
  by (induction ss) (simp_all add: nets_def unnet_net)

section \<open>Tokens and hashes\<close>

definition date_text :: "int option \<Rightarrow> string" where
  "date_text x = (case x of None \<Rightarrow> '''' | Some n \<Rightarrow> strconv_Itoa n)"

lemma Atoi_date_text: "date_ok x \<Longrightarrow> strconv_Atoi (date_text x) = x"
proof (cases x)
  case (Some n)
  assume "date_ok x"
  with Some have "int64_ok n" by (simp add: date_ok_def int64_ok_def)
  then show ?thesis by (simp add: Some date_text_def Atoi_Itoa)
qed (simp add: date_text_def strconv_Atoi_def)

definition token_fields :: "string \<Rightarrow> Claims \<Rightarrow> string \<Rightarrow> string list" where
  "token_fields alg c k = [alg, cl_UserID c, cl_Username c, cl_Role c, cl_UnitID c, cl_ShelterID c,
     date_text (cl_ExpiresAt c), date_text (cl_IssuedAt c), k]"

definition token_read :: "string \<Rightarrow> (jwt_method \<times> Claims \<times> string) option" where
  "token_read tok = (case unnets 9 tok of
     Some [alg, a, b, c, d, e, x, y, k] \<Rightarrow> Some (SigningMethodHMAC alg,
       \<lparr>cl_UserID = a, cl_Username = b, cl_Role = c, cl_UnitID = d, cl_ShelterID = e,
        cl_ExpiresAt = strconv_Atoi x, cl_IssuedAt = strconv_Atoi y\<rparr>, k)
   | _ \<Rightarrow> None)"

definition sample_jwt :: jwt_lib where
  "sample_jwt = \<lparr>
     jwt_SignedString = (\<lambda>m c k. case m of
        SigningMethodHMAC alg \<Rightarrow> if list_all (\<lambda>s. length s < 2 ^ 63) (token_fields alg c k)
          then Inr (nets (token_fields alg c k)) else Inl (Other ''too long'')
      | SigningMethodOther alg \<Rightarrow> Inl (Other ''key is invalid'')),
     jwt_ParseWithClaims = (\<lambda>tok now kf. case token_read tok of
        None \<Rightarrow> Inl (Other ''token is malformed'')
      | Some (m, c, k) \<Rightarrow> (case kf m of Inl err \<Rightarrow> Inl err
          | Inr k' \<Rightarrow> if k = k' \<and> claims_live now c then Inr (c, True) else Inl (Other ''token is unverifiable''))),
     jwt_ParseUnverified = (\<lambda>tok. map_option (\<lambda>(m, c, k). (m, c)) (token_read tok)),
     jwt_Verify = (\<lambda>m tok k. case token_read tok of None \<Rightarrow> False | Some (m', c, k') \<Rightarrow> m = m' \<and> k = k')\<rparr>"

lemma token_read_nets:
  assumes "list_all (\<lambda>s. length s < 2 ^ 63) (token_fields alg c k)"
  shows "\<exists>c'. token_read (nets (token_fields alg c k)) = Some (SigningMethodHMAC alg, c', k) \<and> reads_back c c'"
proof -
  have "length (token_fields alg c k) = 9" by (simp add: token_fields_def)
  with unnets_nets [OF assms] have "unnets 9 (nets (token_fields alg c k)) = Some (token_fields alg c k)"
    by simp
  then show ?thesis by (simp add: token_read_def token_fields_def Atoi_date_text reads_back_def)
qed

lemma sample_jwt_documented: "jwt_documented sample_jwt"
proof -
  have "(\<exists>c'. jwt_ParseUnverified sample_jwt tok = Some (m, c') \<and> reads_back c c') \<and> jwt_Verify sample_jwt m tok k"
    if "jwt_SignedString sample_jwt m c k = Inr tok" for m c k tok
  proof -
    from that obtain alg where m: "m = SigningMethodHMAC alg" and tok: "tok = nets (token_fields alg c k)"
      and l: "list_all (\<lambda>s. length s < 2 ^ 63) (token_fields alg c k)"
      by (auto simp: sample_jwt_def split: jwt_method.splits if_splits)
    from token_read_nets [OF l] show ?thesis by (auto simp: sample_jwt_def m tok)
  qed
  moreover have "v \<and> claims_live now c \<and> (\<exists>m k. jwt_ParseUnverified sample_jwt tok = Some (m, c)
      \<and> kf m = Inr k \<and> jwt_Verify sample_jwt m tok k)"
    if "jwt_ParseWithClaims sample_jwt tok now kf = Inr (c, v)" for tok now kf c v
    using that by (auto simp: sample_jwt_def split: option.splits sum.splits if_splits)
  moreover have "jwt_ParseWithClaims sample_jwt tok now kf = Inr (c, True)"
    if "jwt_ParseUnverified sample_jwt tok = Some (m, c)" "kf m = Inr k" "jwt_Verify sample_jwt m tok k"
      "claims_live now c" for tok now kf m c k
    using that by (auto simp: sample_jwt_def split: option.splits)
  ultimately show ?thesis unfolding jwt_documented_def by blast
qed

definition sample_bcrypt :: bcrypt_lib where
  "sample_bcrypt = \<lparr>
     bcrypt_GenerateFromPassword = (\<lambda>n p cost. if length p > 72 then Inl (Other ''bcrypt: password length exceeds 72 bytes'')
        else Inr (''$2a$'' @ p)),
     bcrypt_CompareHashAndPassword = (\<lambda>h p. if h = ''$2a$'' @ p then None else Some (Other ''bcrypt: mismatch''))\<rparr>"

definition sample_cfg :: JWTConfig where
  "sample_cfg = \<lparr>jc_SecretKey = ''a signing secret of 32 bytes.....'', jc_ExpiryHours = 24\<rparr>"

definition sample_auth :: AuthService where
  "sample_auth = \<lparr>as_jwt = sample_jwt, as_bcrypt = sample_bcrypt, as_jwtCfg = sample_cfg\<rparr>"

lemma sample_auth_simps [simp]:
  "as_jwt sample_auth = sample_jwt" "as_bcrypt sample_auth = sample_bcrypt" "as_jwtCfg sample_auth = sample_cfg"
  by (simp_all add: sample_auth_def)

text \<open>A database with a unit and two accounts, a responder's and a citizen's, on a clock of one second
  per reading.\<close>

definition sample_unit :: unit_row where
  "sample_unit = \<lparr>u_call_sign = ''AMB-1'', u_type = UnitTypeAmbulance, u_status = UnitAvailable,
     u_lat = Fin 0, u_lng = Fin 0, u_version = 1, u_created_at = 0, u_updated_at = 0\<rparr>"

definition sample_user :: "string \<Rightarrow> string \<Rightarrow> uuid option \<Rightarrow> user_row" where
  "sample_user name role un = \<lparr>usr_username = name, usr_email = name @ ''@x.org'', usr_password = ''$2a$secret'',
     usr_role = role, usr_unit_id = un, usr_shelter_id = None, usr_created_at = 0, usr_updated_at = 0\<rparr>"

definition sample_accounts :: db where
  "sample_accounts = empty_db\<lparr>units := [(''amb-1'', sample_unit)],
     users := [(''u-1'', sample_user ''rita'' RoleResponder (Some ''amb-1'')), (''u-2'', sample_user ''carl'' RoleCitizen None)]\<rparr>"

definition start_auth :: "db \<Rightarrow> unit authing_ext world_scheme" where
  "start_auth d = \<lparr>base = d, view = d, locks = {}, pc = 0, txnow = 0, wenv = sample_env,
     wall = (\<lambda>n. (1000 + int n) * time_Second), looks = 0\<rparr>"

lemma start_auth_simps [simp]:
  "base (start_auth d) = d" "wenv (start_auth d) = sample_env" "pc (start_auth d) = 0" "looks (start_auth d) = 0"
  "wall (start_auth d) n = (1000 + int n) * time_Second"
  by (simp_all add: start_auth_def)

end
