(* ===== verification/Auth_Props.thy ===== *)
theory Auth_Props
  imports Auth_Sample
begin

text \<open>
  What the auth module guarantees: the accounts table stays well typed (a responder is bound to a
  unit, a shelter manager to a shelter, nobody else to anything), only role assignment grants a
  role, and a token says who it was issued to until it expires.
\<close>

section \<open>Tokens\<close>

lemma signed_reads_back:
  "jwt_documented J \<Longrightarrow> jwt_SignedString J m c k = Inr tok \<Longrightarrow>
     (\<exists>c'. jwt_ParseUnverified J tok = Some (m, c') \<and> reads_back c c') \<and> jwt_Verify J m tok k"
  unfolding jwt_documented_def by blast

lemma reads_back_ok: "reads_back c c' \<Longrightarrow> claims_ok c \<Longrightarrow> c' = c"
  by (auto simp: reads_back_def claims_ok_def intro!: Claims.equality)

lemma signed_decodes:
  "jwt_documented J \<Longrightarrow> jwt_SignedString J m c k = Inr tok \<Longrightarrow> claims_ok c \<Longrightarrow>
     jwt_ParseUnverified J tok = Some (m, c) \<and> jwt_Verify J m tok k"
  using signed_reads_back reads_back_ok by metis

lemma parsed_was_signed:
  "jwt_documented J \<Longrightarrow> jwt_ParseWithClaims J tok now kf = Inr (c, v) \<Longrightarrow> v \<and> claims_live now c
     \<and> (\<exists>m k. jwt_ParseUnverified J tok = Some (m, c) \<and> kf m = Inr k \<and> jwt_Verify J m tok k)"
  unfolding jwt_documented_def by blast

lemma signed_parses:
  "jwt_documented J \<Longrightarrow> jwt_ParseUnverified J tok = Some (m, c) \<Longrightarrow> kf m = Inr k \<Longrightarrow> jwt_Verify J m tok k
     \<Longrightarrow> claims_live now c \<Longrightarrow> jwt_ParseWithClaims J tok now kf = Inr (c, True)"
  unfolding jwt_documented_def by blast

text \<open>What the bearer of an accepted token is known to hold.\<close>

lemma ValidateToken_Inr:
  assumes "jwt_documented J" and "ValidateToken J now tok cfg = Inr c"
  shows "claims_live now c \<and> (\<exists>alg. jwt_ParseUnverified J tok = Some (SigningMethodHMAC alg, c)
    \<and> jwt_Verify J (SigningMethodHMAC alg) tok (jc_SecretKey cfg))"
proof -
  from assms(2) obtain v where p: "jwt_ParseWithClaims J tok now (keyfunc cfg) = Inr (c, v)"
    by (auto simp: ValidateToken_def split: sum.splits prod.splits if_splits)
  from parsed_was_signed [OF assms(1) p] obtain m k where l: "claims_live now c"
    and m: "jwt_ParseUnverified J tok = Some (m, c)" "keyfunc cfg m = Inr k" "jwt_Verify J m tok k" by blast
  then show ?thesis by (auto simp: keyfunc_def split: jwt_method.splits)
qed

lemma ValidateToken_signed:
  assumes "jwt_documented J" and "jwt_SignedString J (SigningMethodHMAC alg) c (jc_SecretKey cfg) = Inr tok"
    and "claims_ok c"
  shows "claims_live now c \<Longrightarrow> ValidateToken J now tok cfg = Inr c"
    and "\<not> claims_live now c \<Longrightarrow> \<exists>err. ValidateToken J now tok cfg = Inl err"
proof -
  from signed_decodes [OF assms] have d: "jwt_ParseUnverified J tok = Some (SigningMethodHMAC alg, c)"
    "jwt_Verify J (SigningMethodHMAC alg) tok (jc_SecretKey cfg)" by simp_all
  show "ValidateToken J now tok cfg = Inr c" if "claims_live now c"
    using signed_parses [OF assms(1) d(1) _ d(2) that, of "keyfunc cfg"]
    by (simp add: ValidateToken_def keyfunc_def)
  show "\<exists>err. ValidateToken J now tok cfg = Inl err" if n: "\<not> claims_live now c"
  proof (cases "ValidateToken J now tok cfg")
    case (Inr c')
    from ValidateToken_Inr [OF assms(1) this] d(1) n show ?thesis by auto
  qed simp
qed

lemma run_clock_Now [run_simps]: "run clock_Now w = (wall w (looks w), w\<lparr>looks := Suc (looks w)\<rparr>)"
  by (simp add: clock_Now_def run_Stmt)

definition token_claims :: "User \<Rightarrow> int \<Rightarrow> int \<Rightarrow> JWTConfig \<Rightarrow> Claims" where
  "token_claims u t1 t2 cfg = \<lparr>cl_UserID = us_ID u, cl_Username = us_Username u, cl_Role = us_Role u,
     cl_UnitID = deref (us_UnitID u), cl_ShelterID = deref (us_ShelterID u),
     cl_ExpiresAt = Some (NewNumericDate (t1 + to_int64 (jc_ExpiryHours cfg * time_Hour))),
     cl_IssuedAt = Some (NewNumericDate t2)\<rparr>"

lemma run_GenerateToken:
  "run (GenerateToken J (us_ID u) (us_Username u) (us_Role u) (deref (us_UnitID u)) (deref (us_ShelterID u)) cfg) w =
     (case jwt_SignedString J (SigningMethodHMAC ''HS256'')
          (token_claims u (wall w (looks w)) (wall w (Suc (looks w))) cfg) (jc_SecretKey cfg) of
        Inl err \<Rightarrow> Inl (Wrapped (''failed to sign token: '' @ err_Error err) err)
      | Inr tok \<Rightarrow> Inr tok, w\<lparr>looks := Suc (Suc (looks w))\<rparr>)"
  by (auto simp: GenerateToken_def run_bind run_clock_Now Let_def token_claims_def split: sum.splits)

lemma run_HashPassword:
  "run (HashPassword B p) w = (case bcrypt_GenerateFromPassword B (looks w) p bcrypt_DefaultCost of
      Inl err \<Rightarrow> Inl (Wrapped (''failed to hash password: '' @ err_Error err) err) | Inr h \<Rightarrow> Inr h,
     w\<lparr>looks := Suc (looks w)\<rparr>)"
  by (auto simp: HashPassword_def run_Stmt split: sum.splits)

text \<open>The hours a session may last for its nanoseconds to fit an \<open>int64\<close>.\<close>

lemma to_int64_hours: "0 \<le> h \<Longrightarrow> h \<le> 2562047 \<Longrightarrow> to_int64 (h * time_Hour) = h * time_Hour"
  by (simp add: to_int64_def time_Hour_def)

section \<open>The accounts table\<close>

definition user_typed :: "db \<Rightarrow> user_row \<Rightarrow> bool" where
  "user_typed d r \<longleftrightarrow> usr_role r \<in> set authz_All
     \<and> (usr_unit_id r \<noteq> None \<longleftrightarrow> usr_role r = RoleResponder)
     \<and> (usr_shelter_id r \<noteq> None \<longleftrightarrow> usr_role r = RoleShelterManager)
     \<and> user_fk d r \<and> text_ok (usr_username r) \<and> text_ok (usr_email r)"

definition users_typed :: "db \<Rightarrow> bool" where
  "users_typed d \<longleftrightarrow> pkey (users d) \<and> (\<forall>k r. sel (users d) k = Some r \<longrightarrow> user_typed d r)
     \<and> (\<forall>k r k' r'. sel (users d) k = Some r \<longrightarrow> sel (users d) k' = Some r' \<longrightarrow>
          (usr_username r = usr_username r' \<or> usr_email r = usr_email r') \<longrightarrow> k = k')"

lemma set_role_simps [simp]:
  "usr_role (set_role ro un sh t r) = ro" "usr_unit_id (set_role ro un sh t r) = un"
  "usr_shelter_id (set_role ro un sh t r) = sh" "usr_username (set_role ro un sh t r) = usr_username r"
  "usr_email (set_role ro un sh t r) = usr_email r" "usr_password (set_role ro un sh t r) = usr_password r"
  by (simp_all add: set_role_def)

text \<open>What the three operations do to the database: a new citizen, one row's role and bindings, or
  nothing.\<close>

definition citizen_added :: "db \<Rightarrow> db \<Rightarrow> bool" where
  "citizen_added d d' \<longleftrightarrow> (\<exists>k r. sel (users d) k = None \<and> d' = d\<lparr>users := ins k r (users d)\<rparr>
     \<and> usr_role r = RoleCitizen \<and> usr_unit_id r = None \<and> usr_shelter_id r = None
     \<and> text_ok (usr_username r) \<and> text_ok (usr_email r)
     \<and> (\<forall>r' \<in> snd ` set (users d). usr_username r' \<noteq> usr_username r \<and> usr_email r' \<noteq> usr_email r))"

definition role_replaced :: "db \<Rightarrow> db \<Rightarrow> bool" where
  "role_replaced d d' \<longleftrightarrow> (\<exists>k r ro un sh t. sel (users d) k = Some r
     \<and> d' = d\<lparr>users := upd k (set_role ro un sh t) (users d)\<rparr> \<and> ro \<in> set authz_All
     \<and> (un \<noteq> None \<longleftrightarrow> ro = RoleResponder) \<and> (sh \<noteq> None \<longleftrightarrow> ro = RoleShelterManager)
     \<and> user_fk d (set_role ro un sh t r))"

lemma create_user_effect:
  assumes "run (UserRepository_Create u) w = (res, w')" and "us_Role u = RoleCitizen"
  shows "wenv w' = wenv w \<and> world.more w' = world.more w \<and> (base w' = base w \<or> citizen_added (base w) (base w'))
    \<and> (\<forall>u'. res = Inr u' \<longrightarrow> citizen_added (base w) (base w')
         \<and> u' = u\<lparr>us_ID := gen_uuid (wenv w) (pc w), us_CreatedAt := clock (wenv w) (pc w),
                  us_UpdatedAt := clock (wenv w) (pc w)\<rparr>)"
proof -
  define k where "k = gen_uuid (wenv w) (pc w)"
  define t where "t = clock (wenv w) (pc w)"
  define r where "r = \<lparr>usr_username = us_Username u, usr_email = us_Email u, usr_password = us_Password u,
    usr_role = us_Role u, usr_unit_id = None, usr_shelter_id = None, usr_created_at = t, usr_updated_at = t\<rparr>"
  define d' where "d' = (base w)\<lparr>users := ins k r (users (base w))\<rparr>"
  define texts where "texts \<longleftrightarrow> list_all text_ok [us_Username u, us_Email u, us_Password u, us_Role u]"
  define dup where "dup \<longleftrightarrow> sel (users (base w)) k \<noteq> None
    \<or> list_ex (\<lambda>(_, r'). usr_username r' = us_Username u \<or> usr_email r' = us_Email u) (users (base w))"
  have st: "run (UserRepository_Create u) w = (case flt (wenv w) (pc w) of
      Some e \<Rightarrow> (Inl e, w\<lparr>pc := Suc (pc w)\<rparr>)
    | None \<Rightarrow> if \<not> texts then (Inl bad_encoding, w\<lparr>pc := Suc (pc w)\<rparr>)
        else if \<not> user_row_ok r then (Inl check_violation, w\<lparr>pc := Suc (pc w)\<rparr>)
        else if dup then (Inl unique_violation, w\<lparr>pc := Suc (pc w)\<rparr>)
        else (if ack_lost (wenv w) (pc w) then Inl lost_ack
              else Inr (u\<lparr>us_ID := k, us_CreatedAt := t, us_UpdatedAt := t\<rparr>),
              w\<lparr>pc := Suc (pc w), base := d', view := d'\<rparr>))"
    unfolding UserRepository_Create_def run_pool_stmt pg_text_def Let_def k_def [symmetric] t_def [symmetric]
      r_def [symmetric] texts_def [symmetric] dup_def [symmetric] d'_def [symmetric]
    by (simp split: option.split)
  have added: "citizen_added (base w) d'" if "texts" "\<not> dup"
    unfolding citizen_added_def
  proof (rule exI [of _ k], rule exI [of _ r], intro conjI ballI)
    fix r' assume "r' \<in> snd ` set (users (base w))"
    with that(2) show "usr_username r' \<noteq> usr_username r" "usr_email r' \<noteq> usr_email r"
      by (auto simp: dup_def list_ex_iff r_def)
  qed (use that assms(2) in \<open>simp_all add: dup_def texts_def r_def d'_def\<close>)
  show ?thesis
    using assms(1) added unfolding st k_def t_def by (auto split: option.splits if_splits)
qed

lemma user_typed_frame: "user_typed (d\<lparr>users := t\<rparr>) r = user_typed d r"
  by (simp add: user_typed_def user_fk_def)

lemma users_typed_citizen: "users_typed d \<Longrightarrow> citizen_added d d' \<Longrightarrow> users_typed d'"
  unfolding citizen_added_def
proof (elim exE conjE)
  fix k r
  assume t: "users_typed d" and k: "sel (users d) k = None" and d': "d' = d\<lparr>users := ins k r (users d)\<rparr>"
    and r: "usr_role r = RoleCitizen" "usr_unit_id r = None" "usr_shelter_id r = None"
      "text_ok (usr_username r)" "text_ok (usr_email r)"
    and fresh: "\<forall>r'\<in>snd ` set (users d). usr_username r' \<noteq> usr_username r \<and> usr_email r' \<noteq> usr_email r"
  have ne: "usr_username r' \<noteq> usr_username r \<and> usr_email r' \<noteq> usr_email r" if "sel (users d) k' = Some r'" for k' r'
    using sel_Some_in [OF that] fresh by force
  have s: "sel (users d') k' = (if k' = k then Some r else sel (users d) k')" for k'
    using k by (simp add: d')
  have "pkey (users d')" using t k by (simp add: users_typed_def d' pkey_ins)
  moreover have "user_typed d' r' " if "sel (users d') k' = Some r'" for k' r'
  proof (cases "k' = k")
    case True
    with that r s show ?thesis by (simp add: user_typed_def user_fk_def authz_All_def)
  next
    case False
    with that t s show ?thesis by (simp add: d' user_typed_frame users_typed_def)
  qed
  moreover have "k1 = k2" if "sel (users d') k1 = Some r1" "sel (users d') k2 = Some r2"
    "usr_username r1 = usr_username r2 \<or> usr_email r1 = usr_email r2" for k1 k2 r1 r2
    using that t ne unfolding s users_typed_def by (metis option.inject)
  ultimately show ?thesis unfolding users_typed_def by blast
qed

lemma users_typed_role: "users_typed d \<Longrightarrow> role_replaced d d' \<Longrightarrow> users_typed d'"
  unfolding role_replaced_def
proof (elim exE conjE)
  fix k r ro un sh t
  assume ty: "users_typed d" and k: "sel (users d) k = Some r"
    and d': "d' = d\<lparr>users := upd k (set_role ro un sh t) (users d)\<rparr>" and ro: "ro \<in> set authz_All"
    and b: "(un \<noteq> None) = (ro = RoleResponder)" "(sh \<noteq> None) = (ro = RoleShelterManager)"
    and fk: "user_fk d (set_role ro un sh t r)"
  have s: "sel (users d') k' = (if k' = k then Some (set_role ro un sh t r) else sel (users d) k')" for k'
    using k by (simp add: d')
  have "pkey (users d')" using ty by (simp add: users_typed_def d')
  moreover have "user_typed d' r'" if "sel (users d') k' = Some r'" for k' r'
  proof (cases "k' = k")
    case True
    then have r': "r' = set_role ro un sh t r" using that s by simp
    have "user_typed d r" using ty k by (simp add: users_typed_def)
    with ro b fk show ?thesis by (simp add: d' user_typed_frame r') (simp add: user_typed_def)
  next
    case False
    with that ty s show ?thesis by (simp add: d' user_typed_frame users_typed_def)
  qed
  moreover have "k1 = k2" if "sel (users d') k1 = Some r1" "sel (users d') k2 = Some r2"
    "usr_username r1 = usr_username r2 \<or> usr_email r1 = usr_email r2" for k1 k2 r1 r2
  proof -
    have "\<exists>r0. sel (users d) k' = Some r0 \<and> usr_username r0 = usr_username r' \<and> usr_email r0 = usr_email r'"
      if "sel (users d') k' = Some r'" for k' r'
      using that k by (auto simp: s split: if_splits)
    with that ty show ?thesis unfolding users_typed_def by metis
  qed
  ultimately show ?thesis unfolding users_typed_def by blast
qed

section \<open>Role assignment\<close>

lemma role_text_ok [simp]: "role \<in> set authz_All \<Longrightarrow> text_ok role"
  by (auto simp: authz_All_def role_defs byte_in_def byte_def)

definition cast_binding :: "env \<Rightarrow> string option \<Rightarrow> uuid option" where
  "cast_binding e s = Option.bind s (uuid_cast e)"

lemma cast_opt_eq: "cast_opt s f e n t d = (if s \<noteq> None \<and> cast_binding e s = None then Inl invalid_text
    else f (cast_binding e s) e n t d)"
  by (cases s) (auto simp: cast_opt_def cast_uuid_def cast_binding_def split: option.split)

text \<open>The statement of \<open>UpdateRoleAndBindings\<close>, with its parameters cast.\<close>

lemma run_UpdateRole:
  assumes "role \<in> set authz_All"
  shows "run (UserRepository_UpdateRoleAndBindings x role un sh) w = (case flt (wenv w) (pc w) of
     Some e \<Rightarrow> (Inl e, w\<lparr>pc := Suc (pc w)\<rparr>)
   | None \<Rightarrow> (case uuid_cast (wenv w) x of None \<Rightarrow> (Inl invalid_text, w\<lparr>pc := Suc (pc w)\<rparr>)
     | Some k \<Rightarrow>
        if un \<noteq> None \<and> cast_binding (wenv w) un = None \<or> sh \<noteq> None \<and> cast_binding (wenv w) sh = None
        then (Inl invalid_text, w\<lparr>pc := Suc (pc w)\<rparr>)
        else case sel (users (base w)) k of
          None \<Rightarrow> (if ack_lost (wenv w) (pc w) then Inl lost_ack else Inl ErrNoRows,
                   w\<lparr>pc := Suc (pc w), view := base w\<rparr>)
        | Some r \<Rightarrow>
            let f = set_role role (cast_binding (wenv w) un) (cast_binding (wenv w) sh) (clock (wenv w) (pc w));
                d = (base w)\<lparr>users := upd k f (users (base w))\<rparr>
            in if \<not> user_fk (base w) (f r) then (Inl foreign_key_violation, w\<lparr>pc := Suc (pc w)\<rparr>)
               else (if ack_lost (wenv w) (pc w) then Inl lost_ack else Inr (scanUser (k, f r)),
                     w\<lparr>pc := Suc (pc w), base := d, view := d\<rparr>)))"
proof -
  define e where "e = wenv w"
  define n where "n = pc w"
  define t where "t = clock e n"
  define d where "d = base w"
  define un' where "un' = cast_binding e un"
  define sh' where "sh' = cast_binding e sh"
  define bad where "bad \<longleftrightarrow> un \<noteq> None \<and> un' = None \<or> sh \<noteq> None \<and> sh' = None"
  have st: "pg_text [role] (cast_uuid x (\<lambda>k. cast_opt un (\<lambda>un. cast_opt sh (\<lambda>sh. update_role role un sh k)))) e n t d
     = (case uuid_cast e x of None \<Rightarrow> Inl invalid_text | Some k \<Rightarrow>
          if bad then Inl invalid_text
          else case sel (users d) k of None \<Rightarrow> Inr (None, d, {})
            | Some r \<Rightarrow> if \<not> user_fk d (set_role role un' sh' t r) then Inl foreign_key_violation
                else Inr (Some (k, set_role role un' sh' t r),
                          d\<lparr>users := upd k (set_role role un' sh' t) (users d)\<rparr>, {RowUser k}))"
    using assms
    by (auto simp: pg_text_def cast_uuid_def cast_opt_eq update_role_def user_row_ok_def bad_def un'_def sh'_def
        split: option.splits)
  show ?thesis
    unfolding UserRepository_UpdateRoleAndBindings_def run_bindE run_pool_stmt Let_def
      e_def [symmetric] n_def [symmetric] t_def [symmetric] d_def [symmetric] un'_def [symmetric] sh'_def [symmetric]
      bad_def [symmetric] st
    by (auto simp: d_def intro!: world.equality split: option.split)
qed

lemma role_bindings_Inr:
  "role_bindings role un sh = Inr (un', sh') \<Longrightarrow>
     (un' \<noteq> None \<longleftrightarrow> role = RoleResponder) \<and> (sh' \<noteq> None \<longleftrightarrow> role = RoleShelterManager)
     \<and> un' = (if role = RoleResponder then un else None) \<and> sh' = (if role = RoleShelterManager then sh else None)"
  by (auto simp: role_bindings_def split: if_splits)

lemma assign_role_effect:
  assumes "run (AuthService_AssignRole x role un sh) w = (res, w')"
  shows "wenv w' = wenv w \<and> world.more w' = world.more w
    \<and> (base w' = base w \<or> role_replaced (base w) (base w'))"
proof (cases "authz_IsValid role \<and> (\<exists>b. role_bindings role un sh = Inr b)")
  case False
  with assms show ?thesis by (auto simp: AuthService_AssignRole_def split: if_splits sum.splits)
next
  case True
  then obtain un' sh' where v: "role \<in> set authz_All" and b: "role_bindings role un sh = Inr (un', sh')"
    by (auto simp: authz_IsValid_iff)
  obtain res1 w1 where r: "run (UserRepository_UpdateRoleAndBindings x role un' sh') w = (res1, w1)" by (metis surj_pair)
  have w': "w' = w1"
    using assms r v b by (auto simp: AuthService_AssignRole_def authz_IsValid_iff run_bind split: sum.splits if_splits)
  define un1 where "un1 = cast_binding (wenv w) un'"
  define sh1 where "sh1 = cast_binding (wenv w) sh'"
  define t where "t = clock (wenv w) (pc w)"
  define d where "d = base w"
  have none: "un' = None \<Longrightarrow> un1 = None" "sh' = None \<Longrightarrow> sh1 = None"
    by (simp_all add: un1_def sh1_def cast_binding_def)
  have "wenv w1 = wenv w \<and> world.more w1 = world.more w \<and> (base w1 = d \<or> (\<exists>k r. sel (users d) k = Some r
      \<and> user_fk d (set_role role un1 sh1 t r) \<and> \<not> (un' \<noteq> None \<and> un1 = None \<or> sh' \<noteq> None \<and> sh1 = None)
      \<and> base w1 = d\<lparr>users := upd k (set_role role un1 sh1 t) (users d)\<rparr>))"
    using r unfolding run_UpdateRole [OF v] Let_def un1_def [symmetric] sh1_def [symmetric] t_def [symmetric]
      d_def [symmetric]
    by (cases "un' \<noteq> None \<and> un1 = None \<or> sh' \<noteq> None \<and> sh1 = None")
       (simp_all add: d_def split: option.splits if_splits; fastforce)+
  with none role_bindings_Inr [OF b] v show ?thesis
    unfolding w' role_replaced_def d_def by metis
qed

lemma Login_Inr:
  assumes "run (AuthService_Login s email password) w = (Inr (u, tok), w')"
  shows "\<exists>k r t1 t2. (k, r) \<in> set (users (base w)) \<and> usr_email r = email \<and> u = scanUser (k, r)
     \<and> CheckPassword (as_bcrypt s) (usr_password r) password
     \<and> t1 = wall w (looks w) \<and> t2 = wall w (Suc (looks w))
     \<and> jwt_SignedString (as_jwt s) (SigningMethodHMAC ''HS256'') (token_claims u t1 t2 (as_jwtCfg s))
         (jc_SecretKey (as_jwtCfg s)) = Inr tok \<and> base w' = base w"
proof -
  obtain res1 w1 where r: "run (UserRepository_GetByEmail email) w = (res1, w1)" by (metis surj_pair)
  with assms obtain u1 where u1: "res1 = Inr u1" and chk: "CheckPassword (as_bcrypt s) (us_Password u1) password"
    and g: "run (GenerateToken (as_jwt s) (us_ID u1) (us_Username u1) (us_Role u1)
                  (deref (us_UnitID u1)) (deref (us_ShelterID u1)) (as_jwtCfg s)) w1 = (Inr tok, w')" and "u1 = u"
    by (auto simp: AuthService_Login_def run_bind run_bindE split: sum.splits prod.splits if_splits)
  from r u1 obtain k row where f: "find (\<lambda>(k, r). usr_email r = email) (users (base w)) = Some (k, row)"
    and u: "u1 = scanUser (k, row)" and w1: "w1 = w\<lparr>pc := Suc (pc w), base := base w, view := base w\<rparr>"
    by (auto simp: UserRepository_GetByEmail_def run_pool_stmt pg_text_def reading_def one_row_def
        split: option.splits sum.splits if_splits)
  from f have row: "(k, row) \<in> set (users (base w))" "usr_email row = email" by (auto simp: find_Some_iff set_conv_nth)
  show ?thesis
    using g row chk unfolding \<open>u1 = u\<close> [symmetric] run_GenerateToken w1
    by (auto simp: u scanUser_def split: sum.splits)
qed

lemma Login_frame: "run (AuthService_Login s email password) w = (res, w') \<Longrightarrow> base w' = base w \<and> wenv w' = wenv w"
  by (auto simp: AuthService_Login_def UserRepository_GetByEmail_def run_bind run_bindE run_pool_stmt run_GenerateToken
      pg_text_def reading_def split: sum.splits prod.splits if_splits option.splits)

lemma Register_frame:
  assumes "run (AuthService_Register s username email password) w = (res, w')"
  shows "(base w' = base w \<or> citizen_added (base w) (base w')) \<and> wenv w' = wenv w
    \<and> (\<forall>u tok. res = Inr (u, tok) \<longrightarrow> citizen_added (base w) (base w')
        \<and> us_Role u = RoleCitizen \<and> us_UnitID u = None \<and> us_ShelterID u = None
        \<and> (\<exists>t1 t2. jwt_SignedString (as_jwt s) (SigningMethodHMAC ''HS256'') (token_claims u t1 t2 (as_jwtCfg s))
              (jc_SecretKey (as_jwtCfg s)) = Inr tok))"
proof -
  obtain r1 w1 where h: "run (HashPassword (as_bcrypt s) password) w = (r1, w1)" by (metis surj_pair)
  then have w1: "base w1 = base w" "wenv w1 = wenv w" by (auto simp: run_HashPassword)
  show ?thesis
  proof (cases r1)
    case (Inl e)
    with assms h w1 show ?thesis by (auto simp: AuthService_Register_def run_bindE)
  next
    case (Inr hash)
    define u0 where "u0 = \<lparr>us_ID = '''', us_Username = username, us_Email = email,
             us_Password = hash, us_Role = RoleCitizen, us_UnitID = None, us_ShelterID = None,
             us_CreatedAt = 0, us_UpdatedAt = 0\<rparr>"
    obtain r2 w2 where c: "run (UserRepository_Create u0) w1 = (r2, w2)" by (metis surj_pair)
    have "us_Role u0 = RoleCitizen" by (simp add: u0_def)
    from create_user_effect [OF c this] w1 have eff: "wenv w2 = wenv w"
      "base w2 = base w \<or> citizen_added (base w) (base w2)"
      "\<And>u'. r2 = Inr u' \<Longrightarrow> citizen_added (base w) (base w2) \<and> us_Role u' = RoleCitizen
         \<and> us_UnitID u' = None \<and> us_ShelterID u' = None"
      by (auto simp: u0_def)
    show ?thesis
    proof (cases r2)
      case (Inl e)
      with assms h Inr c eff show ?thesis
        by (auto simp: AuthService_Register_def run_bindE run_bind u0_def [symmetric] split: if_splits)
    next
      case i: (Inr u1)
      from assms h Inr c i have g: "(res, w') = (case run (GenerateToken (as_jwt s) (us_ID u1) (us_Username u1)
          (us_Role u1) (deref (us_UnitID u1)) (deref (us_ShelterID u1)) (as_jwtCfg s)) w2 of
            (Inl e, w3) \<Rightarrow> (Inl e, w3) | (Inr tok, w3) \<Rightarrow> (Inr (u1, tok), w3))"
        by (auto simp: AuthService_Register_def run_bindE run_bind u0_def [symmetric] split: sum.splits prod.splits)
      show ?thesis using g [unfolded run_GenerateToken] eff(1) eff(3) [OF i] by (auto split: sum.splits)
    qed
  qed
qed


section \<open>Sequences of operations\<close>

text \<open>What anyone may ask for, and what the module does in all.\<close>

inductive public_step :: "AuthService \<Rightarrow> 'm authing_ext world_scheme \<Rightarrow> 'm authing_ext world_scheme \<Rightarrow> bool"
  for s :: AuthService where
  register: "run (AuthService_Register s username email password) w = (res, w') \<Longrightarrow> public_step s w w'"
| login: "run (AuthService_Login s email password) w = (res, w') \<Longrightarrow> public_step s w w'"

inductive auth_step :: "AuthService \<Rightarrow> 'm authing_ext world_scheme \<Rightarrow> 'm authing_ext world_scheme \<Rightarrow> bool"
  for s :: AuthService where
  public: "public_step s w w' \<Longrightarrow> auth_step s w w'"
| assign: "run (AuthService_AssignRole x role un sh) w = (res, w') \<Longrightarrow> auth_step s w w'"

lemma public_step_effect:
  "public_step s w w' \<Longrightarrow> base w' = base w \<or> citizen_added (base w) (base w')"
  by (auto elim!: public_step.cases dest: Register_frame Login_frame)

lemma auth_step_effect:
  "auth_step s w w' \<Longrightarrow> base w' = base w \<or> citizen_added (base w) (base w') \<or> role_replaced (base w) (base w')"
  by (auto elim!: auth_step.cases dest: public_step_effect assign_role_effect)

lemma auth_step_typed: "auth_step s w w' \<Longrightarrow> users_typed (base w) \<Longrightarrow> users_typed (base w')"
  using auth_step_effect users_typed_citizen users_typed_role by metis

section \<open>Sample runs\<close>

lemma sample_accounts_typed: "users_typed sample_accounts"
proof -
  have row: "sel (users sample_accounts) k = Some r \<Longrightarrow>
      k = ''u-1'' \<and> r = sample_user ''rita'' RoleResponder (Some ''amb-1'')
    \<or> k = ''u-2'' \<and> r = sample_user ''carl'' RoleCitizen None" for k r
    by (auto simp: sample_accounts_def split: if_splits)
  moreover have "user_typed sample_accounts (sample_user ''rita'' RoleResponder (Some ''amb-1''))"
    "user_typed sample_accounts (sample_user ''carl'' RoleCitizen None)"
    by (simp_all add: user_typed_def user_fk_def sample_accounts_def sample_user_def authz_All_def byte_in_def byte_def)
  moreover have "pkey (users sample_accounts)" by (simp add: sample_accounts_def pkey_def)
  moreover have "k = k'" if "sel (users sample_accounts) k = Some r" "sel (users sample_accounts) k' = Some r'"
    "usr_username r = usr_username r' \<or> usr_email r = usr_email r'" for k k' r r'
    using row [OF that(1)] row [OF that(2)] that(3) by (auto simp: sample_user_def)
  ultimately show ?thesis unfolding users_typed_def by blast
qed

definition after_signup :: "unit authing_ext world_scheme" where
  "after_signup = snd (run (AuthService_Register sample_auth ''nina'' ''nina@x.org'' ''pw'') (start_auth sample_accounts))"

definition after_assignment :: "unit authing_ext world_scheme" where
  "after_assignment = snd (run (AuthService_AssignRole ''u-2'' RoleOperator (Some ''amb-1'') None) after_signup)"

lemma signup_step: "public_step sample_auth (start_auth sample_accounts) after_signup"
  unfolding after_signup_def by (rule public_step.register) (rule surjective_pairing)

lemma users_after_signup:
  "users (base after_signup) = users sample_accounts @ [(''id-'', \<lparr>usr_username = ''nina'', usr_email = ''nina@x.org'',
     usr_password = ''$2a$pw'', usr_role = RoleCitizen, usr_unit_id = None, usr_shelter_id = None,
     usr_created_at = 0, usr_updated_at = 0\<rparr>)]"
proof -
  have t: "text_ok ''nina''" "text_ok ''nina@x.org''" "text_ok ''$2a$pw''" "text_ok RoleCitizen"
    by (simp_all add: byte_in_def byte_def role_defs)
  define w1 where "w1 = (start_auth sample_accounts)\<lparr>looks := 1\<rparr>"
  have w1: "base w1 = sample_accounts" "wenv w1 = sample_env" "pc w1 = 0" by (simp_all add: w1_def)
  have h: "run (HashPassword sample_bcrypt ''pw'') (start_auth sample_accounts) = (Inr ''$2a$pw'', w1)"
    by (simp add: run_HashPassword sample_bcrypt_def w1_def)
  have fresh: "sel (users sample_accounts) ''id-'' = None"
    "\<not> list_ex (\<lambda>(_, r'). usr_username r' = ''nina'' \<or> usr_email r' = ''nina@x.org'') (users sample_accounts)"
    by (simp_all add: sample_accounts_def sample_user_def)
  define u0 where "u0 = \<lparr>us_ID = '''', us_Username = ''nina'', us_Email = ''nina@x.org'', us_Password = ''$2a$pw'',
     us_Role = RoleCitizen, us_UnitID = None, us_ShelterID = None, us_CreatedAt = 0, us_UpdatedAt = 0\<rparr>"
  obtain u1 w2 where c: "run (UserRepository_Create u0) w1 = (Inr u1, w2)"
    and w2: "users (base w2) = users sample_accounts @ [(''id-'', \<lparr>usr_username = ''nina'', usr_email = ''nina@x.org'',
     usr_password = ''$2a$pw'', usr_role = RoleCitizen, usr_unit_id = None, usr_shelter_id = None,
     usr_created_at = 0, usr_updated_at = 0\<rparr>)]"
    by (simp add: UserRepository_Create_def run_pool_stmt pg_text_def Let_def t w1 u0_def user_row_ok_def
        authz_All_def fresh seconds_def ins_def del: split_paired_Ex text_ok.simps)
  show ?thesis
    unfolding after_signup_def AuthService_Register_def run_bindE run_bind sample_auth_simps h u0_def [symmetric]
    by (simp add: u0_def [symmetric] run_bind run_bindE c run_GenerateToken w2 split: sum.split)
qed

lemma assignment_step: "auth_step sample_auth after_signup after_assignment"
  unfolding after_assignment_def by (rule auth_step.assign) (rule surjective_pairing)

text \<open>C14: over any sequence of registrations, logins and role assignments, with any faults, the
  accounts table stays well typed: every role is of the vocabulary, an account is bound to a unit
  exactly when it is a responder's and to a shelter exactly when it is a shelter manager's, the
  bound unit or shelter exists, and no two accounts share a username or an email.\<close>

theorem accounts_stay_typed:
  assumes "(auth_step s)\<^sup>*\<^sup>* w w'" and "users_typed (base w)"
  shows "users_typed (base w')"
  using assms by (induction rule: rtranclp_induct) (auto dest: auth_step_typed)

lemma accounts_stay_typed_witness:
  "users_typed (base after_assignment)
   \<and> map (\<lambda>(k, r). (usr_username r, usr_role r, usr_unit_id r)) (users (base after_assignment))
     = [(''rita'', ''responder'', Some ''amb-1''), (''carl'', ''operator'', None), (''nina'', ''citizen'', None)]"
proof
  have "(auth_step sample_auth)\<^sup>*\<^sup>* (start_auth sample_accounts) after_assignment"
    using auth_step.public [OF signup_step] assignment_step by (meson rtranclp.simps)
  then show "users_typed (base after_assignment)"
    by (rule accounts_stay_typed) (simp add: sample_accounts_typed)
next
  have "run (AuthService_Register sample_auth ''nina'' ''nina@x.org'' ''pw'') (start_auth sample_accounts)
      = (fst (run (AuthService_Register sample_auth ''nina'' ''nina@x.org'' ''pw'') (start_auth sample_accounts)), after_signup)"
    by (simp add: after_signup_def)
  from Register_frame [OF this] have e: "wenv after_signup = sample_env" by simp
  have v: "RoleOperator \<in> set authz_All" by (simp add: authz_All_def)
  have u: "sel (users (base after_signup)) ''u-2'' = Some (sample_user ''carl'' RoleCitizen None)"
    by (simp add: users_after_signup sample_accounts_def)
  have c: "uuid_cast sample_env ''u-2'' = Some ''u-2''" by (simp add: plain_text_def byte_def)
  have "users (base after_assignment) = upd ''u-2'' (set_role RoleOperator None None
      (clock sample_env (pc after_signup))) (users (base after_signup))"
    unfolding after_assignment_def AuthService_AssignRole_def
    by (simp add: authz_IsValid_iff v role_bindings_def run_bind run_UpdateRole [OF v] e c u cast_binding_def
        user_fk_def Let_def del: sample_env_simps)
  then show "map (\<lambda>(k, r). (usr_username r, usr_role r, usr_unit_id r)) (users (base after_assignment))
     = [(''rita'', ''responder'', Some ''amb-1''), (''carl'', ''operator'', None), (''nina'', ''citizen'', None)]"
    by (simp add: users_after_signup sample_accounts_def sample_user_def role_defs)
qed

text \<open>A role is granted or taken away in one place only.\<close>

definition kept_or_citizen :: "db \<Rightarrow> db \<Rightarrow> bool" where
  "kept_or_citizen d d' \<longleftrightarrow>
     (\<forall>k r. sel (users d) k = Some r \<longrightarrow> sel (users d') k = Some r)
   \<and> (\<forall>k r. sel (users d') k = Some r \<longrightarrow> sel (users d) k = None \<longrightarrow>
        usr_role r = RoleCitizen \<and> usr_unit_id r = None \<and> usr_shelter_id r = None)"

lemma kept_or_citizen_refl: "kept_or_citizen d d"
  by (simp add: kept_or_citizen_def)

lemma kept_or_citizen_trans: "kept_or_citizen d1 d2 \<Longrightarrow> kept_or_citizen d2 d3 \<Longrightarrow> kept_or_citizen d1 d3"
  unfolding kept_or_citizen_def by (metis option.exhaust)

lemma kept_or_citizen_added: "citizen_added d d' \<Longrightarrow> kept_or_citizen d d'"
  by (auto simp: citizen_added_def kept_or_citizen_def sel_ins split: option.splits if_splits)

text \<open>However many registrations and logins there are, with any faults, every account keeps its
  row, so its role and bindings, and every new account is a citizen's, bound to nothing: nobody
  gains a privilege by signing up.\<close>

theorem signup_grants_nothing:
  assumes "(public_step s)\<^sup>*\<^sup>* w w'"
  shows "kept_or_citizen (base w) (base w')"
  using assms
proof (induction rule: rtranclp_induct)
  case base
  show ?case by (rule kept_or_citizen_refl)
next
  case (step y z)
  from public_step_effect [OF step.hyps(2)] have "kept_or_citizen (base y) (base z)"
    using kept_or_citizen_refl [of "base y"] kept_or_citizen_added by auto
  with step.IH show ?case by (rule kept_or_citizen_trans)
qed

lemma signup_grants_nothing_witness:
  "kept_or_citizen sample_accounts (base after_signup)
   \<and> map (\<lambda>(k, r). (usr_username r, usr_role r)) (users (base after_signup))
     = [(''rita'', ''responder''), (''carl'', ''citizen''), (''nina'', ''citizen'')]"
proof
  have "(public_step sample_auth)\<^sup>*\<^sup>* (start_auth sample_accounts) after_signup"
    using signup_step by blast
  from signup_grants_nothing [OF this] show "kept_or_citizen sample_accounts (base after_signup)" by simp
qed (simp add: users_after_signup sample_accounts_def sample_user_def role_defs)

text \<open>Without faults, the answer of a role assignment on every branch and the database it
  leaves: an unknown role, a responder without a unit or a shelter manager without a shelter, an id
  that is no uuid, an unknown user and an unknown unit or shelter are refused and nothing changes;
  otherwise the role is set and both bindings are replaced, each by what the role keeps of it.\<close>

theorem assign_role_total:
  assumes "calm (wenv w)" and "run (AuthService_AssignRole x role un sh) w = (res, w')"
  shows "(res, base w') =
    (if role \<notin> set authz_All then (Inl (E Auth_ErrInvalidRole), base w)
     else if role = RoleResponder \<and> un \<in> {None, Some ''''}
       \<or> role = RoleShelterManager \<and> sh \<in> {None, Some ''''} then (Inl (E Auth_ErrBindingMissing), base w)
     else let un' = (if role = RoleResponder then un else None);
              sh' = (if role = RoleShelterManager then sh else None);
              f = set_role role (cast_binding (wenv w) un') (cast_binding (wenv w) sh') (clock (wenv w) (pc w))
       in if uuid_cast (wenv w) x = None \<or> un' \<noteq> None \<and> cast_binding (wenv w) un' = None
            \<or> sh' \<noteq> None \<and> cast_binding (wenv w) sh' = None then (Inl invalid_text, base w)
          else case sel (users (base w)) (the (uuid_cast (wenv w) x)) of
            None \<Rightarrow> (Inl (E Auth_ErrUserNotFound), base w)
          | Some r \<Rightarrow> if \<not> user_fk (base w) (f r) then (Inl foreign_key_violation, base w)
              else (Inr (scanUser (the (uuid_cast (wenv w) x), f r)),
                    (base w)\<lparr>users := upd (the (uuid_cast (wenv w) x)) f (users (base w))\<rparr>))"
proof (cases "role \<in> set authz_All")
  case False
  with assms(2) show ?thesis by (auto simp: AuthService_AssignRole_def authz_IsValid_iff)
next
  case v: True
  define un' where "un' = (if role = RoleResponder then un else None)"
  define sh' where "sh' = (if role = RoleShelterManager then sh else None)"
  define missing where "missing \<longleftrightarrow> role = RoleResponder \<and> un \<in> {None, Some ''''}
       \<or> role = RoleShelterManager \<and> sh \<in> {None, Some ''''}"
  have b: "role_bindings role un sh = (if missing then Inl (E Auth_ErrBindingMissing) else Inr (un', sh'))"
    by (auto simp: role_bindings_def missing_def un'_def sh'_def)
  show ?thesis
    using assms v
    unfolding AuthService_AssignRole_def authz_IsValid_iff b missing_def [symmetric] un'_def [symmetric]
      sh'_def [symmetric] Let_def
    by (cases missing; cases "uuid_cast (wenv w) x")
       (auto simp: run_bind run_UpdateRole [OF v] Let_def split: option.splits if_splits)
qed

lemma assign_role_total_witness:
  "fst (run (AuthService_AssignRole ''u-2'' RoleResponder (Some ''amb-1'') (Some ''hall'')) (start_auth sample_accounts))
     = Inr (scanUser (''u-2'', set_role RoleResponder (Some ''amb-1'') None 0 (sample_user ''carl'' RoleCitizen None)))
   \<and> fst (run (AuthService_AssignRole ''u-2'' RoleResponder (Some ''amb-7'') None) (start_auth sample_accounts))
     = Inl foreign_key_violation"
proof -
  have "calm (wenv (start_auth sample_accounts))" by simp
  note total = assign_role_total [OF this surjective_pairing]
  have v: "RoleResponder \<in> set authz_All" by (simp add: authz_All_def)
  have u: "sel (users sample_accounts) ''u-2'' = Some (sample_user ''carl'' RoleCitizen None)"
    by (simp add: sample_accounts_def)
  have fk: "user_fk sample_accounts (set_role RoleResponder (Some ''amb-1'') None t r)"
    "\<not> user_fk sample_accounts (set_role RoleResponder (Some ''amb-7'') None t r)" for t r
    by (simp_all add: user_fk_def sample_accounts_def)
  have c: "cast_binding sample_env (Some ''amb-1'') = Some ''amb-1''" "cast_binding sample_env (Some ''amb-7'') = Some ''amb-7''"
    "cast_binding sample_env None = None" "uuid_cast sample_env ''u-2'' = Some ''u-2''"
    by (simp_all add: cast_binding_def plain_text_def byte_def)
  show ?thesis
    using total [of "''u-2''" RoleResponder "Some ''amb-1''" "Some ''hall''"]
      total [of "''u-2''" RoleResponder "Some ''amb-7''" None]
    by (simp add: v u fk c seconds_def del: sample_env_simps(3)) (simp add: prod_eq_iff Let_def)
qed

end
