(* ===== verification/Middleware.thy ===== *)
theory Middleware
  imports Auth_Props
begin

text \<open>
  The HTTP middleware (\<^verbatim>\<open>platform/middleware\<close>). A gin handler sees a context (a process may extend it with state of its own): the request, the path
  parameters, the keys set so far and the response headers written so far. A middleware takes what
  \<open>c.Next()\<close> would run and yields a handler. A handler ends with a reply, or panics. Log lines are
  not modelled; the request counter is the list of label triples it is increased for.
\<close>

section \<open>Contexts and replies\<close>

record request =
  rq_Method :: string
  rq_Path :: string
  rq_Header :: "string \<Rightarrow> string" \<comment> \<open>\<open>GetHeader\<close>: the empty string when absent\<close>
  rq_RemoteAddr :: string

record ctx =
  cx_Request :: request
  cx_Param :: "string \<Rightarrow> string" \<comment> \<open>the empty string when the route has no such parameter\<close>
  cx_FullPath :: string \<comment> \<open>the matched template, empty when no route matched\<close>
  cx_Keys :: "string \<Rightarrow> string"
  cx_Headers :: "(string \<times> string) list"
  cx_Counted :: "(string \<times> string \<times> string) list"

datatype 'd reply = JSON "'d response" | StatusOnly nat

datatype ('c, 'd) result = Wrote "'d reply" 'c | Panicked 'c

type_synonym ('x, 'd) handler = "'x ctx_scheme \<Rightarrow> ('x ctx_scheme, 'd) result"
type_synonym ('x, 'd) middleware = "('x, 'd) handler \<Rightarrow> ('x, 'd) handler"

definition reply_status :: "'d reply \<Rightarrow> nat" where
  "reply_status r = (case r of JSON b \<Rightarrow> resp_status b | StatusOnly n \<Rightarrow> n)"

definition c_GetHeader :: "'x ctx_scheme \<Rightarrow> string \<Rightarrow> string" where
  "c_GetHeader c k = rq_Header (cx_Request c) k"

definition c_Set :: "string \<Rightarrow> string \<Rightarrow> 'x ctx_scheme \<Rightarrow> 'x ctx_scheme" where
  "c_Set k v c = c\<lparr>cx_Keys := (cx_Keys c)(k := v)\<rparr>"

definition c_GetString :: "'x ctx_scheme \<Rightarrow> string \<Rightarrow> string" where
  "c_GetString c k = cx_Keys c k"

text \<open>\<open>c.Header\<close>: an empty value deletes the header.\<close>

definition c_Header :: "string \<Rightarrow> string \<Rightarrow> 'x ctx_scheme \<Rightarrow> 'x ctx_scheme" where
  "c_Header k v c = c\<lparr>cx_Headers :=
     filter (\<lambda>h. fst h \<noteq> k) (cx_Headers c) @ (if v = '''' then [] else [(k, v)])\<rparr>"

text \<open>The chain of a route: each middleware around the rest.\<close>

definition chain :: "('x, 'd) middleware list \<Rightarrow> ('x, 'd) handler \<Rightarrow> ('x, 'd) handler" where
  "chain mws h = foldr (\<lambda>m k. m k) mws h"

lemma chain_simps [simp]: "chain [] h = h" "chain (m # ms) h = m (chain ms h)"
  by (simp_all add: chain_def)

lemma chain_append [simp]: "chain (ms @ ns) h = chain ms (chain ns h)"
  by (simp add: chain_def)

section \<open>Authentication and authorization\<close>

definition unauthorized :: "string \<Rightarrow> 'd reply" where
  "unauthorized msg = JSON (common_Error 401 msg ''UNAUTHORIZED'')"

definition AuthRequired :: "jwt_lib \<Rightarrow> int \<Rightarrow> JWTConfig \<Rightarrow> ('x, 'd) middleware" where
  "AuthRequired J now jwtCfg k c =
     (let authHeader = c_GetHeader c ''Authorization'' in
      if authHeader = '''' then Wrote (unauthorized ''missing authorization header'') c
      else case strings_SplitN2 authHeader (CHR '' '') of
        [scheme, token] \<Rightarrow>
          if scheme \<noteq> ''Bearer'' then Wrote (unauthorized ''invalid authorization format'') c
          else (case ValidateToken J now token jwtCfg of
              Inl err \<Rightarrow> Wrote (unauthorized ''invalid or expired token'') c
            | Inr claims \<Rightarrow> k (c_Set ''shelterID'' (cl_ShelterID claims) (c_Set ''unitID'' (cl_UnitID claims)
                (c_Set ''role'' (cl_Role claims) (c_Set ''username'' (cl_Username claims)
                  (c_Set ''userID'' (cl_UserID claims) c))))))
      | _ \<Rightarrow> Wrote (unauthorized ''invalid authorization format'') c)"

definition ActorFrom :: "'x ctx_scheme \<Rightarrow> Actor" where
  "ActorFrom c = \<lparr>act_UserID = c_GetString c ''userID'', act_Username = c_GetString c ''username'',
     act_Role = c_GetString c ''role'', act_UnitID = c_GetString c ''unitID'',
     act_ShelterID = c_GetString c ''shelterID''\<rparr>"

definition RequireRole :: "string list \<Rightarrow> ('x, 'd) middleware" where
  "RequireRole roles k c =
     (if \<not> Actor_Is (ActorFrom c) roles
      then Wrote (JSON (common_Error 403 ''insufficient role for this action'' ''FORBIDDEN'')) c
      else k c)"

text \<open>\<open>uuid.Parse\<close> of the parameters named; it is a parameter of the model.\<close>

fun validate_params :: "(string \<Rightarrow> bool) \<Rightarrow> string list \<Rightarrow> ('x, 'd) middleware" where
  "validate_params uuid_Parse [] k c = k c"
| "validate_params uuid_Parse (n # ns) k c =
     (let v = cx_Param c n in
      if v = '''' then validate_params uuid_Parse ns k c
      else if \<not> uuid_Parse v then Wrote (JSON (common_Error 404 ''resource not found'' ''NOT_FOUND'')) c
      else validate_params uuid_Parse ns k c)"

definition ValidateUUIDParam :: "(string \<Rightarrow> bool) \<Rightarrow> string list \<Rightarrow> ('x, 'd) middleware" where
  "ValidateUUIDParam uuid_Parse names =
     validate_params uuid_Parse (if length names = 0 then [''id''] else names)"

section \<open>Cross-origin requests\<close>

text \<open>The origins collected until a \<open>*\<close> stands in the list, and whether one did.\<close>

fun scan_origins :: "(string \<Rightarrow> string) \<Rightarrow> string list \<Rightarrow> string list \<Rightarrow> bool \<times> string list" where
  "scan_origins unicode [] acc = (False, acc)"
| "scan_origins unicode (origin # rest) acc =
     (if origin = ''*'' then (True, acc)
      else scan_origins unicode rest (strings_ToLower unicode origin # acc))"

definition cors_headers :: "CORSConfig \<Rightarrow> string \<Rightarrow> 'x ctx_scheme \<Rightarrow> 'x ctx_scheme" where
  "cors_headers cfg origin c =
     (let exposeStr = strings_Join (cc_ExposedHeaders cfg) '','';
          c1 = c_Header ''Access-Control-Allow-Origin'' origin c;
          c2 = (if cc_AllowCredentials cfg then c_Header ''Access-Control-Allow-Credentials'' ''true'' c1 else c1)
      in if exposeStr \<noteq> '''' then c_Header ''Access-Control-Expose-Headers'' exposeStr c2 else c2)"

definition preflight_headers :: "CORSConfig \<Rightarrow> 'x ctx_scheme \<Rightarrow> 'x ctx_scheme" where
  "preflight_headers cfg c =
     (let c1 = c_Header ''Access-Control-Allow-Methods'' (strings_Join (cc_AllowedMethods cfg) '','') c;
          c2 = c_Header ''Access-Control-Allow-Headers'' (strings_Join (cc_AllowedHeaders cfg) '','') c1
      in if cc_MaxAge cfg > 0 then c_Header ''Access-Control-Max-Age'' (strconv_Itoa (cc_MaxAge cfg)) c2 else c2)"

definition CORS :: "(string \<Rightarrow> string) \<Rightarrow> CORSConfig \<Rightarrow> ('x, 'd) middleware" where
  "CORS unicode cfg k c =
     (let (allowAll, allowed) = scan_origins unicode (cc_AllowedOrigins cfg) [];
          origin = c_GetHeader c ''Origin''
      in if origin = '''' then k c
         else if \<not> (allowAll \<or> strings_ToLower unicode origin \<in> set allowed) then Wrote (StatusOnly 403) c
         else if rq_Method (cx_Request c) = ''OPTIONS''
         then Wrote (StatusOnly 204) (preflight_headers cfg (cors_headers cfg origin c))
         else k (cors_headers cfg origin c))"

section \<open>Identity of requests and replicas, metrics, recovery\<close>

definition RequestIDHeader :: string where "RequestIDHeader = ''X-Request-ID''"
definition ServedByHeader :: string where "ServedByHeader = ''X-Served-By''"

text \<open>\<open>fresh\<close> is what \<open>uuid.NewString()\<close> would return.\<close>

definition RequestID :: "string \<Rightarrow> ('x, 'd) middleware" where
  "RequestID fresh k c =
     (let h = c_GetHeader c RequestIDHeader; rid = (if h = '''' then fresh else h)
      in k (c_Header RequestIDHeader rid (c_Set RequestIDHeader rid c)))"

definition ServedBy :: "string \<Rightarrow> ('x, 'd) middleware" where
  "ServedBy replica k c = k (if replica \<noteq> '''' then c_Header ServedByHeader replica c else c)"

definition Metrics :: "('x, 'd) middleware" where
  "Metrics k c = (case k c of
     Panicked c' \<Rightarrow> Panicked c'
   | Wrote r c' \<Rightarrow>
       let route = (if cx_FullPath c' = '''' then ''unmatched'' else cx_FullPath c')
       in Wrote r (c'\<lparr>cx_Counted := cx_Counted c' @
            [(rq_Method (cx_Request c'), route, strconv_Itoa (int (reply_status r)))]\<rparr>))"

definition Recovery :: "('x, 'd) middleware" where
  "Recovery k c = (case k c of
     Panicked c' \<Rightarrow> Wrote (JSON (common_Error 500 ''internal server error'' ''INTERNAL_ERROR'')) c'
   | Wrote r c' \<Rightarrow> Wrote r c')"

definition RequestLogger :: "('x, 'd) middleware" where
  "RequestLogger k c = k c"

section \<open>What they let through\<close>

text \<open>The holder of a token, as the handlers see them.\<close>

definition actor_of :: "Claims \<Rightarrow> Actor" where
  "actor_of cl = \<lparr>act_UserID = cl_UserID cl, act_Username = cl_Username cl, act_Role = cl_Role cl,
     act_UnitID = cl_UnitID cl, act_ShelterID = cl_ShelterID cl\<rparr>"

definition with_identity :: "Claims \<Rightarrow> 'x ctx_scheme \<Rightarrow> 'x ctx_scheme" where
  "with_identity cl c = c_Set ''shelterID'' (cl_ShelterID cl) (c_Set ''unitID'' (cl_UnitID cl)
     (c_Set ''role'' (cl_Role cl) (c_Set ''username'' (cl_Username cl) (c_Set ''userID'' (cl_UserID cl) c))))"

lemma with_identity_simps [simp]:
  "ActorFrom (with_identity cl c) = actor_of cl" "cx_Request (with_identity cl c) = cx_Request c"
  "cx_Param (with_identity cl c) = cx_Param c" "cx_FullPath (with_identity cl c) = cx_FullPath c"
  by (simp_all add: with_identity_def c_Set_def ActorFrom_def c_GetString_def actor_of_def)

text \<open>A request bears a token when its header is the scheme, one space and the token.\<close>

definition bears :: "jwt_lib \<Rightarrow> int \<Rightarrow> JWTConfig \<Rightarrow> request \<Rightarrow> Claims \<Rightarrow> bool" where
  "bears J now cfg rq cl \<longleftrightarrow> (\<exists>tok alg. rq_Header rq ''Authorization'' = ''Bearer '' @ tok
     \<and> jwt_ParseUnverified J tok = Some (SigningMethodHMAC alg, cl)
     \<and> jwt_Verify J (SigningMethodHMAC alg) tok (jc_SecretKey cfg) \<and> claims_live now cl)"

lemma SplitN2_Bearer: "strings_SplitN2 (''Bearer '' @ tok) (CHR '' '') = [''Bearer'', tok]"
  using strings_SplitN2_pair [of "''Bearer '' @ tok" "CHR '' ''" "''Bearer''" tok] by simp

lemma AuthRequired_Bearer:
  "c_GetHeader c ''Authorization'' = ''Bearer '' @ tok \<Longrightarrow>
     AuthRequired J now cfg k c = (case ValidateToken J now tok cfg of
        Inl err \<Rightarrow> Wrote (unauthorized ''invalid or expired token'') c
      | Inr claims \<Rightarrow> k (with_identity claims c))"
  by (simp add: AuthRequired_def SplitN2_Bearer [simplified] with_identity_def split: sum.split)

text \<open>Whom the header identifies, or the message of the refusal.\<close>

definition auth_claims :: "jwt_lib \<Rightarrow> int \<Rightarrow> JWTConfig \<Rightarrow> 'x ctx_scheme \<Rightarrow> string + Claims" where
  "auth_claims J now cfg c =
     (if c_GetHeader c ''Authorization'' = '''' then Inl ''missing authorization header''
      else case strings_SplitN2 (c_GetHeader c ''Authorization'') (CHR '' '') of
        [scheme, token] \<Rightarrow> if scheme \<noteq> ''Bearer'' then Inl ''invalid authorization format''
          else map_sum (\<lambda>err. ''invalid or expired token'') id (ValidateToken J now token cfg)
      | _ \<Rightarrow> Inl ''invalid authorization format'')"

lemma AuthRequired_eq:
  "AuthRequired J now cfg k c = (case auth_claims J now cfg c of
     Inl msg \<Rightarrow> Wrote (unauthorized msg) c | Inr cl \<Rightarrow> k (with_identity cl c))"
  by (auto simp: AuthRequired_def auth_claims_def with_identity_def Let_def split: list.splits sum.splits)

lemma auth_claims_bears:
  assumes "jwt_documented J" and "auth_claims J now cfg c = Inr cl"
  shows "bears J now cfg (cx_Request c) cl"
proof -
  from assms(2) obtain tok where s: "strings_SplitN2 (c_GetHeader c ''Authorization'') (CHR '' '') = [''Bearer'', tok]"
    and v: "ValidateToken J now tok cfg = Inr cl"
    by (cases "ValidateToken J now (last (strings_SplitN2 (c_GetHeader c ''Authorization'') (CHR '' ''))) cfg")
       (auto simp: auth_claims_def split: if_splits list.splits)
  from s have "rq_Header (cx_Request c) ''Authorization'' = ''Bearer '' @ tok"
    by (simp add: strings_SplitN2_pair c_GetHeader_def)
  with ValidateToken_Inr [OF assms(1) v] show ?thesis by (auto simp: bears_def)
qed

lemma bears_auth_claims:
  assumes "jwt_documented J" and "bears J now cfg (cx_Request c) cl"
  shows "auth_claims J now cfg c = Inr cl"
proof -
  from assms(2) obtain tok alg where h: "c_GetHeader c ''Authorization'' = ''Bearer '' @ tok"
    and t: "jwt_ParseUnverified J tok = Some (SigningMethodHMAC alg, cl)"
      "jwt_Verify J (SigningMethodHMAC alg) tok (jc_SecretKey cfg)" "claims_live now cl"
    by (auto simp: bears_def c_GetHeader_def)
  have "ValidateToken J now tok cfg = Inr cl"
    using signed_parses [OF assms(1) t(1) _ t(2,3), of "keyfunc cfg"] by (simp add: ValidateToken_def keyfunc_def)
  then show ?thesis by (simp add: auth_claims_def h SplitN2_Bearer [simplified])
qed

lemma validate_params_iff:
  "validate_params p ns k c = (if \<forall>n\<in>set ns. cx_Param c n = '''' \<or> p (cx_Param c n) then k c
     else Wrote (JSON (common_Error 404 ''resource not found'' ''NOT_FOUND'')) c)"
  by (induction ns) (auto simp: Let_def)

lemma scan_origins_iff:
  "scan_origins unicode os acc = (a, l) \<Longrightarrow>
     a = (''*'' \<in> set os) \<and> (\<not> a \<longrightarrow> set l = set acc \<union> strings_ToLower unicode ` set os)"
  by (induction os arbitrary: acc) (auto split: if_splits)

section \<open>From login to the handler\<close>

text \<open>Ids are canonical uuids, so plain ASCII.\<close>

definition ids_text :: "db \<Rightarrow> bool" where
  "ids_text d \<longleftrightarrow> (\<forall>k r. sel (users d) k = Some r \<longrightarrow>
     list_all text_ok [k, deref (usr_unit_id r), deref (usr_shelter_id r)])"

definition account_actor :: "uuid \<Rightarrow> user_row \<Rightarrow> Actor" where
  "account_actor k r = \<lparr>act_UserID = k, act_Username = usr_username r, act_Role = usr_role r,
     act_UnitID = deref (usr_unit_id r), act_ShelterID = deref (usr_shelter_id r)\<rparr>"

text \<open>C13: the token a login returns, sent back as a bearer token, makes the handlers see the account
  that logged in, with its id, username, role and bindings, until the configured hours have passed
  on the clock (rounded down to the second); from then on the request is refused. This needs hours
  whose nanoseconds fit an \<open>int64\<close>.\<close>

theorem login_token_roundtrip:
  assumes "jwt_documented (as_jwt s)" and "users_typed (base w)" and "ids_text (base w)"
    and "0 < jc_ExpiryHours (as_jwtCfg s)" and "jc_ExpiryHours (as_jwtCfg s) \<le> 2562047"
    and "0 \<le> wall w (looks w)" and "wall w (looks w) + jc_ExpiryHours (as_jwtCfg s) * time_Hour < 2 ^ 53 * time_Second"
    and "0 \<le> wall w (Suc (looks w))" and "wall w (Suc (looks w)) < 2 ^ 53 * time_Second"
    and "run (AuthService_Login s email password) w = (Inr (u, tok), w')"
    and "c_GetHeader c ''Authorization'' = ''Bearer '' @ tok"
  shows "\<exists>k r c'. sel (users (base w)) k = Some r \<and> usr_email r = email \<and> ActorFrom c' = account_actor k r
    \<and> (\<forall>now next. AuthRequired (as_jwt s) now (as_jwtCfg s) next c =
         (if now < (wall w (looks w) + jc_ExpiryHours (as_jwtCfg s) * time_Hour) div time_Second * time_Second
          then next c' else Wrote (unauthorized ''invalid or expired token'') c))"
proof -
  from Login_Inr [OF assms(10)] obtain k r t1 t2 where kr: "(k, r) \<in> set (users (base w))" "usr_email r = email"
    and u: "u = scanUser (k, r)" and t: "t1 = wall w (looks w)" "t2 = wall w (Suc (looks w))"
    and sg: "jwt_SignedString (as_jwt s) (SigningMethodHMAC ''HS256'') (token_claims u t1 t2 (as_jwtCfg s))
         (jc_SecretKey (as_jwtCfg s)) = Inr tok" by blast
  define cl where "cl = token_claims u t1 t2 (as_jwtCfg s)"
  define till where "till = (t1 + jc_ExpiryHours (as_jwtCfg s) * time_Hour) div time_Second"
  have sel: "sel (users (base w)) k = Some r" using kr(1) assms(2) by (simp add: in_sel users_typed_def)
  have h: "to_int64 (jc_ExpiryHours (as_jwtCfg s) * time_Hour) = jc_ExpiryHours (as_jwtCfg s) * time_Hour"
    using assms(4,5) by (simp add: to_int64_hours)
  then have ex: "cl_ExpiresAt cl = Some till" by (simp add: cl_def token_claims_def till_def NewNumericDate_def)
  have pos: "0 \<le> jc_ExpiryHours (as_jwtCfg s) * time_Hour" using assms(4) by (simp add: time_Hour_def)
  have "0 \<le> till \<and> till < 2 ^ 53" "0 \<le> t2 div time_Second \<and> t2 div time_Second < 2 ^ 53"
    using assms(6-9) pos t by (simp_all add: till_def time_Second_def pos_imp_zdiv_nonneg_iff div_less_iff_less_mult)
  moreover have "text_ok (usr_username r)" "usr_role r \<in> set authz_All"
    using assms(2) sel by (auto simp: users_typed_def user_typed_def)
  ultimately have ok: "claims_ok cl"
    using assms(3) sel ex
    by (simp add: claims_ok_def date_ok_def) (simp add: cl_def token_claims_def u scanUser_def ids_text_def NewNumericDate_def)
  have act: "actor_of cl = account_actor k r"
    by (simp add: actor_of_def account_actor_def cl_def token_claims_def u scanUser_def)
  have live: "claims_live now cl \<longleftrightarrow> now < till * time_Second" for now by (simp add: claims_live_def ex)
  have "AuthRequired (as_jwt s) now (as_jwtCfg s) next c = (if now < till * time_Second then next (with_identity cl c)
      else Wrote (unauthorized ''invalid or expired token'') c)" for now "next"
    using ValidateToken_signed [OF assms(1) sg [folded cl_def] ok, of now] live [of now] assms(11)
    by (auto simp: AuthRequired_Bearer)
  with sel kr(2) act show ?thesis unfolding till_def t(1) by (metis with_identity_simps(1))
qed

definition bearing :: "string \<Rightarrow> ctx" where
  "bearing tok = \<lparr>cx_Request = \<lparr>rq_Method = ''GET'', rq_Path = ''/api/v1/me'',
     rq_Header = (\<lambda>h. if h = ''Authorization'' then ''Bearer '' @ tok else ''''), rq_RemoteAddr = ''10.0.0.1:5000''\<rparr>,
     cx_Param = (\<lambda>p. ''''), cx_FullPath = ''/api/v1/me'', cx_Keys = (\<lambda>k. ''''), cx_Headers = [], cx_Counted = []\<rparr>"

lemma login_token_roundtrip_witness:
  "\<exists>u tok w' c'. run (AuthService_Login sample_auth ''rita@x.org'' ''secret'') (start_auth sample_accounts)
       = (Inr (u, tok), w')
     \<and> act_Role (ActorFrom c') = RoleResponder \<and> act_UnitID (ActorFrom c') = ''amb-1''
     \<and> (\<forall>next :: (unit, unit) handler. AuthRequired sample_jwt (5000 * time_Second) sample_cfg next (bearing tok) = next c')
     \<and> (\<forall>next :: (unit, unit) handler. AuthRequired sample_jwt (90000 * time_Second) sample_cfg next (bearing tok)
           = Wrote (unauthorized ''invalid or expired token'') (bearing tok))"
proof -
  let ?w = "start_auth sample_accounts"
  define uu where "uu = scanUser (''u-1'', sample_user ''rita'' RoleResponder (Some ''amb-1''))"
  have pw: "us_Password uu = ''$2a$secret''" by (simp add: uu_def scanUser_def sample_user_def)
  define cl where "cl = token_claims uu
    (wall ?w (looks ?w)) (wall ?w (Suc (looks ?w))) sample_cfg"
  have d: "cl_ExpiresAt cl = Some 87400" "cl_IssuedAt cl = Some 1001"
    by (simp_all add: cl_def token_claims_def NewNumericDate_def to_int64_hours sample_cfg_def)
       (simp_all add: time_Hour_def time_Second_def)
  have "length (date_text (Some 87400)) = 5" "length (date_text (Some 1001)) = 4"
    by (simp_all add: date_text_def strconv_Itoa_def decimal.simps)
  then have len: "list_all (\<lambda>s. length s < 2 ^ 63) (token_fields ''HS256'' cl (jc_SecretKey sample_cfg))"
    by (simp add: token_fields_def d) (simp add: cl_def token_claims_def uu_def scanUser_def sample_user_def
        deref_def sample_cfg_def role_defs)
  define tok where "tok = nets (token_fields ''HS256'' cl (jc_SecretKey sample_cfg))"
  have t: "text_ok ''rita@x.org''" by (simp add: byte_in_def byte_def)
  have "run (UserRepository_GetByEmail ''rita@x.org'') ?w
      = (Inr uu, ?w\<lparr>pc := 1\<rparr>)"
    by (simp add: uu_def UserRepository_GetByEmail_def run_pool_stmt pg_text_def reading_def t sample_accounts_def
        sample_user_def del: text_ok.simps) (simp add: start_auth_def)
  moreover have "jwt_SignedString sample_jwt (SigningMethodHMAC ''HS256'') cl (jc_SecretKey sample_cfg) = Inr tok"
    using len by (simp add: sample_jwt_def tok_def)
  ultimately obtain u w' where run: "run (AuthService_Login sample_auth ''rita@x.org'' ''secret'') ?w = (Inr (u, tok), w')"
    by (simp add: AuthService_Login_def run_bind run_bindE run_GenerateToken CheckPassword_def sample_bcrypt_def
        pw cl_def del: split_paired_Ex)
  have ids: "ids_text (base ?w)"
    by (auto simp: ids_text_def sample_accounts_def sample_user_def deref_def byte_in_def byte_def split: if_splits)
  have hdr: "c_GetHeader (bearing tok) ''Authorization'' = ''Bearer '' @ tok"
    by (simp add: c_GetHeader_def bearing_def)
  have till: "(wall ?w (looks ?w) + jc_ExpiryHours (as_jwtCfg sample_auth) * time_Hour) div time_Second * time_Second
      = 87400 * time_Second"
    by (simp add: sample_cfg_def time_Second_def time_Hour_def)
  have "\<exists>k r c'. sel (users (base ?w)) k = Some r \<and> usr_email r = ''rita@x.org'' \<and> ActorFrom c' = account_actor k r
    \<and> (\<forall>now (next :: (unit, unit) handler). AuthRequired (as_jwt sample_auth) now (as_jwtCfg sample_auth) next (bearing tok) =
         (if now < (wall ?w (looks ?w) + jc_ExpiryHours (as_jwtCfg sample_auth) * time_Hour) div time_Second * time_Second
          then next c' else Wrote (unauthorized ''invalid or expired token'') (bearing tok)))"
    by (rule login_token_roundtrip [OF _ _ ids _ _ _ _ _ _ run hdr])
       (simp_all add: sample_jwt_documented sample_accounts_typed sample_cfg_def time_Second_def time_Hour_def)
  then obtain k r c' where k: "sel (users sample_accounts) k = Some r" "usr_email r = ''rita@x.org''"
    "ActorFrom c' = account_actor k r" and auth: "\<And>now (next :: (unit, unit) handler). AuthRequired sample_jwt now sample_cfg next (bearing tok) =
         (if now < 87400 * time_Second then next c'
          else Wrote (unauthorized ''invalid or expired token'') (bearing tok))"
    unfolding till by (simp del: split_paired_Ex) blast
  from k have "act_Role (ActorFrom c') = RoleResponder \<and> act_UnitID (ActorFrom c') = ''amb-1''"
    by (auto simp: sample_accounts_def sample_user_def account_actor_def deref_def split: if_splits)
  with run show ?thesis by (intro exI [of _ u] exI [of _ tok] exI [of _ w'] exI [of _ c'])
      (simp add: auth time_Second_def)
qed


section \<open>What the rest of a chain can see\<close>

text \<open>Two handlers that agree on the contexts of a set. A middleware keeps the agreement, perhaps on
  fewer contexts: those it lets through.\<close>

definition agree :: "('x ctx_scheme \<Rightarrow> bool) \<Rightarrow> ('x, 'd) handler \<Rightarrow> ('x, 'd) handler \<Rightarrow> bool" where
  "agree C h h' \<longleftrightarrow> (\<forall>c. C c \<longrightarrow> h c = h' c)"

definition carries_request :: "request \<Rightarrow> (string \<Rightarrow> string) \<Rightarrow> 'x ctx_scheme \<Rightarrow> bool" where
  "carries_request rq ps c \<longleftrightarrow> cx_Request c = rq \<and> cx_Param c = ps"

definition identified :: "jwt_lib \<Rightarrow> int \<Rightarrow> JWTConfig \<Rightarrow> request \<Rightarrow> 'x ctx_scheme \<Rightarrow> bool" where
  "identified J now cfg rq c \<longleftrightarrow> (\<exists>cl. bears J now cfg rq cl \<and> ActorFrom c = actor_of cl)"

lemma c_Header_simps [simp]:
  "cx_Request (c_Header k v c) = cx_Request c" "cx_Param (c_Header k v c) = cx_Param c"
  "cx_Keys (c_Header k v c) = cx_Keys c" "cx_FullPath (c_Header k v c) = cx_FullPath c"
  by (simp_all add: c_Header_def)

lemma c_Set_simps [simp]:
  "cx_Request (c_Set k v c) = cx_Request c" "cx_Param (c_Set k v c) = cx_Param c"
  "cx_FullPath (c_Set k v c) = cx_FullPath c"
  by (simp_all add: c_Set_def)

lemma cors_headers_simps [simp]:
  "cx_Request (cors_headers cfg x c) = cx_Request c" "cx_Param (cors_headers cfg x c) = cx_Param c"
  "cx_Keys (cors_headers cfg x c) = cx_Keys c" "cx_FullPath (cors_headers cfg x c) = cx_FullPath c"
  by (simp_all add: cors_headers_def Let_def)

lemma preflight_headers_simps [simp]:
  "cx_Request (preflight_headers cfg c) = cx_Request c" "cx_Keys (preflight_headers cfg c) = cx_Keys c"
  by (simp_all add: preflight_headers_def Let_def)

lemma agree_CORS [inv_intros]:
  "agree (carries_request rq ps) h h' \<Longrightarrow> agree (carries_request rq ps) (CORS u cfg h) (CORS u cfg h')"
  by (simp add: agree_def carries_request_def CORS_def Let_def split: prod.split)

lemma agree_plain [inv_intros]:
  "agree (carries_request rq ps) h h' \<Longrightarrow> agree (carries_request rq ps) (RequestID x h) (RequestID x h')"
  "agree (carries_request rq ps) h h' \<Longrightarrow> agree (carries_request rq ps) (ServedBy x h) (ServedBy x h')"
  "agree C h h' \<Longrightarrow> agree C (Metrics h) (Metrics h')"
  "agree C h h' \<Longrightarrow> agree C (Recovery h) (Recovery h')"
  "agree C h h' \<Longrightarrow> agree C (RequestLogger h) (RequestLogger h')"
  by (simp_all add: agree_def carries_request_def RequestID_def ServedBy_def Metrics_def Recovery_def
      RequestLogger_def Let_def)

lemma agree_AuthRequired [inv_intros]:
  assumes "jwt_documented J"
    and "agree (\<lambda>c. carries_request rq ps c \<and> identified J now cfg rq c) h h'"
  shows "agree (carries_request rq ps) (AuthRequired J now cfg h) (AuthRequired J now cfg h')"
proof -
  have "h (with_identity cl c) = h' (with_identity cl c)"
    if "carries_request rq ps c" "auth_claims J now cfg c = Inr cl" for c cl
  proof -
    have "identified J now cfg rq (with_identity cl c)"
      using auth_claims_bears [OF assms(1) that(2)] that(1) by (auto simp: identified_def carries_request_def)
    with assms(2) that(1) show ?thesis by (simp add: agree_def carries_request_def)
  qed
  then show ?thesis by (auto simp: agree_def AuthRequired_eq split: sum.split)
qed

lemma agree_ValidateUUIDParam [inv_intros]:
  "agree (\<lambda>c. C c \<and> (cx_Param c ''id'' = '''' \<or> p (cx_Param c ''id''))) h h' \<Longrightarrow>
     agree C (ValidateUUIDParam p [''id''] h) (ValidateUUIDParam p [''id''] h')"
  by (simp add: agree_def ValidateUUIDParam_def validate_params_iff)

lemma agree_RequireRole [inv_intros]:
  "agree (\<lambda>c. C c \<and> Actor_Is (ActorFrom c) roles) h h' \<Longrightarrow> agree C (RequireRole roles h) (RequireRole roles h')"
  by (simp add: agree_def RequireRole_def)

text \<open>A request without an \<open>Origin\<close> header passes the cross-origin check untouched. With one, it
  is refused with 403 unless the configuration lists \<open>*\<close> or that origin, whatever the case of its
  letters; otherwise exactly that origin is echoed, a preflight is answered with 204, and any other
  request goes on with its identity keys as they were.\<close>

theorem cors_admits_listed_origins:
  "(c_GetHeader c ''Origin'' = '''' \<longrightarrow> CORS unicode cfg k c = k c)
   \<and> (c_GetHeader c ''Origin'' \<noteq> '''' \<longrightarrow>
       (if ''*'' \<in> set (cc_AllowedOrigins cfg)
          \<or> strings_ToLower unicode (c_GetHeader c ''Origin'')
              \<in> strings_ToLower unicode ` set (cc_AllowedOrigins cfg)
        then \<exists>c'. CORS unicode cfg k c = (if rq_Method (cx_Request c) = ''OPTIONS'' then Wrote (StatusOnly 204) c' else k c')
            \<and> (''Access-Control-Allow-Origin'', c_GetHeader c ''Origin'') \<in> set (cx_Headers c')
            \<and> cx_Keys c' = cx_Keys c \<and> cx_Request c' = cx_Request c
        else CORS unicode cfg k c = Wrote (StatusOnly 403) c))"
proof -
  obtain a l where s: "scan_origins unicode (cc_AllowedOrigins cfg) [] = (a, l)" by (metis surj_pair)
  have al: "a \<or> x \<in> set l \<longleftrightarrow> ''*'' \<in> set (cc_AllowedOrigins cfg)
      \<or> x \<in> strings_ToLower unicode ` set (cc_AllowedOrigins cfg)" for x
    using scan_origins_iff [OF s] by auto
  have "(''Access-Control-Allow-Origin'', x) \<in> set (cx_Headers (cors_headers cfg x c))" if "x \<noteq> ''''" for x
    using that by (simp add: cors_headers_def c_Header_def Let_def)
  moreover have "(''Access-Control-Allow-Origin'', x) \<in> set (cx_Headers (preflight_headers cfg (cors_headers cfg x c)))"
    if "x \<noteq> ''''" for x
    using that by (simp add: cors_headers_def preflight_headers_def c_Header_def Let_def)
  ultimately show ?thesis
    using al [of "strings_ToLower unicode (c_GetHeader c ''Origin'')"]
    by (cases "rq_Method (cx_Request c) = ''OPTIONS''") (auto simp: CORS_def s)
qed

lemma cors_admits_listed_origins_witness:
  "let cfg = cf_CORS (config_of viper_defaults); c = (bearing '''')\<lparr>cx_Request := \<lparr>rq_Method = ''POST'', rq_Path = ''/api/v1/units'',
       rq_Header = (\<lambda>k. if k = ''Origin'' then ''https://evil.example'' else ''''), rq_RemoteAddr = ''''\<rparr>\<rparr>
   in CORS id cfg (\<lambda>c. Wrote (StatusOnly 200) c) c = Wrote (StatusOnly 403 :: unit reply) c"
proof -
  let ?cfg = "cf_CORS (config_of viper_defaults)"
  let ?c = "(bearing '''')\<lparr>cx_Request := \<lparr>rq_Method = ''POST'', rq_Path = ''/api/v1/units'',
       rq_Header = (\<lambda>k. if k = ''Origin'' then ''https://evil.example'' else ''''), rq_RemoteAddr = ''''\<rparr>\<rparr>"
  have o: "cc_AllowedOrigins ?cfg = [''http://localhost:3000'', ''http://localhost:5173'']"
    by (simp add: config_of_def strs_at_def viper_defaults_def)
  have h: "c_GetHeader ?c ''Origin'' = ''https://evil.example''" by (simp add: c_GetHeader_def)
  have "strings_ToLower id ''https://evil.example'' \<notin> strings_ToLower id ` set (cc_AllowedOrigins ?cfg)"
    unfolding o by code_simp
  moreover have "''*'' \<notin> set (cc_AllowedOrigins ?cfg)" unfolding o by simp
  ultimately have "CORS id ?cfg (\<lambda>c. Wrote (StatusOnly 200) c) ?c = Wrote (StatusOnly 403 :: unit reply) ?c"
    using cors_admits_listed_origins [of ?c id ?cfg "\<lambda>c. Wrote (StatusOnly 200) c"] unfolding h by auto
  then show ?thesis by (simp only: Let_def)
qed


end
