(* ===== verification/Server.thy ===== *)
theory Server
  imports Middleware
begin

text \<open>
  The API server (\<^verbatim>\<open>internal/server\<close>): the middleware chain, the route table with the guards of its
  groups, and how a request goes through them to a handler. Which route a method and path select is
  gin's own, a parameter; the code relies on its yielding a registered route. The handlers are an
  argument too: what is proved here is which of them run, for whom.
\<close>

section \<open>The endpoints\<close>

datatype endpoint =
    MetricsPage | Health | Ready | Auth_Register | Auth_Login | Me
  | Incident_Create | Incident_List | Incident_Nearby | Incident_GetByID | Incident_UpdateStatus
  | Dispatch_Candidates | Dispatch_Dispatch | Dispatch_ListByIncident | Dispatch_Get | Dispatch_Reroute
  | Dispatch_Preemptable | Dispatch_Preempt | Dispatch_AdvanceStatus
  | Presence_NearbyLive | Presence_Heartbeat | Presence_GetPresence
  | Unit_List | Unit_GetByID | Unit_Create | Unit_UpdateStatus
  | Shelter_List | Shelter_GetByID | Shelter_Create | Shelter_UpdateStatus
  | Transport_Nearest | Transport_List | Transport_GetByID | Transport_Create | Transport_Book
  | Transport_ListBookings | Transport_Cancel
  | Victim_Create | Victim_List | Victim_GetByID | Victim_NearestShelters | Victim_Assign
  | Admin_Ping | Auth_AssignRole | Outbox_List | Outbox_ListDead | Notification_List | Audit_List

text \<open>The middleware a route is registered behind: none, \<open>AuthRequired\<close> and \<open>ValidateUUIDParam\<close>, or
  these and \<open>RequireRole\<close>.\<close>

datatype guard = Open | Protected | Roles "string list"

type_synonym route = "string \<times> string \<times> guard \<times> endpoint"

definition in_group :: "string \<Rightarrow> route list \<Rightarrow> route list" where
  "in_group pre rs = map (\<lambda>(m, t, g, e). (m, pre @ t, g, e)) rs"

definition root_routes :: "route list" where
  "root_routes =
    [(''GET'', ''/metrics'', Open, MetricsPage), (''GET'', ''/health'', Open, Health), (''GET'', ''/ready'', Open, Ready)]"

definition api_routes :: "route list" where
  "api_routes =
    [(''POST'', ''/auth/register'', Open, Auth_Register), (''POST'', ''/auth/login'', Open, Auth_Login)]"

definition coordinators :: guard where
  "coordinators = Roles [RoleOperator, RoleAdmin]"

definition responders_up :: guard where
  "responders_up = Roles [RoleResponder, RoleOperator, RoleAdmin]"

definition managers_up :: guard where
  "managers_up = Roles [RoleShelterManager, RoleOperator, RoleAdmin]"

definition protected_routes :: "route list" where
  "protected_routes =
    [(''GET'', ''/me'', Protected, Me),
     (''POST'', ''/incidents'', Protected, Incident_Create),
     (''GET'', ''/incidents'', Protected, Incident_List),
     (''GET'', ''/incidents/nearby'', Protected, Incident_Nearby),
     (''GET'', ''/incidents/:id'', Protected, Incident_GetByID),
     (''GET'', ''/incidents/:id/candidates'', Protected, Dispatch_Candidates),
     (''POST'', ''/incidents/:id/dispatch'', coordinators, Dispatch_Dispatch),
     (''GET'', ''/incidents/:id/dispatches'', Protected, Dispatch_ListByIncident),
     (''PATCH'', ''/incidents/:id/status'', coordinators, Incident_UpdateStatus),
     (''GET'', ''/dispatches/:id'', Protected, Dispatch_Get),
     (''POST'', ''/dispatches/:id/reroute'', coordinators, Dispatch_Reroute),
     (''GET'', ''/incidents/:id/preemptable'', coordinators, Dispatch_Preemptable),
     (''POST'', ''/incidents/:id/preempt'', coordinators, Dispatch_Preempt),
     (''PATCH'', ''/dispatches/:id/status'', responders_up, Dispatch_AdvanceStatus),
     (''GET'', ''/units/nearby'', Protected, Presence_NearbyLive),
     (''GET'', ''/units'', Protected, Unit_List),
     (''GET'', ''/units/:id'', Protected, Unit_GetByID),
     (''POST'', ''/units'', Roles [RoleAdmin], Unit_Create),
     (''PATCH'', ''/units/:id/status'', coordinators, Unit_UpdateStatus),
     (''POST'', ''/units/:id/heartbeat'', responders_up, Presence_Heartbeat),
     (''GET'', ''/units/:id/presence'', Protected, Presence_GetPresence),
     (''GET'', ''/shelters'', Protected, Shelter_List),
     (''GET'', ''/shelters/:id'', Protected, Shelter_GetByID),
     (''POST'', ''/shelters'', Roles [RoleAdmin], Shelter_Create),
     (''PATCH'', ''/shelters/:id/status'', managers_up, Shelter_UpdateStatus),
     (''GET'', ''/transports/nearest'', Protected, Transport_Nearest),
     (''GET'', ''/transports'', Protected, Transport_List),
     (''GET'', ''/transports/:id'', Protected, Transport_GetByID),
     (''POST'', ''/transports'', Roles [RoleAdmin], Transport_Create),
     (''POST'', ''/incidents/:id/transport-bookings'', coordinators, Transport_Book),
     (''GET'', ''/incidents/:id/transport-bookings'', Protected, Transport_ListBookings),
     (''PATCH'', ''/transport-bookings/:id/cancel'', coordinators, Transport_Cancel),
     (''POST'', ''/victims'', Protected, Victim_Create),
     (''GET'', ''/victims'', managers_up, Victim_List),
     (''GET'', ''/victims/:id'', managers_up, Victim_GetByID),
     (''GET'', ''/victims/:id/shelters'', managers_up, Victim_NearestShelters),
     (''POST'', ''/victims/:id/assign'', managers_up, Victim_Assign)]"

definition admin_routes :: "route list" where
  "admin_routes =
    [(''GET'', ''/ping'', Roles [RoleAdmin], Admin_Ping),
     (''PATCH'', ''/users/:id/role'', Roles [RoleAdmin], Auth_AssignRole),
     (''GET'', ''/outbox'', Roles [RoleAdmin], Outbox_List),
     (''GET'', ''/outbox/dead'', Roles [RoleAdmin], Outbox_ListDead),
     (''GET'', ''/notifications'', Roles [RoleAdmin], Notification_List),
     (''GET'', ''/audit'', Roles [RoleAdmin], Audit_List)]"

definition routes :: "route list" where
  "routes = root_routes @ in_group ''/api/v1'' (api_routes @ protected_routes @ in_group ''/admin'' admin_routes)"

section \<open>The engine\<close>

text \<open>What the process is started with, and the libraries: the token library, \<open>uuid.Parse\<close>, Unicode's
  lower case and gin's route lookup over the registered methods and templates.\<close>

record app =
  ap_cfg :: Config
  ap_getenv :: "string \<Rightarrow> string"
  ap_jwt :: jwt_lib
  ap_uuid_Parse :: "string \<Rightarrow> bool"
  ap_unicode_lower :: "string \<Rightarrow> string"
  ap_gin_find :: "(string \<times> string) list \<Rightarrow> string \<Rightarrow> string \<Rightarrow> ((string \<times> string) \<times> (string \<Rightarrow> string)) option"

definition replicaID :: "(string \<Rightarrow> string) \<Rightarrow> Config \<Rightarrow> string" where
  "replicaID getenv cfg = (let r = getenv ''REPLICA_ID'' in
     if r = '''' then ''api-'' @ strconv_Itoa (sv_Port (cf_Server cfg)) else r)"

definition global_chain :: "app \<Rightarrow> string \<Rightarrow> (unit, 'd) middleware list" where
  "global_chain A fresh =
     [CORS (ap_unicode_lower A) (cf_CORS (ap_cfg A)), RequestID fresh,
      ServedBy (replicaID (ap_getenv A) (ap_cfg A)), Metrics, Recovery, RequestLogger]"

definition guard_chain :: "app \<Rightarrow> int \<Rightarrow> guard \<Rightarrow> (unit, 'd) middleware list" where
  "guard_chain A now g =
     (let protected = [AuthRequired (ap_jwt A) now (cf_JWT (ap_cfg A)), ValidateUUIDParam (ap_uuid_Parse A) [''id'']]
      in case g of Open \<Rightarrow> [] | Protected \<Rightarrow> protected | Roles rs \<Rightarrow> protected @ [RequireRole rs])"

definition initial_ctx :: "request \<Rightarrow> string \<Rightarrow> (string \<Rightarrow> string) \<Rightarrow> ctx" where
  "initial_ctx rq path params = \<lparr>cx_Request = rq, cx_Param = params, cx_FullPath = path,
     cx_Keys = (\<lambda>k. ''''), cx_Headers = [], cx_Counted = []\<rparr>"

definition find_route :: "string \<times> string \<Rightarrow> (guard \<times> endpoint) option" where
  "find_route mt = map_of (map (\<lambda>(m, t, g, e). ((m, t), (g, e))) routes) mt"

definition serve :: "app \<Rightarrow> int \<Rightarrow> string \<Rightarrow> (endpoint \<Rightarrow> (unit, 'd) handler) \<Rightarrow> request \<Rightarrow> (ctx, 'd) result" where
  "serve A now fresh h rq =
     (case ap_gin_find A (map (\<lambda>(m, t, g, e). (m, t)) routes) (rq_Method rq) (rq_Path rq) of
       None \<Rightarrow> chain (global_chain A fresh) (\<lambda>c. Wrote (StatusOnly 404) c) (initial_ctx rq '''' (\<lambda>n. ''''))
     | Some ((m, t), params) \<Rightarrow> (case find_route (m, t) of
         None \<Rightarrow> chain (global_chain A fresh) (\<lambda>c. Wrote (StatusOnly 404) c) (initial_ctx rq '''' (\<lambda>n. ''''))
       | Some (g, e) \<Rightarrow> chain (global_chain A fresh @ guard_chain A now g) (h e) (initial_ctx rq t params)))"

text \<open>The handlers the server defines itself.\<close>

definition health_handler :: "(unit, string) handler" where
  "health_handler c = Wrote (JSON (common_Success 200 ''server is healthy'' ''up'')) c"

definition ready_handler :: "go_error option \<Rightarrow> (unit, string) handler" where
  "ready_handler ping c = (case ping of
     Some err \<Rightarrow> Wrote (JSON (common_Error 503 ''database unavailable'' ''NOT_READY'')) c
   | None \<Rightarrow> Wrote (JSON (common_Success 200 ''server is ready'' ''ready'')) c)"

definition me_handler :: "(unit, string \<times> string \<times> string) handler" where
  "me_handler c = Wrote (JSON (common_Success 200 ''authenticated user''
     (c_GetString c ''userID'', c_GetString c ''username'', c_GetString c ''role''))) c"

definition ping_handler :: "(unit, string) handler" where
  "ping_handler c = Wrote (JSON (common_Success 200 ''admin access granted'' (c_GetString c ''role''))) c"

section \<open>Who may reach what\<close>

definition public_endpoint :: "endpoint \<Rightarrow> bool" where
  "public_endpoint e \<longleftrightarrow> e \<in> {MetricsPage, Health, Ready, Auth_Register, Auth_Login}"

text \<open>The access matrix: administrators may do everything; operators coordinate; responders move their
  dispatch and report positions; shelter managers keep their shelter and read the victims; reporting
  and reading the rest is open to everybody with an account.\<close>

definition may_call :: "endpoint \<Rightarrow> string \<Rightarrow> bool" where
  "may_call e role \<longleftrightarrow>
     (if e \<in> {Unit_Create, Shelter_Create, Transport_Create, Admin_Ping, Auth_AssignRole, Outbox_List,
              Outbox_ListDead, Notification_List, Audit_List} then role = RoleAdmin
      else if e \<in> {Dispatch_Dispatch, Incident_UpdateStatus, Dispatch_Reroute, Dispatch_Preemptable,
              Dispatch_Preempt, Unit_UpdateStatus, Transport_Book, Transport_Cancel}
      then role \<in> {RoleOperator, RoleAdmin}
      else if e \<in> {Dispatch_AdvanceStatus, Presence_Heartbeat}
      then role \<in> {RoleResponder, RoleOperator, RoleAdmin}
      else if e \<in> {Shelter_UpdateStatus, Victim_List, Victim_GetByID, Victim_NearestShelters, Victim_Assign}
      then role \<in> {RoleShelterManager, RoleOperator, RoleAdmin}
      else True)"

text \<open>A guard is right for an endpoint when it lets in exactly whom the matrix allows.\<close>

fun guard_admits :: "guard \<Rightarrow> endpoint \<Rightarrow> bool" where
  "guard_admits Open e = public_endpoint e"
| "guard_admits Protected e = (\<not> public_endpoint e \<and> (\<forall>r. may_call e r))"
| "guard_admits (Roles rs) e = (\<not> public_endpoint e \<and> (\<forall>r. r \<in> set rs \<longleftrightarrow> may_call e r))"

end
