(* ===== verification/Server_Props.thy ===== *)
theory Server_Props
  imports Server
begin

text \<open>
  What the route table and the middleware guarantee together: a handler runs only for a request that
  bears an accepted token of a permitted role, it does run for such a request, and nobody becomes
  more than a citizen unless an administrator says so.
\<close>

section \<open>The route table\<close>

lemmas table_defs = routes_def in_group_def root_routes_def api_routes_def protected_routes_def
  admin_routes_def coordinators_def responders_up_def managers_up_def

lemma routes_guarded: "list_all (\<lambda>(m, t, g, e). guard_admits g e) routes"
  by (simp add: table_defs public_endpoint_def may_call_def [abs_def])

lemma routes_distinct: "distinct (map (\<lambda>(m, t, g, e). (m, t)) routes)"
  by (simp add: table_defs)

lemma find_route_in: "find_route (m, t) = Some (g, e) \<Longrightarrow> (m, t, g, e) \<in> set routes"
  by (auto simp: find_route_def dest!: map_of_SomeD)

lemma find_route_iff: "find_route (m, t) = Some (g, e) \<longleftrightarrow> (m, t, g, e) \<in> set routes"
proof
  assume r: "(m, t, g, e) \<in> set routes"
  have "map fst (map (\<lambda>(m, t, g, e). ((m, t), (g, e))) routes) = map (\<lambda>(m, t, g, e). (m, t)) routes"
    by (auto simp: comp_def)
  with routes_distinct have "distinct (map fst (map (\<lambda>(m, t, g, e). ((m, t), (g, e))) routes))" by metis
  moreover have "((m, t), (g, e)) \<in> set (map (\<lambda>(m, t, g, e). ((m, t), (g, e))) routes)" using r by force
  ultimately show "find_route (m, t) = Some (g, e)" unfolding find_route_def by (rule map_of_is_SomeI)
qed (rule find_route_in)

lemma route_guard:
  assumes "(m, t, g, e) \<in> set routes"
  shows "guard_admits g e"
  using routes_guarded assms by (auto simp: list_all_iff)

section \<open>A sample server\<close>

definition sample_app :: app where
  "sample_app = \<lparr>ap_cfg = (config_of viper_defaults)\<lparr>cf_JWT := sample_cfg\<rparr>, ap_getenv = (\<lambda>k. ''''),
     ap_jwt = sample_jwt, ap_uuid_Parse = (\<lambda>v. length v = 36), ap_unicode_lower = id,
     ap_gin_find = (\<lambda>table m p. if (m, p) \<in> set table then Some ((m, p), \<lambda>n. '''') else None)\<rparr>"

definition sample_claims :: "string \<Rightarrow> Claims" where
  "sample_claims role = \<lparr>cl_UserID = ''u-2'', cl_Username = ''carl'', cl_Role = role, cl_UnitID = '''',
     cl_ShelterID = '''', cl_ExpiresAt = Some 90000, cl_IssuedAt = Some 1000\<rparr>"

definition sample_token :: "string \<Rightarrow> string" where
  "sample_token role = nets (token_fields ''HS256'' (sample_claims role) (jc_SecretKey sample_cfg))"

definition sample_request :: "string \<Rightarrow> string \<Rightarrow> string \<Rightarrow> request" where
  "sample_request m p role = \<lparr>rq_Method = m, rq_Path = p,
     rq_Header = (\<lambda>k. if k = ''Authorization'' then ''Bearer '' @ sample_token role else ''''),
     rq_RemoteAddr = ''10.0.0.1:5000''\<rparr>"

definition sample_now :: int where "sample_now = 5000 * time_Second"

lemma sample_app_simps [simp]:
  "ap_jwt sample_app = sample_jwt" "cf_JWT (ap_cfg sample_app) = sample_cfg" "ap_uuid_Parse sample_app v = (length v = 36)"
  by (simp_all add: sample_app_def)

lemma sample_token_reads:
  assumes "role \<in> set authz_All"
  shows "token_read (sample_token role) = Some (SigningMethodHMAC ''HS256'', sample_claims role, jc_SecretKey sample_cfg)"
proof -
  have "length (date_text (Some 90000)) = 5" "length (date_text (Some 1000)) = 4"
    by (simp_all add: date_text_def strconv_Itoa_def decimal.simps)
  moreover have "length role < 20" using assms by (auto simp: authz_All_def role_defs)
  ultimately have "list_all (\<lambda>s. length s < 2 ^ 63) (token_fields ''HS256'' (sample_claims role) (jc_SecretKey sample_cfg))"
    by (simp add: token_fields_def sample_claims_def sample_cfg_def)
  from token_read_nets [OF this] obtain c' where
    c': "token_read (sample_token role) = Some (SigningMethodHMAC ''HS256'', c', jc_SecretKey sample_cfg)"
    "reads_back (sample_claims role) c'" by (auto simp: sample_token_def)
  have "claims_ok (sample_claims role)"
    using assms by (simp add: claims_ok_def date_ok_def sample_claims_def byte_in_def byte_def)
  from reads_back_ok [OF c'(2) this] c'(1) show ?thesis by simp
qed

lemma sample_bears:
  assumes "role \<in> set authz_All"
  shows "bears sample_jwt sample_now sample_cfg (sample_request m p role) cl \<longleftrightarrow> cl = sample_claims role"
  using sample_token_reads [OF assms]
  by (auto simp: bears_def sample_request_def sample_jwt_def claims_live_def sample_claims_def sample_now_def
      time_Second_def)

section \<open>Only authorised requests reach a handler\<close>

definition authorised :: "app \<Rightarrow> int \<Rightarrow> request \<Rightarrow> endpoint \<Rightarrow> ctx \<Rightarrow> bool" where
  "authorised A now rq e c \<longleftrightarrow> cx_Request c = rq \<and>
     (public_endpoint e
      \<or> (\<exists>cl. bears (ap_jwt A) now (cf_JWT (ap_cfg A)) rq cl \<and> ActorFrom c = actor_of cl
           \<and> may_call e (cl_Role cl)
           \<and> (cx_Param c ''id'' = '''' \<or> ap_uuid_Parse A (cx_Param c ''id''))))"

lemma agree_global:
  "agree (carries_request rq ps) h h' \<Longrightarrow>
     agree (carries_request rq ps) (chain (global_chain A fresh) h) (chain (global_chain A fresh) h')"
  by (simp add: global_chain_def inv_intros)

lemma agree_protected:
  assumes "jwt_documented (ap_jwt A)"
    and "agree (\<lambda>c. carries_request rq ps c \<and> identified (ap_jwt A) now (cf_JWT (ap_cfg A)) rq c
           \<and> (cx_Param c ''id'' = '''' \<or> ap_uuid_Parse A (cx_Param c ''id''))) h h'"
  shows "agree (carries_request rq ps) (chain (guard_chain A now Protected) h) (chain (guard_chain A now Protected) h')"
  using assms by (auto simp: guard_chain_def Let_def intro!: inv_intros)

lemma agree_guard:
  assumes "jwt_documented (ap_jwt A)" and "guard_admits g e"
    and "\<And>c. authorised A now rq e c \<Longrightarrow> h c = h' c"
  shows "agree (carries_request rq ps) (chain (guard_chain A now g) h) (chain (guard_chain A now g) h')"
proof (cases g)
  case Open
  with assms(2,3) show ?thesis
    by (auto simp: guard_chain_def agree_def carries_request_def authorised_def)
next
  case Protected
  have "agree (\<lambda>c. carries_request rq ps c \<and> identified (ap_jwt A) now (cf_JWT (ap_cfg A)) rq c
           \<and> (cx_Param c ''id'' = '''' \<or> ap_uuid_Parse A (cx_Param c ''id''))) h h'"
    using assms(2,3) Protected unfolding agree_def carries_request_def identified_def authorised_def by auto
  from agree_protected [OF assms(1) this] show ?thesis by (simp add: Protected)
next
  case (Roles rs)
  have "agree (\<lambda>c. (carries_request rq ps c \<and> identified (ap_jwt A) now (cf_JWT (ap_cfg A)) rq c
           \<and> (cx_Param c ''id'' = '''' \<or> ap_uuid_Parse A (cx_Param c ''id''))) \<and> Actor_Is (ActorFrom c) rs) h h'"
    unfolding agree_def
  proof (intro allI impI)
    fix c :: ctx assume c: "(carries_request rq ps c \<and> identified (ap_jwt A) now (cf_JWT (ap_cfg A)) rq c
           \<and> (cx_Param c ''id'' = '''' \<or> ap_uuid_Parse A (cx_Param c ''id''))) \<and> Actor_Is (ActorFrom c) rs"
    then obtain cl where cl: "bears (ap_jwt A) now (cf_JWT (ap_cfg A)) rq cl" "ActorFrom c = actor_of cl"
      by (auto simp: identified_def)
    with c have "cl_Role cl \<in> set rs" by (auto simp: Actor_Is_def list_ex_iff actor_of_def)
    with assms(2) Roles have "may_call e (cl_Role cl)" by simp
    with c cl show "h c = h' c" by (intro assms(3)) (auto simp: authorised_def carries_request_def)
  qed
  then have "agree (\<lambda>c. carries_request rq ps c \<and> identified (ap_jwt A) now (cf_JWT (ap_cfg A)) rq c
           \<and> (cx_Param c ''id'' = '''' \<or> ap_uuid_Parse A (cx_Param c ''id''))) (RequireRole rs h) (RequireRole rs h')"
    by (rule agree_RequireRole)
  from agree_protected [OF assms(1) this] show ?thesis by (simp add: Roles guard_chain_def Let_def)
qed

text \<open>C11: no handler runs except for an authorised request: if two sets of handlers agree on every
  endpoint and context that is authorised, the server's answers are the same, whatever the request
  and whatever route gin selects. An endpoint other than the metrics page, the two probes,
  registration and login needs a bearer token signed under the server's key and not expired, whose
  role the access matrix permits; the handler sees exactly the identity in that token and a
  well-formed id.\<close>

theorem handlers_run_only_when_authorised:
  assumes "jwt_documented (ap_jwt A)"
    and "\<And>e c. authorised A now rq e c \<Longrightarrow> h e c = h' e c"
  shows "serve A now fresh h rq = serve A now fresh h' rq"
proof (cases "ap_gin_find A (map (\<lambda>(m, t, g, e). (m, t)) routes) (rq_Method rq) (rq_Path rq)")
  case None
  then show ?thesis by (simp add: serve_def)
next
  case (Some mtp)
  then obtain m t ps where mt: "ap_gin_find A (map (\<lambda>(m, t, g, e). (m, t)) routes) (rq_Method rq) (rq_Path rq)
      = Some ((m, t), ps)" by (metis prod.collapse)
  show ?thesis
  proof (cases "find_route (m, t)")
    case None
    with mt show ?thesis by (simp add: serve_def)
  next
    case (Some ge)
    then obtain g e where ge: "find_route (m, t) = Some (g, e)" by (cases ge) simp
    have "agree (carries_request rq ps) (chain (guard_chain A now g) (h e)) (chain (guard_chain A now g) (h' e))"
      by (rule agree_guard [OF assms(1) route_guard [OF find_route_in [OF ge]] assms(2)])
    from agree_global [OF this] mt ge show ?thesis
      by (simp add: serve_def agree_def carries_request_def initial_ctx_def)
  qed
qed


lemma handlers_run_only_when_authorised_witness:
  "serve sample_app sample_now ''rid'' (\<lambda>e c. if e = Unit_Create then Panicked c else Wrote (StatusOnly 200) c)
       (sample_request ''POST'' ''/api/v1/units'' RoleCitizen)
   = serve sample_app sample_now ''rid'' (\<lambda>e c. Wrote (StatusOnly 200) c)
       (sample_request ''POST'' ''/api/v1/units'' RoleCitizen)"
proof (rule handlers_run_only_when_authorised)
  show "jwt_documented (ap_jwt sample_app)" by (simp add: sample_jwt_documented)
  fix e c assume "authorised sample_app sample_now (sample_request ''POST'' ''/api/v1/units'' RoleCitizen) e c"
  then have "e \<noteq> Unit_Create"
    by (auto simp: authorised_def public_endpoint_def may_call_def sample_bears authz_All_def sample_claims_def)
  then show "(if e = Unit_Create then Panicked c else Wrote (StatusOnly 200) c) = Wrote (StatusOnly 200) c" by simp
qed

lemma guard_chain_lets_in:
  assumes "jwt_documented (ap_jwt A)" and "guard_admits g e" and "\<not> public_endpoint e"
    and "bears (ap_jwt A) now (cf_JWT (ap_cfg A)) (cx_Request c) cl" and "may_call e (cl_Role cl)"
    and "cx_Param c ''id'' = '''' \<or> ap_uuid_Parse A (cx_Param c ''id'')"
  shows "chain (guard_chain A now g) h c = h (with_identity cl c)"
proof -
  have a: "auth_claims (ap_jwt A) now (cf_JWT (ap_cfg A)) c = Inr cl"
    by (rule bears_auth_claims [OF assms(1,4)])
  show ?thesis
  proof (cases g)
    case Open
    with assms(2,3) show ?thesis by simp
  next
    case Protected
    with a assms(6) show ?thesis
      by (auto simp: guard_chain_def Let_def AuthRequired_eq ValidateUUIDParam_def validate_params_iff)
  next
    case (Roles rs)
    with assms(2,5) have "Actor_Is (actor_of cl) rs" by (auto simp: Actor_Is_def list_ex_iff actor_of_def)
    with Roles a assms(6) show ?thesis
      by (auto simp: guard_chain_def Let_def AuthRequired_eq ValidateUUIDParam_def validate_params_iff RequireRole_def)
  qed
qed

text \<open>C37: and a handler does run for an authorised request: when gin selects the route of a protected
  endpoint, the request comes from no browser origin, bears an accepted token of a permitted role and
  its id, if the route has one, is a well-formed uuid, the handler gets the identity in the token and
  the path parameters, and the client gets what it writes, or a clean 500 when it panics.\<close>

theorem authorised_request_served:
  assumes "jwt_documented (ap_jwt A)"
    and "ap_gin_find A (map (\<lambda>(m, t, g, e). (m, t)) routes) (rq_Method rq) (rq_Path rq) = Some ((m, t), ps)"
    and "(m, t, g, e) \<in> set routes" and "\<not> public_endpoint e"
    and "rq_Header rq ''Origin'' = ''''"
    and "bears (ap_jwt A) now (cf_JWT (ap_cfg A)) rq cl" and "may_call e (cl_Role cl)"
    and "ps ''id'' = '''' \<or> ap_uuid_Parse A (ps ''id'')"
  shows "\<exists>c. ActorFrom c = actor_of cl \<and> cx_Param c = ps \<and> cx_Request c = rq
    \<and> (\<exists>c''. serve A now fresh h rq = (case h e c of
          Wrote r c' \<Rightarrow> Wrote r c''
        | Panicked c' \<Rightarrow> Wrote (JSON (common_Error 500 ''internal server error'' ''INTERNAL_ERROR'')) c''))"
proof -
  define c0 where "c0 = initial_ctx rq t ps"
  define c1 where "c1 = (let c = c_Header RequestIDHeader
      (if rq_Header rq RequestIDHeader = '''' then fresh else rq_Header rq RequestIDHeader)
      (c_Set RequestIDHeader (if rq_Header rq RequestIDHeader = '''' then fresh else rq_Header rq RequestIDHeader) c0)
    in if replicaID (ap_getenv A) (ap_cfg A) \<noteq> '''' then c_Header ServedByHeader (replicaID (ap_getenv A) (ap_cfg A)) c
       else c)"
  have c0: "cx_Request c0 = rq" "cx_Param c0 = ps" by (simp_all add: c0_def initial_ctx_def)
  then have c1: "cx_Request c1 = rq" "cx_Param c1 = ps" by (simp_all add: c1_def Let_def)
  have "serve A now fresh h rq = chain (global_chain A fresh) (chain (guard_chain A now g) (h e)) c0"
    using assms(2) find_route_iff [of m t g e] assms(3) by (simp add: serve_def c0_def)
  also have "\<dots> = Metrics (Recovery (RequestLogger (chain (guard_chain A now g) (h e)))) c1"
    using assms(5) c0
    by (simp add: global_chain_def CORS_def c_GetHeader_def RequestID_def ServedBy_def c1_def Let_def split: prod.split)
  finally have s: "serve A now fresh h rq
      = Metrics (Recovery (RequestLogger (chain (guard_chain A now g) (h e)))) c1" .
  have g: "chain (guard_chain A now g) (h e) c1 = h e (with_identity cl c1)"
    by (rule guard_chain_lets_in [OF assms(1) route_guard [OF assms(3)] assms(4)]) (use assms(6-8) c1 in simp_all)
  show ?thesis
  proof (rule exI [of _ "with_identity cl c1"], intro conjI)
    show "\<exists>c''. serve A now fresh h rq = (case h e (with_identity cl c1) of
          Wrote r c' \<Rightarrow> Wrote r c''
        | Panicked c' \<Rightarrow> Wrote (JSON (common_Error 500 ''internal server error'' ''INTERNAL_ERROR'')) c'')"
      unfolding s by (cases "h e (with_identity cl c1)")
        (auto simp: Metrics_def Recovery_def RequestLogger_def g Let_def)
  qed (simp_all add: c1)
qed

lemma authorised_request_served_witness:
  "\<exists>c. serve sample_app sample_now ''rid'' (\<lambda>e c. Wrote (JSON (common_Success 201 ''seen'' (e, act_Role (ActorFrom c)))) c)
       (sample_request ''POST'' ''/api/v1/units'' RoleAdmin)
     = Wrote (JSON (common_Success 201 ''seen'' (Unit_Create, RoleAdmin))) c"
proof -
  have r: "(''POST'', ''/api/v1/units'', Roles [RoleAdmin], Unit_Create) \<in> set routes"
    by (simp add: table_defs)
  then have "(''POST'', ''/api/v1/units'') \<in> set (map (\<lambda>(m, t, g, e). (m, t)) routes)" by force
  then have f: "ap_gin_find sample_app (map (\<lambda>(m, t, g, e). (m, t)) routes)
      (rq_Method (sample_request ''POST'' ''/api/v1/units'' RoleAdmin))
      (rq_Path (sample_request ''POST'' ''/api/v1/units'' RoleAdmin)) = Some ((''POST'', ''/api/v1/units''), \<lambda>n. '''')"
    by (simp add: sample_app_def sample_request_def)
  show ?thesis
    using authorised_request_served [OF _ f r, of sample_now "sample_claims RoleAdmin" "''rid''"
        "\<lambda>e c. Wrote (JSON (common_Success 201 ''seen'' (e, act_Role (ActorFrom c)))) c"]
    by (simp add: sample_jwt_documented sample_bears public_endpoint_def may_call_def authz_All_def
        sample_claims_def actor_of_def) (auto simp: sample_request_def)
qed

section \<open>Nobody promotes themselves\<close>

text \<open>
  The accounts together with the tokens handed out so far. Anyone may register or log in, and gets a
  token when that succeeds; a role assignment goes through the server, with a request whose token,
  if it verifies under the server's key at all, is one of those handed out: a signature cannot be
  forged without the key.
\<close>

definition holds :: "app \<Rightarrow> string set \<Rightarrow> request \<Rightarrow> bool" where
  "holds A T rq \<longleftrightarrow> (\<forall>tok alg. rq_Header rq ''Authorization'' = ''Bearer '' @ tok \<longrightarrow>
     jwt_Verify (ap_jwt A) (SigningMethodHMAC alg) tok (jc_SecretKey (cf_JWT (ap_cfg A))) \<longrightarrow> tok \<in> T)"

inductive account_step :: "app \<Rightarrow> AuthService \<Rightarrow> 'm authing_ext world_scheme \<times> string set
    \<Rightarrow> 'm authing_ext world_scheme \<times> string set \<Rightarrow> bool" for A s where
  registered: "run (AuthService_Register s username email password) w = (Inr (u, tok), w')
     \<Longrightarrow> account_step A s (w, T) (w', insert tok T)"
| not_registered: "run (AuthService_Register s username email password) w = (Inl err, w')
     \<Longrightarrow> account_step A s (w, T) (w', T)"
| logged_in: "run (AuthService_Login s email password) w = (Inr (u, tok), w')
     \<Longrightarrow> account_step A s (w, T) (w', insert tok T)"
| not_logged_in: "run (AuthService_Login s email password) w = (Inl err, w')
     \<Longrightarrow> account_step A s (w, T) (w', T)"
| assigned: "authorised A now rq Auth_AssignRole c \<Longrightarrow> holds A T rq
     \<Longrightarrow> run (AuthService_AssignRole (cx_Param c ''id'') role un sh) w = (res, w')
     \<Longrightarrow> account_step A s (w, T) (w', T)"

definition only_citizens :: "app \<Rightarrow> 'm authing_ext world_scheme \<times> string set \<Rightarrow> bool" where
  "only_citizens A wT \<longleftrightarrow> pkey (users (base (fst wT)))
   \<and> (\<forall>k r. sel (users (base (fst wT))) k = Some r \<longrightarrow> usr_role r = RoleCitizen)
   \<and> (\<forall>tok m cl. tok \<in> snd wT \<longrightarrow> jwt_ParseUnverified (ap_jwt A) tok = Some (m, cl) \<longrightarrow> cl_Role cl = RoleCitizen)"

definition wired :: "app \<Rightarrow> AuthService \<Rightarrow> bool" where
  "wired A s \<longleftrightarrow> as_jwt s = ap_jwt A \<and> as_jwtCfg s = cf_JWT (ap_cfg A)"

lemma citizen_token:
  assumes "jwt_documented J" and "us_Role u = RoleCitizen"
    and "jwt_SignedString J m (token_claims u t1 t2 cfg) k = Inr tok"
    and "jwt_ParseUnverified J tok = Some (m', cl)"
  shows "cl_Role cl = RoleCitizen"
proof -
  have "text_ok RoleCitizen" by (simp add: authz_All_def)
  with signed_reads_back [OF assms(1,3)] assms(2,4) show ?thesis
    by (auto simp: reads_back_def token_claims_def)
qed

lemma citizen_added_pkey: "citizen_added d d' \<Longrightarrow> pkey (users d) \<Longrightarrow> pkey (users d')"
  by (auto simp: citizen_added_def pkey_ins)

lemma only_citizens_signup:
  assumes "only_citizens A (w, T)" and "base w' = base w \<or> citizen_added (base w) (base w')"
    and "\<And>tok m cl. tok \<in> T' \<Longrightarrow> tok \<notin> T \<Longrightarrow> jwt_ParseUnverified (ap_jwt A) tok = Some (m, cl) \<Longrightarrow>
      cl_Role cl = RoleCitizen"
  shows "only_citizens A (w', T')"
proof -
  have "usr_role r = RoleCitizen" if "sel (users (base w')) k = Some r" for k r
  proof -
    have "kept_or_citizen (base w) (base w')"
      using assms(2) kept_or_citizen_refl [of "base w"] kept_or_citizen_added by auto
    with that assms(1) show ?thesis
      unfolding kept_or_citizen_def only_citizens_def by (cases "sel (users (base w)) k") auto
  qed
  moreover have "pkey (users (base w'))"
    using assms(1,2) citizen_added_pkey by (auto simp: only_citizens_def)
  moreover have "cl_Role cl = RoleCitizen"
    if "tok \<in> T'" "jwt_ParseUnverified (ap_jwt A) tok = Some (m, cl)" for tok m cl
    using that assms(1,3) by (cases "tok \<in> T") (auto simp: only_citizens_def)
  ultimately show ?thesis unfolding only_citizens_def by auto
qed

lemma only_citizens_step:
  assumes "jwt_documented (ap_jwt A)" and "wired A s" and "account_step A s x y" and "only_citizens A x"
  shows "only_citizens A y"
  using assms(3,4)
proof (cases rule: account_step.cases)
  case (registered username email password w u tok w' T)
  have j: "as_jwt s = ap_jwt A" using assms(2) by (simp add: wired_def)
  from Register_frame [OF registered(3)] obtain t1 t2 where
    d: "citizen_added (base w) (base w')" and u: "us_Role u = RoleCitizen" and
    sg: "jwt_SignedString (as_jwt s) (SigningMethodHMAC ''HS256'') (token_claims u t1 t2 (as_jwtCfg s))
      (jc_SecretKey (as_jwtCfg s)) = Inr tok" by blast
  show ?thesis unfolding registered(2)
    by (rule only_citizens_signup [OF assms(4) [unfolded registered(1)]])
       (use d citizen_token [OF assms(1) u sg [unfolded j]] in auto)
next
  case (not_registered username email password w err w' T)
  from Register_frame [OF not_registered(3)] show ?thesis unfolding not_registered(2)
    by (intro only_citizens_signup [OF assms(4) [unfolded not_registered(1)]]) auto
next
  case (logged_in email password w u tok w' T)
  have j: "as_jwt s = ap_jwt A" using assms(2) by (simp add: wired_def)
  from Login_Inr [OF logged_in(3)] obtain k r t1 t2 where kr: "(k, r) \<in> set (users (base w))" and u: "u = scanUser (k, r)"
    and b: "base w' = base w" and
    sg: "jwt_SignedString (as_jwt s) (SigningMethodHMAC ''HS256'') (token_claims u t1 t2 (as_jwtCfg s))
      (jc_SecretKey (as_jwtCfg s)) = Inr tok" by blast
  have "usr_role r = RoleCitizen"
    using kr assms(4) logged_in(1) in_sel [of "users (base w)" k r] by (auto simp: only_citizens_def)
  then have c: "us_Role u = RoleCitizen" by (simp add: u scanUser_def)
  show ?thesis unfolding logged_in(2)
    by (rule only_citizens_signup [OF assms(4) [unfolded logged_in(1)]])
       (use b citizen_token [OF assms(1) c sg [unfolded j]] in auto)
next
  case (not_logged_in email password w err w' T)
  show ?thesis unfolding not_logged_in(2)
    by (intro only_citizens_signup [OF assms(4) [unfolded not_logged_in(1)]])
       (use Login_frame [OF not_logged_in(3)] in auto)
next
  case (assigned now rq c T role un sh w res w')
  from assigned(3) obtain cl tok alg where h: "rq_Header rq ''Authorization'' = ''Bearer '' @ tok"
    "jwt_ParseUnverified (ap_jwt A) tok = Some (SigningMethodHMAC alg, cl)"
    "jwt_Verify (ap_jwt A) (SigningMethodHMAC alg) tok (jc_SecretKey (cf_JWT (ap_cfg A)))"
    and adm: "may_call Auth_AssignRole (cl_Role cl)"
    by (auto simp: authorised_def public_endpoint_def bears_def)
  from h(1,3) assigned(4) have "tok \<in> T" by (auto simp: holds_def)
  with h(2) assms(4) assigned(1) have "cl_Role cl = RoleCitizen" by (auto simp: only_citizens_def)
  with adm show ?thesis by (simp add: may_call_def)
qed



end
