(* ===== verification/Interleaving.thy ===== *)
theory Interleaving
  imports Incidents Sample
begin

text \<open>
  Requests that overlap. A session is a request on its own connection: its world, and what is left of
  its script. Sessions share the committed database, and a schedule says whose statement comes next.
  This is exact for scripts that use no transaction of their own, such as the incident module's: each
  statement reads the committed database and commits at once.
\<close>

section \<open>Sessions\<close>

definition script_step :: "('s, 'a) script \<Rightarrow> 's \<Rightarrow> 's \<times> ('s, 'a) script" where
  "script_step m w = (case m of Done a \<Rightarrow> (w, Done a) | Stmt f \<Rightarrow> f w)"

type_synonym ('m, 'a) session = "'m world_scheme \<times> ('m world_scheme, 'a) script"

definition turn :: "nat \<Rightarrow> db \<times> ('m, 'a) session list \<Rightarrow> db \<times> ('m, 'a) session list" where
  "turn i st = (case st of (d, ss) \<Rightarrow>
     if i < length ss
     then (case ss ! i of (w, m) \<Rightarrow> case script_step m (w\<lparr>base := d\<rparr>) of (w', m') \<Rightarrow>
             (base w', ss[i := (w', m')]))
     else (d, ss))"

text \<open>The committed databases a schedule goes through, the first and the last included.\<close>

fun history :: "nat list \<Rightarrow> db \<times> ('m, 'a) session list \<Rightarrow> db list" where
  "history [] st = [fst st]"
| "history (i # sched) st = fst st # history sched (turn i st)"

lemma length_history [simp]: "length (history sched st) = Suc (length sched)"
  by (induction sched arbitrary: st) simp_all

lemma history_not_Nil [simp]: "history sched st \<noteq> []"
  by (cases sched) simp_all

lemma history_0 [simp]: "history sched st ! 0 = fst st"
  by (cases sched) simp_all

text \<open>A session alone: its steps are those of \<open>run\<close>.\<close>

lemma run_script_step: "run m w = (case script_step m w of (w', m') \<Rightarrow> run m' w')"
  by (cases m) (simp_all add: script_step_def run_Stmt)

lemma alone_is_run:
  assumes "run m (w\<lparr>base := d\<rparr>) = (a, w')"
  shows "\<exists>n. last (history (replicate n 0) (d, [(w, m)])) = base w'"
  using assms
proof (induction m arbitrary: w d)
  case (Done b)
  then have "last (history (replicate 0 0) (d, [(w, Done b)])) = base w'" by auto
  then show ?case by blast
next
  case (Stmt f)
  obtain w1 m1 where f: "f (w\<lparr>base := d\<rparr>) = (w1, m1)" by (cases "f (w\<lparr>base := d\<rparr>)")
  have w1: "w1\<lparr>base := base w1\<rparr> = w1" by simp
  have "run m1 (w1\<lparr>base := base w1\<rparr>) = (a, w')" using Stmt.prems f by (simp add: run_Stmt w1)
  moreover have "m1 \<in> Basic_BNFs.snds (f (w\<lparr>base := d\<rparr>))" by (simp add: f snds.intros)
  ultimately obtain n where n: "last (history (replicate n 0) (base w1, [(w1, m1)])) = base w'"
    using Stmt.IH [OF rangeI [of f "w\<lparr>base := d\<rparr>"]] by blast
  have "turn 0 (d, [(w, Stmt f)]) = (base w1, [(w1, m1)])" by (simp add: turn_def script_step_def f)
  then have "last (history (replicate (Suc n) 0) (d, [(w, Stmt f)])) = base w'" using n by simp
  then show ?case by blast
qed

section \<open>Status updates that overlap\<close>

lemma step_pool_stmt:
  "script_step (bind (pool_stmt f) k) w = (case flt (wenv w) (pc w) of
       Some e \<Rightarrow> (w\<lparr>pc := Suc (pc w)\<rparr>, k (Inl e))
     | None \<Rightarrow> (case f (wenv w) (pc w) (clock (wenv w) (pc w)) (base w) of
         Inl e \<Rightarrow> (w\<lparr>pc := Suc (pc w)\<rparr>, k (Inl e))
       | Inr (a, d, ls) \<Rightarrow> (w\<lparr>pc := Suc (pc w), base := d, view := d\<rparr>,
           k (if ack_lost (wenv w) (pc w) then Inl lost_ack else Inr a))))"
  by (auto simp: script_step_def pool_stmt_def Let_def split: option.split sum.split)

lemma bind_Done: "bind m Done = m"
proof (induction m)
  case (Stmt f)
  have "map_prod id (\<lambda>m. bind m Done) \<circ> f = f"
  proof
    fix w
    obtain w' m where f: "f w = (w', m)" by (cases "f w")
    have "bind m Done = m" by (rule Stmt [OF rangeI [of f w]]) (simp add: f snds.intros)
    with f show "(map_prod id (\<lambda>m. bind m Done) \<circ> f) w = f w" by simp
  qed
  then show ?case by simp
qed simp

lemmas step_pool_stmt_last = step_pool_stmt [of _ Done, unfolded bind_Done]

text \<open>What a status update is about to do, against the databases \<open>P\<close> there have been: start; write a
  status that was a legal move from one the incident had; nothing more.\<close>

definition foreseen :: "db set \<Rightarrow> uuid \<Rightarrow> string \<Rightarrow> bool" where
  "foreseen P i st \<longleftrightarrow> (\<exists>d\<in>P. \<exists>r. sel (incidents d) i = Some r \<and> incident_canTransition (i_status r) st)"

inductive updating :: "db set \<Rightarrow> ('m, Incident) tx \<Rightarrow> env \<Rightarrow> bool" for P where
  fresh: "updating P (IncidentService_UpdateStatus x st) e"
| checked: "uuid_cast e x = Some i \<Longrightarrow> foreseen P i st \<Longrightarrow> updating P (IncidentRepository_UpdateStatus x st) e"
| finished: "updating P (Done a) e"

lemma foreseen_mono: "foreseen P i st \<Longrightarrow> P \<subseteq> Q \<Longrightarrow> foreseen Q i st"
  by (auto simp: foreseen_def)

lemma updating_mono: "updating P m e \<Longrightarrow> P \<subseteq> Q \<Longrightarrow> updating Q m e"
  by (induction rule: updating.induct) (auto intro: updating.intros foreseen_mono)

text \<open>What one statement of such a session does to the incidents.\<close>

definition legal_write :: "db set \<Rightarrow> db \<Rightarrow> db \<Rightarrow> bool" where
  "legal_write P d d' \<longleftrightarrow> d' = d
     \<or> (\<exists>i st t. foreseen P i st \<and> d' = d\<lparr>incidents := upd i (set_incident st t) (incidents d)\<rparr>)"

lemma map_one_row_Inr: "map_sum id f (one_row x) = Inr a \<longleftrightarrow> (\<exists>r. x = Some r \<and> a = f r)"
  by (cases x) auto

text \<open>The two statements of an update: the read, which decides, and the write, which does not read.\<close>

lemma step_GetByID:
  "script_step (bind (IncidentRepository_GetByID x) k) w = (w', m') \<Longrightarrow>
     base w' = base w \<and> wenv w' = wenv w
     \<and> ((\<exists>err. m' = k (Inl err))
        \<or> (\<exists>i r. uuid_cast (wenv w) x = Some i \<and> sel (incidents (base w)) i = Some r
             \<and> m' = k (Inr (scanIncident (i, r)))))"
  by (auto simp: IncidentRepository_GetByID_def step_pool_stmt cast_uuid_def reading_def map_one_row_Inr
      split: option.splits sum.splits)

lemma step_service_update:
  assumes "script_step (IncidentService_UpdateStatus x st) w = (w', m')"
  shows "base w' = base w \<and> (wenv w' = wenv w)
    \<and> ((\<exists>a. m' = Done a)
       \<or> m' = IncidentRepository_UpdateStatus x st
         \<and> (\<exists>i r. uuid_cast (wenv w) x = Some i \<and> sel (incidents (base w)) i = Some r
              \<and> incident_canTransition (i_status r) st))"
proof (cases "incident_allowedTransitions st = None")
  case True
  with assms show ?thesis by (auto simp: IncidentService_UpdateStatus_def script_step_def)
next
  case False
  then have "script_step (bind (IncidentRepository_GetByID x) (\<lambda>res. case res of
        Inl err \<Rightarrow> if errors_Is err ErrNoRows then throw (E Incident_ErrIncidentNotFound) else throw err
      | Inr inc \<Rightarrow>
          if \<not> incident_canTransition (inc_Status inc) st
          then throw (Wrapped (sentinel_text Incident_ErrIllegalTransition @ '': '' @ inc_Status inc
                 @ '' -> '' @ st) (E Incident_ErrIllegalTransition))
          else IncidentRepository_UpdateStatus x st)) w = (w', m')"
    using assms by (simp only: IncidentService_UpdateStatus_def if_False)
  from step_GetByID [OF this] show ?thesis by (auto split: if_splits)
qed

lemma step_repository_update:
  "script_step (IncidentRepository_UpdateStatus x st) w = (w', m') \<Longrightarrow>
     wenv w' = wenv w \<and> (\<exists>a. m' = Done a)
     \<and> (base w' = base w \<or> (\<exists>i t. uuid_cast (wenv w) x = Some i
          \<and> base w' = (base w)\<lparr>incidents := upd i (set_incident st t) (incidents (base w))\<rparr>))"
  by (auto simp: IncidentRepository_UpdateStatus_def step_pool_stmt_last pg_text_def cast_uuid_def
      split: option.splits if_splits)

lemma updating_step:
  assumes "updating P m (wenv w)" and "base w \<in> P" and "script_step m w = (w', m')"
  shows "wenv w' = wenv w \<and> updating P m' (wenv w) \<and> legal_write P (base w) (base w')"
  using assms(1)
proof (cases rule: updating.cases)
  case (fresh x st)
  have "foreseen P i st"
    if "sel (incidents (base w)) i = Some r" "incident_canTransition (i_status r) st" for i r
    using that assms(2) unfolding foreseen_def by blast
  with step_service_update [OF assms(3) [unfolded fresh]] show ?thesis
    by (auto simp: legal_write_def intro: updating.intros)
next
  case (checked x i st)
  from step_repository_update [OF assms(3) [unfolded checked(1)]] checked(2,3) show ?thesis
    by (auto simp: legal_write_def intro: updating.finished)
next
  case (finished a)
  with assms(3) show ?thesis by (auto simp: script_step_def legal_write_def intro: updating.finished)
qed

text \<open>Hence what any statement of any of them does, in any order.\<close>

lemma updating_turn:
  assumes "\<forall>(w, m) \<in> set ss. updating P m (wenv w)" and "d \<in> P" and "turn i (d, ss) = (d', ss')"
  shows "legal_write P d d' \<and> (\<forall>(w, m) \<in> set ss'. updating (insert d' P) m (wenv w))"
proof (cases "i < length ss")
  case False
  with assms show ?thesis by (auto simp: turn_def legal_write_def intro: updating_mono)
next
  case True
  obtain w m where wm: "ss ! i = (w, m)" by (cases "ss ! i")
  obtain w' m' where st: "script_step m (w\<lparr>base := d\<rparr>) = (w', m')" by (cases "script_step m (w\<lparr>base := d\<rparr>)")
  have "updating P m (wenv w)" using assms(1) True wm nth_mem by fastforce
  then have s: "wenv w' = wenv w" "updating P m' (wenv w)" "legal_write P d (base w')"
    using updating_step [of P m "w\<lparr>base := d\<rparr>" w' m'] st assms(2) by auto
  from assms(3) True wm st have ss': "d' = base w'" "ss' = ss[i := (w', m')]" by (auto simp: turn_def)
  have "updating (insert d' P) m1 (wenv w1)" if "(w1, m1) \<in> set ss'" for w1 m1
  proof -
    from that ss'(2) have "(w1, m1) = (w', m') \<or> (w1, m1) \<in> set ss"
      using set_update_subset_insert [of ss i "(w', m')"] by auto
    then have "updating P m1 (wenv w1)" using assms(1) s(1,2) by auto
    then show ?thesis by (rule updating_mono) auto
  qed
  with s(3) ss'(1) show ?thesis by blast
qed

lemma updating_history:
  assumes "\<forall>(w, m) \<in> set ss. updating P m (wenv w)" and "d \<in> P" and "k < length sched"
  shows "legal_write (P \<union> set (take (Suc k) (history sched (d, ss))))
    (history sched (d, ss) ! k) (history sched (d, ss) ! Suc k)"
  using assms
proof (induction sched arbitrary: P d ss k)
  case (Cons i sched)
  obtain d' ss' where t: "turn i (d, ss) = (d', ss')" by (cases "turn i (d, ss)")
  note step = updating_turn [OF Cons.prems(1,2) t]
  show ?case
  proof (cases k)
    case 0
    from step have "legal_write P d d'" by blast
    moreover have "insert d P = P" using Cons.prems(2) by blast
    ultimately show ?thesis by (simp add: 0 t)
  next
    case (Suc j)
    let ?h = "history sched (d', ss')"
    from step have "\<forall>(w, m) \<in> set ss'. updating (insert d' P) m (wenv w)" by blast
    from Cons.IH [OF this] Cons.prems(3) Suc
    have "legal_write (insert d' P \<union> set (take (Suc j) ?h)) (?h ! j) (?h ! Suc j)" by simp
    moreover have "insert d' P \<union> set (take (Suc j) ?h) = P \<union> set (d # take (Suc j) ?h)"
      using Cons.prems(2) by (cases sched) auto
    ultimately show ?thesis by (simp add: Suc t)
  qed
qed simp

text \<open>C8: let any number of status updates overlap, their statements in any order and with any faults.
  Every time the status of an incident changes, the new status is one the lifecycle allows from a
  status the incident had before in that history, and nothing else of the row changes but its time
  stamp. That status need not be the current one: \<open>cancelled_incident_reopened\<close> below.\<close>

theorem overlapping_updates_foreseen:
  assumes "\<forall>(w, m) \<in> set ss. \<exists>x st. m = IncidentService_UpdateStatus x st"
    and "k < length sched" and "ds = history sched (d, ss)"
    and "sel (incidents (ds ! k)) i = Some r" and "sel (incidents (ds ! Suc k)) i = Some r'" and "r' \<noteq> r"
  shows "\<exists>j r0 t. j \<le> k \<and> sel (incidents (ds ! j)) i = Some r0
    \<and> incident_canTransition (i_status r0) (i_status r') \<and> r' = set_incident (i_status r') t r"
proof -
  from assms(1) have "\<forall>(w, m) \<in> set ss. updating {d} m (wenv w)" by (auto intro: updating.fresh)
  from updating_history [OF this _ assms(2)] assms(3)
  have "legal_write ({d} \<union> set (take (Suc k) ds)) (ds ! k) (ds ! Suc k)" by simp
  moreover have "{d} \<union> set (take (Suc k) ds) = set (take (Suc k) ds)" using assms(3) by (cases sched) auto
  ultimately obtain a st t where f: "foreseen (set (take (Suc k) ds)) a st"
    and u: "ds ! Suc k = (ds ! k)\<lparr>incidents := upd a (set_incident st t) (incidents (ds ! k))\<rparr>"
    using assms(4-6) by (auto simp: legal_write_def)
  have eq: "a = i \<and> r' = set_incident st t r" using assms(4-6) u by (cases "a = i") (auto simp: sel_upd)
  then have st: "i_status r' = st" by (simp add: set_incident_def)
  from f obtain d0 r0 where "d0 \<in> set (take (Suc k) ds)" and r0: "sel (incidents d0) a = Some r0"
    "incident_canTransition (i_status r0) st" by (auto simp: foreseen_def)
  then obtain j where "j \<le> k" "ds ! j = d0" by (auto simp: in_set_conv_nth less_Suc_eq_le)
  with r0 eq st show ?thesis by auto
qed

section \<open>An incident that is cancelled and verified at once\<close>

definition fire_report :: incident_row where
  "fire_report = \<lparr>i_reporter_id = ''c1'', i_title = ''Fire'', i_description = '''', i_severity = SeverityHigh,
     i_status = StatusReported, i_report_count = 1, i_lat = Fin 0, i_lng = Fin 0,
     i_created_at = 0, i_updated_at = 0\<rparr>"

definition reported_db :: db where
  "reported_db = empty_db\<lparr>incidents := [(''i1'', fire_report)]\<rparr>"

definition two_operators :: "(unit, Incident) tx list \<Rightarrow> (unit, go_error + Incident) session list" where
  "two_operators = map (\<lambda>m. (start reported_db, m))"

definition with_status :: "string \<Rightarrow> time \<Rightarrow> db \<Rightarrow> db" where
  "with_status st t d = d\<lparr>incidents := [(''i1'', set_incident st t fire_report)]\<rparr>"

lemma reported_incident:
  "sel (incidents reported_db) ''i1'' = Some fire_report"
  "incident_row_ok (set_incident StatusVerified t fire_report)"
  "incident_row_ok (set_incident StatusCancelled t fire_report)"
  "incident_canTransition (i_status fire_report) StatusVerified"
  "incident_canTransition (i_status fire_report) StatusCancelled"
  by (simp_all add: reported_db_def fire_report_def incident_row_ok_def set_incident_def incident_canTransition_def
      incident_allowedTransitions_def all_severity_def all_incident_status_def)


lemma step_read:
  assumes "base w = reported_db" "wenv w = sample_env"
    and "st \<in> {StatusVerified, StatusCancelled}"
  shows "script_step (IncidentService_UpdateStatus ''i1'' st) w
    = (w\<lparr>pc := Suc (pc w), view := reported_db\<rparr>, IncidentRepository_UpdateStatus ''i1'' st)"
proof -
  have "incident_allowedTransitions st \<noteq> None" "incident_canTransition (i_status fire_report) st" "plain_text ''i1''"
    using assms(3) reported_incident(4,5)
    by (auto simp: incident_allowedTransitions_def plain_text_def byte_def)
  with assms reported_incident(1) show ?thesis
    by (simp del: not_None_eq add: IncidentService_UpdateStatus_def IncidentRepository_GetByID_def step_pool_stmt cast_uuid_def reading_def)
qed

lemma step_write:
  assumes "base w = d" "wenv w = sample_env" "incidents d = [(''i1'', r)]"
    and "st \<in> {StatusVerified, StatusCancelled}" "i_severity r = SeverityHigh"
  shows "\<exists>w' m'. script_step (IncidentRepository_UpdateStatus ''i1'' st) w = (w', m')
    \<and> base w' = d\<lparr>incidents := [(''i1'', set_incident st (seconds (int (pc w))) r)]\<rparr>"
proof -
  have "incident_row_ok (set_incident st t r)" "plain_text ''i1''" "text_ok st" for t
    using assms(4,5) by (auto simp: incident_row_ok_def set_incident_def all_severity_def all_incident_status_def
      plain_text_def byte_def StatusVerified_def StatusCancelled_def byte_in_def)
  with assms show ?thesis
    by (simp add: IncidentRepository_UpdateStatus_def step_pool_stmt_last pg_text_def cast_uuid_def upd_def)
qed

definition racing :: "db \<times> (unit, go_error + Incident) session list" where
  "racing = (reported_db, two_operators [IncidentService_UpdateStatus ''i1'' StatusVerified,
     IncidentService_UpdateStatus ''i1'' StatusCancelled])"

lemma racing_history:
  "\<exists>t t'. history [0, 1, 1, 0] racing = [reported_db, reported_db, reported_db,
     reported_db\<lparr>incidents := [(''i1'', set_incident StatusCancelled t fire_report)]\<rparr>,
     reported_db\<lparr>incidents := [(''i1'', set_incident StatusVerified t' (set_incident StatusCancelled t fire_report))]\<rparr>]"
proof -
  let ?w = "\<lparr>base = reported_db, view = reported_db, locks = {}, pc = Suc 0, txnow = 0, wenv = sample_env\<rparr> :: world"
  let ?V = "(?w, IncidentRepository_UpdateStatus ''i1'' StatusVerified) :: (unit, go_error + Incident) session"
  let ?C = "(?w, IncidentRepository_UpdateStatus ''i1'' StatusCancelled) :: (unit, go_error + Incident) session"
  have reads: "turn 0 racing = (reported_db, [?V, (start reported_db, IncidentService_UpdateStatus ''i1'' StatusCancelled)])"
    "turn 1 (reported_db, [?V, (start reported_db, IncidentService_UpdateStatus ''i1'' StatusCancelled)]) = (reported_db, [?V, ?C])"
    by (simp_all add: turn_def racing_def two_operators_def step_read) (simp_all add: start_def)
  obtain w1 m1 where c: "script_step (snd ?C) ?w = (w1, m1)"
    "base w1 = reported_db\<lparr>incidents := [(''i1'', set_incident StatusCancelled (seconds 1) fire_report)]\<rparr>"
    using step_write [of ?w reported_db fire_report StatusCancelled]
    by (auto simp: reported_db_def fire_report_def)
  define d1 where "d1 = reported_db\<lparr>incidents := [(''i1'', set_incident StatusCancelled (seconds 1) fire_report)]\<rparr>"
  have cancels: "turn 1 (reported_db, [?V, ?C]) = (d1, [?V, (w1, m1)])"
    using c by (simp add: turn_def d1_def)
  obtain w2 m2 where v: "script_step (snd ?V) (?w\<lparr>base := d1\<rparr>) = (w2, m2)"
    "base w2 = d1\<lparr>incidents := [(''i1'', set_incident StatusVerified (seconds 1)
       (set_incident StatusCancelled (seconds 1) fire_report))]\<rparr>"
    using step_write [of "?w\<lparr>base := d1\<rparr>" d1 "set_incident StatusCancelled (seconds 1) fire_report" StatusVerified]
    by (auto simp: d1_def fire_report_def set_incident_def)
  have verifies: "fst (turn 0 (d1, [?V, (w1, m1)])) = base w2"
    using v(1) by (simp add: turn_def)
  have "history [0, 1, 1, 0] racing = [reported_db, reported_db, reported_db, d1, base w2]"
    using verifies by (simp add: reads [simplified] cancels [simplified]) (simp add: racing_def)
  then show ?thesis unfolding v(2) d1_def by auto
qed

text \<open>Both operators read \<open>reported\<close>; one cancels the incident, the other then verifies it, and the
  cancelled incident is live again although no status but \<open>reported\<close> may become \<open>verified\<close>.\<close>

lemma cancelled_incident_reopened:
  "map (\<lambda>d. map_option i_status (sel (incidents d) ''i1'')) (history [0, 1, 1, 0] racing)
     = map Some [StatusReported, StatusReported, StatusReported, StatusCancelled, StatusVerified]"
  "\<not> incident_canTransition StatusCancelled StatusVerified"
proof -
  have "map_option i_status (sel (incidents reported_db) ''i1'') = Some StatusReported"
    by (simp add: reported_incident(1)) (simp add: fire_report_def)
  with racing_history
  show "map (\<lambda>d. map_option i_status (sel (incidents d) ''i1'')) (history [0, 1, 1, 0] racing)
     = map Some [StatusReported, StatusReported, StatusReported, StatusCancelled, StatusVerified]"
    by (auto simp: set_incident_def)
qed (simp add: incident_canTransition_def incident_allowedTransitions_def)

lemma overlapping_updates_foreseen_witness:
  "\<exists>j r0 t r. j \<le> 3 \<and> sel (incidents (history [0, 1, 1, 0] racing ! j)) ''i1'' = Some r0
    \<and> incident_canTransition (i_status r0) StatusVerified
    \<and> sel (incidents (history [0, 1, 1, 0] racing ! 4)) ''i1'' = Some (set_incident StatusVerified t r)
    \<and> i_status r = StatusCancelled"
proof -
  obtain t t' where h: "history [0, 1, 1, 0] racing = [reported_db, reported_db, reported_db,
     reported_db\<lparr>incidents := [(''i1'', set_incident StatusCancelled t fire_report)]\<rparr>,
     reported_db\<lparr>incidents := [(''i1'', set_incident StatusVerified t' (set_incident StatusCancelled t fire_report))]\<rparr>]"
    (is "_ = ?ds") using racing_history by blast
  let ?r = "set_incident StatusCancelled t fire_report" and ?r' = "set_incident StatusVerified t' (set_incident StatusCancelled t fire_report)"
  have all: "\<forall>(w, m) \<in> set (two_operators [IncidentService_UpdateStatus ''i1'' StatusVerified,
     IncidentService_UpdateStatus ''i1'' StatusCancelled]). \<exists>x st. m = IncidentService_UpdateStatus x st"
    by (auto simp: two_operators_def)
  have ne: "?r' \<noteq> ?r"
  proof
    assume "?r' = ?r"
    then have "i_status ?r' = i_status ?r" by simp
    then show False by (simp add: set_incident_def)
  qed
  have st: "i_status ?r' = StatusVerified" "i_status ?r = StatusCancelled" by (simp_all add: set_incident_def)
  have "\<exists>j r0 t. j \<le> 3 \<and> sel (incidents (?ds ! j)) ''i1'' = Some r0
    \<and> incident_canTransition (i_status r0) (i_status ?r') \<and> ?r' = set_incident (i_status ?r') t ?r"
    by (rule overlapping_updates_foreseen [OF all, of 3 "[0, 1, 1, 0]" _ reported_db])
      (use h ne in \<open>simp_all add: racing_def\<close>)
  then obtain j r0 where j: "j \<le> 3" "sel (incidents (?ds ! j)) ''i1'' = Some r0"
    "incident_canTransition (i_status r0) StatusVerified" unfolding st by blast
  show ?thesis unfolding h
    by (rule exI [of _ j], rule exI [of _ r0], rule exI [of _ t'], rule exI [of _ ?r]) (use j st in simp)
qed

end
