(* ===== verification/Seed.thy ===== *)
theory Seed
  imports Auth_Props
begin

text \<open>
  The demo data (\<^verbatim>\<open>platform/seed\<close>): accounts, units, shelters, the ownership bindings, victims
  and incidents, each row in a statement of its own on the pool. Whether a row is already there is
  decided by \<open>ON CONFLICT\<close> for accounts and units, by \<open>WHERE NOT EXISTS\<close> for the others.
\<close>

section \<open>The fixtures\<close>

definition DemoPassword :: string where "DemoPassword = ''password123''"

text \<open>User name, address, role; call sign, type, latitude, longitude; name, capacity, latitude,
  longitude; title, severity, latitude, longitude.\<close>

definition demoUsers :: "(string \<times> string \<times> string) list" where
  "demoUsers =
    [(''demo_citizen'', ''citizen@crisislink.dev'', RoleCitizen),
     (''demo_responder'', ''responder@crisislink.dev'', RoleResponder),
     (''demo_shelter'', ''shelter@crisislink.dev'', RoleShelterManager),
     (''demo_operator'', ''operator@crisislink.dev'', RoleOperator),
     (''demo_admin'', ''admin@crisislink.dev'', RoleAdmin)]"

definition demoUnits :: "(string \<times> string \<times> float64 \<times> float64) list" where
  "demoUnits =
    [(''DEMO-AMB-1'', ''ambulance'', lit 28.6200, lit 77.2100),
     (''DEMO-AMB-2'', ''ambulance'', lit 28.6050, lit 77.2200),
     (''DEMO-FIRE-1'', ''fire'', lit 28.6300, lit 77.1950),
     (''DEMO-RESC-1'', ''rescue'', lit 28.6100, lit 77.2300)]"

definition demoShelters :: "(string \<times> int \<times> float64 \<times> float64) list" where
  "demoShelters =
    [(''Demo Community Hall'', 20, lit 28.6180, lit 77.2150),
     (''Demo School Gym'', 40, lit 28.6000, lit 77.2250)]"

definition demoVictims :: "string list" where
  "demoVictims = [''Asha Kumari'', ''Ravi Sharma'', ''Priya Nair'', ''Dev Menon'']"

definition demoIncidents :: "(string \<times> string \<times> float64 \<times> float64) list" where
  "demoIncidents =
    [(''Building collapse'', ''critical'', lit 28.6190, lit 77.2110),
     (''Gas leak'', ''high'', lit 28.6060, lit 77.2210),
     (''Road flooding'', ''medium'', lit 28.6310, lit 77.1960),
     (''Fallen tree'', ''low'', lit 28.6110, lit 77.2310)]"

section \<open>The statements\<close>

definition nothing :: "unit stmt" where
  "nothing e n t d = Inr ((), d, {})"

text \<open>\<open>INSERT INTO users ... ON CONFLICT (email) DO NOTHING\<close>: a clash on another unique column is
  still an error.\<close>

definition seed_user :: "string \<Rightarrow> string \<times> string \<times> string \<Rightarrow> unit stmt" where
  "seed_user hash u = (case u of (username, email, role) \<Rightarrow>
     pg_text [username, email, hash, role] (\<lambda>e n t d.
       let k = gen_uuid e n;
           r = \<lparr>usr_username = username, usr_email = email, usr_password = hash, usr_role = role,
                usr_unit_id = None, usr_shelter_id = None, usr_created_at = t, usr_updated_at = t\<rparr>
       in if \<not> user_row_ok r then Inl check_violation
          else if list_ex (\<lambda>(_, r'). usr_email r' = email) (users d) then nothing e n t d
          else if sel (users d) k \<noteq> None \<or> list_ex (\<lambda>(_, r'). usr_username r' = username) (users d)
          then Inl unique_violation
          else Inr ((), d\<lparr>users := ins k r (users d)\<rparr>,
            {RowUser k, IdxUnique ''users.username'' username, IdxUnique ''users.email'' email})))"

definition seed_unit :: "string \<times> string \<times> float64 \<times> float64 \<Rightarrow> unit stmt" where
  "seed_unit u = (case u of (callSign, kind, lat, lng) \<Rightarrow>
     pg_text [callSign, kind] (\<lambda>e n t d.
       let k = gen_uuid e n;
           r = \<lparr>u_call_sign = callSign, u_type = kind, u_status = UnitAvailable, u_lat = lat, u_lng = lng,
                u_version = 1, u_created_at = t, u_updated_at = t\<rparr>
       in if \<not> unit_row_ok r then Inl check_violation
          else if list_ex (\<lambda>(_, r'). u_call_sign r' = callSign) (units d) then nothing e n t d
          else if sel (units d) k \<noteq> None then Inl unique_violation
          else Inr ((), d\<lparr>units := ins k r (units d)\<rparr>, {RowUnit k, IdxUnique ''units.call_sign'' callSign})))"

definition seed_shelter :: "string \<times> int \<times> float64 \<times> float64 \<Rightarrow> unit stmt" where
  "seed_shelter s = (case s of (name, capacity, lat, lng) \<Rightarrow>
     pg_text [name] (\<lambda>e n t d.
       if list_ex (\<lambda>(_, r'). s_name r' = name) (shelters d) then nothing e n t d
       else let k = gen_uuid e n;
                r = \<lparr>s_name = name, s_capacity = capacity, s_occupancy = 0, s_status = ShelterOpen,
                     s_lat = lat, s_lng = lng, s_created_at = t, s_updated_at = t\<rparr>
            in if \<not> shelter_row_ok r then Inl check_violation
               else if sel (shelters d) k \<noteq> None then Inl unique_violation
               else Inr ((), d\<lparr>shelters := ins k r (shelters d)\<rparr>,
                 {RowShelter k, IdxUnique ''shelters.name'' name})))"

text \<open>\<open>UPDATE users SET unit_id = (SELECT ...) WHERE email = ... AND unit_id IS NULL\<close>; a subquery
  that finds nothing is \<open>NULL\<close>.\<close>

definition bind_responder :: "unit stmt" where
  "bind_responder e n t d =
     (let un = map_option fst (find (\<lambda>(k, r). u_call_sign r = ''DEMO-AMB-1'') (units d));
          hit = (\<lambda>r. usr_email r = ''responder@crisislink.dev'' \<and> usr_unit_id r = None)
      in Inr ((), d\<lparr>users := map (\<lambda>(k, r). if hit r then (k, r\<lparr>usr_unit_id := un\<rparr>) else (k, r)) (users d)\<rparr>,
           {RowUser k | k r. (k, r) \<in> set (users d) \<and> hit r}))"

definition bind_manager :: "unit stmt" where
  "bind_manager e n t d =
     (let sh = map_option fst (find (\<lambda>(k, r). s_name r = ''Demo Community Hall'') (shelters d));
          hit = (\<lambda>r. usr_email r = ''shelter@crisislink.dev'' \<and> usr_shelter_id r = None)
      in Inr ((), d\<lparr>users := map (\<lambda>(k, r). if hit r then (k, r\<lparr>usr_shelter_id := sh\<rparr>) else (k, r)) (users d)\<rparr>,
           {RowUser k | k r. (k, r) \<in> set (users d) \<and> hit r}))"

definition seed_victim :: "string \<Rightarrow> unit stmt" where
  "seed_victim name = pg_text [name] (\<lambda>e n t d.
     if list_ex (\<lambda>(_, r'). v_name r' = name) (victims d) then nothing e n t d
     else let k = gen_uuid e n;
              r = \<lparr>v_name = name, v_status = VictimRegistered, v_notes = '''', v_shelter_id = None,
                   v_lat = lit 28.614, v_lng = lit 77.209, v_created_at = t, v_updated_at = t\<rparr>
          in if sel (victims d) k \<noteq> None then Inl unique_violation
             else Inr ((), d\<lparr>victims := ins k r (victims d)\<rparr>, {RowVictim k}))"

definition not_null_violation :: go_error where
  "not_null_violation = PgError ''23502''"

definition seed_incident :: "string \<times> string \<times> float64 \<times> float64 \<Rightarrow> unit stmt" where
  "seed_incident i = (case i of (title, severity, lat, lng) \<Rightarrow>
     pg_text [title, severity] (\<lambda>e n t d.
       if list_ex (\<lambda>(_, r'). i_title r' = title) (incidents d) then nothing e n t d
       else case find (\<lambda>(k, r). usr_email r = ''citizen@crisislink.dev'') (users d) of
         None \<Rightarrow> Inl not_null_violation
       | Some (reporter, _) \<Rightarrow>
           let k = gen_uuid e n;
               r = \<lparr>i_reporter_id = reporter, i_title = title, i_description = ''Seeded demo incident.'',
                    i_severity = severity, i_status = StatusReported, i_report_count = 1,
                    i_lat = lat, i_lng = lng, i_created_at = t, i_updated_at = t\<rparr>
           in if \<not> incident_row_ok r then Inl check_violation
              else if sel (incidents d) k \<noteq> None then Inl unique_violation
              else Inr ((), d\<lparr>incidents := ins k r (incidents d)\<rparr>, {RowIncident k})))"

section \<open>The run\<close>

text \<open>\<open>pool.Exec\<close>, whose error is wrapped with what was being seeded, and the loop over a list.\<close>

definition seed_exec :: "string \<Rightarrow> unit stmt \<Rightarrow> ('m, unit) tx" where
  "seed_exec what f = bind (pool_stmt f) (\<lambda>res. case res of
     Inl err \<Rightarrow> throw (Wrapped (''seed '' @ what @ '': '' @ err_Error err) err) | Inr _ \<Rightarrow> ok ())"

fun seed_each :: "('a \<Rightarrow> string) \<Rightarrow> ('a \<Rightarrow> unit stmt) \<Rightarrow> 'a list \<Rightarrow> ('m, unit) tx" where
  "seed_each what f [] = ok ()"
| "seed_each what f (x # xs) = bindE (seed_exec (what x) (f x)) (\<lambda>_. seed_each what f xs)"

definition seed_rows :: "string \<Rightarrow> ('m, unit) tx" where
  "seed_rows hash =
     bindE (seed_each (\<lambda>u. ''user '' @ fst (snd u)) (seed_user hash) demoUsers) (\<lambda>_.
     bindE (seed_each (\<lambda>u. ''unit '' @ fst u) seed_unit demoUnits) (\<lambda>_.
     bindE (seed_each (\<lambda>s. ''shelter '' @ fst s) seed_shelter demoShelters) (\<lambda>_.
     bindE (seed_exec ''responder binding'' bind_responder) (\<lambda>_.
     bindE (seed_exec ''shelter binding'' bind_manager) (\<lambda>_.
     bindE (seed_each (\<lambda>name. ''victim '' @ name) seed_victim demoVictims) (\<lambda>_.
     seed_each (\<lambda>i. ''incident '' @ fst i) seed_incident demoIncidents))))))"

definition seed_Run :: "bcrypt_lib \<Rightarrow> ('m, go_error + unit) auth" where
  "seed_Run B = bind (HashPassword B DemoPassword) (\<lambda>res. case res of
     Inl err \<Rightarrow> throw (Wrapped (''seed: hash password: '' @ err_Error err) err)
   | Inr hash \<Rightarrow> seed_rows hash)"

section \<open>What is seeded\<close>

definition has_user :: "string \<times> string \<times> string \<Rightarrow> db \<Rightarrow> bool" where
  "has_user u d \<longleftrightarrow> list_ex (\<lambda>(_, r). usr_email r = fst (snd u)) (users d)"

definition has_unit :: "string \<times> string \<times> float64 \<times> float64 \<Rightarrow> db \<Rightarrow> bool" where
  "has_unit u d \<longleftrightarrow> list_ex (\<lambda>(_, r). u_call_sign r = fst u) (units d)"

definition has_shelter :: "string \<times> int \<times> float64 \<times> float64 \<Rightarrow> db \<Rightarrow> bool" where
  "has_shelter s d \<longleftrightarrow> list_ex (\<lambda>(_, r). s_name r = fst s) (shelters d)"

definition has_victim :: "string \<Rightarrow> db \<Rightarrow> bool" where
  "has_victim name d \<longleftrightarrow> list_ex (\<lambda>(_, r). v_name r = name) (victims d)"

definition has_incident :: "string \<times> string \<times> float64 \<times> float64 \<Rightarrow> db \<Rightarrow> bool" where
  "has_incident i d \<longleftrightarrow> list_ex (\<lambda>(_, r). i_title r = fst i) (incidents d)"

definition responder_bound :: "db \<Rightarrow> bool" where
  "responder_bound d \<longleftrightarrow>
     list_all (\<lambda>(_, r). usr_email r = ''responder@crisislink.dev'' \<longrightarrow> usr_unit_id r \<noteq> None) (users d)"

definition manager_bound :: "db \<Rightarrow> bool" where
  "manager_bound d \<longleftrightarrow>
     list_all (\<lambda>(_, r). usr_email r = ''shelter@crisislink.dev'' \<longrightarrow> usr_shelter_id r \<noteq> None) (users d)"

definition seeded :: "db \<Rightarrow> bool" where
  "seeded d \<longleftrightarrow> list_all (\<lambda>u. has_user u d) demoUsers \<and> list_all (\<lambda>u. has_unit u d) demoUnits
     \<and> list_all (\<lambda>s. has_shelter s d) demoShelters \<and> responder_bound d \<and> manager_bound d
     \<and> list_all (\<lambda>v. has_victim v d) demoVictims \<and> list_all (\<lambda>i. has_incident i d) demoIncidents"

text \<open>One statement: the row is there afterwards, and nothing else has changed but that it may be new.\<close>

lemma seed_user_Inr:
  "seed_user hash u e n t d = Inr (a, d', ls) \<Longrightarrow> has_user u d' \<and> (\<exists>x. d' = d\<lparr>users := users d @ x\<rparr>)"
  by (auto simp: seed_user_def pg_text_Inr nothing_def has_user_def ins_def Let_def split: prod.splits if_splits
      intro: exI [of _ "[]"])

lemma seed_unit_Inr:
  "seed_unit u e n t d = Inr (a, d', ls) \<Longrightarrow> has_unit u d' \<and> (\<exists>x. d' = d\<lparr>units := units d @ x\<rparr>)"
  by (auto simp: seed_unit_def pg_text_Inr nothing_def has_unit_def ins_def Let_def split: prod.splits if_splits
      intro: exI [of _ "[]"])

lemma seed_shelter_Inr:
  "seed_shelter s e n t d = Inr (a, d', ls) \<Longrightarrow> has_shelter s d' \<and> (\<exists>x. d' = d\<lparr>shelters := shelters d @ x\<rparr>)"
  by (auto simp: seed_shelter_def pg_text_Inr nothing_def has_shelter_def ins_def Let_def split: prod.splits if_splits
      intro: exI [of _ "[]"])

lemma seed_victim_Inr:
  "seed_victim v e n t d = Inr (a, d', ls) \<Longrightarrow> has_victim v d' \<and> (\<exists>x. d' = d\<lparr>victims := victims d @ x\<rparr>)"
  by (auto simp: seed_victim_def pg_text_Inr nothing_def has_victim_def ins_def Let_def split: if_splits
      intro: exI [of _ "[]"])

lemma seed_incident_Inr:
  "seed_incident i e n t d = Inr (a, d', ls) \<Longrightarrow> has_incident i d' \<and> (\<exists>x. d' = d\<lparr>incidents := incidents d @ x\<rparr>)"
  by (auto simp: seed_incident_def pg_text_Inr nothing_def has_incident_def ins_def Let_def
      split: prod.splits if_splits option.splits intro: exI [of _ "[]"])

lemma has_find: "list_ex (\<lambda>(_, r). P r) xs \<Longrightarrow> map_option fst (find (\<lambda>(k, r). P r) xs) \<noteq> None"
  by (induction xs) auto

lemma bind_responder_Inr:
  "bind_responder e n t d = Inr (a, d', ls) \<Longrightarrow> has_unit (hd demoUnits) d \<Longrightarrow>
     responder_bound d' \<and> map (\<lambda>(k, r). (usr_email r, usr_shelter_id r)) (users d')
        = map (\<lambda>(k, r). (usr_email r, usr_shelter_id r)) (users d)
     \<and> (\<exists>x. d' = d\<lparr>users := x\<rparr>)"
  using has_find [of "\<lambda>r. u_call_sign r = ''DEMO-AMB-1''" "units d"]
  by (auto simp: bind_responder_def Let_def responder_bound_def has_unit_def demoUnits_def list_all_iff split: if_splits)

lemma bind_manager_Inr:
  "bind_manager e n t d = Inr (a, d', ls) \<Longrightarrow> has_shelter (hd demoShelters) d \<Longrightarrow>
     manager_bound d' \<and> map (\<lambda>(k, r). (usr_email r, usr_unit_id r)) (users d')
        = map (\<lambda>(k, r). (usr_email r, usr_unit_id r)) (users d)
     \<and> (\<exists>x. d' = d\<lparr>users := x\<rparr>)"
  using has_find [of "\<lambda>r. s_name r = ''Demo Community Hall''" "shelters d"]
  by (auto simp: bind_manager_def Let_def manager_bound_def has_shelter_def demoShelters_def list_all_iff split: if_splits)


section \<open>Runs\<close>

lemma seed_exec_Inr:
  "run (seed_exec what f) w = (Inr a, w') \<Longrightarrow> \<exists>e n t x ls. f e n t (base w) = Inr (x, base w', ls)"
  by (auto simp: seed_exec_def run_bind run_pool_stmt split: option.splits sum.splits if_splits) blast

text \<open>A loop that succeeds: whatever each statement establishes and the others keep holds for all.\<close>

lemma seed_each_Inr:
  assumes "run (seed_each what f xs) w = (Inr a, w')" and "I (base w)"
    and "\<And>x e n t d a d' ls. f x e n t d = Inr (a, d', ls) \<Longrightarrow> I d \<Longrightarrow> I d' \<and> P x d'"
    and "\<And>x y e n t d a d' ls. f x e n t d = Inr (a, d', ls) \<Longrightarrow> P y d \<Longrightarrow> P y d'"
  shows "I (base w') \<and> list_all (\<lambda>x. P x (base w')) xs"
proof -
  have kept: "P y (base w')" if "run (seed_each what f ys) w = (Inr a, w')" "P y (base w)" for ys y w
    using that
  proof (induction ys arbitrary: w)
    case (Cons x xs)
    from Cons.prems(1) obtain b w1 where 1: "run (seed_exec (what x) (f x)) w = (Inr b, w1)"
      and 2: "run (seed_each what f xs) w1 = (Inr a, w')"
      by (auto simp: run_bindE_Inr)
    from seed_exec_Inr [OF 1] Cons.prems(2) assms(4) have "P y (base w1)" by blast
    with Cons.IH 2 show ?case by blast
  qed simp
  from assms(1,2) show ?thesis
  proof (induction xs arbitrary: w)
    case (Cons x xs)
    from Cons.prems(1) obtain b w1 where 1: "run (seed_exec (what x) (f x)) w = (Inr b, w1)"
      and 2: "run (seed_each what f xs) w1 = (Inr a, w')"
      by (auto simp: run_bindE_Inr)
    from seed_exec_Inr [OF 1] Cons.prems(2) assms(3) have "I (base w1)" "P x (base w1)" by blast+
    with Cons.IH [OF 2] kept [OF 2] show ?case by simp
  qed simp
qed

lemma has_user_emails:
  "map (\<lambda>(k, r). usr_email r) (users d') = map (\<lambda>(k, r). usr_email r) (users d) \<Longrightarrow> has_user u d' = has_user u d"
proof -
  have "has_user u x \<longleftrightarrow> fst (snd u) \<in> set (map (\<lambda>(k, r). usr_email r) (users x))" for x
    by (force simp: has_user_def list_ex_iff)
  then show "map (\<lambda>(k, r). usr_email r) (users d') = map (\<lambda>(k, r). usr_email r) (users d) \<Longrightarrow> ?thesis" by (simp only:)
qed

lemma bound_columns:
  "map (\<lambda>(k, r). (usr_email r, usr_unit_id r)) (users d') = map (\<lambda>(k, r). (usr_email r, usr_unit_id r)) (users d)
     \<Longrightarrow> responder_bound d' = responder_bound d"
proof -
  have "responder_bound x \<longleftrightarrow> list_all (\<lambda>(m, u). m = ''responder@crisislink.dev'' \<longrightarrow> u \<noteq> None)
      (map (\<lambda>(k, r). (usr_email r, usr_unit_id r)) (users x))" for x
    by (auto simp: responder_bound_def list.pred_map comp_def list_all_iff)
  then show "map (\<lambda>(k, r). (usr_email r, usr_unit_id r)) (users d')
      = map (\<lambda>(k, r). (usr_email r, usr_unit_id r)) (users d) \<Longrightarrow> ?thesis" by simp
qed

text \<open>What each phase leaves: the phases done so far, as one predicate.\<close>

definition accounts_and_fleet :: "db \<Rightarrow> bool" where
  "accounts_and_fleet d \<longleftrightarrow> list_all (\<lambda>u. has_user u d) demoUsers \<and> list_all (\<lambda>u. has_unit u d) demoUnits
     \<and> list_all (\<lambda>s. has_shelter s d) demoShelters"

lemma accounts_and_fleet_seeded:
  assumes 1: "run (seed_each w1 (seed_user hash) demoUsers) a = (Inr i1, b)"
    and 2: "run (seed_each w2 seed_unit demoUnits) b = (Inr i2, c)"
    and 3: "run (seed_each w3 seed_shelter demoShelters) c = (Inr i3, v)"
  shows "accounts_and_fleet (base v)"
proof -
  let ?U = "\<lambda>d. list_all (\<lambda>u. has_user u d) demoUsers"
  let ?N = "\<lambda>d. ?U d \<and> list_all (\<lambda>u. has_unit u d) demoUnits"
  have "True \<and> ?U (base b)"
    by (rule seed_each_Inr [OF 1]) (use seed_user_Inr in \<open>fastforce simp: has_user_def\<close>)+
  then have "?U (base b)" ..
  then have n: "?U (base c) \<and> list_all (\<lambda>u. has_unit u (base c)) demoUnits"
    by (rule seed_each_Inr [OF 2]) (use seed_unit_Inr in \<open>fastforce simp: has_user_def has_unit_def\<close>)+
  have "?N (base v) \<and> list_all (\<lambda>s. has_shelter s (base v)) demoShelters"
    by (rule seed_each_Inr [OF 3, where I = ?N, OF n])
       (use seed_shelter_Inr in \<open>fastforce simp: has_user_def has_unit_def has_shelter_def\<close>)+
  then show ?thesis by (simp add: accounts_and_fleet_def)
qed

lemma bindings_seeded:
  assumes a: "accounts_and_fleet (base u)"
    and 1: "run (seed_exec w1 bind_responder) u = (Inr i4, v)"
    and 2: "run (seed_exec w2 bind_manager) v = (Inr i5, w)"
  shows "accounts_and_fleet (base w) \<and> responder_bound (base w) \<and> manager_bound (base w)"
proof -
  have "has_unit (hd demoUnits) (base u)" "has_shelter (hd demoShelters) (base u)"
    using a by (simp_all add: accounts_and_fleet_def demoUnits_def demoShelters_def)
  from seed_exec_Inr [OF 1] bind_responder_Inr [OF _ this(1)] obtain x where
    b: "responder_bound (base v)" "base v = (base u)\<lparr>users := x\<rparr>"
      "map (\<lambda>(k, r). (usr_email r, usr_shelter_id r)) (users (base v))
        = map (\<lambda>(k, r). (usr_email r, usr_shelter_id r)) (users (base u))" by blast
  have "has_shelter (hd demoShelters) (base v)"
    using \<open>has_shelter (hd demoShelters) (base u)\<close> by (simp add: has_shelter_def b(2))
  from seed_exec_Inr [OF 2] bind_manager_Inr [OF _ this] obtain y where
    c: "manager_bound (base w)" "base w = (base v)\<lparr>users := y\<rparr>"
      "map (\<lambda>(k, r). (usr_email r, usr_unit_id r)) (users (base w))
        = map (\<lambda>(k, r). (usr_email r, usr_unit_id r)) (users (base v))" by blast
  have e: "map (\<lambda>(k, r). usr_email r) (users d') = map (\<lambda>(k, r). usr_email r) (users d)"
    if "map (\<lambda>(k, r). (usr_email r, f r)) (users d') = map (\<lambda>(k, r). (usr_email r, f r)) (users d)"
    for f :: "user_row \<Rightarrow> uuid option" and d d' :: db
    using arg_cong [OF that, of "map fst"] by (simp add: comp_def case_prod_unfold)
  have "has_user x (base w) = has_user x (base u)" for x
    using has_user_emails [OF e [OF b(3)]] has_user_emails [OF e [OF c(3)]] by simp
  moreover have "has_unit x (base w) = has_unit x (base u)" "has_shelter y (base w) = has_shelter y (base u)" for x y
    by (simp_all add: has_unit_def has_shelter_def b(2) c(2))
  ultimately show ?thesis using a b(1) c(1) bound_columns [OF c(3)] by (simp add: accounts_and_fleet_def)
qed

lemma people_seeded:
  assumes a: "accounts_and_fleet (base u) \<and> responder_bound (base u) \<and> manager_bound (base u)"
    and 1: "run (seed_each w1 seed_victim demoVictims) u = (Inr i6, v)"
    and 2: "run (seed_each w2 seed_incident demoIncidents) v = (Inr i7, w)"
  shows "seeded (base w)"
proof -
  let ?I = "\<lambda>d. accounts_and_fleet d \<and> responder_bound d \<and> manager_bound d"
  let ?V = "\<lambda>d. ?I d \<and> list_all (\<lambda>v. has_victim v d) demoVictims"
  have I: "?I (d\<lparr>victims := x\<rparr>) = ?I d" "?I (d\<lparr>incidents := y\<rparr>) = ?I d" for d x y
    by (simp_all add: accounts_and_fleet_def has_user_def has_unit_def has_shelter_def responder_bound_def manager_bound_def)
  have "?V (base v)"
  proof (rule seed_each_Inr [OF 1, where I = ?I, OF a])
    show "?I d' \<and> has_victim x d'" if "seed_victim x e n t d = Inr (a, d', ls)" "?I d" for x e n t d a d' ls
      using seed_victim_Inr [OF that(1)] that(2) I(1) by metis
  qed (use seed_victim_Inr in \<open>fastforce simp: has_victim_def\<close>)
  then have "?V (base w) \<and> list_all (\<lambda>i. has_incident i (base w)) demoIncidents"
  proof (rule seed_each_Inr [OF 2, where I = ?V])
    show "?V d' \<and> has_incident x d'" if "seed_incident x e n t d = Inr (a, d', ls)" "?V d" for x e n t d a d' ls
    proof -
      from seed_incident_Inr [OF that(1)] obtain y where y: "d' = d\<lparr>incidents := y\<rparr>" "has_incident x d'" by blast
      have "has_victim v d' = has_victim v d" for v by (simp add: has_victim_def y(1))
      with that(2) y I(2) show ?thesis by simp
    qed
  qed (use seed_incident_Inr in \<open>fastforce simp: has_incident_def\<close>)
  then show ?thesis by (simp add: seeded_def accounts_and_fleet_def)
qed

lemma seed_rows_seeded:
  assumes "run (seed_rows hash) w = (Inr (), w')"
  shows "seeded (base w')"
proof -
  from assms obtain a b c u v x i1 i2 i3 i4 i5 i6 i7 where
    r: "run (seed_each (\<lambda>u. ''user '' @ fst (snd u)) (seed_user hash) demoUsers) w = (Inr i1, a)"
      "run (seed_each (\<lambda>u. ''unit '' @ fst u) seed_unit demoUnits) a = (Inr i2, b)"
      "run (seed_each (\<lambda>s. ''shelter '' @ fst s) seed_shelter demoShelters) b = (Inr i3, c)"
      "run (seed_exec ''responder binding'' bind_responder) c = (Inr i4, u)"
      "run (seed_exec ''shelter binding'' bind_manager) u = (Inr i5, v)"
      "run (seed_each (\<lambda>name. ''victim '' @ name) seed_victim demoVictims) v = (Inr i6, x)"
      "run (seed_each (\<lambda>i. ''incident '' @ fst i) seed_incident demoIncidents) x = (Inr (), w')"
    unfolding seed_rows_def run_bindE_Inr by (elim exE conjE) (rule that)
  show ?thesis
    by (rule people_seeded [OF bindings_seeded [OF accounts_and_fleet_seeded [OF r(1-3)] r(4,5)] r(6,7)])
qed


text \<open>Over seeded data every statement finds its row and does nothing.\<close>

definition idle :: "unit stmt \<Rightarrow> db \<Rightarrow> bool" where
  "idle f d \<longleftrightarrow> (\<forall>e n t. \<exists>ls. f e n t d = Inr ((), d, ls))"

lemma seed_exec_idle:
  assumes "idle f (base w)" and "calm (wenv w)"
  shows "\<exists>w'. run (seed_exec what f) w = (Inr (), w') \<and> base w' = base w \<and> wenv w' = wenv w"
proof -
  from assms(1) obtain ls where "f (wenv w) (pc w) (clock (wenv w) (pc w)) (base w) = Inr ((), base w, ls)"
    unfolding idle_def by blast
  then have "run (seed_exec what f) w = (Inr (), w\<lparr>pc := Suc (pc w), base := base w, view := base w\<rparr>)"
    by (simp only: seed_exec_def run_bind run_pool_stmt calm_simps [OF assms(2)] option.case sum.case prod.case
        if_False run_Done)
  then show ?thesis by simp
qed

lemma seed_each_idle:
  "list_all (\<lambda>x. idle (f x) (base w)) xs \<Longrightarrow> calm (wenv w) \<Longrightarrow>
     \<exists>w'. run (seed_each what f xs) w = (Inr (), w') \<and> base w' = base w \<and> wenv w' = wenv w"
proof (induction xs arbitrary: w)
  case (Cons x xs)
  from Cons.prems seed_exec_idle [of "f x" w "what x"] obtain w1 where
    1: "run (seed_exec (what x) (f x)) w = (Inr (), w1)" "base w1 = base w" "wenv w1 = wenv w" by auto
  with Cons.IH [of w1] Cons.prems show ?case by (simp add: run_bindE)
qed simp

lemma fixture_texts:
  "list_all text_ok [''demo_citizen'', ''citizen@crisislink.dev'', ''demo_responder'', ''responder@crisislink.dev'',
     ''demo_shelter'', ''shelter@crisislink.dev'', ''demo_operator'', ''operator@crisislink.dev'',
     ''demo_admin'', ''admin@crisislink.dev'']"
  "list_all text_ok [''DEMO-AMB-1'', ''DEMO-AMB-2'', ''DEMO-FIRE-1'', ''DEMO-RESC-1'', ''ambulance'', ''fire'', ''rescue'']"
  "list_all text_ok [''Demo Community Hall'', ''Demo School Gym'']"
  "list_all text_ok [''Asha Kumari'', ''Ravi Sharma'', ''Priya Nair'', ''Dev Menon'']"
  "list_all text_ok [''Building collapse'', ''Gas leak'', ''Road flooding'', ''Fallen tree'', ''critical'', ''high'',
     ''medium'', ''low'']"
  "list_all text_ok authz_All"
  by code_simp+

lemma fixtures_ok:
  "list_all (\<lambda>(name, email, role). text_ok name \<and> text_ok email \<and> text_ok role \<and> role \<in> set authz_All) demoUsers"
  "list_all (\<lambda>(callSign, kind, _). text_ok callSign \<and> text_ok kind \<and> kind \<in> set all_unit_type) demoUnits"
  "list_all (\<lambda>(name, _). text_ok name) demoShelters"
  "list_all text_ok demoVictims"
  "list_all (\<lambda>(title, severity, _). text_ok title \<and> text_ok severity) demoIncidents"
  using fixture_texts
  by (simp_all add: demoUsers_def demoUnits_def demoShelters_def demoVictims_def demoIncidents_def authz_All_def
      all_unit_type_def unit_type_defs del: text_ok.simps)

lemma seed_user_idle:
  "u \<in> set demoUsers \<Longrightarrow> text_ok hash \<Longrightarrow> has_user u d \<Longrightarrow> idle (seed_user hash u) d"
  using fixtures_ok(1)
  by (auto simp: list_all_iff idle_def seed_user_def pg_text_def nothing_def has_user_def user_row_ok_def Let_def)

lemma seed_unit_idle: "u \<in> set demoUnits \<Longrightarrow> has_unit u d \<Longrightarrow> idle (seed_unit u) d"
  using fixtures_ok(2)
  by (auto simp: list_all_iff idle_def seed_unit_def pg_text_def nothing_def has_unit_def unit_row_ok_def Let_def
      all_unit_status_def)

lemma seed_shelter_idle: "s \<in> set demoShelters \<Longrightarrow> has_shelter s d \<Longrightarrow> idle (seed_shelter s) d"
  using fixtures_ok(3)
  by (auto simp: list_all_iff idle_def seed_shelter_def pg_text_def nothing_def has_shelter_def)

lemma seed_victim_idle: "v \<in> set demoVictims \<Longrightarrow> has_victim v d \<Longrightarrow> idle (seed_victim v) d"
  using fixtures_ok(4)
  by (auto simp: list_all_iff idle_def seed_victim_def pg_text_def nothing_def has_victim_def)

lemma seed_incident_idle: "i \<in> set demoIncidents \<Longrightarrow> has_incident i d \<Longrightarrow> idle (seed_incident i) d"
  using fixtures_ok(5)
  by (auto simp: list_all_iff idle_def seed_incident_def pg_text_def nothing_def has_incident_def)

lemma map_unchanged: "(\<And>k r. (k, r) \<in> set xs \<Longrightarrow> \<not> P r) \<Longrightarrow> map (\<lambda>(k, r). if P r then (k, f r) else (k, r)) xs = xs"
  by (rule map_idI) auto

lemma bind_idle:
  "responder_bound d \<Longrightarrow> idle bind_responder d" "manager_bound d \<Longrightarrow> idle bind_manager d"
proof -
  show "idle bind_responder d" if "responder_bound d"
  proof -
    have "map (\<lambda>(k, r). if usr_email r = ''responder@crisislink.dev'' \<and> usr_unit_id r = None
        then (k, r\<lparr>usr_unit_id := x\<rparr>) else (k, r)) (users d) = users d" for x
      by (rule map_unchanged) (use that in \<open>auto simp: responder_bound_def list_all_iff\<close>)
    then show ?thesis by (simp add: idle_def bind_responder_def Let_def)
  qed
  show "idle bind_manager d" if "manager_bound d"
  proof -
    have "map (\<lambda>(k, r). if usr_email r = ''shelter@crisislink.dev'' \<and> usr_shelter_id r = None
        then (k, r\<lparr>usr_shelter_id := x\<rparr>) else (k, r)) (users d) = users d" for x
      by (rule map_unchanged) (use that in \<open>auto simp: manager_bound_def list_all_iff\<close>)
    then show ?thesis by (simp add: idle_def bind_manager_def Let_def)
  qed
qed

lemma seed_rows_idle:
  assumes "seeded (base w)" and "calm (wenv w)" and "text_ok hash"
  shows "\<exists>w'. run (seed_rows hash) w = (Inr (), w') \<and> base w' = base w \<and> wenv w' = wenv w"
proof -
  have i: "list_all (\<lambda>u. idle (seed_user hash u) (base w)) demoUsers"
    "list_all (\<lambda>u. idle (seed_unit u) (base w)) demoUnits"
    "list_all (\<lambda>u. idle (seed_shelter u) (base w)) demoShelters"
    "idle bind_responder (base w)" "idle bind_manager (base w)"
    "list_all (\<lambda>u. idle (seed_victim u) (base w)) demoVictims"
    "list_all (\<lambda>u. idle (seed_incident u) (base w)) demoIncidents"
    using assms(1,3)
    by (auto simp: seeded_def list_all_iff seed_user_idle seed_unit_idle seed_shelter_idle seed_victim_idle
        seed_incident_idle bind_idle)
  note e = seed_each_idle seed_exec_idle
  from e(1) [OF i(1) assms(2), of "\<lambda>u. ''user '' @ fst (snd u)"] obtain w1 where
    1: "run (seed_each (\<lambda>u. ''user '' @ fst (snd u)) (seed_user hash) demoUsers) w = (Inr (), w1)"
      "base w1 = base w" "wenv w1 = wenv w" by blast
  with e(1) [of seed_unit w1 demoUnits "\<lambda>u. ''unit '' @ fst u"] i(2) assms(2) obtain w2 where
    2: "run (seed_each (\<lambda>u. ''unit '' @ fst u) seed_unit demoUnits) w1 = (Inr (), w2)"
      "base w2 = base w" "wenv w2 = wenv w" by auto
  with e(1) [of seed_shelter w2 demoShelters "\<lambda>u. ''shelter '' @ fst u"] i(3) assms(2) obtain w3 where
    3: "run (seed_each (\<lambda>u. ''shelter '' @ fst u) seed_shelter demoShelters) w2 = (Inr (), w3)"
      "base w3 = base w" "wenv w3 = wenv w" by auto
  with e(2) [of bind_responder w3 "''responder binding''"] i(4) assms(2) obtain w4 where
    4: "run (seed_exec ''responder binding'' bind_responder) w3 = (Inr (), w4)"
      "base w4 = base w" "wenv w4 = wenv w" by auto
  with e(2) [of bind_manager w4 "''shelter binding''"] i(5) assms(2) obtain w5 where
    5: "run (seed_exec ''shelter binding'' bind_manager) w4 = (Inr (), w5)"
      "base w5 = base w" "wenv w5 = wenv w" by auto
  with e(1) [of seed_victim w5 demoVictims "\<lambda>u. ''victim '' @ u"] i(6) assms(2) obtain w6 where
    6: "run (seed_each (\<lambda>u. ''victim '' @ u) seed_victim demoVictims) w5 = (Inr (), w6)"
      "base w6 = base w" "wenv w6 = wenv w" by auto
  with e(1) [of seed_incident w6 demoIncidents "\<lambda>u. ''incident '' @ fst u"] i(7) assms(2) obtain w7 where
    7: "run (seed_each (\<lambda>u. ''incident '' @ fst u) seed_incident demoIncidents) w6 = (Inr (), w7)"
      "base w7 = base w" "wenv w7 = wenv w" by auto
  have "run (seed_rows hash) w = (Inr (), w7)"
    unfolding seed_rows_def by (simp only: run_bindE 1(1) 2(1) 3(1) 4(1) 5(1) 6(1) 7(1) prod.case sum.case)
  with 7(2,3) show ?thesis by blast
qed


section \<open>A first run\<close>

text \<open>What the data found must not do: hold a key that \<open>gen_random_uuid()\<close> is still to draw, or give a
  demo user's name to an account with another address.\<close>

definition seedable :: "env \<Rightarrow> nat \<Rightarrow> db \<Rightarrow> bool" where
  "seedable e n d \<longleftrightarrow> (\<forall>m\<ge>n. gen_uuid e m \<notin> keys (users d) \<union> keys (units d) \<union> keys (shelters d)
       \<union> keys (victims d) \<union> keys (incidents d))
     \<and> (\<forall>k r u. (k, r) \<in> set (users d) \<longrightarrow> u \<in> set demoUsers \<longrightarrow> usr_username r = fst u \<longrightarrow> usr_email r = fst (snd u))"

lemma seed_exec_runs:
  assumes "calm (wenv w)" and "J (pc w) (base w)"
    and "\<And>n t d. J n d \<Longrightarrow> \<exists>d' ls. f (wenv w) n t d = Inr ((), d', ls) \<and> J (Suc n) d'"
  shows "\<exists>w'. run (seed_exec what f) w = (Inr (), w') \<and> wenv w' = wenv w \<and> J (pc w') (base w')"
proof -
  from assms(3) [OF assms(2)] obtain d' ls where
    "f (wenv w) (pc w) (clock (wenv w) (pc w)) (base w) = Inr ((), d', ls)" and j: "J (Suc (pc w)) d'" by blast
  then have "run (seed_exec what f) w = (Inr (), w\<lparr>pc := Suc (pc w), base := d', view := d'\<rparr>)"
    by (simp only: seed_exec_def run_bind run_pool_stmt calm_simps [OF assms(1)] option.case sum.case prod.case
        if_False run_Done)
  with j show ?thesis by simp
qed

lemma seed_each_runs:
  assumes "calm (wenv w)" and "J (pc w) (base w)"
    and "\<And>x n t d. x \<in> set xs \<Longrightarrow> J n d \<Longrightarrow> \<exists>d' ls. f x (wenv w) n t d = Inr ((), d', ls) \<and> J (Suc n) d'"
  shows "\<exists>w'. run (seed_each what f xs) w = (Inr (), w') \<and> wenv w' = wenv w \<and> J (pc w') (base w')"
  using assms
proof (induction xs arbitrary: w)
  case (Cons x xs)
  have "\<exists>w'. run (seed_exec (what x) (f x)) w = (Inr (), w') \<and> wenv w' = wenv w \<and> J (pc w') (base w')"
    by (rule seed_exec_runs [where J = J, OF Cons.prems(1,2)]) (use Cons.prems(3) in auto)
  then obtain w1 where 1: "run (seed_exec (what x) (f x)) w = (Inr (), w1)" "wenv w1 = wenv w" "J (pc w1) (base w1)"
    by blast
  have "\<exists>w'. run (seed_each what f xs) w1 = (Inr (), w') \<and> wenv w' = wenv w1 \<and> J (pc w') (base w')"
    by (rule Cons.IH) (use Cons.prems(1,3) 1(2,3) in auto)
  with 1 show ?case by (auto simp: run_bindE)
qed simp

lemma demo_names_distinct:
  "u \<in> set demoUsers \<Longrightarrow> v \<in> set demoUsers \<Longrightarrow> fst u = fst v \<Longrightarrow> u = v"
proof -
  have "distinct (map fst demoUsers)" by (simp add: demoUsers_def)
  then show "u \<in> set demoUsers \<Longrightarrow> v \<in> set demoUsers \<Longrightarrow> fst u = fst v \<Longrightarrow> ?thesis"
    by (auto simp: distinct_map dest: inj_onD)
qed

lemma seedable_later: "seedable e n d \<Longrightarrow> seedable e (Suc n) d"
  by (simp add: seedable_def)

lemma seedable_user:
  assumes "seedable e n d" and "inj (gen_uuid e)"
    and "\<And>u. u \<in> set demoUsers \<Longrightarrow> usr_username r = fst u \<Longrightarrow> usr_email r = fst (snd u)"
  shows "seedable e (Suc n) (d\<lparr>users := ins (gen_uuid e n) r (users d)\<rparr>)"
proof -
  have "set (ins (gen_uuid e n) r (users d)) = insert (gen_uuid e n, r) (set (users d))" by (auto simp: ins_def)
  then show ?thesis using assms unfolding seedable_def by (auto dest: injD)
qed

lemma seedable_row:
  assumes "seedable e n d" and "inj (gen_uuid e)"
  shows "seedable e (Suc n) (d\<lparr>units := ins (gen_uuid e n) r1 (units d)\<rparr>)"
    and "seedable e (Suc n) (d\<lparr>shelters := ins (gen_uuid e n) r2 (shelters d)\<rparr>)"
    and "seedable e (Suc n) (d\<lparr>victims := ins (gen_uuid e n) r3 (victims d)\<rparr>)"
    and "seedable e (Suc n) (d\<lparr>incidents := ins (gen_uuid e n) r4 (incidents d)\<rparr>)"
  using assms unfolding seedable_def by (auto dest: injD)

lemma seedable_fresh:
  assumes "seedable e n d"
  shows "sel (users d) (gen_uuid e n) = None" "sel (units d) (gen_uuid e n) = None"
    "sel (shelters d) (gen_uuid e n) = None" "sel (victims d) (gen_uuid e n) = None"
    "sel (incidents d) (gen_uuid e n) = None"
  using assms by (auto simp: seedable_def sel_None_iff)

lemma seed_user_runs:
  assumes "u \<in> set demoUsers" and "text_ok hash" and "inj (gen_uuid e)" and s: "seedable e n d"
  shows "\<exists>d' ls. seed_user hash u e n t d = Inr ((), d', ls) \<and> seedable e (Suc n) d'"
proof (cases "has_user u d")
  case True
  with seed_user_idle [OF assms(1,2)] s show ?thesis unfolding idle_def using seedable_later by blast
next
  case False
  obtain name email role where u: "u = (name, email, role)" by (cases u) auto
  have ok: "text_ok name" "text_ok email" "text_ok role" "role \<in> set authz_All"
    using fixtures_ok(1) assms(1) by (auto simp: u list_all_iff)
  have f: "\<not> list_ex (\<lambda>(_, r). usr_email r = email) (users d)" using False by (simp add: has_user_def u)
  then have g: "\<not> list_ex (\<lambda>(_, r). usr_username r = name) (users d)"
    using s assms(1) by (fastforce simp: seedable_def u list_ex_iff)
  let ?r = "\<lparr>usr_username = name, usr_email = email, usr_password = hash, usr_role = role,
     usr_unit_id = None, usr_shelter_id = None, usr_created_at = t, usr_updated_at = t\<rparr>"
  have "seedable e (Suc n) (d\<lparr>users := ins (gen_uuid e n) ?r (users d)\<rparr>)"
    by (rule seedable_user [OF s assms(3)]) (use demo_names_distinct [OF _ assms(1)] in \<open>auto simp: u\<close>)
  then show ?thesis
    using ok f g seedable_fresh(1) [OF s] assms(2)
    by (simp add: seed_user_def u pg_text_def Let_def user_row_ok_def)
qed

lemma seed_unit_runs:
  assumes "u \<in> set demoUnits" and "inj (gen_uuid e)" and s: "seedable e n d"
  shows "\<exists>d' ls. seed_unit u e n t d = Inr ((), d', ls) \<and> seedable e (Suc n) d'"
proof -
  obtain sign kind lat lng where u: "u = (sign, kind, lat, lng)" by (cases u) auto
  have ok: "text_ok sign" "text_ok kind" "kind \<in> set all_unit_type" "UnitAvailable \<in> set all_unit_status"
    using fixtures_ok(2) assms(1) by (auto simp: u list_all_iff all_unit_status_def)
  show ?thesis
    using ok seedable_later [OF s] seedable_row(1) [OF s assms(2)] seedable_fresh(2) [OF s]
    by (simp add: seed_unit_def u pg_text_def nothing_def Let_def unit_row_ok_def)
qed

lemma seed_shelter_runs:
  assumes "x \<in> set demoShelters" and "inj (gen_uuid e)" and s: "seedable e n d"
  shows "\<exists>d' ls. seed_shelter x e n t d = Inr ((), d', ls) \<and> seedable e (Suc n) d'"
proof -
  obtain name capacity lat lng where x: "x = (name, capacity, lat, lng)" by (cases x) auto
  have ok: "text_ok name" "0 < capacity" "ShelterOpen \<in> set all_shelter_status"
    using fixtures_ok(3) assms(1) by (auto simp: x list_all_iff all_shelter_status_def demoShelters_def)
  show ?thesis
    using ok seedable_later [OF s] seedable_row(2) [OF s assms(2)] seedable_fresh(3) [OF s]
    by (simp add: seed_shelter_def x pg_text_def nothing_def Let_def shelter_row_ok_def)
qed

lemma seed_victim_runs:
  assumes "x \<in> set demoVictims" and "inj (gen_uuid e)" and s: "seedable e n d"
  shows "\<exists>d' ls. seed_victim x e n t d = Inr ((), d', ls) \<and> seedable e (Suc n) d'"
  using fixtures_ok(4) assms(1) seedable_later [OF s] seedable_row(3) [OF s assms(2)] seedable_fresh(4) [OF s]
  by (simp add: seed_victim_def pg_text_def nothing_def Let_def list_all_iff)

lemma seed_incident_runs:
  assumes "x \<in> set demoIncidents" and "inj (gen_uuid e)" and s: "seedable e n d" and c: "has_user (hd demoUsers) d"
  shows "\<exists>d' ls. seed_incident x e n t d = Inr ((), d', ls) \<and> seedable e (Suc n) d'"
proof -
  obtain title severity lat lng where x: "x = (title, severity, lat, lng)" by (cases x) auto
  have ok: "text_ok title" "text_ok severity" "severity \<in> set all_severity" "StatusReported \<in> set all_incident_status"
    using fixtures_ok(5) assms(1)
    by (auto simp: x list_all_iff all_incident_status_def demoIncidents_def all_severity_def severity_defs)
  have "\<exists>y. find (\<lambda>(k, r). usr_email r = ''citizen@crisislink.dev'') (users d) = Some y"
    using has_find [of "\<lambda>r. usr_email r = ''citizen@crisislink.dev''" "users d"] c
    by (auto simp: has_user_def demoUsers_def)
  then obtain k r where f: "find (\<lambda>(k, r). usr_email r = ''citizen@crisislink.dev'') (users d) = Some (k, r)" by auto
  show ?thesis
    using ok seedable_later [OF s] seedable_row(4) [OF s assms(2)] seedable_fresh(5) [OF s]
    by (simp add: seed_incident_def x f pg_text_def nothing_def Let_def incident_row_ok_def del: find.simps)
qed

lemma seedable_bind:
  assumes "seedable e n d"
  shows "\<exists>d' ls. bind_responder e n t d = Inr ((), d', ls) \<and> seedable e (Suc n) d'"
    and "\<exists>d' ls. bind_manager e n t d = Inr ((), d', ls) \<and> seedable e (Suc n) d'"
proof -
  have "seedable e (Suc n) (d\<lparr>users := map (\<lambda>(k, r). if P r then (k, r\<lparr>usr_unit_id := x\<rparr>) else (k, r)) (users d)\<rparr>)"
    and "seedable e (Suc n) (d\<lparr>users := map (\<lambda>(k, r). if P r then (k, r\<lparr>usr_shelter_id := x\<rparr>) else (k, r)) (users d)\<rparr>)"
    for P x
  proof -
    have k: "keys (map (\<lambda>(k, r). if P r then (k, f r) else (k, r)) t) = keys t" for f and t :: "(uuid, user_row) table"
      by (induction t) (auto simp: keys_def)
    show "seedable e (Suc n) (d\<lparr>users := map (\<lambda>(k, r). if P r then (k, r\<lparr>usr_unit_id := x\<rparr>) else (k, r)) (users d)\<rparr>)"
      using assms by (auto simp: seedable_def k split: if_splits) (metis fst_conv snd_conv prod.exhaust_sel)+
    show "seedable e (Suc n) (d\<lparr>users := map (\<lambda>(k, r). if P r then (k, r\<lparr>usr_shelter_id := x\<rparr>) else (k, r)) (users d)\<rparr>)"
      using assms by (auto simp: seedable_def k split: if_splits) (metis fst_conv snd_conv prod.exhaust_sel)+
  qed
  then show "\<exists>d' ls. bind_responder e n t d = Inr ((), d', ls) \<and> seedable e (Suc n) d'"
    and "\<exists>d' ls. bind_manager e n t d = Inr ((), d', ls) \<and> seedable e (Suc n) d'"
    by (simp_all add: bind_responder_def bind_manager_def Let_def)
qed


lemma seed_rows_runs:
  assumes c: "calm (wenv w)" and i: "inj (gen_uuid (wenv w))" and s: "seedable (wenv w) (pc w) (base w)"
    and h: "text_ok hash"
  shows "\<exists>w'. run (seed_rows hash) w = (Inr (), w')"
proof -
  let ?e = "wenv w"
  let ?J = "seedable ?e"
  let ?K = "\<lambda>n d. seedable ?e n d \<and> has_user (hd demoUsers) d"
  obtain w1 where 1: "run (seed_each (\<lambda>u. ''user '' @ fst (snd u)) (seed_user hash) demoUsers) w = (Inr (), w1)"
      "wenv w1 = ?e" "?J (pc w1) (base w1)"
    using seed_each_runs [where J = ?J, OF c s, of demoUsers "seed_user hash"] seed_user_runs [OF _ h i] by blast
  obtain w2 where 2: "run (seed_each (\<lambda>u. ''unit '' @ fst u) seed_unit demoUnits) w1 = (Inr (), w2)"
      "wenv w2 = ?e" "?J (pc w2) (base w2)"
    using seed_each_runs [where J = ?J and w = w1 and xs = demoUnits and f = seed_unit, unfolded 1(2), OF c 1(3)]
      seed_unit_runs [OF _ i] by blast
  obtain w3 where 3: "run (seed_each (\<lambda>u. ''shelter '' @ fst u) seed_shelter demoShelters) w2 = (Inr (), w3)"
      "wenv w3 = ?e" "?J (pc w3) (base w3)"
    using seed_each_runs [where J = ?J and w = w2 and xs = demoShelters and f = seed_shelter, unfolded 2(2), OF c 2(3)]
      seed_shelter_runs [OF _ i] by blast
  obtain w4 where 4: "run (seed_exec ''responder binding'' bind_responder) w3 = (Inr (), w4)"
      "wenv w4 = ?e" "?J (pc w4) (base w4)"
    using seed_exec_runs [where J = ?J and w = w3 and f = bind_responder, unfolded 3(2), OF c 3(3)]
      seedable_bind(1) by blast
  obtain w5 where 5: "run (seed_exec ''shelter binding'' bind_manager) w4 = (Inr (), w5)"
      "wenv w5 = ?e" "?J (pc w5) (base w5)"
    using seed_exec_runs [where J = ?J and w = w4 and f = bind_manager, unfolded 4(2), OF c 4(3)]
      seedable_bind(2) by blast
  have "accounts_and_fleet (base w5)"
    using bindings_seeded [OF accounts_and_fleet_seeded [OF 1(1) 2(1) 3(1)] 4(1) 5(1)] by blast
  then have "?K (pc w5) (base w5)" using 5(3) by (simp add: accounts_and_fleet_def demoUsers_def)
  moreover have "\<exists>d' ls. seed_victim x ?e n t d = Inr ((), d', ls) \<and> ?K (Suc n) d'"
    if "x \<in> set demoVictims" "?K n d" for x n t d
  proof -
    from seed_victim_runs [OF that(1) i] that(2) obtain d' ls where
      v: "seed_victim x ?e n t d = Inr ((), d', ls)" "?J (Suc n) d'" by blast
    from seed_victim_Inr [OF v(1)] have "users d' = users d" by auto
    with v that(2) show ?thesis by (auto simp: has_user_def)
  qed
  ultimately obtain w6 where 6: "run (seed_each (\<lambda>u. ''victim '' @ u) seed_victim demoVictims) w5 = (Inr (), w6)"
      "wenv w6 = ?e" "?K (pc w6) (base w6)"
    using seed_each_runs [where J = ?K and w = w5 and xs = demoVictims and f = seed_victim, unfolded 5(2), OF c] by blast
  have "\<exists>d' ls. seed_incident x ?e n t d = Inr ((), d', ls) \<and> ?K (Suc n) d'"
    if "x \<in> set demoIncidents" "?K n d" for x n t d
  proof -
    from seed_incident_runs [OF that(1) i] that(2) obtain d' ls where
      v: "seed_incident x ?e n t d = Inr ((), d', ls)" "?J (Suc n) d'" by blast
    from seed_incident_Inr [OF v(1)] have "users d' = users d" by auto
    with v that(2) show ?thesis by (auto simp: has_user_def)
  qed
  with 6(3) obtain w7 where
    7: "run (seed_each (\<lambda>u. ''incident '' @ fst u) seed_incident demoIncidents) w6 = (Inr (), w7)"
    using seed_each_runs [where J = ?K and w = w6 and xs = demoIncidents and f = seed_incident, unfolded 6(2), OF c]
    by blast
  have "run (seed_rows hash) w = (Inr (), w7)"
    unfolding seed_rows_def by (simp only: run_bindE 1(1) 2(1) 3(1) 4(1) 5(1) 6(1) 7 prod.case sum.case)
  then show ?thesis by blast
qed

definition bcrypt_seeds :: "bcrypt_lib \<Rightarrow> bool" where
  "bcrypt_seeds B \<longleftrightarrow> (\<forall>n. \<exists>h. bcrypt_GenerateFromPassword B n DemoPassword bcrypt_DefaultCost = Inr h \<and> text_ok h)"

lemma run_seed_Run:
  assumes "bcrypt_seeds B"
  shows "\<exists>hash. text_ok hash \<and> run (seed_Run B) w = run (seed_rows hash) (w\<lparr>looks := Suc (looks w)\<rparr>)"
proof -
  from assms obtain h where "bcrypt_GenerateFromPassword B (looks w) DemoPassword bcrypt_DefaultCost = Inr h" "text_ok h"
    unfolding bcrypt_seeds_def by blast
  then show ?thesis by (auto simp: seed_Run_def run_bind run_HashPassword)
qed

text \<open>C40: the demo seed is safe to run on every boot: over any database that no account squats a demo
  user's name in, with no fault, the first run succeeds and leaves every demo account, unit,
  shelter, victim and incident in place and both ownership bindings made; and any later run over
  data that is still so succeeds and changes nothing.\<close>

theorem seed_safe_on_every_boot:
  assumes "bcrypt_seeds B" and "calm (wenv w)" and "inj (gen_uuid (wenv w))"
    and "seedable (wenv w) (pc w) (base w)"
  shows "\<exists>w'. run (seed_Run B) w = (Inr (), w') \<and> seeded (base w')
    \<and> (\<forall>v. base v = base w' \<longrightarrow> calm (wenv v) \<longrightarrow> (\<exists>v'. run (seed_Run B) v = (Inr (), v') \<and> base v' = base v))"
proof -
  from run_seed_Run [OF assms(1)] obtain hash where
    h: "text_ok hash" "run (seed_Run B) w = run (seed_rows hash) (w\<lparr>looks := Suc (looks w)\<rparr>)" by blast
  have "calm (wenv (w\<lparr>looks := Suc (looks w)\<rparr>))" "inj (gen_uuid (wenv (w\<lparr>looks := Suc (looks w)\<rparr>)))"
    "seedable (wenv (w\<lparr>looks := Suc (looks w)\<rparr>)) (pc (w\<lparr>looks := Suc (looks w)\<rparr>)) (base (w\<lparr>looks := Suc (looks w)\<rparr>))"
    using assms(2-4) by simp_all
  from seed_rows_runs [OF this h(1)] obtain w' where
    r: "run (seed_rows hash) (w\<lparr>looks := Suc (looks w)\<rparr>) = (Inr (), w')" by blast
  note s = seed_rows_seeded [OF r]
  note r = r [folded h(2)]
  have "\<exists>v'. run (seed_Run B) v = (Inr (), v') \<and> base v' = base v" if "base v = base w'" "calm (wenv v)" for v
  proof -
    from run_seed_Run [OF assms(1)] obtain hash' where
      h': "text_ok hash'" "run (seed_Run B) v = run (seed_rows hash') (v\<lparr>looks := Suc (looks v)\<rparr>)" by blast
    have "seeded (base (v\<lparr>looks := Suc (looks v)\<rparr>))" "calm (wenv (v\<lparr>looks := Suc (looks v)\<rparr>))"
      using s that by simp_all
    from seed_rows_idle [OF this h'(1)] obtain v' where
      "run (seed_Run B) v = (Inr (), v')" "base v' = base v" unfolding h'(2) by auto
    then show ?thesis by blast
  qed
  with r s show ?thesis by blast
qed

lemma seed_safe_on_every_boot_witness:
  "\<exists>w'. run (seed_Run sample_bcrypt) (start_auth empty_db) = (Inr (), w') \<and> seeded (base w')"
proof -
  have t: "text_ok (''$2a$'' @ DemoPassword)" unfolding DemoPassword_def by code_simp
  have "length DemoPassword \<le> 72" by (simp add: DemoPassword_def)
  then have "bcrypt_GenerateFromPassword sample_bcrypt n DemoPassword bcrypt_DefaultCost = Inr (''$2a$'' @ DemoPassword)" for n
    unfolding sample_bcrypt_def by simp
  with t have "bcrypt_seeds sample_bcrypt" unfolding bcrypt_seeds_def by blast
  moreover have "inj (gen_uuid sample_env)"
    by (auto simp: inj_def)
  moreover have "seedable sample_env 0 empty_db" by (simp add: seedable_def empty_db_def keys_def)
  ultimately show ?thesis
    using seed_safe_on_every_boot [of sample_bcrypt "start_auth empty_db"] by auto
qed


text \<open>The binding is not conditioned on the role: an account demoted since gets its unit back.\<close>

lemma reseed_binds_demoted:
  assumes "(k, r) \<in> set (users d)" and "usr_email r = ''responder@crisislink.dev''" and "usr_unit_id r = None"
    and "has_unit (hd demoUnits) d" and "usr_role r \<noteq> RoleResponder"
  shows "\<exists>d' ls r'. bind_responder e n t d = Inr ((), d', ls) \<and> (k, r') \<in> set (users d')
    \<and> usr_role r' = usr_role r \<and> \<not> user_typed d' r'"
proof -
  obtain un where un: "map_option fst (find (\<lambda>(k, r). u_call_sign r = ''DEMO-AMB-1'') (units d)) = Some un"
    using has_find [of "\<lambda>r. u_call_sign r = ''DEMO-AMB-1''" "units d"] assms(4)
    by (auto simp: has_unit_def demoUnits_def)
  have "(k, r\<lparr>usr_unit_id := Some un\<rparr>) \<in> set (map (\<lambda>(k, r). if usr_email r = ''responder@crisislink.dev''
      \<and> usr_unit_id r = None then (k, r\<lparr>usr_unit_id := Some un\<rparr>) else (k, r)) (users d))"
    using assms(1-3) by force
  then obtain d' ls where "bind_responder e n t d = Inr ((), d', ls)"
    "(k, r\<lparr>usr_unit_id := Some un\<rparr>) \<in> set (users d')"
    by (simp add: bind_responder_def un del: set_map)
  moreover have "\<not> user_typed d' (r\<lparr>usr_unit_id := Some un\<rparr>)"
    using assms(5) by (simp add: user_typed_def)
  ultimately show ?thesis by fastforce
qed


end
