(* ===== verification/Monitors.thy ===== *)
theory Monitors
  imports Relay
begin

text \<open>
  The background loops: the relay's ticker (\<^verbatim>\<open>relay/relay.go\<close>), the outbox backlog gauges
  (\<^verbatim>\<open>outbox/lagmonitor.go\<close>) and the live-fleet gauge (\<^verbatim>\<open>presence/monitor.go\<close>). A loop is run for the
  number of ticks that come before its context is cancelled.
\<close>

section \<open>Gauges\<close>

record gauges =
  PresenceLive :: int
  OutboxPending :: int
  OutboxDead :: int

definition OutboxRepository_DeadCount :: "('m, nat) tx" where
  "OutboxRepository_DeadCount =
     pool_stmt (reading (\<lambda>e d. Inr (count_rows (\<lambda>r. o_dead_at r \<noteq> None) (outbox_events d))))"

text \<open>A poll that fails half way keeps the gauge it has already set.\<close>

definition MonitorLag_poll :: "gauges \<Rightarrow> ('m world_scheme, gauges) script" where
  "MonitorLag_poll g = bind OutboxRepository_PendingCount (\<lambda>res. case res of
     Inl err \<Rightarrow> Done g
   | Inr backlog \<Rightarrow> let g1 = g\<lparr>OutboxPending := int backlog\<rparr> in
       bind OutboxRepository_DeadCount (\<lambda>res. case res of
         Inl err \<Rightarrow> Done g1
       | Inr dead \<Rightarrow> Done (g1\<lparr>OutboxDead := int dead\<rparr>)))"

fun MonitorLag :: "nat \<Rightarrow> gauges \<Rightarrow> ('m world_scheme, gauges) script" where
  "MonitorLag 0 g = MonitorLag_poll g"
| "MonitorLag (Suc ticks) g = bind (MonitorLag_poll g) (MonitorLag ticks)"

text \<open>\<open>SCAN\<close> at call \<open>n\<close> from a cursor: some keys and the next cursor, zero after a full pass, or an
  error, which is what every call answers once the poll's deadline has passed.\<close>

type_synonym scanner = "nat \<Rightarrow> nat \<Rightarrow> go_error + (string list \<times> nat)"

fun fleet_scan :: "nat \<Rightarrow> scanner \<Rightarrow> nat \<Rightarrow> nat \<Rightarrow> int \<Rightarrow> (go_error + int) option" where
  "fleet_scan 0 scan n cursor acc = None"
| "fleet_scan (Suc fuel) scan n cursor acc = (case scan n cursor of
     Inl err \<Rightarrow> Some (Inl err)
   | Inr (ks, next_cursor) \<Rightarrow>
       if next_cursor = 0 then Some (Inr (acc + int (length ks)))
       else fleet_scan fuel scan (Suc n) next_cursor (acc + int (length ks)))"

definition MonitorFleet_poll :: "nat \<Rightarrow> scanner \<Rightarrow> gauges \<Rightarrow> gauges option" where
  "MonitorFleet_poll fuel scan g = map_option (\<lambda>r. case r of
     Inl err \<Rightarrow> g | Inr n \<Rightarrow> g\<lparr>PresenceLive := n\<rparr>) (fleet_scan fuel scan 0 0 0)"

text \<open>The first poll comes before the first tick; each has a scanner, and a deadline, of its own.\<close>

fun MonitorFleet :: "nat \<Rightarrow> scanner list \<Rightarrow> gauges \<Rightarrow> gauges option" where
  "MonitorFleet fuel [] g = Some g"
| "MonitorFleet fuel (scan # scans) g = Option.bind (MonitorFleet_poll fuel scan g) (MonitorFleet fuel scans)"

section \<open>The relay's loop\<close>

text \<open>\<open>None\<close> when a drain outlasts its fuel, otherwise the number of batches of all ticks.\<close>

fun Relay_Run :: "nat \<Rightarrow> int \<Rightarrow> nat \<Rightarrow> ('a kafka_ext world_scheme, nat option) script" where
  "Relay_Run fuel batch 0 = Done (Some 0)"
| "Relay_Run fuel batch (Suc ticks) = bind (Relay_drain fuel batch) (\<lambda>n. case n of
     None \<Rightarrow> Done None
   | Some k \<Rightarrow> bind (Relay_Run fuel batch ticks) (\<lambda>m. Done (map_option ((+) k) m)))"

section \<open>What they report\<close>

lemma run_MonitorLag_poll:
  assumes "calm (wenv w)"
  shows "\<exists>w'. run (MonitorLag_poll g) w =
      (g\<lparr>OutboxPending := int (count_rows pending (outbox_events (base w))),
         OutboxDead := int (count_rows (\<lambda>r. o_dead_at r \<noteq> None) (outbox_events (base w)))\<rparr>, w')
    \<and> base w' = base w \<and> wenv w' = wenv w"
  using assms by (simp add: MonitorLag_poll_def OutboxRepository_PendingCount_def OutboxRepository_DeadCount_def
      run_bind run_pool_stmt reading_def Let_def)

text \<open>Whatever fails, a poll only reads, and a gauge is either left alone or set to the true count.\<close>

lemma MonitorLag_poll_truthful:
  assumes "run (MonitorLag_poll g) w = (g', w')"
  shows "base w' = base w \<and> PresenceLive g' = PresenceLive g
    \<and> (OutboxPending g' = OutboxPending g \<or> OutboxPending g' = int (count_rows pending (outbox_events (base w))))
    \<and> (OutboxDead g' = OutboxDead g
        \<or> OutboxDead g' = int (count_rows (\<lambda>r. o_dead_at r \<noteq> None) (outbox_events (base w))))"
  using assms
  by (auto simp: MonitorLag_poll_def OutboxRepository_PendingCount_def OutboxRepository_DeadCount_def
      run_bind run_pool_stmt reading_def Let_def split: option.splits sum.splits if_splits)

text \<open>The scan ends: at the latest when the deadline has passed.\<close>

lemma fleet_scan_ends:
  "(\<And>m c. N \<le> m \<Longrightarrow> \<exists>err. scan m c = Inl err) \<Longrightarrow> N - n < fuel \<Longrightarrow> fleet_scan fuel scan n cursor acc \<noteq> None"
proof (induction fuel arbitrary: n cursor acc)
  case (Suc fuel)
  show ?case
  proof (cases "N \<le> n")
    case True
    then obtain err where "scan n cursor = Inl err" using Suc.prems(1) by blast
    then show ?thesis by simp
  next
    case False
    then have "N - Suc n < fuel" using Suc.prems(2) by linarith
    with Suc.IH [OF Suc.prems(1)] show ?thesis by (auto split: sum.split prod.split)
  qed
qed simp

text \<open>\<open>seen scan n cursor ks\<close>: a full pass from there returns the keys \<open>ks\<close>, some perhaps twice.\<close>

inductive seen :: "scanner \<Rightarrow> nat \<Rightarrow> nat \<Rightarrow> string list \<Rightarrow> bool" for scan where
  last_reply: "scan n c = Inr (ks, 0) \<Longrightarrow> seen scan n c ks"
| next_reply: "scan n c = Inr (ks, c') \<Longrightarrow> c' \<noteq> 0 \<Longrightarrow> seen scan (Suc n) c' rest \<Longrightarrow> seen scan n c (ks @ rest)"

lemma fleet_scan_seen: "fleet_scan fuel scan n c acc = Some (Inr x) \<Longrightarrow> \<exists>ks. seen scan n c ks \<and> x = acc + int (length ks)"
proof (induction fuel arbitrary: n c acc)
  case (Suc fuel)
  from Suc.prems obtain ks c' where r: "scan n c = Inr (ks, c')" by (auto split: sum.splits)
  show ?case
  proof (cases "c' = 0")
    case True
    with r Suc.prems have "x = acc + int (length ks)" by simp
    with seen.last_reply [of scan n c ks] r True show ?thesis by auto
  next
    case False
    with r Suc.prems have "fleet_scan fuel scan (Suc n) c' (acc + int (length ks)) = Some (Inr x)" by simp
    from Suc.IH [OF this] obtain rest where
      "seen scan (Suc n) c' rest" "x = acc + int (length ks) + int (length rest)" by blast
    with seen.next_reply [of scan n c ks c' rest] r False show ?thesis by fastforce
  qed
qed simp

lemma MonitorFleet_poll_counts:
  assumes "MonitorFleet_poll fuel scan g = Some g'" and "\<And>ks. seen scan 0 0 ks \<Longrightarrow> S \<subseteq> set ks"
  shows "g' = g \<or> int (card S) \<le> PresenceLive g'"
proof -
  from assms(1) obtain r where r: "fleet_scan fuel scan 0 0 0 = Some r"
    and g': "g' = (case r of Inl err \<Rightarrow> g | Inr n \<Rightarrow> g\<lparr>PresenceLive := n\<rparr>)"
    by (auto simp: MonitorFleet_poll_def)
  show ?thesis
  proof (cases r)
    case (Inr x)
    with fleet_scan_seen [of fuel scan 0 0 0 x] r obtain ks where "seen scan 0 0 ks" "x = int (length ks)" by auto
    moreover have "card S \<le> length ks"
      using assms(2) [OF \<open>seen scan 0 0 ks\<close>] card_mono [of "set ks" S] card_length [of ks] by auto
    ultimately show ?thesis by (simp add: g' Inr)
  qed (simp add: g')
qed

section \<open>The relay over many ticks\<close>

lemma drain_budget:
  assumes "0 < batch" and "outbox_inv (outbox_events (base w))" and "budget (outbox_events (base w)) div batch < int fuel"
  shows "\<exists>k w'. run (Relay_drain fuel batch) w = (Some k, w') \<and> outbox_inv (outbox_events (base w'))
    \<and> budget (outbox_events (base w')) + (int k - 1) * batch \<le> budget (outbox_events (base w))"
  using assms(2,3)
proof (induction fuel arbitrary: w)
  case 0
  then show ?case using budget_nonneg [OF 0(1)] assms(1) by (simp add: pos_imp_zdiv_neg_iff)
next
  case (Suc fuel)
  let ?b = "\<lambda>w :: 'a kafka_ext world_scheme. budget (outbox_events (base w))"
  obtain r w1 where r: "run (OutboxRepository_PublishBatch batch Relay_publish) w = (r, w1)"
    by (cases "run (OutboxRepository_PublishBatch batch Relay_publish) w")
  note inv = batch_inv [OF r Suc.prems(1)]
  have le: "?b w1 \<le> ?b w"
    using r by (cases rule: PublishBatch_cases) (use budget_drops [OF _ Suc.prems(1)] in fastforce)+
  show ?case
  proof (cases "\<exists>res. r = Inr res \<and> \<not> int (pr_Claimed res) < batch")
    case False
    with r inv le show ?thesis by (auto simp: run_bind split: sum.splits)
  next
    case True
    then obtain res where res: "r = Inr res" "batch \<le> int (pr_Claimed res)" by auto
    from r obtain eos where e: "batch_effect batch w w1 eos" "pr_Claimed res = length (claimed_by batch w)"
      by (cases rule: PublishBatch_cases) (use res in auto)
    from budget_drops [OF e(1) Suc.prems(1)] e res have b: "?b w1 + batch \<le> ?b w" by simp
    then have "?b w1 div batch \<le> (?b w + -1 * batch) div batch" using assms(1) by (intro zdiv_mono1) auto
    also have "\<dots> = ?b w div batch - 1" using assms(1) div_mult_self1 [of batch "?b w" "-1"] by simp
    finally have "?b w1 div batch < int fuel" using Suc.prems(2) by simp
    from Suc.IH [OF inv this] obtain k w' where k: "run (Relay_drain fuel batch) w1 = (Some k, w')"
      "outbox_inv (outbox_events (base w'))" "?b w' + (int k - 1) * batch \<le> ?b w1" by blast
    with r res b show ?thesis
      by (intro exI [of _ "Suc k"] exI [of _ w']) (simp add: run_bind algebra_simps)
  qed
qed




end
