(* ===== verification/Rate_Limit.thy ===== *)
theory Rate_Limit
  imports Middleware
begin

text \<open>
  The rate limiter (\<^verbatim>\<open>platform/middleware/ratelimit_redis.go\<close>): a token bucket kept in Redis by a Lua
  script, computed in doubles, and the middleware around it, which lets requests through when Redis
  does not answer. Redis passes Lua numbers as text of 17 significant digits, so a double that is
  stored and read again is the same double.
\<close>

section \<open>The script\<close>

definition lua_max :: "float64 \<Rightarrow> float64 \<Rightarrow> float64" where
  "lua_max a b = (if f_gt b a then b else a)"

definition lua_min :: "float64 \<Rightarrow> float64 \<Rightarrow> float64" where
  "lua_min a b = (if f_lt b a then b else a)"

text \<open>A Lua number as a Redis integer reply, and as the text of an integer argument.\<close>

definition lua_to_int :: "float64 \<Rightarrow> int" where
  "lua_to_int x = (case x of Fin r \<Rightarrow> \<lfloor>r\<rfloor> | _ \<Rightarrow> - (2 ^ 63))"

text \<open>Refill for the time elapsed, up to the capacity, then take what is requested if it is there: 1 or
  0 for whether it was, and the tokens left.\<close>

definition take_tokens :: "float64 \<Rightarrow> float64 \<Rightarrow> float64 \<Rightarrow> float64 \<Rightarrow> (float64 \<times> float64) option
    \<Rightarrow> int \<times> float64" where
  "take_tokens rate capacity now requested bucket =
     (let (tokens, ts) = (case bucket of None \<Rightarrow> (capacity, now) | Some b \<Rightarrow> b);
          elapsed = lua_max (Fin 0) (f_sub now ts);
          tokens1 = lua_min capacity (f_add tokens (f_mul elapsed rate))
      in if f_le requested tokens1 then (1, f_sub tokens1 requested) else (0, tokens1))"

text \<open>A Redis hash: its tokens and time stamp, and the moment it expires, if any.\<close>

type_synonym bucket = "(float64 \<times> float64) \<times> time option"

definition live_bucket :: "time \<Rightarrow> bucket option \<Rightarrow> bucket option" where
  "live_bucket t b = (case b of Some (x, Some dl) \<Rightarrow> if t \<le> dl then b else None | _ \<Rightarrow> b)"

definition tokenBucketScript :: "float64 \<Rightarrow> float64 \<Rightarrow> float64 \<Rightarrow> float64 \<Rightarrow> time \<Rightarrow> bucket option
    \<Rightarrow> (go_error + (int \<times> int)) \<times> bucket option" where
  "tokenBucketScript rate capacity now requested t stored =
     (let b = live_bucket t stored;
          (allowed, tokens) = take_tokens rate capacity now requested (map_option fst b);
          answer = Inr (allowed, lua_to_int tokens)
      in case f_div capacity rate of
           Fin x \<Rightarrow> if \<lceil>x\<rceil> + 1 \<le> 0 then (answer, None)
             else (answer, Some ((tokens, now), Some (t + seconds (\<lceil>x\<rceil> + 1))))
         | _ \<Rightarrow> (Inl (Other ''ERR value is not an integer or out of range''),
                 Some ((tokens, now), case b of Some (_, dl) \<Rightarrow> dl | None \<Rightarrow> None)))"

section \<open>The middleware\<close>

text \<open>The state the edge process adds to a context: Redis's buckets and the calls made so far.\<close>

record limited_ctx = ctx +
  ex_buckets :: "string \<Rightarrow> bucket option"
  ex_calls :: nat

text \<open>What surrounds the limiter: which calls are refused or never answered, Redis's clock and the
  process's clock at call \<open>n\<close>, and gin's notion of a client's address.\<close>

record limiter_env =
  le_refuses :: "nat \<Rightarrow> bool"
  le_mute :: "nat \<Rightarrow> bool"
  le_rclock :: "nat \<Rightarrow> time"
  le_UnixNano :: "nat \<Rightarrow> int"
  le_ClientIP :: "request \<Rightarrow> string"

record RedisRateLimiterConfig =
  rl_RequestsPerSecond :: float64
  rl_BurstSize :: int

definition now_seconds :: "int \<Rightarrow> float64" where
  "now_seconds nanos = f_div (f_of_int nanos) (Fin 1000000000)"

definition script_Run :: "limiter_env \<Rightarrow> RedisRateLimiterConfig \<Rightarrow> string \<Rightarrow> float64 \<Rightarrow> 'x limited_ctx_scheme
    \<Rightarrow> (go_error + (int \<times> int)) \<times> 'x limited_ctx_scheme" where
  "script_Run en cfg key now c =
     (let n = ex_calls c; c1 = c\<lparr>ex_calls := Suc n\<rparr>
      in if le_refuses en n then (Inl (Other ''redis: refused''), c1)
         else let (answer, b) = tokenBucketScript (rl_RequestsPerSecond cfg) (f_of_int (rl_BurstSize cfg)) now
                    (Fin 1) (le_rclock en n) (ex_buckets c key)
              in (if le_mute en n then Inl (Other ''redis: no answer'') else answer,
                  c1\<lparr>ex_buckets := (ex_buckets c)(key := b)\<rparr>))"

definition RedisRateLimiter :: "limiter_env \<Rightarrow> RedisRateLimiterConfig
    \<Rightarrow> ('x limited_ctx_ext, 'd) middleware" where
  "RedisRateLimiter en cfg k c =
     (let key = ''ratelimit:'' @ le_ClientIP en (cx_Request c);
          now = now_seconds (le_UnixNano en (ex_calls c))
      in case script_Run en cfg key now c of
           (Inl err, c1) \<Rightarrow> k c1
         | (Inr (allowed, remaining), c1) \<Rightarrow>
             let c2 = c_Header ''X-RateLimit-Remaining'' (strconv_Itoa remaining)
                        (c_Header ''X-RateLimit-Limit'' (strconv_Itoa (rl_BurstSize cfg)) c1)
             in if allowed = 0
                then Wrote (JSON (common_Error 429 ''rate limit exceeded'' ''RATE_LIMITED''))
                       (c_Header ''Retry-After''
                          (strconv_Itoa (trunc64 (f_div (Fin 1) (rl_RequestsPerSecond cfg)) + 1)) c2)
                else k c2)"

text \<open>The configuration the gateway installs.\<close>

definition gateway_limit :: RedisRateLimiterConfig where
  "gateway_limit = \<lparr>rl_RequestsPerSecond = Fin 10, rl_BurstSize = 20\<rparr>"

section \<open>Exactness of the arithmetic\<close>

text \<open>From 2004 to 2106 a time stamp in seconds is a multiple of \<open>2\<close> to the power \<open>-22\<close>, and so are the
  tokens; sums that matter are below \<open>2\<close> to the power 30, where such numbers are exact.\<close>

definition grid :: "real \<Rightarrow> bool" where
  "grid x \<longleftrightarrow> (\<exists>m :: int. x = real_of_int m * 2 powi (-22))"

lemma grid_of_int [simp]: "grid (real_of_int n)"
  unfolding grid_def by (rule exI [of _ "n * 2 ^ 22"]) (simp add: power_int_def power_one_over)

lemma grid_numeral [simp]: "grid (numeral n)" "grid 0" "grid 1"
  using grid_of_int [of "numeral n"] grid_of_int [of 0] grid_of_int [of 1] by simp_all

lemma grid_add: "grid x \<Longrightarrow> grid y \<Longrightarrow> grid (x + y)"
  unfolding grid_def by (metis distrib_right of_int_add)

lemma grid_diff: "grid x \<Longrightarrow> grid y \<Longrightarrow> grid (x - y)"
  unfolding grid_def by (metis left_diff_distrib of_int_diff)

lemma grid_mult10: "grid x \<Longrightarrow> grid (x * 10)"
proof -
  assume "grid x"
  then obtain m where "x = real_of_int m * 2 powi (-22)" by (auto simp: grid_def)
  then have "x * 10 = real_of_int (m * 10) * 2 powi (-22)" by simp
  then show ?thesis unfolding grid_def by blast
qed

lemma rnd_grid: "grid x \<Longrightarrow> \<bar>x\<bar> < 2 ^ 30 \<Longrightarrow> rnd x = x"
proof -
  assume g: "grid x" and b: "\<bar>x\<bar> < 2 ^ 30"
  from g obtain m where m: "x = real_of_int m * 2 powi (-22)" by (auto simp: grid_def)
  show ?thesis
  proof (cases "x = 0")
    case False
    have "(2::real) powi \<lfloor>log 2 \<bar>x\<bar>\<rfloor> \<le> \<bar>x\<bar>" using powi_log [of "\<bar>x\<bar>", THEN iffD1, OF _ refl] False by simp
    with b have "(2::real) powi \<lfloor>log 2 \<bar>x\<bar>\<rfloor> < 2 powi 30" by (simp add: power_int_def)
    then have "\<lfloor>log 2 \<bar>x\<bar>\<rfloor> < 30" by (rule powi_less)
    then have "ulp_exp x \<le> -22" by (simp add: ulp_exp_def)
    with m show ?thesis by (rule rnd_multiple)
  qed simp
qed

lemma grid_rnd: "2 ^ 30 \<le> x \<Longrightarrow> grid (rnd x)"
proof -
  assume x: "2 ^ 30 \<le> x"
  then have "0 < x" by (meson less_le_trans zero_less_numeral zero_less_power)
  moreover have "2 powi 30 \<le> x" using x by (simp add: power_int_def)
  ultimately have "ulp_exp (2 powi 30) \<le> ulp_exp x" by (intro ulp_exp_mono) (simp_all only: powi_pos)
  then have u: "-22 \<le> ulp_exp x" unfolding ulp_exp_powi by simp
  have "rnd x = real_of_int (rne (x / 2 powi ulp_exp x) * 2 ^ nat (ulp_exp x - (-22))) * 2 powi (-22)"
    unfolding rnd_def using powi_split [OF u] by simp
  then show ?thesis unfolding grid_def by blast
qed

text \<open>The reading of the process's clock, as a real number of seconds.\<close>

definition now_real :: "int \<Rightarrow> real" where
  "now_real nanos = rnd (rnd (real_of_int nanos) / 1000000000)"

definition this_century :: "int \<Rightarrow> bool" where
  "this_century nanos \<longleftrightarrow> 2 ^ 30 * 1000000000 \<le> nanos \<and> nanos \<le> 2 ^ 32 * 1000000000"

lemma now_seconds_real:
  assumes "this_century nanos"
  shows "now_seconds nanos = Fin (now_real nanos) \<and> grid (now_real nanos)
    \<and> 2 ^ 30 \<le> now_real nanos \<and> now_real nanos \<le> 2 ^ 32"
proof -
  have ex: "rnd (2 powi k * 1000000000) = 2 powi k * 1000000000" if "0 \<le> k" "k \<le> 32" for k :: int
  proof -
    have "2 powi k * 1000000000 = real_of_int 1953125 * 2 powi (k + 9)"
      by (simp add: power_int_add)
    moreover have "ulp_exp (2 powi k * 1000000000) \<le> ulp_exp (2 powi (k + 30))"
      by (intro ulp_exp_mono) (simp_all add: power_int_add)
    ultimately show ?thesis using that by (intro rnd_multiple [of _ 1953125 "k + 9"]) (simp_all add: ulp_exp_powi)
  qed
  have n: "real_of_int (2 ^ 30 * 1000000000) \<le> real_of_int nanos" "real_of_int nanos \<le> real_of_int (2 ^ 32 * 1000000000)"
    using assms by (simp_all only: this_century_def of_int_le_iff)
  have lo: "2 powi 30 * 1000000000 \<le> rnd (real_of_int nanos)"
    using rnd_mono [of "2 powi 30 * 1000000000" "real_of_int nanos"] ex [of 30] n(1) by (simp add: power_int_def)
  have hi: "rnd (real_of_int nanos) \<le> 2 powi 32 * 1000000000"
    using rnd_mono [of "real_of_int nanos" "2 powi 32 * 1000000000"] ex [of 32] n(2) by (simp add: power_int_def)
  have q: "2 powi 30 \<le> rnd (real_of_int nanos) / 1000000000" "rnd (real_of_int nanos) / 1000000000 \<le> 2 powi 32"
    using lo hi by (simp_all add: le_divide_eq divide_le_eq)
  have big: "(2::real) powi 32 * 1000000000 \<le> 2 powi 1000"
    using powi_mono [of 62 1000] by (simp add: power_int_def)
  have "f_of_int nanos = Fin (rnd (real_of_int nanos))"
    unfolding f_of_int_def using n by (intro round64_small) (simp add: power_int_def)
  moreover have "round64 (rnd (real_of_int nanos) / 1000000000) = Fin (now_real nanos)"
    unfolding now_real_def using q by (intro round64_small) (simp add: power_int_def)
  moreover have "2 powi 30 \<le> now_real nanos" "now_real nanos \<le> 2 powi 32"
    unfolding now_real_def using rnd_mono [OF q(1)] rnd_mono [OF q(2)] by (simp_all add: rnd_powi)
  moreover have "grid (now_real nanos)"
    unfolding now_real_def by (rule grid_rnd) (use q(1) in \<open>simp add: power_int_def\<close>)
  ultimately show ?thesis by (simp add: now_seconds_def power_int_def)
qed


lemma take_tokens_fresh: "take_tokens (Fin 10) (Fin 20) (Fin b) (Fin 1) None = (1, Fin 19)"
proof -
  have "round64 (b + - b) = Fin 0" using round64_small [of 0] by simp
  moreover have "round64 20 = Fin 20" "round64 0 = Fin 0" "round64 19 = Fin 19"
    using round64_small [of 20] round64_small [of 0] round64_small [of 19] powi_mono [of 5 1000]
    by (simp_all add: power_int_def)
  ultimately show ?thesis
    by (simp add: take_tokens_def f_sub_def lua_max_def lua_min_def)
qed

lemma take_tokens_exact:
  fixes x a b :: real
  defines "y \<equiv> min 20 (x + 10 * max 0 (b - a))"
  assumes "grid x" "0 \<le> x" "x \<le> 20" "grid a" "grid b" "0 \<le> a" "a \<le> 2 ^ 32" "0 \<le> b" "b \<le> 2 ^ 32"
  shows "take_tokens (Fin 10) (Fin 20) (Fin b) (Fin 1) (Some (Fin x, Fin a))
    = (if 1 \<le> y then (1, Fin (y - 1)) else (0, Fin y))"
    and "grid y"
proof -
  define d where "d = b - a"
  have yd: "y = min 20 (x + 10 * max 0 d)" by (simp add: y_def d_def)
  have gd: "grid d" using assms unfolding d_def by (intro grid_diff)
  show gy: "grid y"
    unfolding yd using assms gd grid_mult10 [OF gd] by (auto simp: min_def max_def mult.commute intro!: grid_add)
  have big: "(2::real) ^ 40 \<le> 2 powi 1000" using powi_mono [of 40 1000] by (simp add: power_int_def)
  have fin: "round64 z = Fin (rnd z)" if "\<bar>z\<bar> \<le> 2 ^ 40" for z
    using that big by (intro round64_small) linarith
  have e: "f_sub (Fin b) (Fin a) = Fin (rnd d)" using assms by (simp add: f_sub_def fin d_def)
  have y1: "y \<le> 20" "0 \<le> y" using assms(3) by (auto simp: yd)
  have sub: "f_sub (Fin y) (Fin 1) = Fin (y - 1)"
    using rnd_grid [OF grid_diff [OF gy grid_numeral(3)]] y1 by (simp add: f_sub_def fin)
  have refill: "lua_min (Fin 20) (f_add (Fin x) (f_mul (lua_max (Fin 0) (Fin (rnd d))) (Fin 10))) = Fin y"
  proof -
    consider "d \<le> 0" | "0 < d" "d < 2" | "2 \<le> d" by linarith
    then show ?thesis
    proof cases
      case 1
      then have "rnd d \<le> 0" using rnd_mono [of d 0] by simp
      moreover have "rnd x = x" using assms by (intro rnd_grid) auto
      ultimately show ?thesis using 1 assms(3,4) by (auto simp: lua_max_def lua_min_def fin yd)
    next
      case 2
      then have "rnd d = d" by (intro rnd_grid gd) simp
      moreover have "rnd (d * 10) = d * 10" using 2 by (intro rnd_grid grid_mult10 gd) simp
      moreover have "rnd (x + d * 10) = x + d * 10"
        using 2 assms(2-4) by (intro rnd_grid grid_add grid_mult10 gd) auto
      ultimately show ?thesis using 2 assms(3,4)
        by (auto simp: lua_max_def lua_min_def fin yd algebra_simps)
    next
      case 3
      have u: "rnd d \<le> 2 powi 32" using rnd_mono [of d "2 powi 32"] rnd_powi [of 32] assms by (simp add: power_int_def d_def)
      have r: "2 \<le> rnd d" using rnd_mono [of 2 d] 3 by simp
      have m: "20 \<le> rnd (rnd d * 10)" using rnd_mono [of 20 "rnd d * 10"] r by simp
      have mu: "rnd (rnd d * 10) \<le> 2 powi 36"
        using rnd_mono [of "rnd d * 10" "2 powi 36"] rnd_powi [of 36] u by (simp add: power_int_def)
      have s: "20 \<le> rnd (x + rnd (rnd d * 10))"
        using rnd_mono [of 20 "x + rnd (rnd d * 10)"] m assms(3) by simp
      have "f_mul (Fin (rnd d)) (Fin 10) = Fin (rnd (rnd d * 10))" using r u by (simp add: fin power_int_def)
      moreover have "f_add (Fin x) (Fin (rnd (rnd d * 10))) = Fin (rnd (x + rnd (rnd d * 10)))"
        using m mu assms(3,4) by (simp add: fin power_int_def)
      moreover have "y = 20" using 3 assms(3) by (simp add: yd)
      ultimately show ?thesis using r s by (simp add: lua_max_def lua_min_def)
    qed
  qed
  show "take_tokens (Fin 10) (Fin 20) (Fin b) (Fin 1) (Some (Fin x, Fin a))
    = (if 1 \<le> y then (1, Fin (y - 1)) else (0, Fin y))"
    by (simp add: take_tokens_def e refill sub)
qed

section \<open>Sequences of requests\<close>

text \<open>What the limiter does with one request, from the state the earlier ones left: whether it lets the
  request through.\<close>

definition limited :: "limiter_env \<Rightarrow> RedisRateLimiterConfig \<Rightarrow> request \<Rightarrow> (string \<Rightarrow> bucket option) \<times> nat
    \<Rightarrow> bool \<times> (string \<Rightarrow> bucket option) \<times> nat" where
  "limited en cfg rq st =
     (case RedisRateLimiter en cfg (\<lambda>c. Wrote (StatusOnly 200 :: unit reply) c)
         \<lparr>cx_Request = rq, cx_Param = (\<lambda>n. ''''), cx_FullPath = '''', cx_Keys = (\<lambda>k. ''''), cx_Headers = [],
          cx_Counted = [], ex_buckets = fst st, ex_calls = snd st\<rparr> of
       Wrote r c \<Rightarrow> (reply_status r = 200, ex_buckets c, ex_calls c)
     | Panicked c \<Rightarrow> (False, ex_buckets c, ex_calls c))"

text \<open>How many requests of one client are let through.\<close>

fun admitted :: "limiter_env \<Rightarrow> RedisRateLimiterConfig \<Rightarrow> string \<Rightarrow> request list
    \<Rightarrow> (string \<Rightarrow> bucket option) \<times> nat \<Rightarrow> nat" where
  "admitted en cfg ip [] st = 0"
| "admitted en cfg ip (rq # rqs) st = (case limited en cfg rq st of (passed, st') \<Rightarrow>
     (if passed \<and> le_ClientIP en rq = ip then 1 else 0) + admitted en cfg ip rqs st')"

text \<open>How far the clock readings \<open>i\<close> to \<open>j\<close> move forward, in seconds: with a single clock that never
  runs backwards, the time between the first and the last.\<close>

definition forward :: "limiter_env \<Rightarrow> nat \<Rightarrow> nat \<Rightarrow> real" where
  "forward en i j = (\<Sum>k\<in>{i..<j}. max 0 (now_real (le_UnixNano en (Suc k)) - now_real (le_UnixNano en k)))"

definition sound_env :: "limiter_env \<Rightarrow> bool" where
  "sound_env en \<longleftrightarrow> (\<forall>n. \<not> le_refuses en n \<and> \<not> le_mute en n \<and> this_century (le_UnixNano en n))"

text \<open>Redis's clock is never more than a second ahead of the forward movement.\<close>

definition clocks_agree :: "limiter_env \<Rightarrow> bool" where
  "clocks_agree en \<longleftrightarrow> (\<forall>i j. i \<le> j \<longrightarrow>
     real_of_int (le_rclock en j - le_rclock en i) \<le> (forward en i j + 1) * 1000000)"

lemma forward_nonneg [simp]: "0 \<le> forward en i j"
  by (simp add: forward_def sum_nonneg)

lemma forward_add: "i \<le> j \<Longrightarrow> j \<le> k \<Longrightarrow> forward en i k = forward en i j + forward en j k"
  by (simp add: forward_def sum.atLeastLessThan_concat)

lemma forward_ge: "i \<le> j \<Longrightarrow> max 0 (now_real (le_UnixNano en j) - now_real (le_UnixNano en i)) \<le> forward en i j"
proof (induction j)
  case (Suc j)
  show ?case
  proof (cases "i \<le> j")
    case True
    with Suc.IH have "max 0 (now_real (le_UnixNano en j) - now_real (le_UnixNano en i)) \<le> forward en i j" by simp
    moreover have "forward en i (Suc j) = forward en i j
        + max 0 (now_real (le_UnixNano en (Suc j)) - now_real (le_UnixNano en j))"
      using True by (simp add: forward_def)
    ultimately show ?thesis by linarith
  next
    case False
    with Suc.prems have "i = Suc j" by simp
    then show ?thesis by (simp add: forward_def)
  qed
qed (simp add: forward_def)

definition client_key :: "string \<Rightarrow> string" where
  "client_key ip = ''ratelimit:'' @ ip"

lemma limited_eq:
  assumes "sound_env en"
  shows "limited en gateway_limit rq (bk, j) =
    (let key = client_key (le_ClientIP en rq);
         t = now_real (le_UnixNano en j);
         (a, x) = take_tokens (Fin 10) (Fin 20) (Fin t) (Fin 1)
                    (map_option fst (live_bucket (le_rclock en j) (bk key)))
     in (a \<noteq> 0, bk(key := Some ((x, Fin t), Some (le_rclock en j + seconds 3))), Suc j))"
proof -
  have "\<not> le_refuses en j" "\<not> le_mute en j" and t: "now_seconds (le_UnixNano en j) = Fin (now_real (le_UnixNano en j))"
    using assms now_seconds_real by (auto simp: sound_env_def)
  moreover have "f_of_int 20 = Fin 20" "round64 2 = Fin 2"
    unfolding f_of_int_def using round64_small [of 20] round64_small [of 2] powi_mono [of 5 1000]
    by (simp_all add: power_int_def)
  ultimately show ?thesis
    by (auto simp: limited_def RedisRateLimiter_def script_Run_def gateway_limit_def tokenBucketScript_def
        client_key_def reply_status_def common_Error_def Let_def c_Header_def split: prod.splits)
qed


text \<open>A bucket last used at reading \<open>i\<close> with \<open>x\<close> tokens left.\<close>

definition bucket_at :: "limiter_env \<Rightarrow> nat \<Rightarrow> real \<Rightarrow> bucket option \<Rightarrow> bool" where
  "bucket_at en i x b \<longleftrightarrow> b = Some ((Fin x, Fin (now_real (le_UnixNano en i))), Some (le_rclock en i + seconds 3))
     \<and> grid x \<and> 0 \<le> x \<and> x \<le> 20"

text \<open>One request of the client leaves a bucket, with what a refill to at most \<open>y\<close> leaves of it.\<close>

lemma limited_own:
  assumes "sound_env en" and "clocks_agree en" and "le_ClientIP en rq = ip"
    and "limited en gateway_limit rq (bk, j) = (passed, st')"
    and "bk (client_key ip) = None \<and> y = 20
       \<or> (\<exists>i x. i \<le> j \<and> bucket_at en i x (bk (client_key ip)) \<and> y = x + 10 * forward en i j)"
  shows "\<exists>x' bk'. st' = (bk', Suc j) \<and> bucket_at en j x' (bk' (client_key ip)) \<and> (if passed then 1 else 0) + x' \<le> y"
proof -
  define t where "t = now_real (le_UnixNano en j)"
  have now: "grid (now_real (le_UnixNano en k)) \<and> 0 \<le> now_real (le_UnixNano en k) \<and> now_real (le_UnixNano en k) \<le> 2 ^ 32" for k
    using assms(1) now_seconds_real [of "le_UnixNano en k"] by (auto simp: sound_env_def)
  define b where "b = map_option fst (live_bucket (le_rclock en j) (bk (client_key ip)))"
  have full: ?thesis if "b = None" "20 \<le> y"
    using that assms(4) unfolding limited_eq [OF assms(1)] assms(3) b_def [symmetric] Let_def
    by (auto simp: take_tokens_fresh bucket_at_def t_def [symmetric])
  show ?thesis
  proof (cases "bk (client_key ip) = None \<and> y = 20")
    case True
    then show ?thesis by (intro full) (simp_all add: b_def live_bucket_def)
  next
    case False
    with assms(5) obtain i x where i: "i \<le> j" and bx: "bucket_at en i x (bk (client_key ip))"
      and y: "y = x + 10 * forward en i j" by blast
    show ?thesis
    proof (cases "le_rclock en j \<le> le_rclock en i + seconds 3")
      case False
      then have "3000000 < real_of_int (le_rclock en j - le_rclock en i)" by (simp add: seconds_def)
      also have "\<dots> \<le> (forward en i j + 1) * 1000000" using assms(2) i unfolding clocks_agree_def by blast
      finally have "2 < forward en i j" by simp
      with False bx y show ?thesis by (intro full) (auto simp: b_def live_bucket_def bucket_at_def)
    next
      case True
      with bx have bb: "b = Some (Fin x, Fin (now_real (le_UnixNano en i)))"
        by (simp add: b_def live_bucket_def bucket_at_def)
      from bx have x: "grid x" "0 \<le> x" "x \<le> 20" by (simp_all add: bucket_at_def)
      define z where "z = min 20 (x + 10 * max 0 (t - now_real (le_UnixNano en i)))"
      have tk: "take_tokens (Fin 10) (Fin 20) (Fin t) (Fin 1) b = (if 1 \<le> z then (1, Fin (z - 1)) else (0, Fin z))"
        and gz: "grid z"
        using take_tokens_exact [OF x, of "now_real (le_UnixNano en i)" t] now [of i] now [of j]
        unfolding bb z_def t_def by blast+
      have "z \<le> x + 10 * max 0 (t - now_real (le_UnixNano en i))" by (simp add: z_def)
      also have "\<dots> \<le> y" using forward_ge [OF i, of en] by (simp add: y t_def)
      finally have zy: "z \<le> y" .
      have z: "0 \<le> z" "z \<le> 20" using x by (auto simp: z_def)
      have gz1: "grid (z - 1)" using gz by (intro grid_diff) simp_all
      show ?thesis
        using assms(4) zy z gz gz1 unfolding limited_eq [OF assms(1)] assms(3) b_def [symmetric] Let_def t_def [symmetric] tk
        by (cases "1 \<le> z") (auto simp: bucket_at_def t_def)
    qed
  qed
qed

lemma admitted_bound:
  assumes "sound_env en" and "clocks_agree en"
    and "bk (client_key ip) = None \<and> y = 20 + 10 * forward en j (j + length rqs - 1)
       \<or> (\<exists>i x. i \<le> j \<and> bucket_at en i x (bk (client_key ip)) \<and> y = x + 10 * forward en i (j + length rqs - 1))"
  shows "real (admitted en gateway_limit ip rqs (bk, j)) \<le> y"
  using assms(3)
proof (induction rqs arbitrary: bk j y)
  case Nil
  then show ?case using forward_nonneg [of en] by (auto simp: bucket_at_def add_nonneg_nonneg)
next
  case (Cons rq rqs)
  obtain passed st' where l: "limited en gateway_limit rq (bk, j) = (passed, st')" by (metis surj_pair)
  let ?last = "j + length (rq # rqs) - 1"
  show ?case
  proof (cases "le_ClientIP en rq = ip")
    case False
    then have k: "client_key (le_ClientIP en rq) \<noteq> client_key ip" by (simp add: client_key_def)
    from l obtain bk' where st': "st' = (bk', Suc j)" and bk': "bk' (client_key ip) = bk (client_key ip)"
      using k by (auto simp: limited_eq [OF assms(1)] Let_def split: prod.splits)
    show ?thesis
    proof (cases "bk (client_key ip)")
      case None
      have "forward en (Suc j) (Suc j + length rqs - 1) \<le> forward en j ?last"
        using forward_add [of j "Suc j" "Suc j + length rqs - 1" en] forward_nonneg [of en j "Suc j"]
        by (cases rqs) (simp_all add: forward_def)
      moreover have "real (admitted en gateway_limit ip rqs (bk', Suc j))
          \<le> 20 + 10 * forward en (Suc j) (Suc j + length rqs - 1)"
        by (rule Cons.IH) (simp add: bk' None)
      moreover have "y = 20 + 10 * forward en j ?last" using Cons.prems None by (auto simp: bucket_at_def)
      ultimately show ?thesis using l False by (simp add: st')
    next
      case (Some b)
      with Cons.prems obtain i x where "i \<le> j" "bucket_at en i x (bk (client_key ip))" "y = x + 10 * forward en i ?last"
        by auto
      then have "real (admitted en gateway_limit ip rqs (bk', Suc j)) \<le> y"
        by (intro Cons.IH disjI2 exI [of _ i] exI [of _ x]) (simp add: bk')
      with l False show ?thesis by (simp add: st')
    qed
  next
    case own: True
    define y0 where "y0 = y - 10 * forward en j ?last"
    have "bk (client_key ip) = None \<and> y0 = 20
       \<or> (\<exists>i x. i \<le> j \<and> bucket_at en i x (bk (client_key ip)) \<and> y0 = x + 10 * forward en i j)"
    proof (cases "bk (client_key ip)")
      case None
      with Cons.prems show ?thesis by (auto simp: y0_def bucket_at_def)
    next
      case (Some b)
      with Cons.prems obtain i x where i: "i \<le> j" "bucket_at en i x (bk (client_key ip))" "y = x + 10 * forward en i ?last"
        by auto
      have "forward en i ?last = forward en i j + forward en j ?last" by (rule forward_add) (use i in auto)
      with i show ?thesis by (auto simp: y0_def)
    qed
    from limited_own [OF assms(1,2) own l this] obtain x' bk' where st': "st' = (bk', Suc j)"
      and b': "bucket_at en j x' (bk' (client_key ip))" and x': "(if passed then 1 else 0) + x' \<le> y0" by blast
    have "real (admitted en gateway_limit ip rqs (bk', Suc j)) \<le> x' + 10 * forward en j ?last"
      by (intro Cons.IH disjI2 exI [of _ j] exI [of _ x']) (use b' in simp)
    with l own x' show ?thesis by (auto simp: st' y0_def split: if_splits)
  qed
qed


text \<open>Clocks of two gateways that stand two seconds apart, and whose requests alternate.\<close>

definition skewed_env :: limiter_env where
  "skewed_env = \<lparr>le_refuses = (\<lambda>n. False), le_mute = (\<lambda>n. False), le_rclock = (\<lambda>n. seconds 1700000000),
     le_UnixNano = (\<lambda>n. (1700000000 + (if even n then 0 else 2)) * 1000000000), le_ClientIP = (\<lambda>rq. ''10.0.0.1'')\<rparr>"

lemma now_real_whole: "2 ^ 30 \<le> n \<Longrightarrow> n \<le> 2 ^ 31 \<Longrightarrow> now_real (n * 1000000000) = real_of_int n"
proof -
  assume n: "2 ^ 30 \<le> n" "n \<le> 2 ^ 31"
  have "real_of_int (n * 1000000000) = real_of_int (n * 1953125) * 2 powi 9" by (simp add: power_int_def)
  moreover have "ulp_exp (real_of_int (n * 1000000000)) \<le> 9"
  proof -
    have "real_of_int (n * 1000000000) \<le> real_of_int (2 ^ 31 * 1000000000)" using n by simp
    also have "\<dots> \<le> 2 powi 61" by (simp add: power_int_def)
    finally have "ulp_exp (real_of_int (n * 1000000000)) \<le> ulp_exp (2 powi 61)" using n by (intro ulp_exp_mono) simp_all
    then show ?thesis unfolding ulp_exp_powi by simp
  qed
  ultimately have "rnd (real_of_int (n * 1000000000)) = real_of_int (n * 1000000000)" by (rule rnd_multiple)
  moreover have "rnd (real_of_int n) = real_of_int n" using n by (intro rnd_of_int) auto
  ultimately show ?thesis by (simp add: now_real_def)
qed

lemma skewed_now: "now_real (le_UnixNano skewed_env n) = (if even n then 1700000000 else 1700000002)"
  using now_real_whole [of 1700000000] now_real_whole [of 1700000002] by (simp add: skewed_env_def)

lemma skewed_sound: "sound_env skewed_env"
  by (simp add: sound_env_def skewed_env_def this_century_def)


lemma skewed_step:
  assumes "bucket_at skewed_env i x (bk (client_key ''10.0.0.1''))" and "18 \<le> x" and "odd i \<longrightarrow> x = 19"
  shows "\<exists>x' bk'. limited skewed_env gateway_limit rq (bk, Suc i) = (True, bk', Suc (Suc i))
    \<and> bucket_at skewed_env (Suc i) x' (bk' (client_key ''10.0.0.1'')) \<and> 18 \<le> x' \<and> (odd (Suc i) \<longrightarrow> x' = 19)"
proof -
  define t where "t = now_real (le_UnixNano skewed_env (Suc i))"
  define t0 where "t0 = now_real (le_UnixNano skewed_env i)"
  define y where "y = min 20 (x + 10 * max 0 (t - t0))"
  have ip: "le_ClientIP skewed_env rq = ''10.0.0.1''" "le_rclock skewed_env n = seconds 1700000000" for n
    by (simp_all add: skewed_env_def)
  from assms(1) have x: "grid x" "0 \<le> x" "x \<le> 20"
    and b: "bk (client_key ''10.0.0.1'') = Some ((Fin x, Fin t0), Some (seconds 1700000000 + seconds 3))"
    by (simp_all add: bucket_at_def t0_def ip)
  have tt: "t = (if even i then 1700000002 else 1700000000)" "t0 = (if even i then 1700000000 else 1700000002)"
    by (simp_all add: t_def t0_def skewed_now)
  have tk: "take_tokens (Fin 10) (Fin 20) (Fin t) (Fin 1) (Some (Fin x, Fin t0))
      = (if 1 \<le> y then (1, Fin (y - 1)) else (0, Fin y))"
    unfolding y_def by (rule take_tokens_exact [OF x]) (simp_all add: tt)
  have y: "y = (if even i then 20 else 19)" using assms(2,3) x by (auto simp: y_def tt)
  have "limited skewed_env gateway_limit rq (bk, Suc i) = (True,
      bk(client_key ''10.0.0.1'' := Some ((Fin (y - 1), Fin t), Some (seconds 1700000000 + seconds 3))), Suc (Suc i))"
    unfolding limited_eq [OF skewed_sound] t_def [symmetric] ip b Let_def
    by (simp add: live_bucket_def tk y seconds_def)
  moreover have "bucket_at skewed_env (Suc i) (y - 1)
      (Some ((Fin (y - 1), Fin t), Some (seconds 1700000000 + seconds 3)))"
    using grid_diff [of y 1] by (simp add: bucket_at_def t_def ip y)
  ultimately show ?thesis by (auto simp: y)
qed

lemma skewed_run:
  "bucket_at skewed_env i x (bk (client_key ''10.0.0.1'')) \<Longrightarrow> 18 \<le> x \<Longrightarrow> (odd i \<longrightarrow> x = 19) \<Longrightarrow>
     admitted skewed_env gateway_limit ''10.0.0.1'' (replicate m rq) (bk, Suc i) = m"
proof (induction m arbitrary: i x bk)
  case (Suc m)
  from skewed_step [of i x bk rq] Suc.prems obtain x' bk' where
    "limited skewed_env gateway_limit rq (bk, Suc i) = (True, bk', Suc (Suc i))"
    "bucket_at skewed_env (Suc i) x' (bk' (client_key ''10.0.0.1''))" "18 \<le> x'" "odd (Suc i) \<longrightarrow> x' = 19" by blast
  moreover have "le_ClientIP skewed_env rq = ''10.0.0.1''" by (simp add: skewed_env_def)
  ultimately show ?case using Suc.IH [of "Suc i" x' bk'] by simp
qed simp

text \<open>The bound counts every forward movement of the clock, so it says nothing when requests
  alternate between two gateways whose clocks differ: with the clocks two seconds apart and standing
  still, every one of any number of requests gets through, because a reading from the slow clock
  moves the bucket's time stamp back and the next one from the fast clock refills it again.\<close>

theorem skewed_clocks_defeat_limit:
  "(\<forall>n. le_UnixNano skewed_env n \<in> {1700000000 * 1000000000, 1700000002 * 1000000000})
   \<and> admitted skewed_env gateway_limit ''10.0.0.1'' (replicate m rq) (\<lambda>k. None, 0) = m"
proof
  show "\<forall>n. le_UnixNano skewed_env n \<in> {1700000000 * 1000000000, 1700000002 * 1000000000}"
    by (simp add: skewed_env_def)
  show "admitted skewed_env gateway_limit ''10.0.0.1'' (replicate m rq) (\<lambda>k. None, 0) = m"
  proof (cases m)
    case (Suc m')
    have "bucket_at skewed_env 0 19 (Some ((Fin 19, Fin (now_real (le_UnixNano skewed_env 0))),
        Some (le_rclock skewed_env 0 + seconds 3)))"
      by (simp add: bucket_at_def)
    then have "admitted skewed_env gateway_limit ''10.0.0.1'' (replicate m' rq)
      ((\<lambda>k. None)(client_key ''10.0.0.1'' := Some ((Fin 19, Fin (now_real (le_UnixNano skewed_env 0))),
        Some (le_rclock skewed_env 0 + seconds 3))), Suc 0) = m'"
      by (intro skewed_run [of 0 19]) simp_all
    moreover have "le_ClientIP skewed_env rq = ''10.0.0.1''" by (simp add: skewed_env_def)
    ultimately show ?thesis
      by (simp add: Suc limited_eq [OF skewed_sound] take_tokens_fresh live_bucket_def)
  qed simp
qed

text \<open>Without an answer from Redis the limiter lets everything through.\<close>

lemma limiter_fails_open:
  "le_refuses en (ex_calls c) \<or> le_mute en (ex_calls c) \<Longrightarrow>
     \<exists>c'. RedisRateLimiter en cfg k c = k c' \<and> cx_Headers c' = cx_Headers c"
  by (auto simp: RedisRateLimiter_def script_Run_def Let_def split: prod.splits)

definition one_clock :: limiter_env where
  "one_clock = \<lparr>le_refuses = (\<lambda>n. False), le_mute = (\<lambda>n. False), le_rclock = (\<lambda>n. seconds 1700000000),
     le_UnixNano = (\<lambda>n. 1700000000 * 1000000000), le_ClientIP = rq_RemoteAddr\<rparr>"

definition sample_get :: "string \<Rightarrow> request" where
  "sample_get addr = \<lparr>rq_Method = ''GET'', rq_Path = ''/api/v1/units'', rq_Header = (\<lambda>h. ''''), rq_RemoteAddr = addr\<rparr>"


end
