(* ===== verification/Gateway.thy ===== *)
theory Gateway
  imports Rate_Limit "HOL-Library.Word" "HOL-Library.Multiset"
begin

text \<open>
  The edge proxy (\<^verbatim>\<open>cmd/gateway\<close>): round robin over the API replicas with a 64-bit counter, the
  request id minted at ingress, the coarse authentication, and the chain a request goes through
  before it is forwarded. The replicas, URL parsing and gin's route lookup are parameters.
\<close>

section \<open>Startup\<close>

record upstream =
  up_Scheme :: string
  up_Host :: string

text \<open>The replica URLs, parsed once; a bad one, or none at all, ends the process.\<close>

fun parse_targets :: "(string \<Rightarrow> go_error + upstream) \<Rightarrow> string list \<Rightarrow> go_error + upstream list" where
  "parse_targets url_Parse [] = Inr []"
| "parse_targets url_Parse (raw # rest) = (case url_Parse raw of
     Inl perr \<Rightarrow> Inl (Wrapped (''gateway: bad upstream \"'' @ raw @ ''\": '' @ err_Error perr) perr)
   | Inr u \<Rightarrow> if up_Host u = '''' then Inl (Other (''gateway: bad upstream \"'' @ raw @ ''\": <nil>''))
       else map_sum id ((#) u) (parse_targets url_Parse rest))"

definition gateway_targets :: "(string \<Rightarrow> go_error + upstream) \<Rightarrow> Config \<Rightarrow> go_error + upstream list" where
  "gateway_targets url_Parse cfg =
     (if length (gc_Upstreams (cf_Gateway cfg)) = 0 then Inl (Other ''gateway: no upstreams configured'')
      else parse_targets url_Parse (gc_Upstreams (cf_Gateway cfg)))"

section \<open>Round robin\<close>

text \<open>Go's \<open>%\<close> truncates toward zero: the remainder has the sign of the dividend.\<close>

definition go_rem :: "int \<Rightarrow> int \<Rightarrow> int" where
  "go_rem a b = sgn a * (\<bar>a\<bar> mod \<bar>b\<bar>)"

text \<open>\<open>int(i-1)\<close> reinterprets the counter as a signed number; an index out of range panics.\<close>

definition next_target :: "upstream list \<Rightarrow> 64 word \<Rightarrow> upstream option \<times> 64 word" where
  "next_target targets counter =
     (let i = counter + 1; k = go_rem (sint (i - 1)) (int (length targets))
      in (if 0 \<le> k \<and> k < int (length targets) then Some (targets ! nat k) else None, i))"

fun picks :: "nat \<Rightarrow> upstream list \<Rightarrow> 64 word \<Rightarrow> upstream option list" where
  "picks 0 targets c = []"
| "picks (Suc n) targets c = (case next_target targets c of (t, c') \<Rightarrow> t # picks n targets c')"

section \<open>Forwarding\<close>

record gateway_ctx = limited_ctx +
  gx_counter :: "64 word"

record forwarded =
  fw_Scheme :: string
  fw_Host :: string
  fw_Request :: request

text \<open>The \<open>Director\<close>: the upstream's scheme and host, and the client's address up to the first colon.\<close>

definition set_request_header :: "string \<Rightarrow> string \<Rightarrow> request \<Rightarrow> request" where
  "set_request_header k v rq = rq\<lparr>rq_Header := (rq_Header rq)(k := v)\<rparr>"

definition Director :: "upstream \<Rightarrow> request \<Rightarrow> forwarded" where
  "Director t rq = \<lparr>fw_Scheme = up_Scheme t, fw_Host = up_Host t,
     fw_Request = (case strings_Cut (rq_RemoteAddr rq) (CHR '':'') of
        Some (clientIP, _) \<Rightarrow> set_request_header ''X-Forwarded-For'' clientIP rq
      | None \<Rightarrow> rq)\<rparr>"

definition edge_error :: "nat \<Rightarrow> string \<Rightarrow> 'd reply" where
  "edge_error status msg = JSON \<lparr>resp_status = status, resp_success = False, resp_message = '''',
     resp_data = None, resp_error = msg\<rparr>"

definition proxy :: "upstream list \<Rightarrow> (forwarded \<Rightarrow> go_error + 'd reply)
    \<Rightarrow> ('x gateway_ctx_ext limited_ctx_ext, 'd) handler" where
  "proxy targets roundtrip c = (case next_target targets (gx_counter c) of
     (None, i) \<Rightarrow> Panicked (c\<lparr>gx_counter := i\<rparr>)
   | (Some t, i) \<Rightarrow> (case roundtrip (Director t (cx_Request c)) of
       Inl err \<Rightarrow> Wrote (edge_error 502 ''upstream unavailable'') (c\<lparr>gx_counter := i\<rparr>)
     | Inr r \<Rightarrow> Wrote r (c\<lparr>gx_counter := i\<rparr>)))"

section \<open>The edge's own middleware\<close>

definition edgeRequestID :: "string \<Rightarrow> ('x, 'd) middleware" where
  "edgeRequestID fresh k c =
     (let h = c_GetHeader c RequestIDHeader; rid = (if h = '''' then fresh else h)
      in k (c_Header RequestIDHeader rid
              (c\<lparr>cx_Request := set_request_header RequestIDHeader rid (cx_Request c)\<rparr>)))"

definition publicPrefixes :: "string list" where
  "publicPrefixes = [''/health'', ''/ready'', ''/api/v1/auth/'']"

definition edgeAuth :: "jwt_lib \<Rightarrow> int \<Rightarrow> JWTConfig \<Rightarrow> ('x, 'd) middleware" where
  "edgeAuth J now jwtCfg k c =
     (if list_ex (strings_HasPrefix (rq_Path (cx_Request c))) publicPrefixes then k c
      else case strings_SplitN2 (c_GetHeader c ''Authorization'') (CHR '' '') of
        [scheme, token] \<Rightarrow>
          if scheme \<noteq> ''Bearer'' then Wrote (edge_error 401 ''missing or malformed bearer token'') c
          else (case ValidateToken J now token jwtCfg of
              Inl err \<Rightarrow> Wrote (edge_error 401 ''invalid or expired token'') c
            | Inr claims \<Rightarrow> k c)
      | _ \<Rightarrow> Wrote (edge_error 401 ''missing or malformed bearer token'') c)"

section \<open>The edge\<close>

record gateway =
  gw_cfg :: Config
  gw_targets :: "upstream list"
  gw_jwt :: jwt_lib
  gw_unicode_lower :: "string \<Rightarrow> string"
  gw_limiter :: limiter_env
  gw_gin_find :: "(string \<times> string) list \<Rightarrow> string \<Rightarrow> string \<Rightarrow> (string \<times> string) option"

definition edge_chain :: "gateway \<Rightarrow> int \<Rightarrow> string
    \<Rightarrow> ('x gateway_ctx_ext limited_ctx_ext, 'd) middleware list" where
  "edge_chain G now fresh =
     [CORS (gw_unicode_lower G) (cf_CORS (gw_cfg G)), edgeRequestID fresh, Recovery,
      RedisRateLimiter (gw_limiter G) gateway_limit]
     @ (if gc_EdgeAuth (cf_Gateway (gw_cfg G)) then [edgeAuth (gw_jwt G) now (cf_JWT (gw_cfg G))] else [])"

definition edge_health :: "'d reply" where
  "edge_health = JSON \<lparr>resp_status = 200, resp_success = True, resp_message = ''gateway is healthy'',
     resp_data = None, resp_error = ''''\<rparr>"

definition edge :: "gateway \<Rightarrow> int \<Rightarrow> string \<Rightarrow> 'd reply \<Rightarrow> (forwarded \<Rightarrow> go_error + 'd reply)
    \<Rightarrow> ('x gateway_ctx_ext limited_ctx_ext, 'd) handler" where
  "edge G now fresh metrics_page roundtrip c =
     chain (edge_chain G now fresh)
       (case gw_gin_find G [(''GET'', ''/health''), (''GET'', ''/metrics'')]
              (rq_Method (cx_Request c)) (rq_Path (cx_Request c)) of
          Some (m, p) \<Rightarrow> if p = ''/health'' then (\<lambda>c. Wrote edge_health c) else (\<lambda>c. Wrote metrics_page c)
        | None \<Rightarrow> proxy (gw_targets G) roundtrip) c"

section \<open>Fairness\<close>

lemma uint_unat_64: "uint (c :: 64 word) = int (unat c)"
  by (rule uint_nat)

lemma sint_small: "unat (c :: 64 word) < 2 ^ 63 \<Longrightarrow> sint c = int (unat c)"
proof -
  assume "unat c < 2 ^ 63"
  hence "int (unat c) < int (2 ^ 63)" by (simp only: of_nat_less_iff)
  hence u: "0 \<le> uint c" "uint c < 2 ^ 63" by (simp_all only: uint_unat_64 of_nat_power of_nat_numeral of_nat_0_le_iff)
  have "sint c = signed_take_bit 63 (uint c)" by (simp add: sint_uint)
  also have "\<dots> = uint c" using u by (intro signed_take_bit_int_eq_self) linarith+
  finally show ?thesis by (simp only: uint_unat_64)
qed

lemma sint_large: "2 ^ 63 \<le> unat (c :: 64 word) \<Longrightarrow> sint c = int (unat c) - 2 ^ 64"
proof -
  assume "2 ^ 63 \<le> unat c"
  hence "int (2 ^ 63) \<le> int (unat c)" by (simp only: of_nat_le_iff)
  hence lo: "2 ^ 63 \<le> uint c" by (simp only: uint_unat_64 of_nat_power of_nat_numeral)
  have hi: "uint c < 2 ^ 64" using uint_lt2p [of c] by simp
  have "sint c = signed_take_bit 63 (uint c)" by (simp add: sint_uint)
  also have "\<dots> = take_bit (Suc 63) (uint c + 2 ^ 63) - 2 ^ 63"
    by (simp only: signed_take_bit_eq_take_bit_shift)
  also have "take_bit (Suc 63) (uint c + 2 ^ 63) = (uint c + 2 ^ 63 - 2 ^ 64) mod 2 ^ 64"
    using minus_mod_self2 [of "uint c + 2 ^ 63" "2 ^ 64 :: int"] by (simp add: take_bit_eq_mod del: minus_mod_self2)
  also have "\<dots> = uint c + 2 ^ 63 - 2 ^ 64" using lo hi by (intro mod_pos_pos_trivial) auto
  finally show ?thesis using uint_unat_64 [of c] by linarith
qed

lemma sint_shift: "sint (c + 1 - 1 :: 64 word) = sint c"
  by simp

lemma unat_step: "unat (c :: 64 word) < 2 ^ 63 \<Longrightarrow> unat (c + 1) = Suc (unat c)"
proof -
  assume "unat c < 2 ^ 63"
  moreover have "(2 :: nat) ^ 63 < 2 ^ 64" by simp
  ultimately have "unat c + 1 < 2 ^ 64" by linarith
  thus ?thesis by (simp add: unat_plus_if_size word_size)
qed

lemma go_rem_nonneg: "0 \<le> a \<Longrightarrow> 0 < b \<Longrightarrow> go_rem a b = a mod b"
  by (cases "a = 0") (simp_all add: go_rem_def)

lemma go_rem_neg: "a < 0 \<Longrightarrow> 0 < b \<Longrightarrow> go_rem a b = - (- a mod b)"
  by (simp add: go_rem_def)

lemma next_target_small:
  assumes "targets \<noteq> []" "unat c < 2 ^ 63"
  shows "next_target targets c = (Some (targets ! (unat c mod length targets)), c + 1)"
  using assms by (simp add: next_target_def Let_def sint_small go_rem_nonneg zmod_int [symmetric]
      del: of_nat_unat)

lemma next_target_large:
  assumes "targets \<noteq> []" "2 ^ 63 \<le> unat c"
  shows "fst (next_target targets c) =
    (if length targets dvd 2 ^ 64 - unat c then Some (hd targets) else None)"
proof -
  have lt: "unat c < 2 ^ 64" using unsigned_less [of c] by simp
  define d where "d = 2 ^ 64 - unat c"
  have s: "sint c = - int d" using sint_large [OF assms(2)] lt by (simp add: d_def of_nat_diff del: of_nat_unat)
  have d: "0 < d" using lt by (simp add: d_def)
  have r: "go_rem (sint (c + 1 - 1)) (int (length targets)) = - int (d mod length targets)"
    using d assms(1) by (simp add: s go_rem_neg zmod_int)
  show ?thesis
    using assms(1) by (simp only: next_target_def Let_def r fst_conv d_def [symmetric] dvd_eq_mod_eq_0)
      (simp add: hd_conv_nth)
qed

lemma picks_small:
  "targets \<noteq> [] \<Longrightarrow> unat c + n \<le> 2 ^ 63 \<Longrightarrow>
   picks n targets c = map (\<lambda>k. Some (targets ! ((unat c + k) mod length targets))) [0..<n]"
proof (induction n arbitrary: c)
  case (Suc n)
  hence lt: "unat c < 2 ^ 63" by simp
  have "unat (c + 1) + n \<le> 2 ^ 63" using Suc.prems by (simp add: unat_step [OF lt])
  from Suc.IH [OF Suc.prems(1) this] show ?case
    by (simp add: next_target_small [OF Suc.prems(1) lt] unat_step [OF lt] upt_conv_Cons map_Suc_upt [symmetric]
        del: upt_Suc)
qed simp

lemma picks_round:
  assumes "targets \<noteq> []" "unat c + length targets \<le> 2 ^ 63"
  shows "picks (length targets) targets c = map Some (rotate (unat c) targets)"
  by (rule nth_equalityI) (simp_all add: picks_small [OF assms] nth_rotate)

text \<open>C36: the gateway's round robin is fair: as long as its 64-bit counter has not passed
  \<open>2^63\<close>, any run of as many requests as there are replicas goes to every replica exactly once, in
  the configured order from where the counter stands; once it has, the signed index is negative
  and the pick panics, save when the number of replicas happens to divide it.\<close>

theorem round_robin_fair:
  assumes "targets \<noteq> []"
  shows "(unat c + length targets \<le> 2 ^ 63 \<longrightarrow>
            picks (length targets) targets c = map Some (rotate (unat c) targets))
       \<and> (2 ^ 63 \<le> unat c \<longrightarrow> fst (next_target targets c) =
            (if length targets dvd 2 ^ 64 - unat c then Some (hd targets) else None))"
  using picks_round [OF assms] next_target_large [OF assms] by blast


section \<open>What is forwarded\<close>

definition has_request :: "request \<Rightarrow> 'x ctx_scheme \<Rightarrow> bool" where
  "has_request rq c \<longleftrightarrow> cx_Request c = rq"

text \<open>The request as the proxy gets it: with an id of its own or the client's.\<close>

definition ingress :: "string \<Rightarrow> request \<Rightarrow> request" where
  "ingress fresh rq = set_request_header RequestIDHeader
     (if rq_Header rq RequestIDHeader = '''' then fresh else rq_Header rq RequestIDHeader) rq"

lemma agree_CORS_request:
  "agree (has_request rq) h h' \<Longrightarrow> agree (has_request rq) (CORS u cfg h) (CORS u cfg h')"
  by (simp add: agree_def has_request_def CORS_def Let_def split: prod.split)

lemma agree_edgeRequestID:
  "agree (has_request (ingress fresh rq)) h h' \<Longrightarrow>
     agree (has_request rq) (edgeRequestID fresh h) (edgeRequestID fresh h')"
  by (simp add: agree_def has_request_def edgeRequestID_def Let_def ingress_def c_GetHeader_def)

lemma script_Run_request: "script_Run en cfg key now c = (r, c') \<Longrightarrow> cx_Request c' = cx_Request c"
  by (auto simp: script_Run_def Let_def split: if_splits prod.splits)

lemma agree_limiter:
  "agree (has_request rq) h h' \<Longrightarrow>
     agree (has_request rq) (RedisRateLimiter en cfg h) (RedisRateLimiter en cfg h')"
  by (auto simp: agree_def has_request_def RedisRateLimiter_def Let_def script_Run_request
      split: prod.split sum.split)

definition edge_passes :: "gateway \<Rightarrow> int \<Rightarrow> request \<Rightarrow> bool" where
  "edge_passes G now rq \<longleftrightarrow> gc_EdgeAuth (cf_Gateway (gw_cfg G)) \<longrightarrow>
     list_ex (strings_HasPrefix (rq_Path rq)) publicPrefixes
     \<or> (\<exists>cl. bears (gw_jwt G) now (cf_JWT (gw_cfg G)) rq cl)"

lemma edgeAuth_eq:
  "edgeAuth J now cfg k c =
    (if list_ex (strings_HasPrefix (rq_Path (cx_Request c))) publicPrefixes then k c
     else case auth_claims J now cfg c of
       Inl msg \<Rightarrow> Wrote (edge_error 401 (if msg = ''invalid or expired token'' then msg
         else ''missing or malformed bearer token'')) c
     | Inr cl \<Rightarrow> k c)"
  by (auto simp: edgeAuth_def auth_claims_def strings_SplitN2_def strings_Cut_def Let_def
      split: list.splits sum.splits option.splits)


lemma agree_edgeAuth:
  assumes "jwt_documented J"
    and "list_ex (strings_HasPrefix (rq_Path rq)) publicPrefixes \<or> (\<exists>cl. bears J now cfg rq cl)
      \<Longrightarrow> agree (has_request rq) h h'"
  shows "agree (has_request rq) (edgeAuth J now cfg h) (edgeAuth J now cfg h')"
proof -
  have "edgeAuth J now cfg h c = edgeAuth J now cfg h' c" if r: "cx_Request c = rq" for c
  proof (cases "list_ex (strings_HasPrefix (rq_Path rq)) publicPrefixes")
    case True
    with assms(2) r show ?thesis by (simp add: agree_def has_request_def edgeAuth_eq)
  next
    case False
    then show ?thesis
    proof (cases "auth_claims J now cfg c")
      case (Inr cl)
      with auth_claims_bears [OF assms(1) this] r have "\<exists>cl. bears J now cfg rq cl" by auto
      with assms(2) r show ?thesis by (simp add: agree_def has_request_def edgeAuth_eq Inr)
    qed (simp add: edgeAuth_eq r)
  qed
  then show ?thesis by (simp add: agree_def has_request_def)
qed

lemma agree_refl: "agree C h h"
  by (simp add: agree_def)

lemma agree_proxy:
  assumes "targets \<noteq> []" and "\<And>t. t \<in> set targets \<Longrightarrow> f (Director t rq) = g (Director t rq)"
  shows "agree (has_request rq) (proxy targets f) (proxy targets g)"
proof -
  have "t \<in> set targets" if "next_target targets i = (Some t, j)" for t i j
    using that assms(1) by (auto simp: next_target_def Let_def nat_less_iff split: if_splits)
  with assms(2) show ?thesis
    by (auto simp: agree_def has_request_def proxy_def split: prod.split option.split)
qed

lemma agree_edge_chain:
  assumes "jwt_documented (gw_jwt G)"
    and "edge_passes G now (ingress fresh rq) \<Longrightarrow> agree (has_request (ingress fresh rq)) h h'"
  shows "agree (has_request rq) (chain (edge_chain G now fresh) h) (chain (edge_chain G now fresh) h')"
proof -
  let ?rest = "if gc_EdgeAuth (cf_Gateway (gw_cfg G)) then [edgeAuth (gw_jwt G) now (cf_JWT (gw_cfg G))] else []"
  have "agree (has_request (ingress fresh rq)) (chain ?rest h) (chain ?rest h')"
    using assms by (auto simp: edge_passes_def intro!: agree_edgeAuth)
  then show ?thesis
    unfolding edge_chain_def
    by (simp only: append_Cons append_Nil chain_def foldr.simps comp_apply id_apply)
       (intro agree_CORS_request agree_edgeRequestID agree_plain agree_limiter)
qed

text \<open>C34: what the gateway sends upstream is determined: nothing but the incoming request with a
  request id set, addressed to one of the configured replicas with the client's address recorded,
  and, when edge authentication is on, only for a public path or a bearer of a live token. Two
  networks of replicas that answer such requests alike cannot be told apart through it.\<close>

theorem edge_forwards_only:
  assumes "jwt_documented (gw_jwt G)" and "gw_targets G \<noteq> []"
    and "\<And>t. t \<in> set (gw_targets G) \<Longrightarrow> edge_passes G now (ingress fresh (cx_Request c)) \<Longrightarrow>
      replicas (Director t (ingress fresh (cx_Request c))) = replicas' (Director t (ingress fresh (cx_Request c)))"
  shows "edge G now fresh shown replicas c = edge G now fresh shown replicas' c"
proof -
  have "agree (has_request (ingress fresh (cx_Request c))) (proxy (gw_targets G) replicas) (proxy (gw_targets G) replicas')"
    if "edge_passes G now (ingress fresh (cx_Request c))"
    using assms(2,3) that by (intro agree_proxy) auto
  from agree_edge_chain [OF assms(1) this] show ?thesis
    by (auto simp: edge_def agree_def has_request_def split: option.split)
qed

text \<open>C35: the edge and the replica behind it take the same decision on a token, at the same moment and
  with the same key: a request the edge lets through on a path that is not public is one the
  replica's \<open>AuthRequired\<close> lets through, with the same identity, and one it refuses the replica
  would refuse; and the replica keeps the request id minted at the edge.\<close>

theorem edge_and_replica_agree:
  assumes "cx_Request c = ingress fresh rq" and "cx_Request c' = fw_Request (Director t (cx_Request c))"
    and "fresh \<noteq> ''''" and "\<not> list_ex (strings_HasPrefix (rq_Path rq)) publicPrefixes"
  shows "(case auth_claims J now cfg c of
       Inr cl \<Rightarrow> edgeAuth J now cfg k c = k c \<and> AuthRequired J now cfg k' c' = k' (with_identity cl c')
     | Inl msg \<Rightarrow> (\<exists>msg'. edgeAuth J now cfg k c = Wrote (edge_error 401 msg') c)
         \<and> AuthRequired J now cfg k' c' = Wrote (unauthorized msg) c')
    \<and> RequestID fresh' k' c' = (let rid = rq_Header (cx_Request c) RequestIDHeader in
        k' (c_Header RequestIDHeader rid (c_Set RequestIDHeader rid c')))"
proof -
  have "rq_Header (cx_Request c') n = rq_Header (cx_Request c) n" if "n \<noteq> ''X-Forwarded-For''" for n
    using that by (simp add: assms(2) Director_def set_request_header_def split: option.split)
  then have h: "c_GetHeader c' ''Authorization'' = c_GetHeader c ''Authorization''"
    "c_GetHeader c' RequestIDHeader = rq_Header (cx_Request c) RequestIDHeader"
    by (simp_all add: c_GetHeader_def RequestIDHeader_def)
  have "auth_claims J now cfg c' = auth_claims J now cfg c" by (simp only: auth_claims_def h(1))
  moreover have "rq_Path (cx_Request c) = rq_Path rq" "rq_Header (cx_Request c) RequestIDHeader \<noteq> ''''"
    using assms(3) by (simp_all add: assms(1) ingress_def set_request_header_def)
  ultimately show ?thesis
    using assms(4) by (auto simp: edgeAuth_eq AuthRequired_eq RequestID_def h Let_def split: sum.split)
qed


section \<open>At work\<close>

definition two_replicas :: "upstream list" where
  "two_replicas = [\<lparr>up_Scheme = ''http'', up_Host = ''api-1:8080''\<rparr>, \<lparr>up_Scheme = ''http'', up_Host = ''api-2:8080''\<rparr>]"

lemma round_robin_fair_witness:
  "picks (length two_replicas) two_replicas 5 = [Some (two_replicas ! 1), Some (two_replicas ! 0)]"
proof -
  have r: "rotate (unat (5 :: 64 word)) two_replicas = [two_replicas ! 1, two_replicas ! 0]"
  proof -
    have "unat (5 :: 64 word) = 5" by simp
    then show ?thesis by (simp only:) (simp add: two_replicas_def rotate_def eval_nat_numeral)
  qed
  have "two_replicas \<noteq> []" "unat (5 :: 64 word) + length two_replicas \<le> 2 ^ 63"
    by (simp_all add: two_replicas_def)
  then have "picks (length two_replicas) two_replicas 5 = map Some (rotate (unat (5 :: 64 word)) two_replicas)"
    using round_robin_fair [of two_replicas 5] by blast
  then show ?thesis by (simp only: r list.map)
qed

definition sample_gateway :: gateway where
  "sample_gateway = \<lparr>gw_cfg = (config_of viper_defaults)\<lparr>cf_JWT := sample_cfg,
       cf_Gateway := \<lparr>gc_ListenAddr = '':8080'', gc_Upstreams = [], gc_EdgeAuth = True\<rparr>\<rparr>,
     gw_targets = two_replicas, gw_jwt = sample_jwt, gw_unicode_lower = id, gw_limiter = one_clock,
     gw_gin_find = (\<lambda>table m p. if (m, p) \<in> set table then Some (m, p) else None)\<rparr>"

definition anonymous_ctx :: "unit gateway_ctx_ext limited_ctx_ext ctx_scheme" where
  "anonymous_ctx = \<lparr>cx_Request = \<lparr>rq_Method = ''GET'', rq_Path = ''/api/v1/units'', rq_Header = (\<lambda>k. ''''),
       rq_RemoteAddr = ''10.0.0.1:5000''\<rparr>, cx_Param = (\<lambda>n. ''''), cx_FullPath = '''', cx_Keys = (\<lambda>k. ''''),
     cx_Headers = [], cx_Counted = [], ex_buckets = (\<lambda>k. None), ex_calls = 0, gx_counter = 0\<rparr>"

text \<open>Nothing of a request without a token reaches a replica.\<close>

lemma edge_forwards_only_witness:
  "edge sample_gateway 0 ''rid'' (StatusOnly 200) (\<lambda>f. Inr (StatusOnly 200)) anonymous_ctx
   = edge sample_gateway 0 ''rid'' (StatusOnly 200) (\<lambda>f. Inl (Other ''down'')) (anonymous_ctx :: unit gateway_ctx_scheme)"
proof -
  have "\<not> edge_passes sample_gateway 0 (ingress ''rid'' (cx_Request anonymous_ctx))"
    by (simp add: edge_passes_def sample_gateway_def anonymous_ctx_def ingress_def set_request_header_def
        publicPrefixes_def strings_HasPrefix_def bears_def RequestIDHeader_def)
  then show ?thesis
    by (intro edge_forwards_only) (simp_all add: sample_gateway_def two_replicas_def sample_jwt_documented)
qed

definition at_edge :: "unit gateway_ctx_ext limited_ctx_ext ctx_scheme" where
  "at_edge = anonymous_ctx\<lparr>cx_Request := ingress ''rid'' (cx_Request anonymous_ctx)\<rparr>"

definition at_replica :: ctx where
  "at_replica = \<lparr>cx_Request = fw_Request (Director (hd two_replicas) (cx_Request at_edge)), cx_Param = (\<lambda>n. ''''),
     cx_FullPath = ''/api/v1/units'', cx_Keys = (\<lambda>k. ''''), cx_Headers = [], cx_Counted = []\<rparr>"

lemma edge_and_replica_agree_witness:
  "(\<exists>msg. edgeAuth sample_jwt 0 sample_cfg (\<lambda>c. Wrote (StatusOnly 200) c) at_edge
       = Wrote (edge_error 401 msg :: unit reply) at_edge)
   \<and> AuthRequired sample_jwt 0 sample_cfg (\<lambda>c. Wrote (StatusOnly 200) c) at_replica
       = Wrote (unauthorized ''missing authorization header'' :: unit reply) at_replica
   \<and> RequestID ''other'' (\<lambda>c. Wrote (StatusOnly 200) c) at_replica
       = Wrote (StatusOnly 200 :: unit reply) (c_Header RequestIDHeader ''rid'' (c_Set RequestIDHeader ''rid'' at_replica))"
proof -
  have "auth_claims sample_jwt 0 sample_cfg at_edge = Inl ''missing authorization header''"
    by (simp add: auth_claims_def c_GetHeader_def at_edge_def anonymous_ctx_def ingress_def
        set_request_header_def RequestIDHeader_def)
  moreover have "rq_Header (cx_Request at_edge) RequestIDHeader = ''rid''"
    by (simp add: at_edge_def anonymous_ctx_def ingress_def set_request_header_def)
  moreover have "\<not> list_ex (strings_HasPrefix (rq_Path (cx_Request anonymous_ctx))) publicPrefixes"
    by (simp add: anonymous_ctx_def publicPrefixes_def strings_HasPrefix_def)
  moreover have "cx_Request at_edge = ingress ''rid'' (cx_Request anonymous_ctx)"
    "cx_Request at_replica = fw_Request (Director (hd two_replicas) (cx_Request at_edge))"
    by (simp_all add: at_edge_def at_replica_def)
  ultimately show ?thesis
    using edge_and_replica_agree [of at_edge "''rid''" "cx_Request anonymous_ctx" at_replica "hd two_replicas" sample_jwt 0
        sample_cfg "\<lambda>c. Wrote (StatusOnly 200) c" "\<lambda>c. Wrote (StatusOnly 200) c" "''other''"]
    by (simp add: Let_def)
qed

end
