(* ===== verification/Startup.thy ===== *)
theory Startup
  imports Seed Monitors Gateway Consumer
begin

text \<open>
  The processes (\<^verbatim>\<open>cmd/*/main.go\<close>, \<^verbatim>\<open>server.Run\<close>, \<^verbatim>\<open>platform/database\<close>, \<^verbatim>\<open>relay.EnsureTopic\<close>): what each
  connects to, in which order, what ends it before it serves, and what it releases on the way out. A
  process runs in a world, makes calls on the machine around it, and returns or dies.
\<close>

section \<open>Processes\<close>

record pool_config =
  pc_ConnString :: string
  pc_MaxConns :: int
  pc_MaxConnLifetime :: int
  pc_MaxConnIdleTime :: int

record redis_options =
  ro_Addr :: string
  ro_Password :: string
  ro_DB :: int

record http_server =
  hs_Addr :: string
  hs_ReadHeaderTimeout :: int
  hs_ReadTimeout :: int
  hs_WriteTimeout :: int
  hs_IdleTimeout :: int

datatype call =
    BuildLogger bool \<comment> \<open>production or development\<close>
  | PingPool pool_config | ClosePool | PingRedis redis_options | CloseRedis
  | GoMonitorFleet | GoMonitorLag
  | ListenAndServe http_server | Shutdown int
  | Dial string | CloseConn string | FindController | CreateTopic string string int int
  | ClosePublisher string | CloseReader string | RunRelay | RunConsumer string
  | OpenSource | OpenDB string | CloseDB | WithInstance | NewMigrate | Up | Down

text \<open>\<open>log.Fatalf\<close> exits at once, past every deferred call; a panic runs them.\<close>

datatype death = Fatal string | Panicked

type_synonym ('w, 'a) proc = "'w \<Rightarrow> call list \<times> 'w \<times> (death + 'a)"

definition give :: "'a \<Rightarrow> ('w, 'a) proc" where "give a = (\<lambda>w. ([], w, Inr a))"
definition die :: "death \<Rightarrow> ('w, 'a) proc" where "die x = (\<lambda>w. ([], w, Inl x))"
definition emit :: "call \<Rightarrow> ('w, unit) proc" where "emit c = (\<lambda>w. ([c], w, Inr ()))"

definition andthen :: "('w, 'a) proc \<Rightarrow> ('a \<Rightarrow> ('w, 'b) proc) \<Rightarrow> ('w, 'b) proc" where
  "andthen m k = (\<lambda>w. case m w of
     (cs, w', Inl x) \<Rightarrow> (cs, w', Inl x)
   | (cs, w', Inr a) \<Rightarrow> (case k a w' of (cs', w'', r) \<Rightarrow> (cs @ cs', w'', r)))"

definition deferring :: "call \<Rightarrow> ('w, 'a) proc \<Rightarrow> ('w, 'a) proc" where
  "deferring c m = (\<lambda>w. case m w of (cs, w', r) \<Rightarrow>
     (case r of Inl (Fatal s) \<Rightarrow> (cs, w', r) | _ \<Rightarrow> (cs @ [c], w', r)))"

definition perform :: "('w, 'a) script \<Rightarrow> ('w, 'a) proc" where
  "perform m = (\<lambda>w. case run m w of (a, w') \<Rightarrow> ([], w', Inr a))"

text \<open>\<open>if err != nil { log.Fatalf(what, err) }\<close>\<close>

definition or_fatal :: "string \<Rightarrow> ('w, go_error + 'a) proc \<Rightarrow> ('a \<Rightarrow> ('w, 'b) proc) \<Rightarrow> ('w, 'b) proc" where
  "or_fatal what m k = andthen m (\<lambda>r. case r of Inl err \<Rightarrow> die (Fatal (what @ err_Error err)) | Inr a \<Rightarrow> k a)"

lemma run_proc [run_simps]:
  "give a w = ([], w, Inr a)" "die x w = ([], w, Inl x)" "emit c w = ([c], w, Inr ())"
  "perform s w = (case run s w of (a, w') \<Rightarrow> ([], w', Inr a))"
  by (simp_all add: give_def die_def emit_def perform_def)

lemma run_andthen [run_simps]:
  "andthen m k w = (case m w of
     (cs, w', Inl x) \<Rightarrow> (cs, w', Inl x)
   | (cs, w', Inr a) \<Rightarrow> (case k a w' of (cs', w'', r) \<Rightarrow> (cs @ cs', w'', r)))"
  by (simp only: andthen_def)

lemma run_deferring [run_simps]:
  "deferring c m w = (case m w of (cs, w', r) \<Rightarrow>
     (case r of Inl (Fatal s) \<Rightarrow> (cs, w', r) | _ \<Rightarrow> (cs @ [c], w', r)))"
  by (simp only: deferring_def)

section \<open>The machine\<close>

text \<open>What the libraries answer. \<open>os_ListenAndServe\<close> is what serving ended with before any signal
  came, if it did; \<open>os_Shutdown\<close> what draining within a time said.\<close>

record kafka_admin =
  ka_Dial :: "string \<Rightarrow> go_error option"
  ka_Controller :: "go_error + string \<times> int"
  ka_CreateTopics :: "string \<Rightarrow> string \<Rightarrow> int \<Rightarrow> int \<Rightarrow> go_error option"
  ka_TopicAlreadyExists :: go_error

record migrator =
  mg_source :: "go_error option"
  mg_Open :: "string \<Rightarrow> go_error option"
  mg_WithInstance :: "go_error option"
  mg_NewWithInstance :: "go_error option"
  mg_Up :: "go_error option"
  mg_Down :: "go_error option"
  mg_ErrNoChange :: go_error

record machine =
  os_viper :: viper
  os_Getenv :: "string \<Rightarrow> string"
  os_Args :: "string list"
  os_zap_Build :: "bool \<Rightarrow> go_error option"
  os_ParseConfig :: "string \<Rightarrow> go_error + pool_config"
  os_NewWithConfig :: "pool_config \<Rightarrow> go_error option"
  os_pool_Ping :: "pool_config \<Rightarrow> go_error option"
  os_redis_Ping :: "redis_options \<Rightarrow> go_error option"
  os_url_Parse :: "string \<Rightarrow> go_error + upstream"
  os_ListenAndServe :: "http_server \<Rightarrow> go_error option"
  os_Shutdown :: "int \<Rightarrow> go_error option"
  os_kafka :: kafka_admin
  os_relay_Run :: "go_error option"
  os_consumer_Run :: "string \<Rightarrow> go_error option"
  os_migrate :: migrator

definition http_ErrServerClosed :: go_error where
  "http_ErrServerClosed = Other ''http: Server closed''"

definition context_Canceled :: go_error where
  "context_Canceled = Other ''context canceled''"

section \<open>Connections\<close>

definition time_Minute :: int where "time_Minute = 60 * time_Second"

definition InitLogger :: "machine \<Rightarrow> string \<Rightarrow> ('w, unit) proc" where
  "InitLogger M mode = (let production = (mode = ''release'') in
     andthen (emit (BuildLogger production)) (\<lambda>_. case os_zap_Build M production of
       Some err \<Rightarrow> die (Fatal (''failed to initialize logger: '' @ err_Error err))
     | None \<Rightarrow> give ()))"

definition pool_settings :: "DatabaseConfig \<Rightarrow> pool_config \<Rightarrow> pool_config" where
  "pool_settings cfg pcfg =
     (let pcfg = (if db_MaxConns cfg > 0 then pcfg\<lparr>pc_MaxConns := db_MaxConns cfg\<rparr> else pcfg);
          pcfg = (if db_MaxConnLifetimeMinutes cfg > 0
                then pcfg\<lparr>pc_MaxConnLifetime := to_int64 (db_MaxConnLifetimeMinutes cfg * time_Minute)\<rparr> else pcfg)
      in if db_MaxConnIdleMinutes cfg > 0
         then pcfg\<lparr>pc_MaxConnIdleTime := to_int64 (db_MaxConnIdleMinutes cfg * time_Minute)\<rparr> else pcfg)"

definition NewPostgresConnection :: "machine \<Rightarrow> DatabaseConfig \<Rightarrow> ('w, go_error + pool_config) proc" where
  "NewPostgresConnection M cfg = (case os_ParseConfig M (DatabaseConfig_DSN cfg) of
     Inl err \<Rightarrow> give (Inl (Wrapped (''parse database dsn: '' @ err_Error err) err))
   | Inr pcfg0 \<Rightarrow> let pcfg = pool_settings cfg pcfg0 in
       (case os_NewWithConfig M pcfg of
          Some err \<Rightarrow> give (Inl (Wrapped (''create pool: '' @ err_Error err) err))
        | None \<Rightarrow> andthen (emit (PingPool pcfg)) (\<lambda>_. case os_pool_Ping M pcfg of
            Some err \<Rightarrow> andthen (emit ClosePool)
              (\<lambda>_. give (Inl (Wrapped (''ping database: '' @ err_Error err) err)))
          | None \<Rightarrow> give (Inr pcfg))))"

definition NewRedisConnection :: "machine \<Rightarrow> RedisConfig \<Rightarrow> ('w, go_error + redis_options) proc" where
  "NewRedisConnection M cfg =
     (let o' = \<lparr>ro_Addr = rc_Host cfg @ '':'' @ strconv_Itoa (rc_Port cfg), ro_Password = rc_Password cfg,
               ro_DB = rc_DB cfg\<rparr>
      in andthen (emit (PingRedis o')) (\<lambda>_. case os_redis_Ping M o' of
           Some err \<Rightarrow> give (Inl (Wrapped (''ping redis: '' @ err_Error err) err))
         | None \<Rightarrow> give (Inr o')))"

text \<open>\<open>net.JoinHostPort\<close>, and the topic: having it already is success.\<close>

definition net_JoinHostPort :: "string \<Rightarrow> string \<Rightarrow> string" where
  "net_JoinHostPort host port =
     (if list_ex (\<lambda>c. c = CHR '':'') host then ''['' @ host @ '']:'' @ port else host @ '':'' @ port)"

definition EnsureTopic :: "kafka_admin \<Rightarrow> string list \<Rightarrow> string \<Rightarrow> int \<Rightarrow> ('w, go_error + unit) proc" where
  "EnsureTopic K brokers topicName partitions = (case brokers of
     [] \<Rightarrow> die Panicked
   | b # _ \<Rightarrow> andthen (emit (Dial b)) (\<lambda>_. case ka_Dial K b of
       Some err \<Rightarrow> give (Inl err)
     | None \<Rightarrow> deferring (CloseConn b) (andthen (emit FindController) (\<lambda>_. case ka_Controller K of
         Inl err \<Rightarrow> give (Inl err)
       | Inr (host, port) \<Rightarrow> let a = net_JoinHostPort host (strconv_Itoa port) in
           andthen (emit (Dial a)) (\<lambda>_. case ka_Dial K a of
             Some err \<Rightarrow> give (Inl err)
           | None \<Rightarrow> deferring (CloseConn a) (andthen (emit (CreateTopic a topicName partitions 1)) (\<lambda>_.
               case ka_CreateTopics K a topicName partitions 1 of
                 None \<Rightarrow> give (Inr ())
               | Some err \<Rightarrow> if errors_Is err (ka_TopicAlreadyExists K) then give (Inr ())
                   else give (Inl err))))))))"
section \<open>The API server\<close>

text \<open>\<open>time.Duration(n) * time.Second\<close>\<close>

definition in_seconds :: "int \<Rightarrow> int" where "in_seconds n = to_int64 (n * time_Second)"

definition server_settings :: "Config \<Rightarrow> http_server" where
  "server_settings cfg =
     \<lparr>hs_Addr = '':'' @ strconv_Itoa (sv_Port (cf_Server cfg)), hs_ReadHeaderTimeout = 5 * time_Second,
      hs_ReadTimeout = in_seconds (sv_ReadTimeout (cf_Server cfg)),
      hs_WriteTimeout = in_seconds (sv_WriteTimeout (cf_Server cfg)),
      hs_IdleTimeout = in_seconds (sv_IdleTimeout (cf_Server cfg))\<rparr>"

definition server_Run :: "machine \<Rightarrow> Config \<Rightarrow> ('w, go_error + unit) proc" where
  "server_Run M cfg =
     (let srv = server_settings cfg;
          ctx = in_seconds (sv_ShutdownTimeout (cf_Server cfg));
          signalled = andthen (emit (Shutdown ctx)) (\<lambda>_. case os_Shutdown M ctx of
            Some err \<Rightarrow> give (Inl (Wrapped (''graceful shutdown timed out, forcing exit: '' @ err_Error err) err))
          | None \<Rightarrow> give (Inr ()))
      in andthen (emit (ListenAndServe srv)) (\<lambda>_. case os_ListenAndServe M srv of
           Some err \<Rightarrow> if errors_Is err http_ErrServerClosed then signalled
             else give (Inl (Wrapped (''server error: '' @ err_Error err) err))
         | None \<Rightarrow> signalled))"

text \<open>The two loops \<open>NewServer\<close> leaves running beside the engine (their polls are in \<open>Monitors\<close>).\<close>

definition start_monitors :: "('w, unit) proc" where
  "start_monitors = andthen (emit GoMonitorFleet) (\<lambda>_. emit GoMonitorLag)"

text \<open>What the seed returns is logged, and so is what \<open>Run\<close> returns: the process ends normally.\<close>

definition server_work :: "machine \<Rightarrow> bcrypt_lib \<Rightarrow> Config \<Rightarrow> ('m authing_ext world_scheme, unit) proc" where
  "server_work M B cfg =
     andthen (if os_Getenv M ''DEMO_SEED'' = ''true'' then andthen (perform (seed_Run B)) (\<lambda>_. give ()) else give ())
       (\<lambda>_. andthen start_monitors (\<lambda>_. andthen (server_Run M cfg) (\<lambda>_. give ())))"

definition server_main :: "machine \<Rightarrow> bcrypt_lib \<Rightarrow> ('m authing_ext world_scheme, unit) proc" where
  "server_main M B = or_fatal ''config load error: '' (give (LoadConfig (os_viper M) (os_Getenv M) ''.'')) (\<lambda>cfg.
     andthen (InitLogger M (sv_Mode (cf_Server cfg))) (\<lambda>_.
     or_fatal ''database connection failed: '' (NewPostgresConnection M (cf_Database cfg)) (\<lambda>pool.
     deferring ClosePool (
     or_fatal ''redis connection failed: '' (NewRedisConnection M (cf_Redis cfg)) (\<lambda>rdb.
     deferring CloseRedis (
     server_work M B cfg))))))"

section \<open>The relay, the consumers, the gateway and the migrations\<close>

definition ServeMetrics :: "machine \<Rightarrow> string \<Rightarrow> ('w, unit) proc" where
  "ServeMetrics M addr = emit (ListenAndServe \<lparr>hs_Addr = addr, hs_ReadHeaderTimeout = 0, hs_ReadTimeout = 0,
     hs_WriteTimeout = 0, hs_IdleTimeout = 0\<rparr>)"

definition relay_main :: "machine \<Rightarrow> ('w, unit) proc" where
  "relay_main M = or_fatal ''load config: '' (give (LoadConfig (os_viper M) (os_Getenv M) ''.'')) (\<lambda>cfg.
     andthen (InitLogger M (sv_Mode (cf_Server cfg))) (\<lambda>_.
     or_fatal ''connect db: '' (NewPostgresConnection M (cf_Database cfg)) (\<lambda>pool.
     deferring ClosePool (
     or_fatal ''ensure kafka topic: ''
       (EnsureTopic (os_kafka M) (kc_Brokers (cf_Kafka cfg)) (kc_Topic (cf_Kafka cfg)) 1) (\<lambda>_.
     deferring (ClosePublisher (kc_Topic (cf_Kafka cfg))) (
     andthen (ServeMetrics M '':9101'') (\<lambda>_.
     andthen (emit RunRelay) (\<lambda>_. case os_relay_Run M of
       None \<Rightarrow> give ()
     | Some err \<Rightarrow> if errors_Is err context_Canceled then give ()
         else die (Fatal (''relay: '' @ err_Error err))))))))))"

fun EnsureTopics :: "machine \<Rightarrow> Config \<Rightarrow> string list \<Rightarrow> ('w, unit) proc" where
  "EnsureTopics M cfg [] = give ()"
| "EnsureTopics M cfg (t # ts) = or_fatal (''ensure kafka topic '' @ t @ '': '')
     (EnsureTopic (os_kafka M) (kc_Brokers (cf_Kafka cfg)) t 1) (\<lambda>_. EnsureTopics M cfg ts)"

text \<open>A group that stops with an error is logged; the process waits for both.\<close>

definition consumer_main :: "machine \<Rightarrow> ('w, unit) proc" where
  "consumer_main M = or_fatal ''load config: '' (give (LoadConfig (os_viper M) (os_Getenv M) ''.'')) (\<lambda>cfg.
     andthen (InitLogger M (sv_Mode (cf_Server cfg))) (\<lambda>_.
     or_fatal ''connect db: '' (NewPostgresConnection M (cf_Database cfg)) (\<lambda>pool.
     deferring ClosePool (
     andthen (EnsureTopics M cfg [kc_Topic (cf_Kafka cfg), kc_DLQTopic (cf_Kafka cfg)]) (\<lambda>_.
     deferring (ClosePublisher (kc_DLQTopic (cf_Kafka cfg))) (
     deferring (CloseReader notifierGroup) (
     deferring (CloseReader auditorGroup) (
     andthen (emit (RunConsumer notifierGroup)) (\<lambda>_. emit (RunConsumer auditorGroup))))))))))"

definition gateway_run :: "machine \<Rightarrow> string \<Rightarrow> int \<Rightarrow> ('w, unit) proc" where
  "gateway_run M addr shutdownTimeout =
     (let srv = \<lparr>hs_Addr = addr, hs_ReadHeaderTimeout = 0, hs_ReadTimeout = 0, hs_WriteTimeout = 0,
                 hs_IdleTimeout = 0\<rparr>
      in andthen (emit (ListenAndServe srv)) (\<lambda>_. case os_ListenAndServe M srv of
           Some err \<Rightarrow> if errors_Is err http_ErrServerClosed
             then emit (Shutdown (in_seconds shutdownTimeout))
             else die (Fatal (''gateway: listen: '' @ err_Error err))
         | None \<Rightarrow> emit (Shutdown (in_seconds shutdownTimeout))))"

definition gateway_main :: "machine \<Rightarrow> ('w, unit) proc" where
  "gateway_main M = or_fatal ''config load error: '' (give (LoadConfig (os_viper M) (os_Getenv M) ''.'')) (\<lambda>cfg.
     andthen (InitLogger M (sv_Mode (cf_Server cfg))) (\<lambda>_.
     or_fatal '''' (give (gateway_targets (os_url_Parse M) cfg)) (\<lambda>targets.
     or_fatal ''gateway: redis connection failed: '' (NewRedisConnection M (cf_Redis cfg)) (\<lambda>rdb.
     deferring CloseRedis (
     gateway_run M (gc_ListenAddr (cf_Gateway cfg)) (sv_ShutdownTimeout (cf_Server cfg)))))))"

text \<open>The direction is looked at only once the database has been prepared for migrating.\<close>

definition unless :: "go_error option \<Rightarrow> go_error + unit" where
  "unless e = (case e of None \<Rightarrow> Inr () | Some err \<Rightarrow> Inl err)"

definition migrate_main :: "machine \<Rightarrow> ('w, unit) proc" where
  "migrate_main M = or_fatal ''load config: '' (give (LoadConfig (os_viper M) (os_Getenv M) ''.'')) (\<lambda>cfg.
     let G = os_migrate M;
         dsn = DatabaseConfig_DSN (cf_Database cfg);
         direction = (if length (os_Args M) > 1 then os_Args M ! 1 else ''up'');
         migrating = (\<lambda>c e. andthen (emit c) (\<lambda>_. case e of
           None \<Rightarrow> give ()
         | Some err \<Rightarrow> if errors_Is err (mg_ErrNoChange G) then give ()
             else die (Fatal (''migrate '' @ direction @ '' failed: '' @ err_Error err))))
     in or_fatal ''open migration source: '' (andthen (emit OpenSource) (\<lambda>_. give (unless (mg_source G)))) (\<lambda>_.
     or_fatal ''open db: '' (andthen (emit (OpenDB dsn)) (\<lambda>_. give (unless (mg_Open G dsn)))) (\<lambda>_.
     deferring CloseDB (
     or_fatal ''init migrate driver: '' (andthen (emit WithInstance) (\<lambda>_. give (unless (mg_WithInstance G)))) (\<lambda>_.
     or_fatal ''init migrator: '' (andthen (emit NewMigrate) (\<lambda>_. give (unless (mg_NewWithInstance G)))) (\<lambda>_.
       if direction = ''up'' then migrating Up (mg_Up G)
       else if direction = ''down'' then migrating Down (mg_Down G)
       else die (Fatal (''unknown direction \"'' @ direction @ ''\" (use \"up\" or \"down\")''))))))))"

section \<open>Connecting\<close>

text \<open>When a store can be reached, as far as startup asks.\<close>

definition postgres_ready :: "machine \<Rightarrow> DatabaseConfig \<Rightarrow> bool" where
  "postgres_ready M cfg \<longleftrightarrow> (\<exists>pcfg. os_ParseConfig M (DatabaseConfig_DSN cfg) = Inr pcfg
     \<and> os_NewWithConfig M (pool_settings cfg pcfg) = None \<and> os_pool_Ping M (pool_settings cfg pcfg) = None)"

definition redis_ready :: "machine \<Rightarrow> RedisConfig \<Rightarrow> bool" where
  "redis_ready M cfg \<longleftrightarrow> os_redis_Ping M \<lparr>ro_Addr = rc_Host cfg @ '':'' @ strconv_Itoa (rc_Port cfg),
     ro_Password = rc_Password cfg, ro_DB = rc_DB cfg\<rparr> = None"

definition serves :: "call list \<Rightarrow> http_server \<Rightarrow> bool" where
  "serves cs s \<longleftrightarrow> ListenAndServe s \<in> set cs"

lemma serves_simps [simp]:
  "\<not> serves [] s" "serves (c # cs) s \<longleftrightarrow> c = ListenAndServe s \<or> serves cs s"
  "serves (cs @ cs') s \<longleftrightarrow> serves cs s \<or> serves cs' s"
  by (auto simp: serves_def)

lemma run_NewPostgresConnection:
  "\<exists>cs. (\<forall>s. \<not> serves cs s) \<and> (if postgres_ready M cfg
     then \<exists>p. NewPostgresConnection M cfg w = (cs, w, Inr (Inr p))
     else \<exists>err. NewPostgresConnection M cfg w = (cs, w, Inr (Inl err)))"
proof (cases "os_ParseConfig M (DatabaseConfig_DSN cfg)")
  case (Inl err)
  then show ?thesis by (simp add: NewPostgresConnection_def postgres_ready_def Let_def run_proc exI [of _ "[]"])
next
  case (Inr pcfg)
  let ?p = "pool_settings cfg pcfg"
  show ?thesis
  proof (cases "os_NewWithConfig M ?p")
    case None
    note new = this
    show ?thesis
    proof (cases "os_pool_Ping M ?p")
      case None
      with Inr new show ?thesis
        by (intro exI [of _ "[PingPool ?p]"]) (simp add: NewPostgresConnection_def postgres_ready_def Let_def run_proc run_andthen)
    next
      case (Some err)
      with Inr new show ?thesis
        by (intro exI [of _ "[PingPool ?p, ClosePool]"])
           (simp add: NewPostgresConnection_def postgres_ready_def Let_def run_proc run_andthen)
    qed
  next
    case (Some err)
    with Inr show ?thesis by (simp add: NewPostgresConnection_def postgres_ready_def Let_def run_proc exI [of _ "[]"])
  qed
qed

lemma run_NewRedisConnection:
  "\<exists>cs. (\<forall>s. \<not> serves cs s) \<and> (if redis_ready M cfg
     then \<exists>p. NewRedisConnection M cfg w = (cs, w, Inr (Inr p))
     else \<exists>err. NewRedisConnection M cfg w = (cs, w, Inr (Inl err)))"
proof -
  let ?o = "\<lparr>ro_Addr = rc_Host cfg @ '':'' @ strconv_Itoa (rc_Port cfg), ro_Password = rc_Password cfg, ro_DB = rc_DB cfg\<rparr>"
  show ?thesis
    by (intro exI [of _ "[PingRedis ?o]"])
       (auto simp: NewRedisConnection_def redis_ready_def Let_def run_proc run_andthen split: option.split)
qed

text \<open>\<open>Run\<close>, whatever ends it.\<close>

lemma run_server_Run:
  "\<exists>cs r. server_Run M cfg w = (cs, w, Inr r) \<and> (\<forall>s. serves cs s \<longleftrightarrow> s = server_settings cfg)
     \<and> (r = Inr () \<longrightarrow> Shutdown (in_seconds (sv_ShutdownTimeout (cf_Server cfg))) \<in> set cs)"
  by (auto simp: server_Run_def Let_def run_proc run_andthen split: option.split)

section \<open>The server\<close>

definition server_ready :: "machine \<Rightarrow> Config \<Rightarrow> bool" where
  "server_ready M cfg \<longleftrightarrow> LoadConfig (os_viper M) (os_Getenv M) ''.'' = Inr cfg
     \<and> os_zap_Build M (sv_Mode (cf_Server cfg) = ''release'') = None
     \<and> postgres_ready M (cf_Database cfg) \<and> redis_ready M (cf_Redis cfg)"

lemma run_or_fatal:
  "m w = (cs, w1, Inr (Inr a)) \<Longrightarrow> k a w1 = (cs', w2, r) \<Longrightarrow> or_fatal what m k w = (cs @ cs', w2, r)"
  by (simp add: or_fatal_def run_andthen)

lemma run_fatal:
  "m w = (cs, w1, Inr (Inl err)) \<Longrightarrow> or_fatal what m k w = (cs, w1, Inl (Fatal (what @ err_Error err)))"
  by (simp add: or_fatal_def run_andthen run_proc)

lemma run_deferring_Inr: "m w = (cs, w1, Inr a) \<Longrightarrow> deferring c m w = (cs @ [c], w1, Inr a)"
  by (simp add: run_deferring)

lemma run_deferring_Fatal: "m w = (cs, w1, Inl (Fatal s)) \<Longrightarrow> deferring c m w = (cs, w1, Inl (Fatal s))"
  by (simp add: run_deferring)

lemma run_andthen_Inr: "m w = (cs, w1, Inr a) \<Longrightarrow> k a w1 = (cs', w2, r) \<Longrightarrow> andthen m k w = (cs @ cs', w2, r)"
  by (simp add: run_andthen)

lemma run_give: "give a w = ([], w, Inr a)"
  by (simp add: run_proc)

definition after_seed :: "machine \<Rightarrow> bcrypt_lib \<Rightarrow> 'm authing_ext world_scheme \<Rightarrow> 'm authing_ext world_scheme" where
  "after_seed M B w = (if os_Getenv M ''DEMO_SEED'' = ''true'' then snd (run (seed_Run B) w) else w)"

lemma run_server_work:
  "\<exists>cs. server_work M B cfg w = (cs, after_seed M B w, Inr ()) \<and> (\<forall>s. serves cs s \<longleftrightarrow> s = server_settings cfg)"
proof -
  obtain a w1 where s: "run (seed_Run B) w = (a, w1)" by (cases "run (seed_Run B) w")
  obtain cs r where 1: "server_Run M cfg (after_seed M B w) = (cs, after_seed M B w, Inr r)"
    "\<forall>s. serves cs s \<longleftrightarrow> s = server_settings cfg"
    using run_server_Run [of M cfg "after_seed M B w"] by blast
  have monitors: "start_monitors v = ([GoMonitorFleet, GoMonitorLag], v, Inr ())" for v :: "'a authing_ext world_scheme"
    by (simp add: start_monitors_def run_andthen run_proc)
  have "server_work M B cfg w = ([] @ [GoMonitorFleet, GoMonitorLag] @ cs @ [], after_seed M B w, Inr ())"
    unfolding server_work_def
    by (rule run_andthen_Inr [of _ _ _ "after_seed M B w" "()"], simp add: run_andthen run_proc s after_seed_def,
        rule run_andthen_Inr, rule monitors, rule run_andthen_Inr, rule 1(1), rule run_give)
  with 1(2) show ?thesis by auto
qed

lemma run_InitLogger:
  "InitLogger M mode w = (if os_zap_Build M (mode = ''release'') = None
     then ([BuildLogger (mode = ''release'')], w, Inr ())
     else ([BuildLogger (mode = ''release'')], w,
       Inl (Fatal (''failed to initialize logger: '' @ err_Error (the (os_zap_Build M (mode = ''release'')))))))"
  by (auto simp: InitLogger_def Let_def run_andthen run_proc split: option.split)

lemma server_main_ready:
  assumes "server_ready M cfg"
  shows "\<exists>cs. server_main M B w = (cs @ [CloseRedis, ClosePool], after_seed M B w, Inr ())
    \<and> (\<forall>s. serves cs s \<longleftrightarrow> s = server_settings cfg)"
proof -
  note r = assms [unfolded server_ready_def]
  obtain c1 p where 1: "NewPostgresConnection M (cf_Database cfg) w = (c1, w, Inr (Inr p))" "\<forall>s. \<not> serves c1 s"
    using run_NewPostgresConnection [of M "cf_Database cfg" w] r by auto
  obtain c2 q where 2: "NewRedisConnection M (cf_Redis cfg) w = (c2, w, Inr (Inr q))" "\<forall>s. \<not> serves c2 s"
    using run_NewRedisConnection [of M "cf_Redis cfg" w] r by auto
  obtain c3 where 3: "server_work M B cfg w = (c3, after_seed M B w, Inr ())"
    "\<forall>s. serves c3 s \<longleftrightarrow> s = server_settings cfg"
    using run_server_work [of M B cfg w] by blast
  let ?c0 = "[BuildLogger (sv_Mode (cf_Server cfg) = ''release'')]"
  have load: "give (LoadConfig (os_viper M) (os_Getenv M) ''.'') w = ([], w, Inr (Inr cfg))"
    using r by (simp add: run_give)
  have logger: "InitLogger M (sv_Mode (cf_Server cfg)) w = (?c0, w, Inr ())"
    using r by (simp add: run_InitLogger)
  have "server_main M B w = ([] @ ?c0 @ c1 @ (c2 @ c3 @ [CloseRedis]) @ [ClosePool], after_seed M B w, Inr ())"
    unfolding server_main_def
    by (rule run_or_fatal, rule load, rule run_andthen_Inr, rule logger, rule run_or_fatal, rule 1(1),
        rule run_deferring_Inr, rule run_or_fatal, rule 2(1), rule run_deferring_Inr, rule 3(1))
  with 1(2) 2(2) 3(2) show ?thesis
    by (intro exI [of _ "?c0 @ c1 @ c2 @ c3"]) auto
qed

lemma server_main_not_ready:
  assumes "\<nexists>cfg. server_ready M cfg"
  shows "\<exists>cs msg. server_main M B w = (cs, w, Inl (Fatal msg)) \<and> (\<forall>s. \<not> serves cs s)"
proof (cases "LoadConfig (os_viper M) (os_Getenv M) ''.''")
  case (Inl err)
  then have "server_main M B w = ([], w, Inl (Fatal (''config load error: '' @ err_Error err)))"
    unfolding server_main_def by (intro run_fatal) (simp add: run_give)
  then show ?thesis by auto
next
  case (Inr cfg)
  then have load: "give (LoadConfig (os_viper M) (os_Getenv M) ''.'') w = ([], w, Inr (Inr cfg))"
    by (simp add: run_give)
  let ?c0 = "[BuildLogger (sv_Mode (cf_Server cfg) = ''release'')]"
  show ?thesis
  proof (cases "os_zap_Build M (sv_Mode (cf_Server cfg) = ''release'')")
    case (Some err)
    then have no_logger: "andthen (InitLogger M (sv_Mode (cf_Server cfg))) k w
        = (?c0, w, Inl (Fatal (''failed to initialize logger: '' @ err_Error err)))" for k :: "unit \<Rightarrow> ('a authing_ext world_scheme, unit) proc"
      by (simp add: run_andthen run_InitLogger)
    have "server_main M B w = ([] @ ?c0, w, Inl (Fatal (''failed to initialize logger: '' @ err_Error err)))"
      unfolding server_main_def by (rule run_or_fatal, rule load, rule no_logger)
    then show ?thesis by auto
  next
    case None
    then have logger: "InitLogger M (sv_Mode (cf_Server cfg)) w = (?c0, w, Inr ())" by (simp add: run_InitLogger)
    show ?thesis
    proof (cases "postgres_ready M (cf_Database cfg)")
      case False
      with run_NewPostgresConnection [of M "cf_Database cfg" w] obtain c1 err where
        1: "NewPostgresConnection M (cf_Database cfg) w = (c1, w, Inr (Inl err))" "\<forall>s. \<not> serves c1 s" by auto
      have "server_main M B w = ([] @ ?c0 @ c1, w, Inl (Fatal (''database connection failed: '' @ err_Error err)))"
        unfolding server_main_def
        by (rule run_or_fatal, rule load, rule run_andthen_Inr, rule logger, rule run_fatal, rule 1(1))
      with 1(2) show ?thesis by auto
    next
      case True
      with assms Inr None have "\<not> redis_ready M (cf_Redis cfg)" by (auto simp: server_ready_def)
      with run_NewRedisConnection [of M "cf_Redis cfg" w] obtain c2 err where
        2: "NewRedisConnection M (cf_Redis cfg) w = (c2, w, Inr (Inl err))" "\<forall>s. \<not> serves c2 s" by auto
      from True run_NewPostgresConnection [of M "cf_Database cfg" w] obtain c1 p where
        1: "NewPostgresConnection M (cf_Database cfg) w = (c1, w, Inr (Inr p))" "\<forall>s. \<not> serves c1 s" by auto
      have "server_main M B w = ([] @ ?c0 @ c1 @ c2, w, Inl (Fatal (''redis connection failed: '' @ err_Error err)))"
        unfolding server_main_def
        by (rule run_or_fatal, rule load, rule run_andthen_Inr, rule logger, rule run_or_fatal, rule 1(1),
            rule run_deferring_Fatal, rule run_fatal, rule 2(1))
      with 1(2) 2(2) show ?thesis by auto
    qed
  qed
qed

lemma LoadConfig_validated: "LoadConfig V getenv path = Inr cfg \<Longrightarrow> Config_validateSecrets cfg = Inr ()"
  by (auto simp: LoadConfig_def Let_def split: config_read.splits sum.splits)


definition sample_pool :: pool_config where
  "sample_pool = \<lparr>pc_ConnString = '''', pc_MaxConns = 4, pc_MaxConnLifetime = 0, pc_MaxConnIdleTime = 0\<rparr>"

text \<open>A machine whose stores answer and which is signalled to stop; it does not ask for the seed.\<close>

definition sample_machine :: machine where
  "sample_machine = \<lparr>os_viper = release_viper, os_Getenv = platform_env, os_Args = [''server''],
     os_zap_Build = (\<lambda>p. None), os_ParseConfig = (\<lambda>dsn. Inr sample_pool), os_NewWithConfig = (\<lambda>p. None),
     os_pool_Ping = (\<lambda>p. None), os_redis_Ping = (\<lambda>o'. None), os_url_Parse = (\<lambda>u. Inl (Other u)),
     os_ListenAndServe = (\<lambda>s. None), os_Shutdown = (\<lambda>t. None),
     os_kafka = \<lparr>ka_Dial = (\<lambda>a. None), ka_Controller = Inr (''kafka'', 9092),
       ka_CreateTopics = (\<lambda>a t n k. None), ka_TopicAlreadyExists = Other ''exists''\<rparr>,
     os_relay_Run = None, os_consumer_Run = (\<lambda>g. None),
     os_migrate = \<lparr>mg_source = None, mg_Open = (\<lambda>d. None), mg_WithInstance = None, mg_NewWithInstance = None,
       mg_Up = None, mg_Down = None, mg_ErrNoChange = Other ''no change''\<rparr>\<rparr>"

lemma release_loads: "LoadConfig release_viper platform_env ''.'' = Inr release_config"
proof -
  have "platform_port platform_env = Some 10000" "platform_origins platform_env = [''http://a'', ''http://b'']"
    by (code_simp, code_simp)
  then have "applyPlatformEnv platform_env release_raw = release_config"
    unfolding applyPlatformEnv_eq release_config_def by simp
  moreover have "Config_validateSecrets release_config = Inr ()"
    unfolding validateSecrets_ok_iff by (simp add: release_config_def release_raw_def)
  ultimately show ?thesis by (simp add: LoadConfig_def release_viper_def)
qed


section \<open>The topics\<close>

definition topic_ready :: "kafka_admin \<Rightarrow> string list \<Rightarrow> string \<Rightarrow> bool" where
  "topic_ready K brokers t \<longleftrightarrow> (\<exists>b bs host port. brokers = b # bs \<and> ka_Dial K b = None \<and> ka_Controller K = Inr (host, port)
     \<and> ka_Dial K (net_JoinHostPort host (strconv_Itoa port)) = None
     \<and> (\<forall>err. ka_CreateTopics K (net_JoinHostPort host (strconv_Itoa port)) t 1 1 = Some err
          \<longrightarrow> errors_Is err (ka_TopicAlreadyExists K)))"

text \<open>A panic exactly without brokers; success exactly when the topic was created or was there; every
  connection that opens is closed again.\<close>

lemma run_EnsureTopic:
  assumes "EnsureTopic K brokers t 1 w = (cs, w', r)"
  shows "w' = w \<and> (r = Inl Panicked \<longleftrightarrow> brokers = []) \<and> (\<forall>s. r \<noteq> Inl (Fatal s))
    \<and> (r = Inr (Inr ()) \<longleftrightarrow> topic_ready K brokers t)"
  using assms
  by (auto simp: EnsureTopic_def topic_ready_def Let_def run_andthen run_deferring run_proc
      split: list.splits option.splits sum.splits prod.splits if_splits)

lemma EnsureTopic_closes:
  assumes "EnsureTopic K brokers t n w = (cs, w', r)"
  shows "count_list cs (CloseConn a) = (if ka_Dial K a = None then count_list cs (Dial a) else 0)"
  using assms
  by (auto simp: EnsureTopic_def Let_def run_andthen run_deferring run_proc
      split: list.splits option.splits sum.splits prod.splits if_splits)

text \<open>\<open>only_if c Q m\<close>: a process makes the call \<open>c\<close> only if \<open>Q\<close>. What an earlier step answered may be used.\<close>

definition only_if :: "call \<Rightarrow> bool \<Rightarrow> ('w, 'a) proc \<Rightarrow> bool" where
  "only_if c Q m \<longleftrightarrow> (\<forall>w. c \<in> set (fst (m w)) \<longrightarrow> Q)"

definition answers :: "('w, 'a) proc \<Rightarrow> 'a \<Rightarrow> bool" where
  "answers m a \<longleftrightarrow> (\<exists>w. snd (snd (m w)) = Inr a)"

lemma only_ifI: "Q \<Longrightarrow> only_if c Q m"
  by (simp add: only_if_def)

lemma only_if_andthen:
  "only_if c Q m \<Longrightarrow> (\<And>a. answers m a \<Longrightarrow> only_if c Q (k a)) \<Longrightarrow> only_if c Q (andthen m k)"
proof -
  assume m: "only_if c Q m" and k: "\<And>a. answers m a \<Longrightarrow> only_if c Q (k a)"
  have "Q" if c: "c \<in> set (fst (andthen m k w))" for w
  proof -
    obtain cs w1 r where r: "m w = (cs, w1, r)" by (cases "m w")
    show Q
    proof (cases r)
      case (Inl x)
      with r c have "c \<in> set (fst (m w))" by (simp add: run_andthen)
      with m show Q by (simp only: only_if_def)
    next
      case (Inr a)
      have "c \<in> set (fst (m w)) \<or> c \<in> set (fst (k a w1))"
        using c by (auto simp: run_andthen r Inr split: prod.splits)
      moreover have "answers m a" unfolding answers_def by (rule exI [of _ w]) (simp add: r Inr)
      ultimately show Q using m k by (auto simp only: only_if_def)
    qed
  qed
  then show ?thesis unfolding only_if_def by blast
qed

lemma only_if_or_fatal:
  "only_if c Q m \<Longrightarrow> (\<And>a. answers m (Inr a) \<Longrightarrow> only_if c Q (k a)) \<Longrightarrow> only_if c Q (or_fatal what m k)"
  unfolding or_fatal_def by (rule only_if_andthen) (auto simp: only_if_def run_proc split: sum.split)

lemma only_if_deferring: "c \<noteq> d \<Longrightarrow> only_if c Q m \<Longrightarrow> only_if c Q (deferring d m)"
proof -
  assume "c \<noteq> d" and m: "only_if c Q m"
  then have "c \<in> set (fst (deferring d m w)) \<Longrightarrow> c \<in> set (fst (m w))" for w
    by (cases "m w") (auto simp: run_deferring split: sum.splits death.splits)
  with m show ?thesis unfolding only_if_def by blast
qed

lemma only_if_give [simp]: "only_if c Q (give a)" "only_if c Q (die x)" "d \<noteq> c \<Longrightarrow> only_if c Q (emit d)"
  by (simp_all add: only_if_def run_proc)

definition works :: "call \<Rightarrow> bool" where
  "works c \<longleftrightarrow> c = RunRelay \<or> (\<exists>g. c = RunConsumer g)"

lemma only_if_setup:
  assumes "works c"
  shows "only_if c Q (InitLogger M mode)" "only_if c Q (NewPostgresConnection M dc)"
    "only_if c Q (EnsureTopic K brokers t n)"
  using assms
  by (auto simp: works_def only_if_def run_InitLogger NewPostgresConnection_def EnsureTopic_def Let_def run_andthen
      run_deferring run_proc split: list.splits option.splits sum.splits prod.splits if_splits)

lemma answers_give: "answers (give a) b \<Longrightarrow> b = a"
  by (auto simp: answers_def run_proc)

lemma answers_postgres:
  assumes "answers (NewPostgresConnection M dc :: ('w, go_error + pool_config) proc) (Inr p)"
  shows "postgres_ready M dc"
proof -
  from assms obtain w :: 'w where "snd (snd (NewPostgresConnection M dc w)) = Inr (Inr p)" unfolding answers_def ..
  with run_NewPostgresConnection [of M dc w] show ?thesis by (auto split: if_splits)
qed

lemma answers_topic:
  assumes "answers (EnsureTopic K brokers t 1 :: ('w, go_error + unit) proc) (Inr ())"
  shows "topic_ready K brokers t"
proof -
  from assms obtain w :: 'w where "snd (snd (EnsureTopic K brokers t 1 w)) = Inr (Inr ())" unfolding answers_def ..
  moreover obtain cs w' r where e: "EnsureTopic K brokers t 1 w = (cs, w', r)" by (cases "EnsureTopic K brokers t 1 w")
  ultimately show ?thesis using run_EnsureTopic [OF e] by simp
qed

text \<open>The pipeline's processes work only on a database that answers and on topics that are there.\<close>

definition pipeline_ready :: "machine \<Rightarrow> (KafkaConfig \<Rightarrow> string list) \<Rightarrow> bool" where
  "pipeline_ready M topics \<longleftrightarrow> (\<exists>cfg. LoadConfig (os_viper M) (os_Getenv M) ''.'' = Inr cfg
     \<and> postgres_ready M (cf_Database cfg)
     \<and> (\<forall>t \<in> set (topics (cf_Kafka cfg)). topic_ready (os_kafka M) (kc_Brokers (cf_Kafka cfg)) t))"

lemma relay_runs_on_its_topic:
  "only_if RunRelay (pipeline_ready M (\<lambda>k. [kc_Topic k])) (relay_main M :: ('w, unit) proc)"
proof -
  have w: "works RunRelay" by (simp add: works_def)
  have ready: "pipeline_ready M (\<lambda>k. [kc_Topic k])"
    if load: "answers (give (LoadConfig (os_viper M) (os_Getenv M) ''.'') :: ('w, go_error + Config) proc) (Inr cfg)"
      and pg: "answers (NewPostgresConnection M (cf_Database cfg) :: ('w, go_error + pool_config) proc) (Inr p)"
      and tp: "answers (EnsureTopic (os_kafka M) (kc_Brokers (cf_Kafka cfg)) (kc_Topic (cf_Kafka cfg)) 1
        :: ('w, go_error + unit) proc) (Inr u)" for cfg p u
  proof -
    from load have "LoadConfig (os_viper M) (os_Getenv M) ''.'' = Inr cfg" using answers_give [OF load] by simp
    moreover have "postgres_ready M (cf_Database cfg)" by (rule answers_postgres [OF pg])
    moreover have "topic_ready (os_kafka M) (kc_Brokers (cf_Kafka cfg)) (kc_Topic (cf_Kafka cfg))"
      by (rule answers_topic) (use tp in simp)
    ultimately show ?thesis unfolding pipeline_ready_def by (intro exI [of _ cfg]) simp
  qed
  show ?thesis
    unfolding relay_main_def
    apply (rule only_if_or_fatal, rule only_if_give(1))
    apply (rule only_if_andthen, rule only_if_setup(1) [OF w])
    apply (rule only_if_or_fatal, rule only_if_setup(2) [OF w])
    apply (rule only_if_deferring, simp)
    apply (rule only_if_or_fatal, rule only_if_setup(3) [OF w])
    apply (rule only_ifI, rule ready)
    apply assumption+
    done
qed

lemma answers_or_fatal:
  "answers (or_fatal what m k) b \<Longrightarrow> \<exists>a. answers m (Inr a) \<and> answers (k a) b"
proof -
  assume "answers (or_fatal what m k) b"
  then obtain w where w: "snd (snd (or_fatal what m k w)) = Inr b" unfolding answers_def ..
  obtain cs w1 r where r: "m w = (cs, w1, r)" by (cases "m w")
  from w obtain a where a: "r = Inr (Inr a)" by (auto simp: or_fatal_def run_andthen run_proc r split: sum.splits)
  obtain cs2 w2 r2 where k: "k a w1 = (cs2, w2, r2)" by (cases "k a w1")
  from w have "r2 = Inr b" by (simp add: or_fatal_def run_andthen r a k)
  with r a k show ?thesis unfolding answers_def by (metis snd_conv)
qed

lemma EnsureTopics_idle: "works c \<Longrightarrow> only_if c Q (EnsureTopics M cfg ts)"
  by (induction ts) (auto intro: only_if_or_fatal only_if_setup)

lemma answers_topics:
  "answers (EnsureTopics M cfg ts :: ('w, unit) proc) u \<Longrightarrow> t \<in> set ts
     \<Longrightarrow> topic_ready (os_kafka M) (kc_Brokers (cf_Kafka cfg)) t"
proof (induction ts)
  case (Cons x xs)
  obtain v where "answers (EnsureTopic (os_kafka M) (kc_Brokers (cf_Kafka cfg)) x 1 :: ('w, go_error + unit) proc) (Inr v)"
    and rest: "answers (EnsureTopics M cfg xs :: ('w, unit) proc) u"
    using answers_or_fatal [OF Cons.prems(1) [unfolded EnsureTopics.simps]] by blast
  then have "topic_ready (os_kafka M) (kc_Brokers (cf_Kafka cfg)) x" by (intro answers_topic) simp
  with Cons.IH [OF rest] Cons.prems(2) show ?case by auto
qed simp

lemma consumers_run_on_their_topics:
  "only_if (RunConsumer g) (pipeline_ready M (\<lambda>k. [kc_Topic k, kc_DLQTopic k])) (consumer_main M :: ('w, unit) proc)"
proof -
  have w: "works (RunConsumer g)" by (simp add: works_def)
  have ready: "pipeline_ready M (\<lambda>k. [kc_Topic k, kc_DLQTopic k])"
    if load: "answers (give (LoadConfig (os_viper M) (os_Getenv M) ''.'') :: ('w, go_error + Config) proc) (Inr cfg)"
      and pg: "answers (NewPostgresConnection M (cf_Database cfg) :: ('w, go_error + pool_config) proc) (Inr p)"
      and tp: "answers (EnsureTopics M cfg [kc_Topic (cf_Kafka cfg), kc_DLQTopic (cf_Kafka cfg)] :: ('w, unit) proc) u"
    for cfg p u
  proof -
    from load have "LoadConfig (os_viper M) (os_Getenv M) ''.'' = Inr cfg" using answers_give [OF load] by simp
    moreover have "postgres_ready M (cf_Database cfg)" by (rule answers_postgres [OF pg])
    ultimately show ?thesis
      unfolding pipeline_ready_def by (intro exI [of _ cfg] conjI ballI) (simp_all add: answers_topics [OF tp])
  qed
  show ?thesis
    unfolding consumer_main_def
    apply (rule only_if_or_fatal, rule only_if_give(1))
    apply (rule only_if_andthen, rule only_if_setup(1) [OF w])
    apply (rule only_if_or_fatal, rule only_if_setup(2) [OF w])
    apply (rule only_if_deferring, simp)
    apply (rule only_if_andthen, rule EnsureTopics_idle [OF w])
    apply (rule only_ifI, rule ready)
    apply assumption+
    done
qed

text \<open>A mistyped direction is refused only after the database has been prepared, and the connection is
  then not closed.\<close>

lemma migrate_prepares_before_refusing:
  assumes "LoadConfig (os_viper M) (os_Getenv M) ''.'' = Inr cfg"
    and "mg_source (os_migrate M) = None" "mg_Open (os_migrate M) (DatabaseConfig_DSN (cf_Database cfg)) = None"
    and "mg_WithInstance (os_migrate M) = None" "mg_NewWithInstance (os_migrate M) = None"
    and "os_Args M = [prog, direction]" "direction \<noteq> ''up''" "direction \<noteq> ''down''"
  shows "\<exists>msg. migrate_main M w
    = ([OpenSource, OpenDB (DatabaseConfig_DSN (cf_Database cfg)), WithInstance, NewMigrate], w, Inl (Fatal msg))"
  using assms
  by (simp add: migrate_main_def or_fatal_def unless_def Let_def run_andthen run_deferring run_proc)

end
